(* ===== verification/Prelude.thy ===== *)
theory Prelude
  imports Main "HOL-Library.Word" "HOL-Library.Monad_Syntax"
begin

text \<open>
  Shared types, automation and lemmas.  Machine integers are words of their C width, memory is
  byte addressed, the host is little endian, and an undefined C operation (a read or a write
  outside an allocated block, the use of a dangling pointer) is the value \<^theory_text>\<open>None\<close>.
  The predicate \<^theory_text>\<open>ok m P\<close> is total correctness: the computation is defined and its
  result satisfies \<^theory_text>\<open>P\<close>; its rules are in the collection
  \<^theory_text>\<open>ok_rules\<close>.
\<close>

unbundle bit_operations_syntax

type_synonym byte = "8 word"
type_synonym u32 = "32 word"
type_synonym u64 = "64 word"

named_theorems ok_rules
named_theorems le_simps

section \<open>Defined results\<close>

definition ok :: "'a option \<Rightarrow> ('a \<Rightarrow> bool) \<Rightarrow> bool" where
  "ok m P = (case m of None \<Rightarrow> False | Some x \<Rightarrow> P x)"

lemma ok_Some [simp]: "ok (Some x) P = P x"
  by (simp add: ok_def)

lemma ok_None [simp]: "\<not> ok None P"
  by (simp add: ok_def)

lemma ok_iff: "ok m P \<longleftrightarrow> (\<exists>x. m = Some x \<and> P x)"
  by (auto simp: ok_def split: option.splits)

lemma ok_bind [ok_rules]: "ok m P \<Longrightarrow> (\<And>x. P x \<Longrightarrow> ok (f x) Q) \<Longrightarrow> ok (m \<bind> f) Q"
  by (cases m) auto

lemma ok_mono: "ok m P \<Longrightarrow> (\<And>x. P x \<Longrightarrow> Q x) \<Longrightarrow> ok m Q"
  by (cases m) auto

lemma ok_conj: "ok m P \<Longrightarrow> ok m Q \<Longrightarrow> ok m (\<lambda>x. P x \<and> Q x)"
  by (cases m) auto

lemma okE: "ok m P \<Longrightarrow> (\<And>x. m = Some x \<Longrightarrow> P x \<Longrightarrow> R) \<Longrightarrow> R"
  by (cases m) auto

section \<open>Little-endian images of words\<close>

definition le_bytes :: "nat \<Rightarrow> 'a::len word \<Rightarrow> byte list" where
  "le_bytes n w = map (\<lambda>i. ucast (drop_bit (8 * i) w)) [0..<n]"

definition le_val :: "byte list \<Rightarrow> 'a::len word" where
  "le_val bs = foldr (\<lambda>b acc. ucast b OR push_bit 8 acc) bs 0"

lemma length_le_bytes [simp]: "length (le_bytes n w) = n"
  by (simp add: le_bytes_def)

lemma nth_le_bytes: "i < n \<Longrightarrow> le_bytes n w ! i = ucast (drop_bit (8 * i) w)"
  by (simp add: le_bytes_def)

lemma take_le_bytes: "k \<le> n \<Longrightarrow> take k (le_bytes n w) = le_bytes k w"
  by (simp add: le_bytes_def take_map)

lemma bit_le_val:
  "bit (le_val bs :: 'a::len word) k \<longleftrightarrow>
     k < LENGTH('a) \<and> k div 8 < length bs \<and> bit (bs ! (k div 8)) (k mod 8)"
proof (induction bs arbitrary: k)
  case Nil
  then show ?case by (simp add: le_val_def)
next
  case (Cons b bs)
  have eq: "(le_val (b # bs) :: 'a word) = ucast b OR push_bit 8 (le_val bs)"
    by (simp add: le_val_def)
  show ?case
  proof (cases "k < 8")
    case True
    then show ?thesis
      by (auto simp: eq bit_or_iff bit_push_bit_iff bit_ucast_iff)
  next
    case False
    then have k: "k div 8 = Suc ((k - 8) div 8)" "k mod 8 = (k - 8) mod 8"
      by (auto simp: div_if mod_if)
    from False have "\<not> bit b k"
      using bit_imp_le_length [of b k] by auto
    with False show ?thesis
      by (auto simp: eq bit_or_iff bit_push_bit_iff bit_ucast_iff Cons k less_diff_conv2)
  qed
qed

lemma bit_nth_le_bytes:
  "i < n \<Longrightarrow> bit (le_bytes n (w :: 'a::len word) ! i) j \<longleftrightarrow> j < 8 \<and> bit w (8 * i + j)"
  by (auto simp: nth_le_bytes bit_ucast_iff bit_drop_bit_eq)

lemma le_val_le_bytes [le_simps]:
  assumes "LENGTH('a) \<le> 8 * n"
  shows "le_val (le_bytes n w) = (w :: 'a::len word)"
proof (rule bit_word_eqI)
  fix k
  assume k: "k < LENGTH('a)"
  with assms have "k div 8 < n" by auto
  with k show "bit (le_val (le_bytes n w) :: 'a word) k = bit w k"
    by (simp add: bit_le_val bit_nth_le_bytes)
qed

lemma le_bytes_le_val:
  assumes "length bs = n" and "8 * n \<le> LENGTH('a::len)"
  shows "le_bytes n (le_val bs :: 'a word) = bs"
proof (rule nth_equalityI)
  fix i
  assume "i < length (le_bytes n (le_val bs :: 'a word))"
  then have i: "i < n" by simp
  show "le_bytes n (le_val bs :: 'a word) ! i = bs ! i"
  proof (rule bit_word_eqI)
    fix j
    assume j: "j < LENGTH(8)"
    with i assms(2) have "8 * i + j < LENGTH('a)" by auto
    with i j assms(1) show "bit (le_bytes n (le_val bs :: 'a word) ! i) j = bit (bs ! i) j"
      by (simp add: bit_nth_le_bytes bit_le_val)
  qed
qed (simp add: assms)

text \<open>Three length bytes and a zero fourth one read as a 32-bit number below 2 to the 24.\<close>

lemma bit_high_zero:
  assumes "unat (w :: 'a::len word) < 2 ^ m" and "m \<le> k"
  shows "\<not> bit w k"
proof -
  have "unat w < 2 ^ k"
    using assms by (meson less_le_trans one_le_numeral power_increasing)
  then have "\<not> bit (unat w) k"
    by (simp add: bit_iff_odd)
  then show ?thesis
    by (simp add: bit_unsigned_iff)
qed

lemma le_val_pad [le_simps]:
  assumes "unat (w :: 'a::len word) < 2 ^ (8 * n)" and "LENGTH('a) \<le> LENGTH('b)"
  shows "(le_val (le_bytes n w @ replicate m 0) :: 'b::len word) = ucast w"
proof (rule bit_word_eqI)
  fix k
  assume k: "k < LENGTH('b)"
  show "bit (le_val (le_bytes n w @ replicate m 0) :: 'b word) k = bit (ucast w :: 'b word) k"
  proof (cases "k div 8 < n")
    case True
    with k show ?thesis
      by (simp add: bit_le_val nth_append bit_nth_le_bytes bit_ucast_iff)
  next
    case False
    then have "8 * n \<le> k" by auto
    with assms have "\<not> bit w k" by (intro bit_high_zero)
    with False k show ?thesis
      by (auto simp: bit_le_val nth_append bit_ucast_iff)
  qed
qed

section \<open>Lists read through an index\<close>

lemma map_nth_shift:
  assumes "length xs = n" and "\<And>i. i < n \<Longrightarrow> f i = xs ! i"
  shows "map f [0..<n] = xs"
  using assms by (auto intro: nth_equalityI)

lemma map_upt_split: "map f [0..<a + b] = map f [0..<a] @ map (\<lambda>i. f (a + i)) [0..<b]"
  by (rule nth_equalityI) (auto simp: nth_append)

lemma unat_of_nat_u32 [simp]: "n < 2 ^ 32 \<Longrightarrow> unat (of_nat n :: u32) = n"
  by (simp add: unat_of_nat)

lemma unat_add_u32: "unat (a :: u32) + unat b < 2 ^ 32 \<Longrightarrow> unat (a + b) = unat a + unat b"
  by (simp add: unat_word_ariths)

lemma unat_sub_u32: "unat (b :: u32) \<le> unat a \<Longrightarrow> unat (a - b) = unat a - unat b"
  by (simp add: unat_sub_if')

lemma unat_lt_u32 [simp]: "unat (a :: u32) < 4294967296"
  using unsigned_less [of a, where ?'a = nat] by simp

lemma sint_small:
  assumes "unat (a :: u32) < 2 ^ 31"
  shows "sint a = int (unat a)"
proof -
  have "int (unat a) < int (2 ^ 31)"
    using assms by (simp only: of_nat_less_iff)
  then have "uint a < 2 ^ 31"
    by simp
  moreover have "- (2 ^ 31) \<le> uint a"
    by (rule order_trans [of _ 0]) simp_all
  ultimately have "sint a = uint a"
    using signed_take_bit_int_eq_self [of 31 "uint a"] by (simp add: sint_uint)
  then show ?thesis
    by simp
qed

lemma nat_int_unat: "nat (int k + int (unat (a :: u32))) = k + unat a"
  by (simp only: of_nat_add [symmetric] nat_int)

end
