(* ===== verification/Schema.thy ===== *)
theory Schema
  imports Prelude
begin

text \<open>
  The declarations a TL schema is parsed into (tl_generator/tl_parser.h) and the C string
  functions the parser and the generator use on them.
\<close>

text \<open>An argument: \<^theory_text>\<open>arg_type\<close> is absent for the flags word itself;
  \<^theory_text>\<open>flagn\<close> is the number of the flags word an optional argument depends on, 0 for a
  mandatory one, and \<^theory_text>\<open>flagb\<close> its bit.\<close>

record arg_t =
  arg_name :: string
  arg_type :: "string option"
  flagn :: nat
  flagb :: nat

record method_t =
  m_name :: string
  m_id :: u32
  m_ret :: "string option"
  m_args :: "arg_t list"
  m_nflags :: nat

fun is_prefix_of :: "string \<Rightarrow> string \<Rightarrow> bool" where
  "is_prefix_of [] s = True"
| "is_prefix_of (c # cs) [] = False"
| "is_prefix_of (c # cs) (d # ds) = (c = d \<and> is_prefix_of cs ds)"

text \<open>strstr: the suffix that starts at the first occurrence.\<close>

fun strstr :: "string \<Rightarrow> string \<Rightarrow> string option" where
  "strstr [] needle = (if needle = [] then Some [] else None)"
| "strstr (c # cs) needle =
     (if is_prefix_of needle (c # cs) then Some (c # cs) else strstr cs needle)"

text \<open>The element type of a vector type: what follows \<^theory_text>\<open>ector<\<close> up to the bracket.\<close>

definition vector_of :: "string \<Rightarrow> string option" where
  "vector_of t = map_option (\<lambda>p. takeWhile (\<lambda>c. c \<noteq> CHR ''>'') (drop 6 p)) (strstr t ''ector<'')"

definition flag_of :: "arg_t \<Rightarrow> (nat \<times> nat) option" where
  "flag_of a = (if flagn a \<noteq> 0 then Some (flagn a, flagb a) else None)"

text \<open>The test by which the generator recognises the flags word.\<close>

definition is_flags :: "arg_t \<Rightarrow> bool" where
  "is_flags a \<longleftrightarrow> arg_type a = None \<and> strstr (arg_name a) ''flags'' \<noteq> None"

definition id_vector :: u32 where
  "id_vector = 0x1cb5c415"

end
