(* ===== verification/Buf.thy ===== *)
theory Buf
  imports Prelude
begin

text \<open>
  The byte buffer of tl/buf.h and tl/buf.c.  A \<^theory_text>\<open>buf_t\<close> is the C struct: the block
  behind \<^theory_text>\<open>aptr\<close> (its \<^theory_text>\<open>asize + 1\<close> bytes, as a function from the position
  to the byte), the pointer \<^theory_text>\<open>data\<close> as its distance from \<^theory_text>\<open>aptr\<close>, and
  the two 32-bit sizes.  Every access is checked against the block: outside it the C is undefined
  and the model yields \<^theory_text>\<open>None\<close>.  Allocation succeeds in the model (the callers of
  buf_init ignore its status); freeing a block has no value to model.  The abstract view of a
  buffer is the list of the \<^theory_text>\<open>bsize\<close> bytes at \<^theory_text>\<open>data\<close>; the lemmas of
  this theory show that each operation implements its list counterpart.
\<close>

section \<open>The structure and its block\<close>

record buf_t =
  aptr :: "nat \<Rightarrow> byte"
  data :: nat
  bsize :: u32
  asize :: u32

definition BUFSIZ :: u32 where
  "BUFSIZ = 8192"

definition peek :: "buf_t \<Rightarrow> nat \<Rightarrow> byte option" where
  "peek b i = (if data b + i \<le> unat (asize b) then Some (aptr b (data b + i)) else None)"

definition poke :: "buf_t \<Rightarrow> nat \<Rightarrow> byte \<Rightarrow> buf_t option" where
  "poke b i v = (if data b + i \<le> unat (asize b)
     then Some (b\<lparr>aptr := (aptr b)(data b + i := v)\<rparr>) else None)"

text \<open>The bytes a C pointer \<^theory_text>\<open>b.data + k\<close> leads to, \<^theory_text>\<open>n\<close> of them.\<close>

definition peeks :: "buf_t \<Rightarrow> nat \<Rightarrow> nat \<Rightarrow> byte list option" where
  "peeks b k n = (if n = 0 \<or> data b + k + n \<le> unat (asize b) + 1
     then Some (map (\<lambda>i. aptr b (data b + k + i)) [0..<n]) else None)"

definition buf_init :: buf_t where
  "buf_init = \<lparr>aptr = (\<lambda>_. 0), data = 0, bsize = 0, asize = BUFSIZ\<rparr>"

definition buf_new :: buf_t where
  "buf_new = buf_init"

text \<open>\<^theory_text>\<open>size + 1\<close> is a 32-bit sum: at the greatest sz it wraps to 0 and realloc frees the
  block.\<close>

definition buf_realloc :: "buf_t \<Rightarrow> u32 \<Rightarrow> buf_t option" where
  "buf_realloc b sz =
     (if sz > asize b
      then if sz + 1 = 0 then None
           else Some (b\<lparr>aptr := (\<lambda>i. if i < unat (asize b) then aptr b i else 0), asize := sz\<rparr>)
      else Some b)"

section \<open>Operations\<close>

text \<open>The copying loop of buf_add and buf_cat: byte \<^theory_text>\<open>i\<close> of the source goes to
  \<^theory_text>\<open>data[i + offset]\<close>, the index computed in 32 bits.\<close>

fun copy_loop :: "(nat \<Rightarrow> byte option) \<Rightarrow> u32 \<Rightarrow> nat \<Rightarrow> nat \<Rightarrow> buf_t \<Rightarrow> buf_t option" where
  "copy_loop src ofs i 0 b = Some b"
| "copy_loop src ofs i (Suc n) b = do {
     v \<leftarrow> src i;
     b' \<leftarrow> poke b (unat (of_nat i + ofs)) v;
     copy_loop src ofs (Suc i) n b'
   }"

definition mem_at :: "byte list \<Rightarrow> nat \<Rightarrow> byte option" where
  "mem_at bs i = (if i < length bs then Some (bs ! i) else None)"

definition buf_add :: "byte list \<Rightarrow> u32 \<Rightarrow> buf_t option" where
  "buf_add src sz = do {
     b \<leftarrow> (if sz > asize buf_init then buf_realloc buf_init sz else Some buf_init);
     b \<leftarrow> copy_loop (mem_at src) 0 0 (unat sz) b;
     Some (b\<lparr>bsize := sz\<rparr>)
   }"

definition buf_add_buf :: "buf_t \<Rightarrow> buf_t option" where
  "buf_add_buf b = do {
     bs \<leftarrow> peeks b 0 (unat (bsize b));
     buf_add bs (bsize b)
   }"

definition buf_cat :: "buf_t \<Rightarrow> buf_t \<Rightarrow> buf_t option" where
  "buf_cat dest src = (let s = bsize dest + bsize src in do {
     d \<leftarrow> (if s > asize dest then buf_realloc dest s else Some dest);
     d \<leftarrow> copy_loop (peek src) (bsize dest) 0 (unat (bsize src)) d;
     Some (d\<lparr>bsize := s\<rparr>)
   })"

fun cat_all :: "buf_t \<Rightarrow> buf_t list \<Rightarrow> buf_t option" where
  "cat_all b [] = Some b"
| "cat_all b (x # xs) = do { b' \<leftarrow> buf_cat b x; cat_all b' xs }"

definition buf_add_bufs :: "buf_t list \<Rightarrow> buf_t option" where
  "buf_add_bufs xs = cat_all buf_init xs"

text \<open>buf_cmp only reports different sizes; it compares the first \<^theory_text>\<open>a.size\<close> bytes.\<close>

fun cmp_loop :: "buf_t \<Rightarrow> buf_t \<Rightarrow> nat \<Rightarrow> nat \<Rightarrow> bool option" where
  "cmp_loop a b i 0 = Some True"
| "cmp_loop a b i (Suc n) = do {
     x \<leftarrow> peek a i;
     y \<leftarrow> peek b i;
     (if x \<noteq> y then Some False else cmp_loop a b (Suc i) n)
   }"

definition buf_cmp :: "buf_t \<Rightarrow> buf_t \<Rightarrow> bool option" where
  "buf_cmp a b = cmp_loop a b 0 (unat (bsize a))"

function swap_loop :: "int \<Rightarrow> int \<Rightarrow> buf_t \<Rightarrow> buf_t option" where
  "swap_loop lo hi b =
     (if lo < hi
      then do {
        x \<leftarrow> peek b (nat lo);
        y \<leftarrow> peek b (nat hi);
        b \<leftarrow> poke b (nat lo) y;
        b \<leftarrow> poke b (nat hi) x;
        swap_loop (lo + 1) (hi - 1) b
      }
      else Some b)"
  by pat_completeness auto
termination
  by (relation "measure (\<lambda>(lo, hi, b). nat (hi - lo))") auto

declare swap_loop.simps [simp del]

definition buf_swap :: "buf_t \<Rightarrow> buf_t option" where
  "buf_swap b = swap_loop 0 (int (unat (bsize b)) - 1) b"

definition buf_add_ui32 :: "u32 \<Rightarrow> buf_t option" where
  "buf_add_ui32 v = buf_add (le_bytes 4 v) 4"

definition buf_add_ui64 :: "u64 \<Rightarrow> buf_t option" where
  "buf_add_ui64 v = buf_add (le_bytes 8 v) 8"

text \<open>A double is its 64-bit image.\<close>

definition buf_add_double :: "u64 \<Rightarrow> buf_t option" where
  "buf_add_double v = buf_add (le_bytes 8 v) 8"

definition buf_get_ui32 :: "buf_t \<Rightarrow> u32 option" where
  "buf_get_ui32 b = map_option le_val (peeks b 0 4)"

definition buf_get_ui64 :: "buf_t \<Rightarrow> u64 option" where
  "buf_get_ui64 b = map_option le_val (peeks b 0 8)"

definition buf_get_double :: "buf_t \<Rightarrow> u64 option" where
  "buf_get_double b = map_option le_val (peeks b 0 8)"

text \<open>buf_rand writes \<^theory_text>\<open>s\<close> bytes of the C library's generator (an argument: the sequence of
  its values modulo 256) into a fresh block that it never enlarges.\<close>

definition buf_rand :: "(nat \<Rightarrow> byte) \<Rightarrow> u32 \<Rightarrow> buf_t option" where
  "buf_rand rand s = do {
     b \<leftarrow> copy_loop (\<lambda>i. Some (rand i)) 0 0 (unat s) buf_init;
     Some (b\<lparr>bsize := s\<rparr>)
   }"

definition xor_at :: "buf_t \<Rightarrow> buf_t \<Rightarrow> nat \<Rightarrow> byte option" where
  "xor_at a b i = do { x \<leftarrow> peek a i; y \<leftarrow> peek b i; Some (x XOR y) }"

definition buf_xor :: "buf_t \<Rightarrow> buf_t \<Rightarrow> buf_t option" where
  "buf_xor a b = do {
     r \<leftarrow> (if bsize a > asize buf_init then buf_realloc buf_init (bsize a) else Some buf_init);
     r \<leftarrow> copy_loop (xor_at a b) 0 0 (unat (bsize a)) r;
     Some (r\<lparr>bsize := bsize a\<rparr>)
   }"

definition buf_cat_ui32 :: "buf_t \<Rightarrow> u32 \<Rightarrow> buf_t option" where
  "buf_cat_ui32 dest i = do { src \<leftarrow> buf_add_ui32 i; buf_cat dest src }"

definition buf_cat_ui64 :: "buf_t \<Rightarrow> u64 \<Rightarrow> buf_t option" where
  "buf_cat_ui64 dest i = do { src \<leftarrow> buf_add_ui64 i; buf_cat dest src }"

definition buf_cat_double :: "buf_t \<Rightarrow> u64 \<Rightarrow> buf_t option" where
  "buf_cat_double dest i = do { src \<leftarrow> buf_add_double i; buf_cat dest src }"

definition buf_cat_data :: "buf_t \<Rightarrow> byte list \<Rightarrow> u32 \<Rightarrow> buf_t option" where
  "buf_cat_data dest dat len = do { src \<leftarrow> buf_add dat len; buf_cat dest src }"

definition buf_cat_rand :: "(nat \<Rightarrow> byte) \<Rightarrow> buf_t \<Rightarrow> u32 \<Rightarrow> buf_t option" where
  "buf_cat_rand rand dest s = do { src \<leftarrow> buf_rand rand s; buf_cat dest src }"

section \<open>The abstract view\<close>

definition view :: "buf_t \<Rightarrow> byte list" where
  "view b = map (\<lambda>i. aptr b (data b + i)) [0..<unat (bsize b)]"

text \<open>The bytes of the buffer lie inside its block, whose size \<^theory_text>\<open>asize + 1\<close> is a 32-bit
  number.\<close>

definition buf_wf :: "buf_t \<Rightarrow> bool" where
  "buf_wf b \<longleftrightarrow> data b + unat (bsize b) \<le> unat (asize b) \<and> unat (asize b) + 1 < 2 ^ 32"

definition views :: "buf_t \<Rightarrow> byte list \<Rightarrow> bool" where
  "views b xs \<longleftrightarrow> buf_wf b \<and> view b = xs"

text \<open>A buffer that may grow: its bytes start at the block.\<close>

definition owns :: "buf_t \<Rightarrow> byte list \<Rightarrow> bool" where
  "owns b xs \<longleftrightarrow> views b xs \<and> data b = 0"

lemma owns_views [intro]: "owns b xs \<Longrightarrow> views b xs"
  by (simp add: owns_def)

lemma length_view [simp]: "length (view b) = unat (bsize b)"
  by (simp add: view_def)

lemma views_length: "views b xs \<Longrightarrow> unat (bsize b) = length xs"
  by (auto simp: views_def)

lemma views_bsize: "views b xs \<Longrightarrow> bsize b = of_nat (length xs)"
  by (simp flip: views_length)

lemma views_bound: "views b xs \<Longrightarrow> data b + length xs \<le> unat (asize b)"
  by (auto simp: views_def buf_wf_def)

lemma views_block: "views b xs \<Longrightarrow> unat (asize b) + 1 < 2 ^ 32"
  by (auto simp: views_def buf_wf_def)

lemma views_small: "views b xs \<Longrightarrow> length xs + 1 < 2 ^ 32"
  using views_bound [of b xs] views_block [of b xs] by simp

lemma views_nth: "views b xs \<Longrightarrow> i < length xs \<Longrightarrow> aptr b (data b + i) = xs ! i"
  by (auto simp: views_def view_def)

lemma views_peek: "views b xs \<Longrightarrow> i < length xs \<Longrightarrow> peek b i = Some (xs ! i)"
  using views_bound [of b xs] views_nth [of b xs i] by (simp add: peek_def)

lemma views_peeks:
  assumes v: "views b xs" and n: "k + n \<le> length xs"
  shows "peeks b k n = Some (take n (drop k xs))"
proof -
  have "map (\<lambda>i. aptr b (data b + k + i)) [0..<n] = take n (drop k xs)"
    using n by (intro map_nth_shift) (auto simp: add.assoc views_nth [OF v])
  with n views_bound [OF v] show ?thesis
    by (auto simp: peeks_def)
qed

lemma viewsI:
  assumes "unat (bsize b) = length xs" and "data b + length xs \<le> unat (asize b)"
    and "unat (asize b) + 1 < 2 ^ 32"
    and "\<And>i. i < length xs \<Longrightarrow> aptr b (data b + i) = xs ! i"
  shows "views b xs"
  using assms by (auto simp: views_def buf_wf_def view_def intro: map_nth_shift)

lemma owns_init [simp]: "owns buf_init []"
  by (simp add: owns_def views_def view_def buf_wf_def buf_init_def BUFSIZ_def)

lemma unat_max_u32: "unat (max a b :: u32) = max (unat a) (unat b)"
  by (simp add: max_def word_le_nat_alt)

lemma BUFSIZ_nat [simp]: "unat BUFSIZ = 8192"
  by (simp add: BUFSIZ_def)

lemma owns_new [simp]: "owns buf_new []"
  by (simp add: buf_new_def)

section \<open>Operations implement their list counterparts\<close>

lemma copy_loop_ok:
  assumes "\<And>k. i \<le> k \<Longrightarrow> k < i + n \<Longrightarrow> src k = Some (f k)"
    and "i + n + unat ofs < 2 ^ 32"
    and "data b + unat ofs + i + n \<le> unat (asize b) + 1"
  shows "copy_loop src ofs i n b = Some (b\<lparr>aptr := (\<lambda>j. if data b + unat ofs + i \<le> j \<and>
    j < data b + unat ofs + i + n then f (j - (data b + unat ofs)) else aptr b j)\<rparr>)"
  using assms
proof (induction n arbitrary: i b)
  case 0
  have "(\<lambda>j. if data b + unat ofs + i \<le> j \<and> j < data b + unat ofs + i
      then f (j - (data b + unat ofs)) else aptr b j) = aptr b"
    by (intro ext if_not_P) simp
  then show ?case by simp
next
  case (Suc n)
  define p where "p = data b + unat ofs + i"
  define b1 where "b1 = b\<lparr>aptr := (aptr b)(p := f i)\<rparr>"
  have "unat (of_nat i + ofs) = unat ofs + i"
    using Suc.prems(2) by (simp add: unat_add_u32)
  then have poke: "poke b (unat (of_nat i + ofs)) (f i) = Some b1"
    using Suc.prems(3) by (simp add: poke_def b1_def p_def add.assoc)
  have "copy_loop src ofs (Suc i) n b1 = Some (b1\<lparr>aptr := (\<lambda>j. if data b1 + unat ofs + Suc i \<le> j \<and>
    j < data b1 + unat ofs + Suc i + n then f (j - (data b1 + unat ofs)) else aptr b1 j)\<rparr>)"
    using Suc.prems by (intro Suc.IH) (auto simp: b1_def)
  moreover have "src i = Some (f i)"
    using Suc.prems(1) by simp
  ultimately show ?case
    using poke by (auto simp: b1_def p_def fun_eq_iff)
qed

lemma buf_realloc_fields:
  assumes "buf_realloc b sz = Some b'"
  shows "data b' = data b" and "bsize b' = bsize b" and "asize b' = max (asize b) sz"
    and "\<And>i. i < unat (asize b) \<Longrightarrow> aptr b' i = aptr b i"
  using assms by (auto simp: buf_realloc_def max_def split: if_splits)

lemma u32_not_max: "unat (a :: u32) + 1 < 2 ^ 32 \<Longrightarrow> a + 1 \<noteq> 0"
  by (metis add_0 not_less_zero unat_0 unat_1 unat_add_u32 zero_neq_one add_is_0)

lemma buf_realloc_ok:
  assumes "unat sz + 1 < 2 ^ 32"
  shows "ok (if asize b < sz then buf_realloc b sz else Some b)
     (\<lambda>b'. data b' = data b \<and> bsize b' = bsize b \<and> asize b' = max (asize b) sz \<and>
       (\<forall>i < unat (asize b). aptr b' i = aptr b i))"
  using u32_not_max [OF assms] by (auto simp: buf_realloc_def max_def)

lemma buf_add_ok:
  assumes "unat sz \<le> length src" and "unat sz + 1 < 2 ^ 32"
  shows "ok (buf_add src sz) (\<lambda>b. owns b (take (unat sz) src) \<and> asize b = max BUFSIZ sz)"
  unfolding buf_add_def
proof (rule ok_bind [OF buf_realloc_ok [OF assms(2)]])
  fix b :: buf_t
  assume b: "data b = data buf_init \<and> bsize b = bsize buf_init \<and>
    asize b = max (asize buf_init) sz \<and> (\<forall>i < unat (asize buf_init). aptr b i = aptr buf_init i)"
  then have a: "unat sz \<le> unat (asize b)" "data b = 0"
    by (auto simp: buf_init_def max_def word_le_nat_alt)
  have "copy_loop (mem_at src) 0 0 (unat sz) b = Some (b\<lparr>aptr := (\<lambda>j. if data b + unat (0 :: u32) + 0 \<le> j \<and>
    j < data b + unat (0 :: u32) + 0 + unat sz then (!) src (j - (data b + unat (0 :: u32))) else aptr b j)\<rparr>)"
    using assms a by (intro copy_loop_ok) (auto simp: mem_at_def)
  with a b assms show "ok (copy_loop (mem_at src) 0 0 (unat sz) b \<bind> (\<lambda>b. Some (b\<lparr>bsize := sz\<rparr>)))
      (\<lambda>b. owns b (take (unat sz) src) \<and> asize b = max BUFSIZ sz)"
    by (auto simp: owns_def buf_init_def unat_max_u32 intro!: viewsI)
qed

lemma buf_cat_ok:
  assumes d: "owns d xs" and s: "views s ys" and len: "length xs + length ys + 1 < 2 ^ 32"
  shows "ok (buf_cat d s) (\<lambda>b. owns b (xs @ ys) \<and> asize b = max (asize d) (bsize d + bsize s))"
proof -
  have sz: "unat (bsize d) = length xs" "unat (bsize s) = length ys" "data d = 0"
    using d s by (auto simp: owns_def views_length)
  then have sum: "unat (bsize d + bsize s) = length xs + length ys"
    using len by (simp add: unat_add_u32)
  have bd: "length xs \<le> unat (asize d)"
    using d views_bound by (fastforce simp: owns_def)
  show ?thesis
    unfolding buf_cat_def Let_def
  proof (rule ok_bind [OF buf_realloc_ok])
    show "unat (bsize d + bsize s) + 1 < 2 ^ 32"
      using len sum by simp
  next
    fix b :: buf_t
    assume b: "data b = data d \<and> bsize b = bsize d \<and> asize b = max (asize d) (bsize d + bsize s) \<and>
      (\<forall>i < unat (asize d). aptr b i = aptr d i)"
    then have a: "length xs + length ys \<le> unat (asize b)" "data b = 0"
      using sum sz by (auto simp: max_def word_le_nat_alt not_le)
    have "copy_loop (peek s) (bsize d) 0 (unat (bsize s)) b = Some (b\<lparr>aptr := (\<lambda>j. if
      data b + unat (bsize d) + 0 \<le> j \<and> j < data b + unat (bsize d) + 0 + unat (bsize s)
      then (!) ys (j - (data b + unat (bsize d))) else aptr b j)\<rparr>)"
      using a sz len by (intro copy_loop_ok) (auto simp: views_peek [OF s])
    moreover have "aptr d i = xs ! i" if "i < length xs" for i
      using d that views_nth [of d xs i] by (simp add: owns_def)
    ultimately show "ok (copy_loop (peek s) (bsize d) 0 (unat (bsize s)) b \<bind>
        (\<lambda>b. Some (b\<lparr>bsize := bsize d + bsize s\<rparr>)))
      (\<lambda>b. owns b (xs @ ys) \<and> asize b = max (asize d) (bsize d + bsize s))"
      using a b sz sum bd len views_block [of d xs] d
      by (auto simp: owns_def nth_append unat_max_u32 intro!: viewsI)
  qed
qed

text \<open>A small buffer keeps the zeros of buf_init after its bytes.\<close>

lemma buf_add_small:
  assumes "unat sz \<le> length src" and "unat sz \<le> 8192"
  shows "buf_add src sz = Some \<lparr>aptr = (\<lambda>j. if j < unat sz then src ! j else 0), data = 0,
    bsize = sz, asize = BUFSIZ\<rparr>"
proof -
  have "\<not> asize buf_init < sz"
    using assms(2) by (simp add: buf_init_def BUFSIZ_def word_less_nat_alt)
  moreover have "copy_loop (mem_at src) 0 0 (unat sz) buf_init = Some (buf_init\<lparr>aptr := (\<lambda>j. if
      data buf_init + unat (0 :: u32) + 0 \<le> j \<and> j < data buf_init + unat (0 :: u32) + 0 + unat sz
      then (!) src (j - (data buf_init + unat (0 :: u32))) else aptr buf_init j)\<rparr>)"
    using assms by (intro copy_loop_ok) (auto simp: mem_at_def buf_init_def BUFSIZ_def)
  ultimately show ?thesis
    by (simp add: buf_add_def buf_init_def cong: if_cong)
qed

lemma buf_add_all:
  "length src + 1 < 2 ^ 32 \<Longrightarrow> ok (buf_add src (of_nat (length src))) (\<lambda>b. owns b src)"
  by (rule ok_mono [OF buf_add_ok]) auto

lemma buf_add_ui_ok [ok_rules]:
  "ok (buf_add_ui32 v) (\<lambda>b. owns b (le_bytes 4 v))"
  "ok (buf_add_ui64 w) (\<lambda>b. owns b (le_bytes 8 w))"
  "ok (buf_add_double w) (\<lambda>b. owns b (le_bytes 8 w))"
  by (auto simp: buf_add_ui32_def buf_add_ui64_def buf_add_double_def intro!: ok_mono [OF buf_add_ok])

lemma buf_add_buf_ok:
  assumes "views b xs" and "length xs + 1 < 2 ^ 32"
  shows "ok (buf_add_buf b) (\<lambda>c. owns c xs)"
  using assms views_peeks [OF assms(1), of 0 "length xs"]
  by (auto simp: buf_add_buf_def views_length views_bsize intro!: buf_add_all)

lemma buf_cat_owns:
  "owns d xs \<Longrightarrow> views s ys \<Longrightarrow> length xs + length ys + 1 < 2 ^ 32 \<Longrightarrow>
     ok (buf_cat d s) (\<lambda>b. owns b (xs @ ys))"
  by (rule ok_mono [OF buf_cat_ok]) auto

lemma buf_cat_ui_ok:
  assumes "owns d xs"
  shows "length xs + 5 < 2 ^ 32 \<Longrightarrow> ok (buf_cat_ui32 d v) (\<lambda>b. owns b (xs @ le_bytes 4 v))"
    and "length xs + 9 < 2 ^ 32 \<Longrightarrow> ok (buf_cat_ui64 d w) (\<lambda>b. owns b (xs @ le_bytes 8 w))"
    and "length xs + 9 < 2 ^ 32 \<Longrightarrow> ok (buf_cat_double d w) (\<lambda>b. owns b (xs @ le_bytes 8 w))"
  using assms
  by (auto simp: buf_cat_ui32_def buf_cat_ui64_def buf_cat_double_def
      intro!: ok_bind [OF buf_add_ui_ok(1)] ok_bind [OF buf_add_ui_ok(2)] ok_bind [OF buf_add_ui_ok(3)]
        buf_cat_owns)

lemma buf_cat_data_ok:
  assumes "owns d xs" and "unat len \<le> length dat" and "length xs + unat len + 1 < 2 ^ 32"
  shows "ok (buf_cat_data d dat len) (\<lambda>b. owns b (xs @ take (unat len) dat))"
  unfolding buf_cat_data_def
  by (rule ok_bind [OF buf_add_ok]) (use assms in \<open>auto intro!: buf_cat_owns\<close>)

lemma cat_all_ok:
  assumes "owns b xs" and "list_all2 views bs yss" and "length xs + length (concat yss) + 1 < 2 ^ 32"
  shows "ok (cat_all b bs) (\<lambda>c. owns c (xs @ concat yss))"
  using assms(2,1,3)
proof (induction bs yss arbitrary: b xs rule: list_all2_induct)
  case Nil
  then show ?case by simp
next
  case (Cons x bs ys yss)
  have "ok (cat_all c bs) (\<lambda>e. owns e ((xs @ ys) @ concat yss))" if "owns c (xs @ ys)" for c
    using Cons.IH [OF that] Cons.prems by simp
  then show ?case
    using Cons.hyps Cons.prems by (auto intro!: ok_bind [OF buf_cat_owns])
qed

lemma buf_add_bufs_ok:
  "list_all2 views bs yss \<Longrightarrow> length (concat yss) + 1 < 2 ^ 32 \<Longrightarrow>
     ok (buf_add_bufs bs) (\<lambda>c. owns c (concat yss))"
  using cat_all_ok [of buf_init "[]"] by (simp add: buf_add_bufs_def)

lemma buf_get_ok:
  assumes "views b xs"
  shows "4 \<le> length xs \<Longrightarrow> buf_get_ui32 b = Some (le_val (take 4 xs))"
    and "8 \<le> length xs \<Longrightarrow> buf_get_ui64 b = Some (le_val (take 8 xs))"
    and "8 \<le> length xs \<Longrightarrow> buf_get_double b = Some (le_val (take 8 xs))"
  using views_peeks [OF assms, of 0]
  by (auto simp: buf_get_ui32_def buf_get_ui64_def buf_get_double_def)

text \<open>Reading moves \<^theory_text>\<open>data\<close> forward and \<^theory_text>\<open>size\<close> down.\<close>

definition skip :: "nat \<Rightarrow> buf_t \<Rightarrow> buf_t" where
  "skip n b = b\<lparr>data := data b + n, bsize := bsize b - of_nat n\<rparr>"

lemma skip_views:
  assumes v: "views b xs" and n: "n \<le> length xs"
  shows "views (skip n b) (drop n xs)"
proof (rule viewsI)
  have n32: "n < 2 ^ 32"
    using v n views_length [OF v] unat_lt_u32 [of "bsize b"] by simp
  then show "unat (bsize (skip n b)) = length (drop n xs)"
    using v n by (simp add: skip_def unat_sub_u32 views_length)
  show "data (skip n b) + length (drop n xs) \<le> unat (asize (skip n b))"
    using views_bound [OF v] n by (simp add: skip_def)
  show "unat (asize (skip n b)) + 1 < 2 ^ 32"
    using views_block [OF v] by (simp add: skip_def)
  fix i
  assume "i < length (drop n xs)"
  then show "aptr (skip n b) (data (skip n b) + i) = drop n xs ! i"
    using views_nth [OF v, of "n + i"] n by (simp add: skip_def add.assoc)
qed

lemma cmp_loop_ok:
  assumes "views a xs" and "views b ys" and "i + n \<le> length xs" and "i + n \<le> length ys"
  shows "cmp_loop a b i n = Some (take n (drop i xs) = take n (drop i ys))"
  using assms(3,4)
proof (induction n arbitrary: i)
  case 0
  then show ?case by simp
next
  case (Suc n)
  have "take (Suc n) (drop i zs) = zs ! i # take n (drop (Suc i) zs)" if "i + Suc n \<le> length zs" for zs :: "byte list"
    using that by (simp add: Cons_nth_drop_Suc [symmetric])
  then show ?case
    using Suc by (simp add: views_peek [OF assms(1)] views_peek [OF assms(2)])
qed

text \<open>buf_cmp is a comparison of the first buffer with a prefix of the second.\<close>

lemma buf_cmp_ok:
  assumes "views a xs" and "views b ys" and "length xs \<le> length ys"
  shows "buf_cmp a b = Some (xs = take (length xs) ys)"
  using cmp_loop_ok [OF assms(1,2), of 0 "length xs"] assms
  by (simp add: buf_cmp_def views_length)

lemma buf_rand_ok:
  assumes "unat s \<le> 8193"
  shows "ok (buf_rand rand s) (\<lambda>b. bsize b = s \<and> data b = 0 \<and> view b = map rand [0..<unat s] \<and>
    asize b = BUFSIZ)"
proof -
  have "copy_loop (\<lambda>i. Some (rand i)) 0 0 (unat s) buf_init = Some (buf_init\<lparr>aptr := (\<lambda>j. if
      data buf_init + unat (0 :: u32) + 0 \<le> j \<and> j < data buf_init + unat (0 :: u32) + 0 + unat s
      then rand (j - (data buf_init + unat (0 :: u32))) else aptr buf_init j)\<rparr>)"
    using assms by (intro copy_loop_ok) (auto simp: buf_init_def BUFSIZ_def)
  then show ?thesis
    by (simp add: buf_rand_def view_def buf_init_def)
qed

lemma buf_rand_owns:
  "unat s \<le> 8192 \<Longrightarrow> ok (buf_rand rand s) (\<lambda>b. owns b (map rand [0..<unat s]))"
  by (rule ok_mono [OF buf_rand_ok]) (auto simp: owns_def views_def buf_wf_def BUFSIZ_def)

lemma buf_cat_rand_ok:
  assumes "owns d xs" and "unat s \<le> 8192" and "length xs + unat s + 1 < 2 ^ 32"
  shows "ok (buf_cat_rand rand d s) (\<lambda>b. owns b (xs @ map rand [0..<unat s]))"
  unfolding buf_cat_rand_def
  by (rule ok_bind [OF buf_rand_owns]) (use assms in \<open>auto intro!: buf_cat_owns\<close>)

lemma buf_xor_ok:
  assumes a: "views a xs" and b: "views b ys" and le: "length xs \<le> length ys" "length xs + 1 < 2 ^ 32"
  shows "ok (buf_xor a b) (\<lambda>c. owns c (map2 (XOR) xs ys))"
proof -
  have sa: "unat (bsize a) = length xs"
    using a by (rule views_length)
  show ?thesis
    unfolding buf_xor_def
  proof (rule ok_bind [OF buf_realloc_ok])
    show "unat (bsize a) + 1 < 2 ^ 32"
      using le sa by simp
  next
    fix r :: buf_t
    assume r: "data r = data buf_init \<and> bsize r = bsize buf_init \<and>
      asize r = max (asize buf_init) (bsize a) \<and> (\<forall>i < unat (asize buf_init). aptr r i = aptr buf_init i)"
    then have q: "length xs \<le> unat (asize r)" "data r = 0"
      using sa by (auto simp: buf_init_def max_def word_le_nat_alt)
    have "copy_loop (xor_at a b) 0 0 (unat (bsize a)) r = Some (r\<lparr>aptr := (\<lambda>j. if
      data r + unat (0 :: u32) + 0 \<le> j \<and> j < data r + unat (0 :: u32) + 0 + unat (bsize a)
      then (\<lambda>i. xs ! i XOR ys ! i) (j - (data r + unat (0 :: u32))) else aptr r j)\<rparr>)"
      using q sa le
      by (intro copy_loop_ok) (auto simp: xor_at_def views_peek [OF a] views_peek [OF b])
    with q r sa le show "ok (copy_loop (xor_at a b) 0 0 (unat (bsize a)) r \<bind>
        (\<lambda>r. Some (r\<lparr>bsize := bsize a\<rparr>))) (\<lambda>c. owns c (map2 (XOR) xs ys))"
      by (auto simp: owns_def unat_max_u32 buf_init_def intro!: viewsI)
  qed
qed

text \<open>The two pointers of buf_swap meet in the middle: after \<^theory_text>\<open>k\<close> exchanges the first and
  last \<^theory_text>\<open>k\<close> bytes are in place.\<close>

lemma swap_loop_ok:
  assumes n: "unat (bsize b0) = n" and in_block: "data b0 + n \<le> unat (asize b0)"
  shows "2 * k \<le> n \<Longrightarrow> b = b0\<lparr>aptr := f\<rparr> \<Longrightarrow>
     ok (swap_loop (int k) (int n - 1 - int k) b) (\<lambda>b'. b' = b0\<lparr>aptr := (\<lambda>j.
       if data b0 + k \<le> j \<and> j + k < data b0 + n then f (2 * data b0 + n - 1 - j) else f j)\<rparr>)"
proof (induction "n - k" arbitrary: k b f rule: less_induct)
  case less
  show ?case
  proof (cases "int k < int n - 1 - int k")
    case False
    then have "n \<le> 2 * k + 1" by arith
    then have "(\<lambda>j. if data b0 + k \<le> j \<and> j + k < data b0 + n then f (2 * data b0 + n - 1 - j) else f j) = f"
      using less.prems(1) by (intro ext) (auto intro!: arg_cong [of _ _ f])
    with False less.prems show ?thesis by (subst swap_loop.simps) simp
  next
    case True
    define h where "h = n - 1 - k"
    define g where "g = (f(data b0 + k := f (data b0 + h)))(data b0 + h := f (data b0 + k))"
    have h: "nat (int n - 1 - int k) = h" "k < h" "h < n" "Suc k \<le> n" "h + k + 1 = n"
      using True by (auto simp: h_def)
    have step: "swap_loop (int k) (int n - 1 - int k) b
        = swap_loop (int (Suc k)) (int n - 1 - int (Suc k)) (b0\<lparr>aptr := g\<rparr>)"
      using True less.prems in_block h
      by (subst swap_loop.simps) (simp add: peek_def poke_def g_def add.commute diff_diff_eq)
    have "ok (swap_loop (int (Suc k)) (int n - 1 - int (Suc k)) (b0\<lparr>aptr := g\<rparr>))
        (\<lambda>b'. b' = b0\<lparr>aptr := (\<lambda>j. if data b0 + Suc k \<le> j \<and> j + Suc k < data b0 + n
          then g (2 * data b0 + n - 1 - j) else g j)\<rparr>)"
      using True h by (intro less.hyps) auto
    moreover have "(if data b0 + Suc k \<le> j \<and> j + Suc k < data b0 + n then g (2 * data b0 + n - 1 - j) else g j)
      = (if data b0 + k \<le> j \<and> j + k < data b0 + n then f (2 * data b0 + n - 1 - j) else f j)" for j
    proof -
      consider "j = data b0 + k" | "j = data b0 + h" | "data b0 + Suc k \<le> j \<and> j < data b0 + h"
        | "j < data b0 + k \<or> data b0 + h < j"
        by arith
      then show ?thesis
      proof cases
        case 1
        then have "2 * data b0 + n - 1 - j = data b0 + h"
          using h by (simp add: h_def)
        with 1 h show ?thesis by (simp add: g_def)
      next
        case 2
        then have "2 * data b0 + n - 1 - j = data b0 + k"
          using h by (simp add: h_def)
        with 2 h show ?thesis by (simp add: g_def)
      next
        case 3
        then have "data b0 + k < 2 * data b0 + n - 1 - j" "2 * data b0 + n - 1 - j < data b0 + h"
          using h by auto
        with 3 h show ?thesis by (simp add: g_def)
      next
        case 4
        with h show ?thesis by (auto simp: g_def)
      qed
    qed
    ultimately show ?thesis
      using step by simp
  qed
qed

lemma buf_swap_ok:
  assumes v: "views b xs"
  shows "ok (buf_swap b) (\<lambda>b'. views b' (rev xs) \<and> data b' = data b)"
proof -
  have n: "unat (bsize b) = length xs" and le: "data b + length xs \<le> unat (asize b)"
    using v by (auto simp: views_length views_bound)
  have "ok (swap_loop (int 0) (int (length xs) - 1 - int 0) b) (\<lambda>b'. b' = b\<lparr>aptr := (\<lambda>j.
       if data b + 0 \<le> j \<and> j + 0 < data b + length xs then aptr b (2 * data b + length xs - 1 - j)
       else aptr b j)\<rparr>)"
    by (rule swap_loop_ok [OF n le]) auto
  moreover have "views (b\<lparr>aptr := (\<lambda>j. if data b + 0 \<le> j \<and> j + 0 < data b + length xs
       then aptr b (2 * data b + length xs - 1 - j) else aptr b j)\<rparr>) (rev xs)"
  proof (rule viewsI)
    fix i
    assume i: "i < length (rev xs)"
    then have "2 * data b + length xs - 1 - (data b + i) = data b + (length xs - 1 - i)"
      by simp
    with i show "aptr (b\<lparr>aptr := (\<lambda>j. if data b + 0 \<le> j \<and> j + 0 < data b + length xs
       then aptr b (2 * data b + length xs - 1 - j) else aptr b j)\<rparr>)
       (data (b\<lparr>aptr := (\<lambda>j. if data b + 0 \<le> j \<and> j + 0 < data b + length xs
       then aptr b (2 * data b + length xs - 1 - j) else aptr b j)\<rparr>) + i) = rev xs ! i"
      using views_nth [OF v, of "length xs - 1 - i"] by (simp add: rev_nth)
  qed (use n le views_block [OF v] in simp_all)
  ultimately show ?thesis
    using n by (auto simp: buf_swap_def elim!: ok_mono)
qed

text \<open>A buffer with given bytes, for instances.\<close>

definition buf_of :: "byte list \<Rightarrow> buf_t" where
  "buf_of bs = \<lparr>aptr = (\<lambda>i. if i < length bs then bs ! i else 0), data = 0,
     bsize = of_nat (length bs), asize = BUFSIZ\<rparr>"

lemma buf_of_owns: "length bs \<le> 8192 \<Longrightarrow> owns (buf_of bs) bs"
  by (auto simp: owns_def buf_of_def intro!: viewsI)

end
