(* ===== verification/Codec.thy ===== *)
theory Codec
  imports Buf
begin

text \<open>
  The primitive TL codec: tl/serialize.c and the readers of tl/deserialize.c.  A writer returns a
  fresh buffer, a reader takes a buffer by reference and returns the value with the advanced
  buffer.  The byte string format is specified by \<^theory_text>\<open>tl_string\<close>: a one-byte length
  up to 253, otherwise the byte 254 and a three-byte length, then the bytes, then zero bytes up
  to a multiple of four.  The locale \<^theory_text>\<open>wire_field\<close> is the contract of a reader with
  respect to an encoding; its client lemma reads a sequence of elements, and it is interpreted
  for every reader of this theory.
\<close>

section \<open>Writers\<close>

definition pad_of :: "u32 \<Rightarrow> u32" where
  "pad_of n = (4 - n mod 4) mod 4"

text \<open>A fresh buffer whose size is set without writing: its bytes are the zeros of buf_init.\<close>

definition zeros :: "u32 \<Rightarrow> buf_t" where
  "zeros n = buf_init\<lparr>bsize := n\<rparr>"

definition serialize_bytes :: "byte list \<Rightarrow> u64 \<Rightarrow> buf_t option" where
  "serialize_bytes bytes sz =
     (if sz \<le> 253
      then do {
        s \<leftarrow> buf_add (le_bytes 8 sz) 1;
        b \<leftarrow> buf_add bytes (ucast sz);
        s \<leftarrow> buf_cat s b;
        buf_cat s (zeros (pad_of (bsize s)))
      }
      else do {
        s \<leftarrow> buf_add [0xfe] 1;
        len \<leftarrow> buf_add (le_bytes 8 sz) 3;
        s \<leftarrow> buf_cat s len;
        b \<leftarrow> buf_add bytes (ucast sz);
        s \<leftarrow> buf_cat s b;
        (let pad = pad_of (bsize s) in
         if pad \<noteq> 0 then buf_cat s (zeros pad) else Some s)
      })"

text \<open>A C string is the memory up to its first zero byte; without one, strlen reads on past the
  memory it was given.\<close>

definition strlen :: "byte list \<Rightarrow> u64" where
  "strlen s = of_nat (length (takeWhile (\<lambda>c. c \<noteq> 0) s))"

definition serialize_string :: "byte list \<Rightarrow> buf_t option" where
  "serialize_string s = (if 0 \<in> set s then serialize_bytes s (strlen s) else None)"

text \<open>flag_is_set of serialize.c; the shift \<^theory_text>\<open>1 << flag\<close> is a signed 32-bit one.\<close>

definition flag_is_set :: "u32 \<Rightarrow> nat \<Rightarrow> bool" where
  "flag_is_set v flag = (let flagb = push_bit flag 1 in (v AND flagb) \<noteq> flagb)"

definition serialize_str :: "buf_t \<Rightarrow> buf_t option" where
  "serialize_str b = (let sz = bsize b in
     if sz \<le> 253
     then do {
       s \<leftarrow> buf_add (le_bytes 4 sz) 1;
       s \<leftarrow> buf_cat s b;
       buf_cat s (zeros (pad_of (bsize s)))
     }
     else do {
       s \<leftarrow> buf_add [0xfe] 1;
       len \<leftarrow> buf_add (le_bytes 4 sz) 3;
       s \<leftarrow> buf_cat s len;
       s \<leftarrow> buf_cat s b;
       (let pad = pad_of (bsize s) in
        if pad \<noteq> 0 then buf_cat s (zeros pad) else Some s)
     })"

section \<open>Readers\<close>

definition deserialize_ui32 :: "buf_t \<Rightarrow> (u32 \<times> buf_t) option" where
  "deserialize_ui32 b = do { c \<leftarrow> buf_get_ui32 b; Some (c, skip 4 b) }"

definition deserialize_ui64 :: "buf_t \<Rightarrow> (u64 \<times> buf_t) option" where
  "deserialize_ui64 b = do { c \<leftarrow> buf_get_ui64 b; Some (c, skip 8 b) }"

definition deserialize_double :: "buf_t \<Rightarrow> (u64 \<times> buf_t) option" where
  "deserialize_double b = do { c \<leftarrow> buf_get_double b; Some (c, skip 8 b) }"

text \<open>The size argument of deserialize_buf is a C int: the copy converts it to an unsigned size,
  the pointer moves by its signed value.\<close>

definition advance :: "int \<Rightarrow> buf_t \<Rightarrow> buf_t option" where
  "advance k b = (if int (data b) + k < 0 then None
     else Some (b\<lparr>data := nat (int (data b) + k), bsize := bsize b - of_int k\<rparr>))"

definition deserialize_buf :: "buf_t \<Rightarrow> u32 \<Rightarrow> (buf_t \<times> buf_t) option" where
  "deserialize_buf b sz = do {
     bs \<leftarrow> peeks b 0 (unat sz);
     ret \<leftarrow> buf_add bs sz;
     b \<leftarrow> advance (sint sz) b;
     Some (ret, b)
   }"

definition after_bytes :: "buf_t \<Rightarrow> buf_t \<Rightarrow> u32 \<Rightarrow> u32 \<Rightarrow> buf_t \<times> buf_t" where
  "after_bytes b s len ofs = (let b = skip (unat len) b; pad = pad_of (len + ofs) in
     (s, if pad \<noteq> 0 then skip (unat pad) b else b))"

definition deserialize_bytes :: "buf_t \<Rightarrow> (buf_t \<times> buf_t) option" where
  "deserialize_bytes b = do {
     four \<leftarrow> peeks b 0 4;
     byte \<leftarrow> buf_add four 4;
     first \<leftarrow> peek byte 0;
     (if first \<le> 253
      then (let len = ucast first; b = skip 1 b in do {
        bs \<leftarrow> peeks b 0 (unat len);
        s \<leftarrow> buf_add bs len;
        Some (after_bytes b s len 1)
      })
      else do {
        s1 \<leftarrow> buf_add [0xfe] 1;
        one \<leftarrow> peeks b 0 1;
        s2 \<leftarrow> buf_add one 1;
        same \<leftarrow> buf_cmp s1 s2;
        three \<leftarrow> peeks b 1 3;
        lenb \<leftarrow> buf_add three 3;
        len \<leftarrow> buf_get_ui32 (lenb\<lparr>bsize := 4\<rparr>);
        (let b = skip 4 b in do {
          bs \<leftarrow> peeks b 0 (unat len);
          s \<leftarrow> buf_add bs len;
          Some (after_bytes b s len 0)
        })
      })
   }"

record mtp_message_t =
  mtp_msg_id :: u64
  mtp_seqno :: u32
  mtp_bytes :: u32
  mtp_body :: buf_t

definition deserialize_mtp_message :: "buf_t \<Rightarrow> (mtp_message_t \<times> buf_t) option" where
  "deserialize_mtp_message b = do {
     (i, b) \<leftarrow> deserialize_ui64 b;
     (q, b) \<leftarrow> deserialize_ui32 b;
     (n, b) \<leftarrow> deserialize_ui32 b;
     (bd, b) \<leftarrow> deserialize_buf b n;
     Some (\<lparr>mtp_msg_id = i, mtp_seqno = q, mtp_bytes = n, mtp_body = bd\<rparr>, b)
   }"

definition id_from_tl_buf :: "buf_t \<Rightarrow> u32 option" where
  "id_from_tl_buf b = buf_get_ui32 b"

text \<open>The generated readers of vectors call one reader for each element.\<close>

fun read_many :: "(buf_t \<Rightarrow> ('a \<times> buf_t) option) \<Rightarrow> nat \<Rightarrow> buf_t \<Rightarrow> ('a list \<times> buf_t) option" where
  "read_many get 0 b = Some ([], b)"
| "read_many get (Suc n) b = do {
     (x, b) \<leftarrow> get b;
     (xs, b) \<leftarrow> read_many get n b;
     Some (x # xs, b)
   }"

section \<open>The format\<close>

definition padn :: "nat \<Rightarrow> nat" where
  "padn n = (4 - n mod 4) mod 4"

definition tl_head :: "nat \<Rightarrow> byte list" where
  "tl_head n = (if n \<le> 253 then [of_nat n] else 0xfe # le_bytes 3 (of_nat n :: u32))"

definition tl_string :: "byte list \<Rightarrow> byte list" where
  "tl_string bs = (let h = tl_head (length bs) in
     h @ bs @ replicate (padn (length h + length bs)) 0)"

lemma padn_less: "padn n < 4"
  by (simp add: padn_def)

lemma padn_aligned: "(n + padn n) mod 4 = 0"
proof -
  have "n mod 4 < 4"
    by simp
  then consider "n mod 4 = 0" | "n mod 4 = 1" | "n mod 4 = 2" | "n mod 4 = 3"
    by linarith
  then show ?thesis
    by cases (simp add: padn_def; presburger)+
qed

lemma length_tl_head: "length (tl_head n) = (if n \<le> 253 then 1 else 4)"
  by (simp add: tl_head_def)

lemma tl_string_aligned: "length (tl_string bs) mod 4 = 0"
  using padn_aligned [of "length (tl_head (length bs)) + length bs"]
  by (simp add: tl_string_def Let_def add.assoc)

lemma length_tl_string_le: "length (tl_string bs) \<le> length bs + 7"
  using padn_less [of "length (tl_head (length bs)) + length bs"]
  by (auto simp: tl_string_def Let_def length_tl_head)

lemma tl_string_ge_4: "4 \<le> length (tl_string bs)"
proof -
  have "0 < length (tl_string bs)"
    by (simp add: tl_string_def Let_def tl_head_def)
  then show ?thesis
    using tl_string_aligned [of bs] by (cases "length (tl_string bs) < 4") auto
qed

lemma unat_pad_of: "unat (pad_of n) = padn (unat n)"
proof -
  have "unat (4 - n mod 4) = 4 - unat n mod 4"
    by (subst unat_sub_u32) (auto simp: unat_mod_distrib less_imp_le)
  then show ?thesis
    by (simp add: pad_of_def padn_def unat_mod_distrib)
qed

lemma owns_zeros [intro]:
  "unat n \<le> 8192 \<Longrightarrow> owns (zeros n) (replicate (unat n) 0)"
  by (auto simp: owns_def zeros_def buf_init_def BUFSIZ_def intro!: viewsI)

section \<open>Writers produce the format\<close>

lemma le_bytes_ucast: "8 * n \<le> LENGTH('b) \<Longrightarrow> 8 * n \<le> LENGTH('a) \<Longrightarrow>
    le_bytes n (ucast (w :: 'a::len word) :: 'b::len word) = le_bytes n w"
proof (rule nth_equalityI)
  fix i
  assume n: "8 * n \<le> LENGTH('b)" "8 * n \<le> LENGTH('a)"
  assume "i < length (le_bytes n (ucast w :: 'b word))"
  then have i: "i < n" by simp
  show "le_bytes n (ucast w :: 'b word) ! i = le_bytes n w ! i"
  proof (rule bit_word_eqI)
    fix j
    assume "j < LENGTH(8)"
    with n i have "8 * i + j < LENGTH('b)" "8 * i + j < LENGTH('a)" by auto
    with i show "bit (le_bytes n (ucast w :: 'b word) ! i) j = bit (le_bytes n w ! i) j"
      by (simp add: bit_nth_le_bytes bit_ucast_iff)
  qed
qed simp

lemma le_bytes_1: "le_bytes (Suc 0) (w :: 'a::len word) = [ucast w]"
  by (simp add: le_bytes_def)

lemma tl_head_bytes:
  assumes "unat (sz :: 'a::len word) = n" and "24 \<le> LENGTH('a)" and "n < 2 ^ 32"
  shows "n \<le> 253 \<Longrightarrow> le_bytes (Suc 0) sz = tl_head n"
    and "253 < n \<Longrightarrow> 0xfe # le_bytes 3 sz = tl_head n"
proof -
  have sz: "sz = of_nat n"
    using assms(1) by auto
  have "n < 2 ^ LENGTH('a)"
    using unsigned_less [of sz, where ?'a = nat] assms(1) by simp
  then show "n \<le> 253 \<Longrightarrow> le_bytes (Suc 0) sz = tl_head n"
    by (auto simp: tl_head_def le_bytes_1 sz unsigned_of_nat take_bit_nat_eq_self)
  have "le_bytes 3 sz = le_bytes 3 (of_nat n :: u32)"
  proof (rule nth_equalityI)
    fix i
    assume "i < length (le_bytes 3 sz)"
    then have i: "i < 3" by simp
    show "le_bytes 3 sz ! i = le_bytes 3 (of_nat n :: u32) ! i"
    proof (rule bit_word_eqI)
      fix j
      assume "j < LENGTH(8)"
      with i assms(2) have "8 * i + j < LENGTH('a)" "8 * i + j < 32" "j < 8" by auto
      with i show "bit (le_bytes 3 sz ! i) j = bit (le_bytes 3 (of_nat n :: u32) ! i) j"
        by (simp add: bit_nth_le_bytes sz bit_of_nat_iff)
    qed
  qed simp
  then show "253 < n \<Longrightarrow> 0xfe # le_bytes 3 sz = tl_head n"
    by (simp add: tl_head_def)
qed

lemma cat_zeros_ok:
  assumes "owns s xs" and "length xs + 5 < 2 ^ 32"
  shows "ok (buf_cat s (zeros (pad_of (bsize s)))) (\<lambda>c. owns c (xs @ replicate (padn (length xs)) 0))"
    and "pad_of (bsize s) = 0 \<Longrightarrow> padn (length xs) = 0"
proof -
  have p: "unat (pad_of (bsize s)) = padn (length xs)"
    using assms(1) views_length [of s xs] by (simp add: unat_pad_of owns_def)
  have "owns (zeros (pad_of (bsize s))) (replicate (padn (length xs)) 0)"
    using p padn_less [of "length xs"] owns_zeros [of "pad_of (bsize s)"] by simp
  then show "ok (buf_cat s (zeros (pad_of (bsize s)))) (\<lambda>c. owns c (xs @ replicate (padn (length xs)) 0))"
    using assms padn_less [of "length xs"] by (intro buf_cat_owns) auto
  show "pad_of (bsize s) = 0 \<Longrightarrow> padn (length xs) = 0"
    using p by simp
qed

lemma finish_pad_ok:
  assumes "owns s (h @ bs)" and "h = tl_head (length bs)" and "length bs + 9 < 2 ^ 32"
  shows "ok (buf_cat s (zeros (pad_of (bsize s)))) (\<lambda>c. owns c (tl_string bs))"
    and "ok (let pad = pad_of (bsize s) in if pad \<noteq> 0 then buf_cat s (zeros pad) else Some s)
           (\<lambda>c. owns c (tl_string bs))"
proof -
  have l: "length (h @ bs) + 5 < 2 ^ 32"
    using assms(2,3) by (simp add: length_tl_head)
  note z = cat_zeros_ok [OF assms(1) l]
  show "ok (buf_cat s (zeros (pad_of (bsize s)))) (\<lambda>c. owns c (tl_string bs))"
    using z(1) assms(2) by (simp add: tl_string_def Let_def)
  then show "ok (let pad = pad_of (bsize s) in if pad \<noteq> 0 then buf_cat s (zeros pad) else Some s)
           (\<lambda>c. owns c (tl_string bs))"
    using z(2) assms(1,2) by (auto simp: tl_string_def Let_def)
qed

lemma serialize_bytes_ok:
  assumes n: "unat sz = length bs" and le: "length bs + 9 < 2 ^ 32"
  shows "ok (serialize_bytes (bs @ rest) sz) (\<lambda>s. owns s (tl_string bs))"
proof -
  have c: "unat (ucast sz :: u32) = length bs"
    using n le by (simp add: unsigned_ucast_eq take_bit_nat_eq_self)
  have small: "sz \<le> 253 \<longleftrightarrow> length bs \<le> 253"
    by (simp add: word_le_nat_alt n)
  have body: "ok (buf_add (bs @ rest) (ucast sz)) (\<lambda>b. owns b bs)"
    using c le by (intro ok_mono [OF buf_add_ok]) auto
  note heads = tl_head_bytes [of sz "length bs"]
  show ?thesis
  proof (cases "length bs \<le> 253")
    case True
    have "ok (buf_add (le_bytes 8 sz) 1) (\<lambda>s. owns s (tl_head (length bs)))"
      using True n le heads(1) by (intro ok_mono [OF buf_add_ok]) (auto simp: take_le_bytes)
    then show ?thesis
      using True le small unfolding serialize_bytes_def if_P [OF small [THEN iffD2, OF True]]
      by (elim ok_bind) (auto intro!: ok_bind [OF body] ok_bind [OF buf_cat_owns] finish_pad_ok simp: length_tl_head)
  next
    case False
    have a: "ok (buf_add [0xfe] 1) (\<lambda>s. owns s [0xfe])"
      by (intro ok_mono [OF buf_add_ok]) auto
    have b: "ok (buf_add (le_bytes 8 sz) 3) (\<lambda>s. owns s (le_bytes 3 sz))"
      by (intro ok_mono [OF buf_add_ok]) (auto simp: take_le_bytes)
    have h: "0xfe # le_bytes 3 sz = tl_head (length bs)"
      using False n le heads(2) by simp
    have no: "\<not> sz \<le> 253"
      using False small by simp
    show ?thesis
      unfolding serialize_bytes_def if_not_P [OF no]
      using le h
      by (auto intro!: ok_bind [OF a] ok_bind [OF b] ok_bind [OF body] ok_bind [OF buf_cat_owns]
          finish_pad_ok simp: length_tl_head)
  qed
qed

lemma serialize_str_ok:
  assumes v: "views b bs" and le: "length bs + 9 < 2 ^ 32"
  shows "ok (serialize_str b) (\<lambda>s. owns s (tl_string bs))"
proof -
  have n: "unat (bsize b) = length bs"
    using v by (rule views_length)
  have small: "bsize b \<le> 253 \<longleftrightarrow> length bs \<le> 253"
    by (simp add: word_le_nat_alt n)
  note heads = tl_head_bytes [of "bsize b" "length bs"]
  show ?thesis
  proof (cases "length bs \<le> 253")
    case True
    have "ok (buf_add (le_bytes 4 (bsize b)) 1) (\<lambda>s. owns s (tl_head (length bs)))"
      using True n le heads(1) by (intro ok_mono [OF buf_add_ok]) (auto simp: take_le_bytes)
    then show ?thesis
      using True le v unfolding serialize_str_def Let_def if_P [OF small [THEN iffD2, OF True]]
      by (elim ok_bind) (auto intro!: ok_bind [OF buf_cat_owns] finish_pad_ok simp: length_tl_head)
  next
    case False
    have a: "ok (buf_add [0xfe] 1) (\<lambda>s. owns s [0xfe])"
      by (intro ok_mono [OF buf_add_ok]) auto
    have b: "ok (buf_add (le_bytes 4 (bsize b)) 3) (\<lambda>s. owns s (le_bytes 3 (bsize b)))"
      by (intro ok_mono [OF buf_add_ok]) (auto simp: take_le_bytes)
    have h: "0xfe # le_bytes 3 (bsize b) = tl_head (length bs)"
      using False n le heads(2) by simp
    have no: "\<not> bsize b \<le> 253"
      using False small by simp
    note fin = finish_pad_ok(2) [unfolded Let_def]
    show ?thesis
      unfolding serialize_str_def Let_def if_not_P [OF no]
      using le h v
      by (auto intro!: ok_bind [OF a] ok_bind [OF b] ok_bind [OF buf_cat_owns] fin [where h = "tl_head (length bs)"]
          simp: length_tl_head simp del: if_not_P)
  qed
qed

text \<open>A string without a zero byte, followed by its terminator.\<close>

lemma takeWhile_nonzero: "0 \<notin> set s \<Longrightarrow> takeWhile (\<lambda>c. c \<noteq> 0) (s @ 0 # rest) = s"
  by (induction s) auto

lemma serialize_string_ok:
  assumes "0 \<notin> set s" and "length s + 9 < 2 ^ 32"
  shows "ok (serialize_string (s @ 0 # rest)) (\<lambda>b. owns b (tl_string s))"
  using assms unfolding serialize_string_def
  using serialize_bytes_ok [of "strlen (s @ 0 # rest)" s "0 # rest"]
  by (simp add: strlen_def takeWhile_nonzero unat_of_nat)

section \<open>Readers invert the format\<close>

lemma deserialize_ui_ok:
  "views b (le_bytes 4 v @ rest) \<Longrightarrow> deserialize_ui32 b = Some (v, skip 4 b) \<and> views (skip 4 b) rest"
  "views b (le_bytes 8 w @ rest) \<Longrightarrow> deserialize_ui64 b = Some (w, skip 8 b) \<and> views (skip 8 b) rest"
  "views b (le_bytes 8 w @ rest) \<Longrightarrow> deserialize_double b = Some (w, skip 8 b) \<and> views (skip 8 b) rest"
  by (auto simp: deserialize_ui32_def deserialize_ui64_def deserialize_double_def buf_get_ok le_simps
      dest: skip_views [of b _ 4] skip_views [of b _ 8])

lemma advance_views:
  assumes "views b (xs @ rest)" and "length xs = unat (sz :: u32)" and "unat sz < 2 ^ 31"
  shows "advance (sint sz) b = Some (skip (unat sz) b)" and "views (skip (unat sz) b) rest"
proof -
  show "advance (sint sz) b = Some (skip (unat sz) b)"
    unfolding advance_def sint_small [OF assms(3)] nat_int_unat skip_def by (simp del: of_nat_unat)
  show "views (skip (unat sz) b) rest"
    using skip_views [OF assms(1), of "unat sz"] assms(2) by simp
qed

lemma deserialize_buf_ok:
  assumes v: "views b (xs @ rest)" and n: "length xs = unat sz" and lt: "unat sz < 2 ^ 31"
  shows "ok (deserialize_buf b sz) (\<lambda>(r, b'). owns r xs \<and> views b' rest)"
proof -
  have "peeks b 0 (unat sz) = Some xs"
    using views_peeks [OF v, of 0 "unat sz"] n by simp
  moreover have "ok (buf_add xs sz) (\<lambda>r. owns r xs)"
    using n lt by (intro ok_mono [OF buf_add_ok]) auto
  ultimately show ?thesis
    using advance_views [OF v n lt] by (auto simp: deserialize_buf_def elim!: ok_bind)
qed

text \<open>After the payload, the pad brings the position to the next multiple of four.\<close>

lemma after_bytes_views:
  assumes "views b (bs @ replicate (padn (unat ofs + length bs)) 0 @ rest)"
    and "unat len = length bs" and "length bs + unat ofs < 2 ^ 32"
  shows "views (snd (after_bytes b s len ofs)) rest" and "fst (after_bytes b s len ofs) = s"
proof -
  define p where "p = unat (pad_of (len + ofs))"
  have p: "p = padn (unat ofs + length bs)"
    using assms(2,3) by (simp add: p_def unat_pad_of unat_add_u32 add.commute)
  have 1: "views (skip (unat len) b) (replicate p 0 @ rest)"
    using skip_views [OF assms(1), of "unat len"] assms(2) p by simp
  have "views (skip p (skip (unat len) b)) rest"
    using skip_views [OF 1, of p] by simp
  with 1 show "views (snd (after_bytes b s len ofs)) rest"
    by (auto simp: after_bytes_def Let_def p_def)
  show "fst (after_bytes b s len ofs) = s"
    by (simp add: after_bytes_def Let_def)
qed

text \<open>The encoding is read back for every length below 2 to the 24.\<close>

lemma deserialize_bytes_ok:
  assumes v: "views b (tl_string bs @ rest)" and len: "length bs < 2 ^ 24"
  shows "ok (deserialize_bytes b) (\<lambda>(s, b'). owns s bs \<and> views b' rest)"
proof -
  have four: "peeks b 0 4 = Some (take 4 (tl_string bs))"
    using views_peeks [OF v, of 0 4] tl_string_ge_4 [of bs] by simp
  have byte: "ok (buf_add (take 4 (tl_string bs)) 4) (\<lambda>c. owns c (take 4 (tl_string bs)))"
    using tl_string_ge_4 [of bs] by (intro ok_mono [OF buf_add_ok]) auto
  have first: "peek c 0 = Some (hd (tl_head (length bs)))" if "owns c (take 4 (tl_string bs))" for c
    using views_peek [of c "take 4 (tl_string bs)" 0] that
    by (auto simp: owns_def tl_string_def Let_def tl_head_def nth_append)
  show ?thesis
  proof (cases "length bs \<le> 253")
    case True
    then have le: "(of_nat (length bs) :: byte) \<le> 253"
      by (simp add: word_le_nat_alt unat_of_nat)
    have hd: "hd (tl_head (length bs)) = of_nat (length bs)"
      using True by (simp add: tl_head_def)
    define len1 :: u32 where "len1 = ucast (of_nat (length bs) :: byte)"
    have n: "unat len1 = length bs"
      using True by (simp add: len1_def unsigned_ucast_eq take_bit_nat_eq_self unat_of_nat)
    have v1: "views (skip 1 b) (bs @ replicate (padn (unat (1 :: u32) + length bs)) 0 @ rest)"
      using skip_views [OF v, of 1] True by (simp add: tl_string_def tl_head_def Let_def)
    have p: "peeks (skip 1 b) 0 (unat len1) = Some bs"
      using views_peeks [OF v1, of 0 "length bs"] n by simp
    have s: "ok (buf_add bs len1) (\<lambda>s. owns s bs)"
      using n len by (intro ok_mono [OF buf_add_ok]) auto
    have "ok (let b = skip 1 b in do {
        bs \<leftarrow> peeks b 0 (unat len1); s \<leftarrow> buf_add bs len1; Some (after_bytes b s len1 1) })
      (\<lambda>(s, b'). owns s bs \<and> views b' rest)"
      unfolding Let_def p bind.bind_lunit
      using after_bytes_views [OF v1 n] len n
      by (intro ok_bind [OF s]) (auto simp: split_beta)
    then show ?thesis
      unfolding deserialize_bytes_def four bind.bind_lunit
      by (intro ok_bind [OF byte]) (simp add: first hd le len1_def Let_def)
  next
    case False
    then have ge: "253 < length bs" by simp
    have v4: "views (skip 4 b) (bs @ replicate (padn (unat (0 :: u32) + length bs)) 0 @ rest)"
      using skip_views [OF v, of 4] ge
      by (simp add: tl_string_def tl_head_def Let_def padn_def mod_add_left_eq [symmetric, of 4])
    have head: "take 4 (tl_string bs) = 0xfe # le_bytes 3 (of_nat (length bs) :: u32)"
      using ge by (simp add: tl_string_def tl_head_def Let_def)
    define w :: u32 where "w = of_nat (length bs)"
    have w: "unat w = length bs"
      using len by (simp add: w_def unat_of_nat)
    have one: "peeks b 0 1 = Some [0xfe]"
      using views_peeks [OF v, of 0 1] ge by (simp add: tl_string_def tl_head_def Let_def)
    have three: "peeks b 1 3 = Some (le_bytes 3 w)"
      using views_peeks [OF v, of 1 3] ge by (simp add: tl_string_def tl_head_def Let_def w_def)
    have a: "ok (buf_add [0xfe] 1) (\<lambda>c. owns c [0xfe])"
      by (intro ok_mono [OF buf_add_ok]) auto
    have same: "buf_cmp c d = Some True" if "owns c [0xfe]" "owns d [0xfe]" for c d
      using buf_cmp_ok [of c "[0xfe]" d "[0xfe]"] that by (auto simp: owns_def)
    have lenb: "ok (buf_add (le_bytes 3 w) 3) (\<lambda>c. buf_get_ui32 (c\<lparr>bsize := 4\<rparr>) = Some w)"
    proof -
      have l: "le_val (le_bytes 3 w @ replicate 1 0) = w"
        using le_val_pad [of w 3 1, where ?'b = 32] w len by simp
      have "map (\<lambda>j. if j < 3 then le_bytes 3 w ! j else 0) [0..<4] = le_bytes 3 w @ replicate 1 0"
        by (rule map_nth_shift) (auto simp: nth_append)
      then show ?thesis
        using l by (simp add: buf_add_small buf_get_ui32_def peeks_def BUFSIZ_def)
    qed
    have p: "peeks (skip 4 b) 0 (unat w) = Some bs"
      using views_peeks [OF v4, of 0 "length bs"] w by simp
    have s: "ok (buf_add bs w) (\<lambda>s. owns s bs)"
      using w len by (intro ok_mono [OF buf_add_ok]) auto
    have hd: "\<not> hd (tl_head (length bs)) \<le> 253"
      using ge by (simp add: tl_head_def)
    show ?thesis
      unfolding deserialize_bytes_def four bind.bind_lunit
      apply (rule ok_bind [OF byte])
      apply (simp only: first bind.bind_lunit if_not_P [OF hd] one three)
      apply (rule ok_bind [OF a])
      apply (rule ok_bind [OF a])
      apply (simp only: same bind.bind_lunit)
      apply (rule ok_bind [OF lenb])
      apply (simp only: bind.bind_lunit Let_def p)
      apply (rule ok_bind [OF s])
      using after_bytes_views [OF v4 w] len
      apply (auto simp: split_beta)
      done
  qed
qed

section \<open>The contract of a reader\<close>

locale wire_field =
  fixes get :: "buf_t \<Rightarrow> ('c \<times> buf_t) option"
    and enc :: "'a \<Rightarrow> byte list"
    and rel :: "'c \<Rightarrow> 'a \<Rightarrow> bool"
    and valid :: "'a \<Rightarrow> bool"
  assumes get_ok: "valid x \<Longrightarrow> views b (enc x @ rest) \<Longrightarrow>
    ok (get b) (\<lambda>(c, b'). rel c x \<and> views b' rest)"
begin

text \<open>Reading a sequence of elements reads each of them.\<close>

lemma many_ok:
  "list_all valid xs \<Longrightarrow> views b (concat (map enc xs) @ rest) \<Longrightarrow>
     ok (read_many get (length xs) b) (\<lambda>(cs, b'). list_all2 rel cs xs \<and> views b' rest)"
proof (induction xs arbitrary: b)
  case Nil
  then show ?case by simp
next
  case (Cons x xs)
  from Cons.prems have x: "ok (get b) (\<lambda>(c, b'). rel c x \<and> views b' (concat (map enc xs) @ rest))"
    by (intro get_ok) auto
  have xs: "ok (read_many get (length xs) b') (\<lambda>(cs, b'). list_all2 rel cs xs \<and> views b' rest)"
    if "views b' (concat (map enc xs) @ rest)" for b'
    using that Cons by simp
  show ?case
    by (auto intro!: ok_bind [OF x] ok_bind [OF xs])
qed

text \<open>Two fields in a row.\<close>

lemma then_ok:
  assumes "valid x" and "views b (enc x @ ys)"
    and "\<And>c b'. rel c x \<Longrightarrow> views b' ys \<Longrightarrow> ok (f c b') Q"
  shows "ok (get b \<bind> (\<lambda>(c, b'). f c b')) Q"
  using assms by (auto intro!: ok_bind [OF get_ok])

end

interpretation ui32: wire_field deserialize_ui32 "le_bytes 4" "(=)" "\<lambda>_. True"
  by unfold_locales (use deserialize_ui_ok in fastforce)

interpretation ui64: wire_field deserialize_ui64 "le_bytes 8" "(=)" "\<lambda>_. True"
  by unfold_locales (use deserialize_ui_ok in fastforce)

interpretation dbl: wire_field deserialize_double "le_bytes 8" "(=)" "\<lambda>_. True"
  by unfold_locales (use deserialize_ui_ok in fastforce)

interpretation str: wire_field deserialize_bytes tl_string owns "\<lambda>bs. length bs < 2 ^ 24"
  by unfold_locales (rule deserialize_bytes_ok)

interpretation fix128: wire_field "\<lambda>b. deserialize_buf b 16" "\<lambda>bs. bs" owns "\<lambda>bs. length bs = 16"
  by unfold_locales (rule deserialize_buf_ok, auto)

interpretation fix256: wire_field "\<lambda>b. deserialize_buf b 32" "\<lambda>bs. bs" owns "\<lambda>bs. length bs = 32"
  by unfold_locales (rule deserialize_buf_ok, auto)

text \<open>A message of a container: identifier, sequence number, length and body.\<close>

type_synonym wire_msg = "u64 \<times> u32 \<times> byte list"

definition enc_msg :: "wire_msg \<Rightarrow> byte list" where
  "enc_msg m = (case m of (i, q, bd) \<Rightarrow>
     le_bytes 8 i @ le_bytes 4 q @ le_bytes 4 (of_nat (length bd) :: u32) @ bd)"

definition rel_msg :: "mtp_message_t \<Rightarrow> wire_msg \<Rightarrow> bool" where
  "rel_msg r m = (case m of (i, q, bd) \<Rightarrow>
     mtp_msg_id r = i \<and> mtp_seqno r = q \<and> unat (mtp_bytes r) = length bd \<and> owns (mtp_body r) bd)"

lemma deserialize_mtp_message_ok:
  assumes v: "views b (enc_msg m @ rest)" and len: "length (snd (snd m)) < 2 ^ 31"
  shows "ok (deserialize_mtp_message b) (\<lambda>(r, b'). rel_msg r m \<and> views b' rest)"
proof -
  obtain i q bd where m: "m = (i, q, bd)"
    by (cases m)
  have n: "length bd = unat (of_nat (length bd) :: u32)"
    using len m by (simp add: unat_of_nat)
  have v1: "views b (le_bytes 8 i @ le_bytes 4 q @ le_bytes 4 (of_nat (length bd) :: u32) @ bd @ rest)"
    using v by (simp add: m enc_msg_def)
  show ?thesis
    unfolding deserialize_mtp_message_def
    apply (rule ui64.then_ok [OF TrueI v1])
    apply (rule ui32.then_ok [OF TrueI], assumption)
    apply (rule ui32.then_ok [OF TrueI], assumption)
    apply (hypsubst, rule ok_bind [OF deserialize_buf_ok [OF _ n]])
    using len m by (auto simp: rel_msg_def)
qed

interpretation msg: wire_field deserialize_mtp_message enc_msg rel_msg
  "\<lambda>m. length (snd (snd m)) < 2 ^ 31"
  by unfold_locales (rule deserialize_mtp_message_ok)

end
