(* ===== verification/GenSer.thy ===== *)
theory GenSer
  imports Schema Codec
begin

text \<open>
  The writers that tl_generator/generator.c generates.  append_methods emits for each declaration
  a C function whose body is a sequence of statements drawn from a few templates; a template is a
  constructor of \<^theory_text>\<open>sstmt\<close>, the emitting function a function on the declaration, and
  \<^theory_text>\<open>exec_sstmt\<close> gives the C text of each template its meaning over the buffer.  A
  pointer to a flags word is its position in the block together with the size of the block at the
  time: after a reallocation it dangles, and writing through it is undefined.
\<close>

section \<open>Emitted statements\<close>

datatype selem = EBytes | EString | EInt | ELong | EDouble | EObj

datatype sop = SInt | SFixed nat | SLong | SDouble | SStr | SBytes | SString | SVector selem | SObj

text \<open>\<^theory_text>\<open>SFlags k\<close> declares the pointer to flags word \<^theory_text>\<open>k\<close> and appends the
  word 0; \<^theory_text>\<open>SSetIf\<close> sets a bit for a true argument; \<^theory_text>\<open>SPut\<close> appends an
  argument, under a null check and followed by the setting of its bit when it is optional.\<close>

datatype sstmt =
    SFlags nat
  | SSetIf string nat nat
  | SPut string "(nat \<times> nat) option" sop

definition emit_true :: "arg_t \<Rightarrow> sstmt list" where
  "emit_true a = (if flagn a \<noteq> 0 then [SSetIf (arg_name a) (flagn a) (flagb a)] else [])"

definition emit_int :: "arg_t \<Rightarrow> sstmt list" where
  "emit_int a = [SPut (arg_name a) (flag_of a) SInt]"

definition emit_i128 :: "arg_t \<Rightarrow> sstmt list" where
  "emit_i128 a = [SPut (arg_name a) (flag_of a) (SFixed 16)]"

definition emit_i256 :: "arg_t \<Rightarrow> sstmt list" where
  "emit_i256 a = [SPut (arg_name a) (flag_of a) (SFixed 32)]"

definition emit_long :: "arg_t \<Rightarrow> sstmt list" where
  "emit_long a = [SPut (arg_name a) (flag_of a) SLong]"

definition emit_double :: "arg_t \<Rightarrow> sstmt list" where
  "emit_double a = [SPut (arg_name a) (flag_of a) SDouble]"

definition emit_str :: "arg_t \<Rightarrow> sstmt list" where
  "emit_str a = [SPut (arg_name a) (flag_of a) SStr]"

definition emit_bytes :: "arg_t \<Rightarrow> sstmt list" where
  "emit_bytes a = [SPut (arg_name a) (flag_of a) SBytes]"

definition emit_string :: "arg_t \<Rightarrow> sstmt list" where
  "emit_string a = [SPut (arg_name a) (flag_of a) SString]"

definition elem_kind :: "string \<Rightarrow> selem" where
  "elem_kind ty =
     (if ty = ''bytes'' then EBytes
      else if ty = ''string'' then EString
      else if ty = ''int'' \<or> ty = ''bool'' then EInt
      else if ty = ''long'' then ELong
      else if ty = ''double'' then EDouble
      else EObj)"

definition emit_vector :: "arg_t \<Rightarrow> string \<Rightarrow> sstmt list" where
  "emit_vector a ty = [SPut (arg_name a) (flag_of a) (SVector (elem_kind ty))]"

definition emit_x :: "arg_t \<Rightarrow> sstmt list" where
  "emit_x a = [SPut (arg_name a) (flag_of a) SObj]"

text \<open>The chain of tests for an argument with a type; \<^theory_text>\<open>mtp\<close> is
  \<^theory_text>\<open>isMtproto\<close>.\<close>

definition emit_typed :: "bool \<Rightarrow> arg_t \<Rightarrow> string \<Rightarrow> sstmt list" where
  "emit_typed mtp a ty =
     (if ty = ''true'' then emit_true a
      else if ty = ''int'' \<or> ty = ''bool'' then emit_int a
      else if ty = ''int128'' then emit_i128 a
      else if ty = ''int256'' then emit_i256 a
      else if ty = ''long'' then emit_long a
      else if ty = ''double'' then emit_double a
      else if ty = ''string'' \<and> mtp then emit_str a
      else if ty = ''bytes'' then emit_bytes a
      else if ty = ''string'' then emit_string a
      else (case vector_of ty of Some el \<Rightarrow> emit_vector a el | None \<Rightarrow> emit_x a))"

text \<open>The loop over the arguments; \<^theory_text>\<open>nflag\<close> counts the flags words met.\<close>

fun emit_args :: "bool \<Rightarrow> nat \<Rightarrow> arg_t list \<Rightarrow> sstmt list" where
  "emit_args mtp nflag [] = []"
| "emit_args mtp nflag (a # as) =
     (case arg_type a of
        None \<Rightarrow> (if strstr (arg_name a) ''flags'' \<noteq> None
                 then SFlags (Suc nflag) # emit_args mtp (Suc nflag) as
                 else emit_args mtp nflag as)
      | Some ty \<Rightarrow> emit_typed mtp a ty @ emit_args mtp nflag as)"

section \<open>Their meaning\<close>

text \<open>The arguments of the generated function, by name; an absent one is a null pointer.  A C
  string is the memory it points to, a vector the array with its length argument.\<close>

datatype aval = AInt u32 | ALong u64 | ADouble u64 | ABool bool | ABuf buf_t | AMem "byte list"
  | AVec "aval list"

definition as_int :: "aval \<Rightarrow> u32 option" where
  "as_int x = (case x of AInt v \<Rightarrow> Some v | ABool t \<Rightarrow> Some (of_bool t) | _ \<Rightarrow> None)"

definition as_long :: "aval \<Rightarrow> u64 option" where
  "as_long x = (case x of ALong v \<Rightarrow> Some v | _ \<Rightarrow> None)"

definition as_double :: "aval \<Rightarrow> u64 option" where
  "as_double x = (case x of ADouble v \<Rightarrow> Some v | _ \<Rightarrow> None)"

definition as_buf :: "aval \<Rightarrow> buf_t option" where
  "as_buf x = (case x of ABuf b \<Rightarrow> Some b | _ \<Rightarrow> None)"

definition as_mem :: "aval \<Rightarrow> byte list option" where
  "as_mem x = (case x of AMem m \<Rightarrow> Some m | _ \<Rightarrow> None)"

definition as_vec :: "aval \<Rightarrow> aval list option" where
  "as_vec x = (case x of AVec xs \<Rightarrow> Some xs | _ \<Rightarrow> None)"

definition put_bytes :: "buf_t \<Rightarrow> buf_t \<Rightarrow> buf_t option" where
  "put_bytes x b = do {
     bs \<leftarrow> peeks x 0 (unat (bsize x));
     s \<leftarrow> serialize_bytes bs (ucast (bsize x));
     buf_cat b s
   }"

definition put_string :: "byte list \<Rightarrow> buf_t \<Rightarrow> buf_t option" where
  "put_string m b = do { s \<leftarrow> serialize_string m; buf_cat b s }"

definition put_elem :: "selem \<Rightarrow> aval \<Rightarrow> buf_t \<Rightarrow> buf_t option" where
  "put_elem e x b = (case e of
     EBytes \<Rightarrow> do { x \<leftarrow> as_buf x; put_bytes x b }
   | EString \<Rightarrow> do { m \<leftarrow> as_mem x; put_string m b }
   | EInt \<Rightarrow> do { v \<leftarrow> as_int x; buf_cat_ui32 b v }
   | ELong \<Rightarrow> do { v \<leftarrow> as_long x; buf_cat_ui64 b v }
   | EDouble \<Rightarrow> do { v \<leftarrow> as_double x; buf_cat_double b v }
   | EObj \<Rightarrow> do { x \<leftarrow> as_buf x; buf_cat b x })"

fun put_elems :: "selem \<Rightarrow> aval list \<Rightarrow> buf_t \<Rightarrow> buf_t option" where
  "put_elems e [] b = Some b"
| "put_elems e (x # xs) b = do { b' \<leftarrow> put_elem e x b; put_elems e xs b' }"

definition tl_vector :: "buf_t option" where
  "tl_vector = buf_add_ui32 id_vector"

definition put_op :: "sop \<Rightarrow> aval \<Rightarrow> buf_t \<Rightarrow> buf_t option" where
  "put_op op x b = (case op of
     SInt \<Rightarrow> do { v \<leftarrow> as_int x; buf_cat_ui32 b v }
   | SFixed n \<Rightarrow> do { x \<leftarrow> as_buf x; bs \<leftarrow> peeks x 0 n; buf_cat_data b bs (of_nat n) }
   | SLong \<Rightarrow> do { v \<leftarrow> as_long x; buf_cat_ui64 b v }
   | SDouble \<Rightarrow> do { v \<leftarrow> as_double x; buf_cat_double b v }
   | SStr \<Rightarrow> do { x \<leftarrow> as_buf x; s \<leftarrow> serialize_str x; buf_cat b s }
   | SBytes \<Rightarrow> do { x \<leftarrow> as_buf x; put_bytes x b }
   | SString \<Rightarrow> do { m \<leftarrow> as_mem x; put_string m b }
   | SVector e \<Rightarrow> do {
       xs \<leftarrow> as_vec x;
       v \<leftarrow> tl_vector;
       b \<leftarrow> buf_cat b v;
       b \<leftarrow> buf_cat_ui32 b (of_nat (length xs));
       put_elems e xs b
     }
   | SObj \<Rightarrow> do { x \<leftarrow> as_buf x; buf_cat b x })"

record sstate =
  sbuf :: buf_t
  sflags :: "nat \<Rightarrow> (nat \<times> u32) option"

text \<open>\<^theory_text>\<open>*flagN |= (1 << b)\<close> through the pointer taken when the word was appended.\<close>

definition or_word :: "buf_t \<Rightarrow> nat \<Rightarrow> u32 \<Rightarrow> buf_t" where
  "or_word b off m = (let w = le_val (map (\<lambda>i. aptr b (off + i)) [0..<4]) OR m in
     b\<lparr>aptr := (\<lambda>j. if off \<le> j \<and> j < off + 4 then le_bytes 4 w ! (j - off) else aptr b j)\<rparr>)"

definition set_flag :: "nat \<Rightarrow> nat \<Rightarrow> sstate \<Rightarrow> sstate option" where
  "set_flag n bt st = (case sflags st n of
     None \<Rightarrow> None
   | Some (off, asz) \<Rightarrow>
       (if asize (sbuf st) \<noteq> asz \<or> off + 4 > unat asz + 1 then None
        else Some (st\<lparr>sbuf := or_word (sbuf st) off (push_bit bt 1)\<rparr>)))"

definition declare_flags :: "nat \<Rightarrow> sstate \<Rightarrow> sstate option" where
  "declare_flags k st = (let b = sbuf st; p = (data b + unat (bsize b), asize b) in do {
     b' \<leftarrow> buf_cat_ui32 b 0;
     Some (st\<lparr>sbuf := b', sflags := (sflags st)(k \<mapsto> p)\<rparr>)
   })"

definition exec_put :: "aval option \<Rightarrow> (nat \<times> nat) option \<Rightarrow> sop \<Rightarrow> sstate \<Rightarrow> sstate option" where
  "exec_put v g op st =
     (case g of
        None \<Rightarrow> do { x \<leftarrow> v; b \<leftarrow> put_op op x (sbuf st); Some (st\<lparr>sbuf := b\<rparr>) }
      | Some (n, bt) \<Rightarrow>
          (case v of
             None \<Rightarrow> Some st
           | Some x \<Rightarrow> do { b \<leftarrow> put_op op x (sbuf st); set_flag n bt (st\<lparr>sbuf := b\<rparr>) }))"

fun exec_sstmt :: "(string \<Rightarrow> aval option) \<Rightarrow> sstmt \<Rightarrow> sstate \<Rightarrow> sstate option" where
  "exec_sstmt env (SFlags k) st = declare_flags k st"
| "exec_sstmt env (SSetIf x n bt) st =
     (case env x of Some (ABool t) \<Rightarrow> if t then set_flag n bt st else Some st | _ \<Rightarrow> None)"
| "exec_sstmt env (SPut x g op) st = exec_put (env x) g op st"

fun exec_sstmts :: "(string \<Rightarrow> aval option) \<Rightarrow> sstmt list \<Rightarrow> sstate \<Rightarrow> sstate option" where
  "exec_sstmts env [] st = Some st"
| "exec_sstmts env (s # ss) st = do { st' \<leftarrow> exec_sstmt env s st; exec_sstmts env ss st' }"

text \<open>The generated function of a declaration, called with arguments.\<close>

definition tl_method :: "bool \<Rightarrow> method_t \<Rightarrow> (string \<Rightarrow> aval option) \<Rightarrow> buf_t option" where
  "tl_method mtp m env = do {
     b \<leftarrow> buf_add_ui32 (m_id m);
     st \<leftarrow> exec_sstmts env (emit_args mtp 0 (m_args m)) \<lparr>sbuf = b, sflags = Map.empty\<rparr>;
     Some (sbuf st)
   }"

end
