(* ===== verification/GenDes.thy ===== *)
theory GenDes
  imports Schema Codec
begin

text \<open>
  The readers that tl_generator/generator.c generates (append_deserialize_table) and the
  dispatch of tl/deserialize.c over them.  As for the writers, a template of emitted C text is a
  constructor of \<^theory_text>\<open>dstmt\<close>.  A generated reader fills a zeroed object: the fields that
  are read are listed in order, a field that is not listed is zero.  Objects nest, so the readers
  call tl_deserialize; the recursion is bounded by a fuel argument, with
  \<^theory_text>\<open>None\<close> for running out.
\<close>

section \<open>Emitted statements\<close>

datatype delem = DEInt | DEBool | DELong | DEDouble | DEBytes | DEMessage | DEObj

datatype dop = DInt | DTrue | DBool | DLong | DDouble | DBytes | DFixed nat | DVector delem | DObj

datatype dstmt =
    DFlags nat
  | DGet string "(nat \<times> nat) option" dop

definition delem_kind :: "string \<Rightarrow> delem" where
  "delem_kind ty =
     (if ty = ''int'' then DEInt
      else if ty = ''bool'' then DEBool
      else if ty = ''long'' then DELong
      else if ty = ''double'' then DEDouble
      else if ty = ''string'' then DEBytes
      else if ty = ''bytes'' then DEBytes
      else if ty = ''%Message'' then DEMessage
      else DEObj)"

definition dop_kind :: "string \<Rightarrow> dop" where
  "dop_kind ty =
     (if ty = ''int'' then DInt
      else if ty = ''true'' then DTrue
      else if ty = ''bool'' then DBool
      else if ty = ''long'' then DLong
      else if ty = ''double'' then DDouble
      else if ty = ''string'' then DBytes
      else if ty = ''bytes'' then DBytes
      else if ty = ''int128'' then DFixed 16
      else if ty = ''int256'' then DFixed 32
      else (case vector_of ty of Some el \<Rightarrow> DVector (delem_kind el) | None \<Rightarrow> DObj))"

fun gen_des :: "nat \<Rightarrow> arg_t list \<Rightarrow> dstmt list" where
  "gen_des nflag [] = []"
| "gen_des nflag (a # as) =
     (case arg_type a of
        None \<Rightarrow> (if strstr (arg_name a) ''flags'' \<noteq> None
                 then DFlags (Suc nflag) # gen_des (Suc nflag) as
                 else gen_des nflag as)
      | Some ty \<Rightarrow> DGet (arg_name a) (flag_of a) (dop_kind ty) # gen_des nflag as)"

section \<open>Their meaning\<close>

text \<open>What a field holds; a byte string field is a fresh buffer, given by its bytes, and a null
  object pointer is \<^theory_text>\<open>FObj None\<close>.  An object keeps its identifier, a copy of the
  buffer it was read from and its fields.\<close>

datatype fval =
    FInt u32
  | FBool bool
  | FLong u64
  | FDouble u64
  | FBytes "byte list"
  | FMsg u64 u32 u32 "byte list"
  | FVec "fval list"
  | FObj "tl_obj option"
and tl_obj = TL u32 "byte list" "(string \<times> fval) list"

type_synonym tl_result = "(tl_obj option \<times> buf_t) option"

definition rd_map :: "('a \<Rightarrow> 'b) \<Rightarrow> ('a \<times> buf_t) option \<Rightarrow> ('b \<times> buf_t) option" where
  "rd_map f m = map_option (\<lambda>(x, b). (f x, b)) m"

definition msg_field :: "mtp_message_t \<Rightarrow> fval" where
  "msg_field r = FMsg (mtp_msg_id r) (mtp_seqno r) (mtp_bytes r) (view (mtp_body r))"

definition get_elem :: "(buf_t \<Rightarrow> tl_result) \<Rightarrow> delem \<Rightarrow> buf_t \<Rightarrow> (fval \<times> buf_t) option" where
  "get_elem des e b = (case e of
     DEInt \<Rightarrow> rd_map FInt (deserialize_ui32 b)
   | DEBool \<Rightarrow> rd_map (\<lambda>c. FBool (c \<noteq> 0)) (deserialize_ui32 b)
   | DELong \<Rightarrow> rd_map FLong (deserialize_ui64 b)
   | DEDouble \<Rightarrow> rd_map FDouble (deserialize_double b)
   | DEBytes \<Rightarrow> rd_map (\<lambda>s. FBytes (view s)) (deserialize_bytes b)
   | DEMessage \<Rightarrow> rd_map msg_field (deserialize_mtp_message b)
   | DEObj \<Rightarrow> rd_map FObj (des b))"

text \<open>A vector: the count, or the vector identifier and then the count; a count that is negative
  as an int or above 100 makes the reader return the object as it is, the count stored.\<close>

definition get_len :: "buf_t \<Rightarrow> (u32 \<times> buf_t) option" where
  "get_len b = do {
     (l, b) \<leftarrow> deserialize_ui32 b;
     (if l = id_vector then deserialize_ui32 b else Some (l, b))
   }"

datatype step = Next "(string \<times> fval) list" buf_t | Return "(string \<times> fval) list" buf_t

definition get_vector :: "(buf_t \<Rightarrow> tl_result) \<Rightarrow> string \<Rightarrow> delem \<Rightarrow> (string \<times> fval) list \<Rightarrow> buf_t \<Rightarrow> step option" where
  "get_vector des x e fs b = do {
     (l, b) \<leftarrow> get_len b;
     (if sint l < 0 \<or> sint l > 100 then Some (Return (fs @ [(x @ ''_len'', FInt l)]) b)
      else do {
        (vs, b) \<leftarrow> read_many (get_elem des e) (unat l) b;
        Some (Next (fs @ [(x, FVec vs)]) b)
      })
   }"

definition put_field :: "(string \<times> fval) list \<Rightarrow> string \<Rightarrow> (fval \<times> buf_t) option \<Rightarrow> step option" where
  "put_field fs x m = map_option (\<lambda>(v, b). Next (fs @ [(x, v)]) b) m"

definition get_op :: "(buf_t \<Rightarrow> tl_result) \<Rightarrow> string \<Rightarrow> dop \<Rightarrow> (string \<times> fval) list \<Rightarrow> buf_t \<Rightarrow> step option" where
  "get_op des x op fs b = (case op of
     DInt \<Rightarrow> put_field fs x (rd_map FInt (deserialize_ui32 b))
   | DTrue \<Rightarrow> Some (Next (fs @ [(x, FBool True)]) b)
   | DBool \<Rightarrow> put_field fs x (rd_map (\<lambda>c. FBool (c \<noteq> 0)) (deserialize_ui32 b))
   | DLong \<Rightarrow> put_field fs x (rd_map FLong (deserialize_ui64 b))
   | DDouble \<Rightarrow> put_field fs x (rd_map FDouble (deserialize_double b))
   | DBytes \<Rightarrow> put_field fs x (rd_map (\<lambda>s. FBytes (view s)) (deserialize_bytes b))
   | DFixed n \<Rightarrow> put_field fs x (rd_map (\<lambda>s. FBytes (view s)) (deserialize_buf b (of_nat n)))
   | DVector e \<Rightarrow> get_vector des x e fs b
   | DObj \<Rightarrow> put_field fs x (rd_map FObj (des b)))"

text \<open>Whether an argument is read: always, or when its bit of its flags word is set.\<close>

definition flag_on :: "(nat \<Rightarrow> u32 option) \<Rightarrow> (nat \<times> nat) option \<Rightarrow> bool option" where
  "flag_on fl g = (case g of
     None \<Rightarrow> Some True
   | Some (n, bt) \<Rightarrow> map_option (\<lambda>w. w AND push_bit bt 1 = push_bit bt 1) (fl n))"

fun exec_dstmts :: "(buf_t \<Rightarrow> tl_result) \<Rightarrow> (nat \<Rightarrow> u32 option) \<Rightarrow> dstmt list \<Rightarrow>
    (string \<times> fval) list \<Rightarrow> buf_t \<Rightarrow> ((string \<times> fval) list \<times> buf_t) option" where
  "exec_dstmts des fl [] fs b = Some (fs, b)"
| "exec_dstmts des fl (DFlags k # ss) fs b = do {
     (w, b) \<leftarrow> deserialize_ui32 b;
     exec_dstmts des (fl(k \<mapsto> w)) ss fs b
   }"
| "exec_dstmts des fl (DGet x g op # ss) fs b = do {
     on \<leftarrow> flag_on fl g;
     (if \<not> on then exec_dstmts des fl ss fs b
      else do {
        r \<leftarrow> get_op des x op fs b;
        (case r of
           Next fs b \<Rightarrow> exec_dstmts des fl ss fs b
         | Return fs b \<Rightarrow> Some (fs, b))
      })
   }"

text \<open>The generated reader of a declaration.  The declaration named vector also gets a count and
  a copy of the rest of the buffer.\<close>

definition tl_read :: "(buf_t \<Rightarrow> tl_result) \<Rightarrow> method_t \<Rightarrow> buf_t \<Rightarrow> tl_result" where
  "tl_read des m b = do {
     copy \<leftarrow> buf_add_buf b;
     (i, b) \<leftarrow> deserialize_ui32 b;
     (fs, b) \<leftarrow> (if m_name m = ''vector''
        then do {
          (l, b) \<leftarrow> deserialize_ui32 b;
          d \<leftarrow> buf_add_buf b;
          Some ([(''len'', FInt l), (''data'', FBytes (view d))], b)
        }
        else Some ([], b));
     (fs, b) \<leftarrow> exec_dstmts des Map.empty (gen_des 0 (m_args m)) fs b;
     Some (Some (TL i (view copy) fs), b)
   }"

section \<open>Dispatch\<close>

text \<open>tl_deserialize_table and tl_free_table list the declarations in the order in which the
  generator met them; get_fun takes the first entry with the identifier.\<close>

fun get_fun :: "method_t list \<Rightarrow> u32 \<Rightarrow> method_t option" where
  "get_fun [] i = None"
| "get_fun (m # ms) i = (if m_id m = i then Some m else get_fun ms i)"

fun tl_deserialize :: "method_t list \<Rightarrow> nat \<Rightarrow> buf_t \<Rightarrow> tl_result" where
  "tl_deserialize table 0 b = None"
| "tl_deserialize table (Suc fuel) b = do {
     i \<leftarrow> buf_get_ui32 b;
     (if i = 0 then Some (None, b)
      else (case get_fun table i of
          None \<Rightarrow> Some (None, b)
        | Some m \<Rightarrow> tl_read (tl_deserialize table fuel) m b))
   }"

text \<open>get_free_fun searches the deserialize table but returns the entry of the free table at the
  same index; tl_free calls it.\<close>

fun get_free_fun :: "(u32 \<times> 'd) list \<Rightarrow> (u32 \<times> 'f) list \<Rightarrow> u32 \<Rightarrow> 'f option" where
  "get_free_fun [] fs i = None"
| "get_free_fun ((k, d) # ds) fs i =
     (if k = i then (case fs of [] \<Rightarrow> None | (k', f) # _ \<Rightarrow> Some f)
      else get_free_fun ds (tl fs) i)"

end
