(* ===== verification/TLSpec.thy ===== *)
theory TLSpec
  imports GenSer GenDes
begin

text \<open>
  The specification of the generated codec.  A \<^theory_text>\<open>val\<close> is the value of an argument of
  a declaration, an object being a declaration with the values of its arguments;
  \<^theory_text>\<open>enc_val\<close> is its image on the wire, in which every flags word holds exactly the bits
  of the optional arguments that are present.
\<close>

section \<open>Values and their images\<close>

datatype val =
    VNone
  | VTrue
  | VInt u32
  | VBool bool
  | VLong u64
  | VDouble u64
  | VFix "byte list"
  | VStr "byte list"
  | VMsg wire_msg
  | VVec "val list"
  | VObj method_t "val list"

text \<open>The flags words of a list of arguments with their values.\<close>

fun flag_word :: "(arg_t \<times> val) list \<Rightarrow> nat \<Rightarrow> u32" where
  "flag_word [] n = 0"
| "flag_word ((a, v) # ps) n =
     (if arg_type a \<noteq> None \<and> flagn a = n \<and> flagn a \<noteq> 0 \<and> v \<noteq> VNone then push_bit (flagb a) 1 else 0)
       OR flag_word ps n"

text \<open>The layout of the arguments' images: the \<^theory_text>\<open>k\<close>-th flags word stands where it is
  declared.\<close>

fun lay :: "(nat \<Rightarrow> u32) \<Rightarrow> nat \<Rightarrow> (arg_t \<times> byte list) list \<Rightarrow> byte list" where
  "lay fw k [] = []"
| "lay fw k ((a, bs) # ps) =
     (if is_flags a then le_bytes 4 (fw (Suc k)) @ lay fw (Suc k) ps
      else if arg_type a = None then lay fw k ps
      else bs @ lay fw k ps)"

fun enc_val :: "val \<Rightarrow> byte list" where
  "enc_val VNone = []"
| "enc_val VTrue = []"
| "enc_val (VInt i) = le_bytes 4 i"
| "enc_val (VBool t) = le_bytes 4 (of_bool t :: u32)"
| "enc_val (VLong i) = le_bytes 8 i"
| "enc_val (VDouble i) = le_bytes 8 i"
| "enc_val (VFix bs) = bs"
| "enc_val (VStr bs) = tl_string bs"
| "enc_val (VMsg m) = enc_msg m"
| "enc_val (VVec xs) = le_bytes 4 id_vector @ le_bytes 4 (of_nat (length xs) :: u32) @ concat (map enc_val xs)"
| "enc_val (VObj m vs) = le_bytes 4 (m_id m) @
     lay (flag_word (zip (m_args m) vs)) 0 (zip (m_args m) (map enc_val vs))"

abbreviation img :: "(arg_t \<times> val) list \<Rightarrow> (arg_t \<times> byte list) list" where
  "img ps \<equiv> map (\<lambda>(a, v). (a, enc_val v)) ps"

lemma zip_img: "zip as (map enc_val vs) = img (zip as vs)"
  by (simp add: zip_map2)

fun nflags :: "arg_t list \<Rightarrow> nat" where
  "nflags [] = 0"
| "nflags (a # as) = (if is_flags a then Suc (nflags as) else nflags as)"

text \<open>Every optional argument refers to a flags word declared before it and to a bit of it.\<close>

fun wf_args :: "nat \<Rightarrow> arg_t list \<Rightarrow> bool" where
  "wf_args k [] = True"
| "wf_args k (a # as) = (flagn a \<le> k \<and> flagb a < 32 \<and> wf_args (if is_flags a then Suc k else k) as)"

section \<open>Layout lemmas\<close>

lemma nflags_append: "nflags (as @ bs) = nflags as + nflags bs"
  by (induction as) auto

lemma wf_args_append: "wf_args k (as @ bs) \<longleftrightarrow> wf_args k as \<and> wf_args (k + nflags as) bs"
  by (induction as arbitrary: k) auto

lemma lay_append: "lay fw k (ps @ qs) = lay fw k ps @ lay fw (k + nflags (map fst ps)) qs"
  by (induction fw k ps rule: lay.induct) auto

lemma flag_word_append: "flag_word (ps @ qs) n = flag_word ps n OR flag_word qs n"
  by (induction ps) (auto simp: or.assoc)

lemma flag_word_fresh: "wf_args k (map fst ps) \<Longrightarrow> k + nflags (map fst ps) < n \<Longrightarrow> flag_word ps n = 0"
proof (induction ps arbitrary: k)
  case Nil
  then show ?case by simp
next
  case (Cons p ps)
  obtain a v where "p = (a, v)" by (cases p)
  with Cons show ?case
    by (cases "is_flags a") force+
qed

text \<open>The position of a flags word in the layout, and the effect of changing it.\<close>

fun flag_pos :: "nat \<Rightarrow> (arg_t \<times> byte list) list \<Rightarrow> nat \<Rightarrow> nat option" where
  "flag_pos k [] n = None"
| "flag_pos k ((a, bs) # ps) n =
     (if is_flags a
      then if n = Suc k then Some 0 else map_option ((+) 4) (flag_pos (Suc k) ps n)
      else if arg_type a = None then flag_pos k ps n
      else map_option ((+) (length bs)) (flag_pos k ps n))"

text \<open>The length of the layout does not depend on the flags words.\<close>

fun lay_len :: "(arg_t \<times> byte list) list \<Rightarrow> nat" where
  "lay_len [] = 0"
| "lay_len ((a, bs) # ps) =
     (if is_flags a then 4 else if arg_type a = None then 0 else length bs) + lay_len ps"

lemma length_lay [simp]: "length (lay fw k ps) = lay_len ps"
  by (induction fw k ps rule: lay.induct) auto

lemma map_option_plus_0 [simp]: "map_option ((+) (0 :: nat)) x = x"
  by (cases x) auto

lemma flag_pos_append:
  "flag_pos k (ps @ qs) n = (case flag_pos k ps n of
     Some p \<Rightarrow> Some p
   | None \<Rightarrow> map_option ((+) (lay_len ps)) (flag_pos (k + nflags (map fst ps)) qs n))"
  by (induction k ps n rule: flag_pos.induct)
    (auto simp: option.map_comp comp_def add.assoc split: option.splits
      intro!: option.map_cong0)

lemma flag_pos_big: "k + nflags (map fst ps) < n \<Longrightarrow> flag_pos k ps n = None"
  by (induction k ps n rule: flag_pos.induct) auto

lemma flag_pos_None: "n \<le> k \<Longrightarrow> flag_pos k ps n = None"
  by (induction k ps n rule: flag_pos.induct) auto

lemma lay_above: "(\<And>n. k < n \<Longrightarrow> fw n = fw' n) \<Longrightarrow> lay fw k ps = lay fw' k ps"
  by (induction fw k ps rule: lay.induct) auto

lemma lay_patch:
  "flag_pos k ps n = Some p \<Longrightarrow> \<exists>pre post. lay fw k ps = pre @ le_bytes 4 (fw n) @ post \<and>
     lay (fw(n := w)) k ps = pre @ le_bytes 4 w @ post \<and> length pre = p"
proof (induction k ps n arbitrary: p rule: flag_pos.induct)
  case (1 k n)
  then show ?case by simp
next
  case (2 k a bs ps n)
  show ?case
  proof (cases "is_flags a \<and> n = Suc k")
    case True
    have "lay (fw(n := w)) (Suc k) ps = lay fw (Suc k) ps"
      using True by (intro lay_above) auto
    with True 2(4) show ?thesis by (simp del: fun_upd_apply add: fun_upd_same)
  next
    case False
    consider (f) q where "is_flags a" "n \<noteq> Suc k" "flag_pos (Suc k) ps n = Some q" "p = 4 + q"
      | (o) "\<not> is_flags a" "arg_type a = None" "flag_pos k ps n = Some p"
      | (t) q y where "\<not> is_flags a" "arg_type a = Some y" "flag_pos k ps n = Some q" "p = length bs + q"
      using False 2(4) by (auto split: if_splits)
    then show ?thesis
    proof cases
      case f
      with 2(1) obtain pre post where "lay fw (Suc k) ps = pre @ le_bytes 4 (fw n) @ post"
        "lay (fw(n := w)) (Suc k) ps = pre @ le_bytes 4 w @ post" "length pre = q"
        by blast
      with f show ?thesis
        by (simp del: fun_upd_apply add: fun_upd_other)
          (rule exI [where x = "le_bytes 4 (fw (Suc k)) @ pre"],
            rule exI [where x = post], simp del: fun_upd_apply)
    next
      case o
      with 2(2) show ?thesis by simp
    next
      case t
      with 2(3) obtain pre post where "lay fw k ps = pre @ le_bytes 4 (fw n) @ post"
        "lay (fw(n := w)) k ps = pre @ le_bytes 4 w @ post" "length pre = q"
        by blast
      with t show ?thesis
        by (simp del: fun_upd_apply)
          (rule exI [where x = "bs @ pre"], rule exI [where x = post], simp)
    qed
  qed
qed

lemma flag_pos_exists:
  "k < n \<Longrightarrow> n \<le> k + nflags (map fst ps) \<Longrightarrow> \<exists>p. flag_pos k ps n = Some p"
  by (induction k ps n rule: flag_pos.induct) force+

end
