(* ===== verification/Writer.thy ===== *)
theory Writer
  imports TLSpec
begin

text \<open>
  The generated writers implement the specification: called with arguments that carry the values
  of a declaration, tl_method returns a buffer that holds the image of the object, as long as the
  image fits the block a buffer starts with.  The bound is needed: the code sets the bits of a
  flags word through a pointer into the block, which a reallocation invalidates.
\<close>

section \<open>Arguments that carry a value\<close>

definition string_at :: "byte list \<Rightarrow> byte list \<Rightarrow> bool" where
  "string_at m bs \<longleftrightarrow> 0 \<notin> set bs \<and> take (Suc (length bs)) m = bs @ [0]"

definition int_passes :: "aval \<Rightarrow> val \<Rightarrow> bool" where
  "int_passes x v = (case v of
     VInt j \<Rightarrow> x = AInt j | VBool t \<Rightarrow> x = ABool t | _ \<Rightarrow> False)"

definition bytes_passes :: "aval \<Rightarrow> val \<Rightarrow> bool" where
  "bytes_passes x v = (case v of
     VStr bs \<Rightarrow> (case as_buf x of Some b \<Rightarrow> views b bs | None \<Rightarrow> False) | _ \<Rightarrow> False)"

definition string_passes :: "aval \<Rightarrow> val \<Rightarrow> bool" where
  "string_passes x v = (case v of
     VStr bs \<Rightarrow> (case as_mem x of Some m \<Rightarrow> string_at m bs | None \<Rightarrow> False) | _ \<Rightarrow> False)"

definition obj_passes :: "aval \<Rightarrow> val \<Rightarrow> bool" where
  "obj_passes x v = (case as_buf x of Some b \<Rightarrow> views b (enc_val v) | None \<Rightarrow> False)"

definition fixed_passes :: "nat \<Rightarrow> aval \<Rightarrow> val \<Rightarrow> bool" where
  "fixed_passes n x v = (case v of
     VFix bs \<Rightarrow> (case as_buf x of Some b \<Rightarrow> views b bs \<and> length bs = n | None \<Rightarrow> False) | _ \<Rightarrow> False)"

definition long_passes :: "aval \<Rightarrow> val \<Rightarrow> bool" where
  "long_passes x v = (case v of VLong j \<Rightarrow> x = ALong j | _ \<Rightarrow> False)"

definition double_passes :: "aval \<Rightarrow> val \<Rightarrow> bool" where
  "double_passes x v = (case v of VDouble j \<Rightarrow> x = ADouble j | _ \<Rightarrow> False)"

lemmas passes_defs = int_passes_def bytes_passes_def string_passes_def obj_passes_def
  fixed_passes_def long_passes_def double_passes_def

lemmas as_defs = as_int_def as_long_def as_double_def as_buf_def as_mem_def as_vec_def

definition elem_passes :: "selem \<Rightarrow> aval \<Rightarrow> val \<Rightarrow> bool" where
  "elem_passes e = (case e of
     EBytes \<Rightarrow> bytes_passes
   | EString \<Rightarrow> string_passes
   | EInt \<Rightarrow> int_passes
   | ELong \<Rightarrow> long_passes
   | EDouble \<Rightarrow> double_passes
   | EObj \<Rightarrow> obj_passes)"

definition vec_passes :: "selem \<Rightarrow> aval \<Rightarrow> val \<Rightarrow> bool" where
  "vec_passes e x v = (case v of
     VVec vs \<Rightarrow> (case as_vec x of Some xs \<Rightarrow> list_all2 (elem_passes e) xs vs | None \<Rightarrow> False)
   | _ \<Rightarrow> False)"

definition op_passes :: "sop \<Rightarrow> aval \<Rightarrow> val \<Rightarrow> bool" where
  "op_passes op = (case op of
     SInt \<Rightarrow> int_passes
   | SFixed n \<Rightarrow> fixed_passes n
   | SLong \<Rightarrow> long_passes
   | SDouble \<Rightarrow> double_passes
   | SStr \<Rightarrow> bytes_passes
   | SBytes \<Rightarrow> bytes_passes
   | SString \<Rightarrow> string_passes
   | SVector e \<Rightarrow> vec_passes e
   | SObj \<Rightarrow> obj_passes)"

text \<open>The template for a type other than true.\<close>

definition ser_kind :: "bool \<Rightarrow> string \<Rightarrow> sop" where
  "ser_kind mtp ty =
     (if ty = ''int'' \<or> ty = ''bool'' then SInt
      else if ty = ''int128'' then SFixed 16
      else if ty = ''int256'' then SFixed 32
      else if ty = ''long'' then SLong
      else if ty = ''double'' then SDouble
      else if ty = ''string'' \<and> mtp then SStr
      else if ty = ''bytes'' then SBytes
      else if ty = ''string'' then SString
      else (case vector_of ty of Some el \<Rightarrow> SVector (elem_kind el) | None \<Rightarrow> SObj))"

lemma emit_typed_kind:
  "emit_typed mtp a ty = (if ty = ''true'' then emit_true a
     else [SPut (arg_name a) (flag_of a) (ser_kind mtp ty)])"
  by (simp add: emit_typed_def ser_kind_def emit_int_def emit_i128_def emit_i256_def emit_long_def
      emit_double_def emit_str_def emit_bytes_def emit_string_def emit_vector_def emit_x_def
      split: option.splits)

definition carries :: "bool \<Rightarrow> (string \<Rightarrow> aval option) \<Rightarrow> arg_t \<Rightarrow> val \<Rightarrow> bool" where
  "carries mtp env a v = (case arg_type a of
     None \<Rightarrow> v = VNone
   | Some ty \<Rightarrow>
       (if ty = ''true'' then v \<in> {VNone, VTrue} \<and>
          (flagn a \<noteq> 0 \<longrightarrow> env (arg_name a) = Some (ABool (v = VTrue)))
        else if v = VNone then flagn a \<noteq> 0 \<and> env (arg_name a) = None
        else (case env (arg_name a) of
            None \<Rightarrow> False | Some x \<Rightarrow> op_passes (ser_kind mtp ty) x v)))"

section \<open>Buffers that are not reallocated\<close>

definition small :: "buf_t \<Rightarrow> byte list \<Rightarrow> bool" where
  "small b xs \<longleftrightarrow> owns b xs \<and> asize b = BUFSIZ"

lemma small_add:
  assumes "unat sz \<le> length src" and "unat sz \<le> 8192"
  shows "ok (buf_add src sz) (\<lambda>b. small b (take (unat sz) src))"
proof (rule ok_mono [OF buf_add_ok])
  have "sz \<le> BUFSIZ"
    using assms(2) by (simp add: word_le_nat_alt BUFSIZ_def)
  then show "owns b (take (unat sz) src) \<and> asize b = max BUFSIZ sz \<Longrightarrow> small b (take (unat sz) src)" for b
    by (simp add: small_def max_absorb1)
qed (use assms in auto)

lemma small_cat:
  assumes "small d xs" and "views s ys" and "length xs + length ys \<le> 8192"
  shows "ok (buf_cat d s) (\<lambda>b. small b (xs @ ys))"
proof (rule ok_mono [OF buf_cat_ok])
  show "owns d xs"
    using assms by (simp add: small_def)
  show "views s ys"
    by fact
  show "length xs + length ys + 1 < 2 ^ 32"
    using assms by simp
  fix b
  assume b: "owns b (xs @ ys) \<and> asize b = max (asize d) (bsize d + bsize s)"
  have "unat (bsize d + bsize s) = length xs + length ys"
    using assms views_length [of d xs] views_length [of s ys]
    by (simp add: small_def owns_def unat_add_u32)
  then have "bsize d + bsize s \<le> BUFSIZ"
    using assms by (simp add: word_le_nat_alt BUFSIZ_def)
  with b assms show "small b (xs @ ys)"
    by (simp add: small_def max_def)
qed

lemma small_cat_ui:
  assumes "small d xs"
  shows "length xs + 4 \<le> 8192 \<Longrightarrow> ok (buf_cat_ui32 d v) (\<lambda>b. small b (xs @ le_bytes 4 v))"
    and "length xs + 8 \<le> 8192 \<Longrightarrow> ok (buf_cat_ui64 d w) (\<lambda>b. small b (xs @ le_bytes 8 w))"
    and "length xs + 8 \<le> 8192 \<Longrightarrow> ok (buf_cat_double d w) (\<lambda>b. small b (xs @ le_bytes 8 w))"
  using assms
  by (auto simp: buf_cat_ui32_def buf_cat_ui64_def buf_cat_double_def
      intro!: ok_bind [OF buf_add_ui_ok(1)] ok_bind [OF buf_add_ui_ok(2)] ok_bind [OF buf_add_ui_ok(3)]
        small_cat)

lemma length_tl_string_ge: "length bs < length (tl_string bs)"
  by (simp add: tl_string_def Let_def tl_head_def)

text \<open>A byte string or a C string appended through serialize_bytes.\<close>

lemma small_cat_bytes:
  assumes p: "bytes_passes x v" and b: "small b xs" and len: "length xs + length (enc_val v) \<le> 8192"
  shows "ok (do { x \<leftarrow> as_buf x; put_bytes x b }) (\<lambda>b'. small b' (xs @ enc_val v))"
    and "ok (do { x \<leftarrow> as_buf x; s \<leftarrow> serialize_str x; buf_cat b s }) (\<lambda>b'. small b' (xs @ enc_val v))"
proof -
  obtain y bs where x: "as_buf x = Some y" "views y bs" "v = VStr bs"
    using p by (auto simp: bytes_passes_def split: val.splits option.splits)
  have n: "unat (bsize y) = length bs"
    using x(2) by (rule views_length)
  have pk: "peeks y 0 (unat (bsize y)) = Some bs"
    using views_peeks [OF x(2), of 0 "length bs"] n by simp
  have "length bs < 2 ^ 64"
    using n unat_lt_u32 [of "bsize y"] by simp
  then have u: "unat (ucast (bsize y) :: u64) = length bs"
    using n by (simp add: unsigned_ucast_eq take_bit_nat_eq_self)
  have l: "length bs + 9 < 2 ^ 32"
    using len length_tl_string_ge [of bs] x(3) by simp
  then have "ok (serialize_bytes bs (ucast (bsize y))) (\<lambda>s. owns s (tl_string bs))"
    using serialize_bytes_ok [OF u, of "[]"] by simp
  then show "ok (do { x \<leftarrow> as_buf x; put_bytes x b }) (\<lambda>b'. small b' (xs @ enc_val v))"
    unfolding x(1) put_bytes_def bind.bind_lunit pk
    by (rule ok_bind) (use b len x in \<open>auto intro: small_cat\<close>)
  have "ok (serialize_str y) (\<lambda>s. owns s (tl_string bs))"
    using x(2) l by (rule serialize_str_ok)
  then show "ok (do { x \<leftarrow> as_buf x; s \<leftarrow> serialize_str x; buf_cat b s }) (\<lambda>b'. small b' (xs @ enc_val v))"
    unfolding x(1) bind.bind_lunit
    by (rule ok_bind) (use b len x in \<open>auto intro: small_cat\<close>)
qed

lemma small_cat_string:
  assumes p: "string_passes x v" and b: "small b xs" and len: "length xs + length (enc_val v) \<le> 8192"
  shows "ok (do { m \<leftarrow> as_mem x; put_string m b }) (\<lambda>b'. small b' (xs @ enc_val v))"
proof -
  obtain m bs where x: "as_mem x = Some m" "0 \<notin> set bs" "take (Suc (length bs)) m = bs @ [0]"
    "v = VStr bs"
    using p by (auto simp: string_passes_def string_at_def split: val.splits option.splits)
  have m: "m = bs @ 0 # drop (Suc (length bs)) m"
    using x(3) append_take_drop_id [of "Suc (length bs)" m] by simp
  have "length bs + 9 < 2 ^ 32"
    using len length_tl_string_ge [of bs] x(4) by simp
  then have "ok (serialize_string m) (\<lambda>s. owns s (tl_string bs))"
    using serialize_string_ok [OF x(2)] m by metis
  then show ?thesis
    unfolding x(1) bind.bind_lunit put_string_def
    by (rule ok_bind) (use b len x in \<open>auto intro: small_cat\<close>)
qed

lemma small_cat_obj:
  assumes p: "obj_passes x v" and b: "small b xs" and len: "length xs + length (enc_val v) \<le> 8192"
  shows "ok (do { x \<leftarrow> as_buf x; buf_cat b x }) (\<lambda>b'. small b' (xs @ enc_val v))"
  using assms by (auto simp: obj_passes_def intro: small_cat split: option.splits)

lemma small_cat_fixed:
  assumes p: "fixed_passes n x v" and b: "small b xs" and len: "length xs + length (enc_val v) \<le> 8192"
  shows "ok (do { x \<leftarrow> as_buf x; bs \<leftarrow> peeks x 0 n; buf_cat_data b bs (of_nat n) })
    (\<lambda>b'. small b' (xs @ enc_val v))"
proof -
  obtain y bs where x: "as_buf x = Some y" "views y bs" "v = VFix bs" "length bs = n"
    using p by (auto simp: fixed_passes_def split: val.splits option.splits)
  have pk: "peeks y 0 n = Some bs"
    using views_peeks [OF x(2), of 0 n] x(4) by simp
  have "ok (buf_add bs (of_nat n)) (\<lambda>s. owns s bs)"
    using len x buf_add_all [of bs] by simp
  then show ?thesis
    unfolding x(1) bind.bind_lunit pk buf_cat_data_def
    by (rule ok_bind) (use b len x in \<open>auto intro: small_cat\<close>)
qed

text \<open>The words.\<close>

lemma small_cat_word:
  assumes "small b xs" and "length xs + length (enc_val v) \<le> 8192"
  shows "int_passes x v \<Longrightarrow> ok (do { i \<leftarrow> as_int x; buf_cat_ui32 b i }) (\<lambda>b'. small b' (xs @ enc_val v))"
    and "long_passes x v \<Longrightarrow> ok (do { i \<leftarrow> as_long x; buf_cat_ui64 b i }) (\<lambda>b'. small b' (xs @ enc_val v))"
    and "double_passes x v \<Longrightarrow>
      ok (do { i \<leftarrow> as_double x; buf_cat_double b i }) (\<lambda>b'. small b' (xs @ enc_val v))"
  using assms
  by (auto simp: int_passes_def long_passes_def double_passes_def as_int_def as_long_def as_double_def
      intro: small_cat_ui split: val.splits)

section \<open>One argument\<close>

lemma put_elem_ok:
  assumes "elem_passes e x v" and "small b xs" and "length xs + length (enc_val v) \<le> 8192"
  shows "ok (put_elem e x b) (\<lambda>b'. small b' (xs @ enc_val v))"
  using assms
  by (cases e) (simp_all add: elem_passes_def put_elem_def small_cat_bytes small_cat_string small_cat_obj
      small_cat_word)

lemma put_elems_ok:
  assumes "list_all2 (elem_passes e) as vs" and "small b xs"
    and "length xs + length (concat (map enc_val vs)) \<le> 8192"
  shows "ok (put_elems e as b) (\<lambda>b'. small b' (xs @ concat (map enc_val vs)))"
  using assms
proof (induction as vs arbitrary: b xs rule: list_all2_induct)
  case Nil
  then show ?case by simp
next
  case (Cons a as v vs)
  have "ok (put_elems e as b') (\<lambda>b'. small b' ((xs @ enc_val v) @ concat (map enc_val vs)))"
    if "small b' (xs @ enc_val v)" for b'
    using Cons.IH [OF that] Cons.prems by simp
  then show ?case
    using Cons.hyps Cons.prems by (auto intro!: ok_bind [OF put_elem_ok])
qed

lemma put_vector_ok:
  assumes p: "vec_passes e x v" and s: "small b xs" and len: "length xs + length (enc_val v) \<le> 8192"
  shows "ok (put_op (SVector e) x b) (\<lambda>b'. small b' (xs @ enc_val v))"
proof -
  obtain as vs where x: "as_vec x = Some as" "v = VVec vs" "list_all2 (elem_passes e) as vs"
    using p by (auto simp: vec_passes_def split: val.splits option.splits)
  have "length as = length vs"
    using x(3) by (rule list_all2_lengthD)
  moreover have "ok (put_elems e as b') (\<lambda>b'. small b' (xs @ enc_val v))"
    if "small b' ((xs @ le_bytes 4 id_vector) @ le_bytes 4 (of_nat (length vs) :: u32))" for b'
    using put_elems_ok [OF x(3) that] len x(2) by simp
  ultimately show ?thesis
    using s len x
    by (auto simp: put_op_def tl_vector_def intro!: ok_bind [OF buf_add_ui_ok(1)] ok_bind [OF small_cat]
        ok_bind [OF small_cat_ui(1)])
qed

lemma put_op_ok:
  assumes "op_passes op x v" and "small b xs" and "length xs + length (enc_val v) \<le> 8192"
  shows "ok (put_op op x b) (\<lambda>b'. small b' (xs @ enc_val v))"
proof (cases op)
  case (SVector e)
  with assms show ?thesis
    using put_vector_ok by (simp add: op_passes_def)
qed (use assms in \<open>simp_all add: op_passes_def put_op_def small_cat_bytes small_cat_string small_cat_obj
  small_cat_word small_cat_fixed\<close>)

section \<open>The flags words\<close>

lemma set_flag_ok:
  assumes s: "small (sbuf st) (pre @ le_bytes 4 (w :: u32) @ post)" and f: "sflags st n = Some (length pre, BUFSIZ)"
  shows "ok (set_flag n bt st) (\<lambda>st'. sflags st' = sflags st \<and>
    small (sbuf st') (pre @ le_bytes 4 (w OR push_bit bt 1) @ post))"
proof -
  let ?b = "sbuf st" and ?xs = "pre @ le_bytes 4 w @ post"
  let ?ys = "pre @ le_bytes 4 (w OR push_bit bt 1) @ post"
  have a: "asize ?b = BUFSIZ" "data ?b = 0" "views ?b ?xs"
    using s by (auto simp: small_def owns_def)
  have len: "length pre + 4 \<le> 8192"
    using views_bound [OF a(3)] a(1) by (simp add: BUFSIZ_def)
  have nth: "aptr ?b i = ?xs ! i" if "i < length ?xs" for i
    using views_nth [OF a(3) that] a(2) by simp
  have "map (\<lambda>i. aptr ?b (length pre + i)) [0..<4] = le_bytes 4 w"
    by (rule map_nth_shift) (use nth in \<open>auto simp: nth_append\<close>)
  then have word: "le_val (map (\<lambda>i. aptr ?b (length pre + i)) [0..<4]) = w"
    by (simp add: le_val_le_bytes)
  have "small (or_word ?b (length pre) (push_bit bt 1)) ?ys"
    unfolding small_def owns_def
  proof (intro conjI viewsI)
    show "unat (bsize (or_word ?b (length pre) (push_bit bt 1))) = length ?ys"
      using views_length [OF a(3)] by (simp add: or_word_def Let_def)
    show "data (or_word ?b (length pre) (push_bit bt 1)) + length ?ys
        \<le> unat (asize (or_word ?b (length pre) (push_bit bt 1)))"
      using views_bound [OF a(3)] by (simp add: or_word_def Let_def)
    fix i
    assume i: "i < length ?ys"
    show "aptr (or_word ?b (length pre) (push_bit bt 1)) (data (or_word ?b (length pre) (push_bit bt 1)) + i)
        = ?ys ! i"
      using nth [of i] i a(2) by (auto simp: or_word_def Let_def word nth_append)
  qed (use a in \<open>simp_all add: or_word_def Let_def\<close>)
  with f a len show ?thesis
    by (simp add: set_flag_def BUFSIZ_def)
qed

section \<open>The argument loop\<close>

definition flag_bit :: "arg_t \<Rightarrow> val \<Rightarrow> u32" where
  "flag_bit a v = (if arg_type a \<noteq> None \<and> flagn a \<noteq> 0 \<and> v \<noteq> VNone then push_bit (flagb a) 1 else 0)"

lemma flag_word_snoc:
  "flag_word (ps @ [(a, v)]) =
     (if flagn a = 0 then flag_word ps
      else (flag_word ps)(flagn a := flag_word ps (flagn a) OR flag_bit a v))"
  by (auto simp: fun_eq_iff flag_word_append flag_bit_def)

text \<open>The state after the arguments \<^theory_text>\<open>ps\<close>: the buffer holds their image, and the pointer
  to every flags word is its place in it.\<close>

definition written :: "u32 \<Rightarrow> (arg_t \<times> val) list \<Rightarrow> sstate \<Rightarrow> bool" where
  "written i ps st \<longleftrightarrow>
     small (sbuf st) (le_bytes 4 i @ lay (flag_word ps) 0 (img ps)) \<and>
     (\<forall>n p. flag_pos 0 (img ps) n = Some p \<longrightarrow> sflags st n = Some (4 + p, BUFSIZ))"

lemma fst_img [simp]: "map (fst \<circ> (\<lambda>(a, v). (a, enc_val v))) ps = map fst ps"
  by (induction ps) auto

lemma lay_snoc:
  "lay fw 0 (img ps @ [(a, bs)]) = lay fw 0 (img ps) @
     (if is_flags a then le_bytes 4 (fw (Suc (nflags (map fst ps))))
      else if arg_type a = None then [] else bs)"
  by (simp add: lay_append)

lemma flag_pos_snoc:
  "flag_pos 0 (img ps @ [(a, bs)]) n = (case flag_pos 0 (img ps) n of
     Some p \<Rightarrow> Some p
   | None \<Rightarrow> if is_flags a \<and> n = Suc (nflags (map fst ps)) then Some (lay_len (img ps)) else None)"
  by (auto simp: flag_pos_append split: option.splits)

lemma is_flags_type: "is_flags a \<Longrightarrow> arg_type a = None"
  by (simp add: is_flags_def)

lemma put_small:
  assumes w: "written i ps st" and p: "op_passes op x v"
    and len: "4 + length (lay (flag_word ps) 0 (img ps)) + length (enc_val v) \<le> 8192"
  shows "ok (put_op op x (sbuf st))
    (\<lambda>b. small b ((le_bytes 4 i @ lay (flag_word ps) 0 (img ps)) @ enc_val v))"
  using assms by (intro put_op_ok) (auto simp: written_def)

text \<open>Setting the bit of an optional argument after its bytes.\<close>

lemma set_flag_written:
  assumes a: "arg_type a = Some ty" "flagn a \<noteq> 0" "flagn a \<le> nflags (map fst ps)" and v: "v \<noteq> VNone"
    and s: "small (sbuf st) ((le_bytes 4 i @ lay (flag_word ps) 0 (img ps)) @ enc_val v)"
    and f: "\<forall>n p. flag_pos 0 (img ps) n = Some p \<longrightarrow> sflags st n = Some (4 + p, BUFSIZ)"
  shows "ok (set_flag (flagn a) (flagb a) st) (written i (ps @ [(a, v)]))"
proof -
  let ?n = "flagn a" and ?fw = "flag_word ps"
  let ?w = "?fw ?n OR push_bit (flagb a) 1"
  have fl: "\<not> is_flags a"
    using a(1) by (auto simp: is_flags_def)
  obtain p where p: "flag_pos 0 (img ps) ?n = Some p"
    using flag_pos_exists [of 0 ?n "img ps"] a by auto
  obtain pre post where l: "lay ?fw 0 (img ps) = pre @ le_bytes 4 (?fw ?n) @ post"
    "lay (?fw(?n := ?w)) 0 (img ps) = pre @ le_bytes 4 ?w @ post" "length pre = p"
    using lay_patch [OF p] by blast
  have s': "small (sbuf st) ((le_bytes 4 i @ pre) @ le_bytes 4 (?fw ?n) @ post @ enc_val v)"
    using s l(1) by simp
  have f': "sflags st ?n = Some (length (le_bytes 4 i @ pre), BUFSIZ)"
    using f p l(3) by simp
  have fw: "flag_word (ps @ [(a, v)]) = ?fw(?n := ?w)"
    using a v by (simp add: flag_word_snoc flag_bit_def)
  have "lay (flag_word (ps @ [(a, v)])) 0 (img (ps @ [(a, v)])) = pre @ le_bytes 4 ?w @ post @ enc_val v"
    using fl a(1) l(2) by (simp add: fw lay_snoc del: fun_upd_apply)
  then show ?thesis
    using f fl by (auto simp: written_def flag_pos_snoc split: option.splits intro!: ok_mono [OF set_flag_ok [OF s' f']])
qed

lemma exec_append: "exec_sstmts env (ss @ ts) st = exec_sstmts env ss st \<bind> exec_sstmts env ts"
  by (induction ss arbitrary: st) (auto split: Option.bind_splits)

lemma exec_nil [simp]: "m \<bind> exec_sstmts env [] = m"
  by (cases m) auto

lemma lay_step_le:
  "lay_len (img ps) \<le> lay_len (img (ps @ qs))"
  by (induction ps) auto

lemma lay_len_snoc:
  "lay_len (qs @ [(a, bs)]) = lay_len qs + (if is_flags a then 4 else if arg_type a = None then 0 else length bs)"
  by (induction qs) auto

lemma arg_step_untyped:
  assumes w: "written i ps st" and a: "arg_type a = None" and wf: "wf_args 0 (map fst ps @ [a])"
    and len: "4 + lay_len (img ps @ [(a, [])]) \<le> 8192"
  shows "ok (exec_sstmts env (emit_args mtp (nflags (map fst ps)) [a]) st) (written i (ps @ [(a, VNone)]))"
proof -
  let ?k = "nflags (map fst ps)"
  have fw: "flag_word (ps @ [(a, VNone)]) = flag_word ps"
    by (auto simp: flag_word_snoc flag_bit_def)
  show ?thesis
  proof (cases "is_flags a")
    case True
    have z: "flag_word ps (Suc ?k) = 0"
      using wf by (intro flag_word_fresh [of 0]) (auto simp: wf_args_append)
    have s: "small (sbuf st) (le_bytes 4 i @ lay (flag_word ps) 0 (img ps))"
      using w by (simp add: written_def)
    have l: "length (le_bytes 4 i @ lay (flag_word ps) 0 (img ps)) + 4 \<le> 8192"
      using len True by (simp add: lay_len_snoc)
    have pos: "data (sbuf st) + unat (bsize (sbuf st)) = 4 + lay_len (img ps)"
      "asize (sbuf st) = BUFSIZ"
      using s views_length [of "sbuf st"] by (auto simp: small_def owns_def)
    have big: "flag_pos 0 (img ps) (Suc ?k) = None"
      by (intro flag_pos_big) simp
    have "\<exists>x. strstr (arg_name a) ''flags'' = Some x"
      using True by (auto simp: is_flags_def)
    with True w a pos z big show ?thesis
      by (auto simp: declare_flags_def Let_def written_def fw lay_snoc flag_pos_snoc
          intro!: ok_bind [OF small_cat_ui(1) [OF s l]] split: option.splits)
  next
    case False
    then show ?thesis
      using a w by (auto simp: is_flags_def written_def fw lay_snoc flag_pos_snoc split: option.splits)
  qed
qed

lemma arg_step_typed:
  assumes w: "written i ps st" and c: "carries mtp env a v" and a: "arg_type a = Some ty"
    and wf: "wf_args 0 (map fst ps @ [a])" and len: "4 + lay_len (img ps @ [(a, enc_val v)]) \<le> 8192"
  shows "ok (exec_sstmts env (emit_args mtp (nflags (map fst ps)) [a]) st) (written i (ps @ [(a, v)]))"
proof -
  have fl: "\<not> is_flags a"
    using a by (auto simp: is_flags_def)
  have ref: "flagn a \<le> nflags (map fst ps)"
    using wf by (simp add: wf_args_append)
  have same: "written i (ps @ [(a, v)]) st" if "flagn a = 0 \<or> v = VNone" "enc_val v = []"
    using that w fl by (auto simp: written_def lay_snoc flag_pos_snoc flag_word_snoc flag_bit_def fun_upd_idem
        split: option.splits)
  have s: "small (sbuf st) (le_bytes 4 i @ lay (flag_word ps) 0 (img ps))"
    and f: "\<forall>n p. flag_pos 0 (img ps) n = Some p \<longrightarrow> sflags st n = Some (4 + p, BUFSIZ)"
    using w by (simp_all add: written_def)
  show ?thesis
  proof (cases "ty = ''true''")
    case True
    have set: "ok (set_flag (flagn a) (flagb a) st) (written i (ps @ [(a, v)]))" if "flagn a \<noteq> 0" "v = VTrue"
      using that s f ref a by (intro set_flag_written) auto
    from True c a show ?thesis
      using same set by (cases "flagn a = 0") (auto simp: carries_def emit_typed_kind emit_true_def)
  next
    case False
    note T = False
    show ?thesis
    proof (cases "v = VNone")
      case True
      with T c a same show ?thesis
        by (auto simp: carries_def emit_typed_kind exec_put_def flag_of_def)
    next
      case False
      with T c a obtain x where x: "env (arg_name a) = Some x" "op_passes (ser_kind mtp ty) x v"
        by (auto simp: carries_def split: option.splits)
      have put: "ok (put_op (ser_kind mtp ty) x (sbuf st))
          (\<lambda>b. small b ((le_bytes 4 i @ lay (flag_word ps) 0 (img ps)) @ enc_val v))"
        using len fl a by (intro put_op_ok [OF x(2) s]) (simp add: lay_len_snoc)
      have fin: "ok (set_flag (flagn a) (flagb a) (st\<lparr>sbuf := b\<rparr>)) (written i (ps @ [(a, v)]))"
        if "small b ((le_bytes 4 i @ lay (flag_word ps) 0 (img ps)) @ enc_val v)" "flagn a \<noteq> 0" for b
        using that f ref a False by (intro set_flag_written) auto
      have plain: "written i (ps @ [(a, v)]) (st\<lparr>sbuf := b\<rparr>)"
        if "small b ((le_bytes 4 i @ lay (flag_word ps) 0 (img ps)) @ enc_val v)" "flagn a = 0" for b
        using that f fl a by (auto simp: written_def lay_snoc flag_pos_snoc flag_word_snoc split: option.splits)
      show ?thesis
        using T a x fin plain
        by (auto simp: emit_typed_kind exec_put_def flag_of_def intro!: ok_bind [OF put])
    qed
  qed
qed

lemma emit_args_Cons:
  "emit_args mtp k (a # as) = emit_args mtp k [a] @ emit_args mtp (k + nflags [a]) as"
  by (auto simp: is_flags_def split: option.splits)

lemma arg_step:
  assumes "written i ps st" and "carries mtp env a v" and "wf_args 0 (map fst ps @ [a])"
    and "4 + lay_len (img ps @ [(a, enc_val v)]) \<le> 8192"
  shows "ok (exec_sstmts env (emit_args mtp (nflags (map fst ps)) [a]) st) (written i (ps @ [(a, v)]))"
proof (cases "arg_type a")
  case None
  with assms have "v = VNone"
    by (simp add: carries_def)
  with None assms show ?thesis
    using arg_step_untyped by simp
next
  case (Some ty)
  with assms show ?thesis
    using arg_step_typed by blast
qed

lemma arg_loop:
  assumes "list_all (\<lambda>(a, v). carries mtp env a v) qs" and "written i ps st"
    and "wf_args 0 (map fst (ps @ qs))" and "4 + lay_len (img (ps @ qs)) \<le> 8192"
  shows "ok (exec_sstmts env (emit_args mtp (nflags (map fst ps)) (map fst qs)) st) (written i (ps @ qs))"
  using assms
proof (induction qs arbitrary: ps st)
  case Nil
  then show ?case by simp
next
  case (Cons q qs)
  obtain a v where q: "q = (a, v)" by (cases q)
  have step: "ok (exec_sstmts env (emit_args mtp (nflags (map fst ps)) [a]) st) (written i (ps @ [(a, v)]))"
    using Cons.prems q lay_step_le [of "ps @ [(a, v)]" qs]
    by (intro arg_step) (auto simp: wf_args_append)
  have rest: "ok (exec_sstmts env (emit_args mtp (nflags (map fst ps) + nflags [a]) (map fst qs)) st')
      (written i (ps @ q # qs))" if "written i (ps @ [(a, v)]) st'" for st'
    using Cons.IH [OF _ that] Cons.prems q by (simp add: nflags_append)
  have "ok (exec_sstmts env (emit_args mtp (nflags (map fst ps)) (a # map fst qs)) st) (written i (ps @ q # qs))"
    by (subst emit_args_Cons, subst exec_append, rule ok_bind [OF step rest])
  then show ?case
    using q by simp
qed

theorem tl_method_written:
  assumes "list_all2 (carries mtp env) (m_args m) vs" and "wf_args 0 (m_args m)"
    and "length (enc_val (VObj m vs)) \<le> 8192"
  shows "ok (tl_method mtp m env) (\<lambda>b. small b (enc_val (VObj m vs)))"
proof -
  let ?qs = "zip (m_args m) vs"
  have len: "length (m_args m) = length vs"
    using assms(1) by (rule list_all2_lengthD)
  then have fst: "map fst ?qs = m_args m"
    by simp
  have all: "list_all (\<lambda>(a, v). carries mtp env a v) ?qs"
    using assms(1) by (auto simp: list_all2_iff list_all_iff)
  have b: "ok (buf_add_ui32 (m_id m)) (\<lambda>b. small b (le_bytes 4 (m_id m)))"
    unfolding buf_add_ui32_def by (rule ok_mono [OF small_add]) auto
  have loop: "ok (exec_sstmts env (emit_args mtp 0 (m_args m)) \<lparr>sbuf = b, sflags = Map.empty\<rparr>)
      (written (m_id m) ?qs)" if "small b (le_bytes 4 (m_id m))" for b
    using arg_loop [OF all, of "m_id m" "[]" "\<lparr>sbuf = b, sflags = Map.empty\<rparr>"] that assms(2,3) fst
    by (simp add: written_def zip_img)
  show ?thesis
    unfolding tl_method_def
    by (rule ok_bind [OF b], rule ok_bind [OF loop]) (auto simp: written_def zip_img)
qed

end
