(* ===== verification/Reader.thy ===== *)
theory Reader
  imports TLSpec
begin

text \<open>
  The generated readers implement the specification: on the image of an object that fits its
  declaration, tl_deserialize returns the object and leaves the bytes that follow the image.  A
  field reader is a \<^theory_text>\<open>wire_field\<close> as soon as the reader of nested objects is one,
  which the induction over the nesting supplies.
\<close>

section \<open>What is read\<close>

text \<open>A read object keeps a copy of the buffer it was read from; \<^theory_text>\<open>strip\<close> drops it.\<close>

primrec strip :: "fval \<Rightarrow> fval" and strip_obj :: "tl_obj \<Rightarrow> tl_obj" where
  "strip (FInt i) = FInt i"
| "strip (FBool t) = FBool t"
| "strip (FLong i) = FLong i"
| "strip (FDouble i) = FDouble i"
| "strip (FBytes bs) = FBytes bs"
| "strip (FMsg i q n bd) = FMsg i q n bd"
| "strip (FVec xs) = FVec (map strip xs)"
| "strip (FObj x) = FObj (map_option strip_obj x)"
| "strip_obj (TL i copy fs) = TL i [] (map (map_prod id strip) fs)"

definition strips :: "(string \<times> fval) list \<Rightarrow> (string \<times> fval) list" where
  "strips fs = map (map_prod id strip) fs"

lemma strips_simps [simp]:
  "strips [] = []"
  "strips (fs @ [(x, c)]) = strips fs @ [(x, strip c)]"
  "strip_obj (TL i copy fs) = TL i [] (strips fs)"
  by (simp_all add: strips_def)

declare strip_obj.simps [simp del]

fun fields :: "arg_t list \<Rightarrow> (val \<times> fval) list \<Rightarrow> (string \<times> fval) list" where
  "fields (a # as) ((v, f) # vs) =
     (if arg_type a \<noteq> None \<and> v \<noteq> VNone then (arg_name a, f) # fields as vs else fields as vs)"
| "fields _ _ = []"

fun expect :: "val \<Rightarrow> fval" where
  "expect VNone = FObj None"
| "expect VTrue = FBool True"
| "expect (VInt i) = FInt i"
| "expect (VBool t) = FBool t"
| "expect (VLong i) = FLong i"
| "expect (VDouble i) = FDouble i"
| "expect (VFix bs) = FBytes bs"
| "expect (VStr bs) = FBytes bs"
| "expect (VMsg m) = (case m of (i, q, bd) \<Rightarrow> FMsg i q (of_nat (length bd)) bd)"
| "expect (VVec vs) = FVec (map expect vs)"
| "expect (VObj m vs) = FObj (Some (TL (m_id m) [] (fields (m_args m) (map (\<lambda>v. (v, expect v)) vs))))"

section \<open>Values that fit a declaration\<close>

definition elem_fits :: "delem \<Rightarrow> val \<Rightarrow> bool" where
  "elem_fits e v = (case v of
     VInt _ \<Rightarrow> e = DEInt
   | VBool _ \<Rightarrow> e = DEBool
   | VLong _ \<Rightarrow> e = DELong
   | VDouble _ \<Rightarrow> e = DEDouble
   | VStr bs \<Rightarrow> e = DEBytes \<and> length bs < 2 ^ 24
   | VMsg (i, q, bd) \<Rightarrow> e = DEMessage \<and> length bd < 2 ^ 31
   | VObj _ _ \<Rightarrow> e = DEObj
   | _ \<Rightarrow> False)"

definition op_fits :: "dop \<Rightarrow> val \<Rightarrow> bool" where
  "op_fits op v = (case v of
     VTrue \<Rightarrow> op = DTrue
   | VInt _ \<Rightarrow> op = DInt
   | VBool _ \<Rightarrow> op = DBool
   | VLong _ \<Rightarrow> op = DLong
   | VDouble _ \<Rightarrow> op = DDouble
   | VFix bs \<Rightarrow> op = DFixed (length bs) \<and> length bs < 2 ^ 31
   | VStr bs \<Rightarrow> op = DBytes \<and> length bs < 2 ^ 24
   | VVec vs \<Rightarrow> (case op of DVector e \<Rightarrow> length vs \<le> 100 \<and> list_all (elem_fits e) vs | _ \<Rightarrow> False)
   | VObj _ _ \<Rightarrow> op = DObj
   | _ \<Rightarrow> False)"

text \<open>An optional argument whose value is absent has a clear bit in its flags word, that is, all
  arguments that share the bit are absent with it.\<close>

definition arg_fits :: "(nat \<Rightarrow> u32) \<Rightarrow> arg_t \<Rightarrow> val \<Rightarrow> bool" where
  "arg_fits fw a v = (case arg_type a of
     None \<Rightarrow> v = VNone
   | Some ty \<Rightarrow>
       if v = VNone then flagn a \<noteq> 0 \<and> \<not> bit (fw (flagn a)) (flagb a)
       else op_fits (dop_kind ty) v)"

definition obj_fits :: "method_t list \<Rightarrow> method_t \<Rightarrow> val list \<Rightarrow> bool" where
  "obj_fits table m vs \<longleftrightarrow>
     m_id m \<noteq> 0 \<and> m_name m \<noteq> ''vector'' \<and> get_fun table (m_id m) = Some m \<and> wf_args 0 (m_args m) \<and>
     list_all2 (arg_fits (flag_word (zip (m_args m) vs))) (m_args m) vs"

text \<open>Every object inside a value fits.\<close>

fun fits :: "method_t list \<Rightarrow> val \<Rightarrow> bool" where
  "fits table (VVec vs) = list_all (fits table) vs"
| "fits table (VObj m vs) = (obj_fits table m vs \<and> list_all (fits table) vs)"
| "fits table v = True"

fun depth :: "val \<Rightarrow> nat" where
  "depth (VVec vs) = fold max (map depth vs) 0"
| "depth (VObj m vs) = Suc (fold max (map depth vs) 0)"
| "depth v = 0"

lemma fold_max_le: "fold max xs (k :: nat) \<le> n \<longleftrightarrow> k \<le> n \<and> (\<forall>x\<in>set xs. x \<le> n)"
  by (induction xs arbitrary: k) auto

section \<open>Field readers\<close>

text \<open>The contract of the reader of nested objects up to a depth.\<close>

definition reads :: "(buf_t \<Rightarrow> tl_result) \<Rightarrow> method_t list \<Rightarrow> nat \<Rightarrow> bool" where
  "reads des table n \<longleftrightarrow> (\<forall>m vs b rest. fits table (VObj m vs) \<longrightarrow> depth (VObj m vs) \<le> n \<longrightarrow>
     views b (enc_val (VObj m vs) @ rest) \<longrightarrow>
     ok (des b) (\<lambda>(x, b'). strip (FObj x) = expect (VObj m vs) \<and> views b' rest))"

lemma ok_rd_map: "ok m (\<lambda>(x, b). P (f x) b) \<Longrightarrow> ok (rd_map f m) (\<lambda>(y, b). P y b)"
  by (cases m) (auto simp: rd_map_def)

lemma ok_rd_case: "ok m (\<lambda>(x, b). R x b) \<Longrightarrow> (\<And>x b. R x b \<Longrightarrow> P (f x) b) \<Longrightarrow> ok (rd_map f m) (\<lambda>(y, b). P y b)"
  by (cases m) (auto simp: rd_map_def)

lemma owns_view: "owns b xs \<Longrightarrow> view b = xs"
  by (simp add: owns_def views_def)

lemma of_bool_nonzero: "((of_bool t :: u32) \<noteq> 0) = t"
  by (cases t) auto

lemma read4: "views b (le_bytes 4 v @ rest) \<Longrightarrow>
    deserialize_ui32 b = Some (v, skip 4 b) \<and> views (skip 4 b) rest"
  by (rule deserialize_ui_ok)

lemma read8: "views b (le_bytes 8 v @ rest) \<Longrightarrow>
    deserialize_ui64 b = Some (v, skip 8 b) \<and> deserialize_double b = Some (v, skip 8 b) \<and>
    views (skip 8 b) rest"
  using deserialize_ui_ok by blast

lemma get_elem_ok:
  assumes d: "reads des table n" and f: "elem_fits e v" "fits table v" "depth v \<le> n"
    and v: "views b (enc_val v @ rest)"
  shows "ok (get_elem des e b) (\<lambda>(c, b'). strip c = expect v \<and> views b' rest)"
proof (cases v)
  case (VMsg m)
  obtain i q bd where m: "m = (i, q, bd)" by (cases m)
  with VMsg f have e: "e = DEMessage" and len: "length (snd (snd m)) < 2 ^ 31"
    by (auto simp: elem_fits_def)
  have s: "unat x = k \<Longrightarrow> x = of_nat k" for x :: u32 and k
    by auto
  have "ok (rd_map msg_field (deserialize_mtp_message b)) (\<lambda>(c, b'). strip c = expect v \<and> views b' rest)"
    by (rule ok_rd_case [OF msg.get_ok [OF len]])
      (use v VMsg m in \<open>auto simp: rel_msg_def msg_field_def owns_view intro: s\<close>)
  then show ?thesis
    by (simp add: get_elem_def e)
next
  case (VObj m vs)
  have "ok (des b) (\<lambda>(x, b'). strip (FObj x) = expect v \<and> views b' rest)"
    using d f v VObj unfolding reads_def by blast
  then show ?thesis
    using f VObj by (auto simp: elem_fits_def get_elem_def intro: ok_rd_map)
next
  case (VStr bs)
  then have e: "e = DEBytes" and len: "length bs < 2 ^ 24"
    using f by (auto simp: elem_fits_def)
  have "views b (tl_string bs @ rest)"
    using v VStr by simp
  then show ?thesis
    unfolding get_elem_def e delem.case
    by (intro ok_rd_case [OF str.get_ok [OF len]]) (auto simp: VStr owns_view)
qed (use f v in \<open>auto simp: elem_fits_def get_elem_def of_bool_nonzero rd_map_def dest!: read4 read8\<close>)

lemma get_many_ok:
  assumes d: "reads des table n" and l: "list_all (elem_fits e) vs" "list_all (fits table) vs"
    "\<forall>v\<in>set vs. depth v \<le> n"
    and v: "views b (concat (map enc_val vs) @ rest)"
  shows "ok (read_many (get_elem des e) (length vs) b) (\<lambda>(cs, b'). map strip cs = map expect vs \<and> views b' rest)"
proof -
  have "wire_field (get_elem des e) enc_val (\<lambda>c v. strip c = expect v)
      (\<lambda>v. elem_fits e v \<and> fits table v \<and> depth v \<le> n)"
    by unfold_locales (use get_elem_ok [OF d] in auto)
  from wire_field.many_ok [OF this _ v] l
  have "ok (read_many (get_elem des e) (length vs) b)
      (\<lambda>(cs, b'). list_all2 (\<lambda>c v. strip c = expect v) cs vs \<and> views b' rest)"
    by (auto simp: list_all_iff)
  then show ?thesis
    by (rule ok_mono) (auto simp: list_all2_conv_all_nth intro: nth_equalityI)
qed

lemma get_vector_ok:
  assumes d: "reads des table n" and l: "list_all (elem_fits e) vs" "list_all (fits table) vs"
    "\<forall>v\<in>set vs. depth v \<le> n" "length vs \<le> 100"
    and v: "views b (enc_val (VVec vs) @ rest)"
  shows "ok (get_vector des x e fs b) (\<lambda>r. \<exists>c b'. r = Next (fs @ [(x, c)]) b' \<and>
    strip c = expect (VVec vs) \<and> views b' rest)"
proof -
  let ?n = "of_nat (length vs) :: u32"
  have n: "unat ?n = length vs"
    using l(4) by simp
  have s: "sint ?n = int (length vs)"
    using sint_small [of ?n] l(4) by simp
  have len: "ok (get_len b) (\<lambda>(k, b'). k = ?n \<and> views b' (concat (map enc_val vs) @ rest))"
  proof -
    have 1: "deserialize_ui32 b = Some (id_vector, skip 4 b)"
      "views (skip 4 b) (le_bytes 4 ?n @ concat (map enc_val vs) @ rest)"
      using v deserialize_ui_ok(1) [of b id_vector] by auto
    show ?thesis
      using deserialize_ui_ok(1) [OF 1(2)] by (simp add: get_len_def 1(1))
  qed
  show ?thesis
    unfolding get_vector_def
    by (rule ok_bind [OF len])
      (use l(4) in \<open>auto simp: s n split_beta intro!: ok_bind [OF get_many_ok [OF d l(1-3)]]\<close>)
qed

lemma ok_put_field:
  "ok m (\<lambda>(c, b'). P c b') \<Longrightarrow>
    ok (put_field fs x m) (\<lambda>r. \<exists>c b'. r = Next (fs @ [(x, c)]) b' \<and> P c b')"
  by (cases m) (auto simp: put_field_def)

lemma get_op_ok:
  assumes d: "reads des table n" and f: "op_fits op v" "fits table v" "depth v \<le> n"
    and v: "views b (enc_val v @ rest)"
  shows "ok (get_op des x op fs b) (\<lambda>r. \<exists>c b'. r = Next (fs @ [(x, c)]) b' \<and>
    strip c = expect v \<and> views b' rest)"
proof (cases v)
  case (VVec vs)
  then obtain e where "op = DVector e" "list_all (elem_fits e) vs" "length vs \<le> 100"
    using f(1) by (auto simp: op_fits_def split: dop.splits)
  with VVec f v show ?thesis
    using get_vector_ok [OF d, of e vs b rest x fs] by (simp add: get_op_def fold_max_le)
next
  case (VObj m vs)
  have "ok (des b) (\<lambda>(x, b'). strip (FObj x) = expect v \<and> views b' rest)"
    using d f v VObj unfolding reads_def by blast
  then show ?thesis
    using f VObj by (auto simp: op_fits_def get_op_def intro!: ok_put_field intro: ok_rd_map)
next
  case (VStr bs)
  then have e: "op = DBytes" and len: "length bs < 2 ^ 24"
    using f by (auto simp: op_fits_def)
  have "views b (tl_string bs @ rest)"
    using v VStr by simp
  then show ?thesis
    unfolding get_op_def e dop.case
    by (intro ok_put_field ok_rd_case [OF str.get_ok [OF len]]) (auto simp: VStr owns_view)
next
  case (VFix bs)
  then have e: "op = DFixed (length bs)" and len: "length bs < 2 ^ 31"
    using f by (auto simp: op_fits_def)
  have "views b (bs @ rest)"
    using v VFix by simp
  then show ?thesis
    unfolding get_op_def e dop.case
    by (intro ok_put_field ok_rd_case [OF deserialize_buf_ok]) (use len in \<open>auto simp: VFix owns_view\<close>)
qed (use f v in \<open>auto simp: op_fits_def get_op_def of_bool_nonzero rd_map_def put_field_def
  dest!: read4 read8\<close>)

section \<open>The statement loop\<close>

lemma bit_test:
  "n < 32 \<Longrightarrow> (w AND push_bit n 1 = push_bit n (1 :: u32)) = bit w n"
  proof -
  assume n: "n < 32"
  have b: "bit (push_bit n (1 :: u32)) j \<longleftrightarrow> j = n" for j
    using n by (auto simp: bit_push_bit_iff bit_1_iff simp del: push_bit_of_1)
  show ?thesis
  proof
    assume "w AND push_bit n 1 = push_bit n 1"
    then have "bit (w AND push_bit n 1) n = bit (push_bit n (1 :: u32)) n"
      by (rule arg_cong)
    then show "bit w n"
      by (simp add: bit_and_iff b del: push_bit_of_1)
  next
    assume w: "bit w n"
    show "w AND push_bit n 1 = push_bit n 1"
      by (rule bit_word_eqI) (use w in \<open>auto simp only: bit_and_iff b\<close>)
  qed
qed

lemma flag_word_bit:
  assumes "(a, v) \<in> set ps" and "arg_type a \<noteq> None" and "flagn a \<noteq> 0" and "v \<noteq> VNone" and "flagb a < 32"
  shows "bit (flag_word ps (flagn a)) (flagb a)"
  using assms by (induction ps) (auto simp: bit_or_iff bit_exp_iff)

text \<open>The flags words read so far are those of the object.\<close>

definition knows :: "(nat \<Rightarrow> u32 option) \<Rightarrow> (nat \<Rightarrow> u32) \<Rightarrow> nat \<Rightarrow> bool" where
  "knows fl fw k \<longleftrightarrow> (\<forall>n. 0 < n \<longrightarrow> n \<le> k \<longrightarrow> fl n = Some (fw n))"

lemma exec_dstmts_ok:
  assumes d: "reads des table n"
    and "list_all2 (arg_fits fw) as vs" "list_all (fits table) vs" "\<forall>v\<in>set vs. depth v \<le> n"
    and "wf_args k as" "knows fl fw k"
    and "\<And>a v. (a, v) \<in> set (zip as vs) \<Longrightarrow> arg_type a \<noteq> None \<Longrightarrow> flagn a \<noteq> 0 \<Longrightarrow> v \<noteq> VNone \<Longrightarrow>
        bit (fw (flagn a)) (flagb a)"
    and "views b (lay fw k (img (zip as vs)) @ rest)"
  shows "ok (exec_dstmts des fl (gen_des k as) fs b)
    (\<lambda>(gs, b'). strips gs =
        strips fs @ fields as (map (\<lambda>v. (v, expect v)) vs) \<and> views b' rest)"
  using assms(2-)
proof (induction as vs arbitrary: k fl fs b rule: list_all2_induct)
  case Nil
  then show ?case by simp
next
  case (Cons a as v vs)
  show ?case
  proof (cases "arg_type a")
    case None
    then have v: "v = VNone"
      using Cons.hyps by (simp add: arg_fits_def)
    show ?thesis
    proof (cases "is_flags a")
      case True
      have vw: "views b (le_bytes 4 (fw (Suc k)) @ lay fw (Suc k) (img (zip as vs)) @ rest)"
        using Cons.prems True by simp
      have kn: "knows (fl(Suc k \<mapsto> fw (Suc k))) fw (Suc k)"
        using Cons.prems by (auto simp: knows_def le_Suc_eq)
      have "ok (exec_dstmts des (fl(Suc k \<mapsto> fw (Suc k))) (gen_des (Suc k) as) fs (skip 4 b))
        (\<lambda>(gs, b'). strips gs =
          strips fs @ fields as (map (\<lambda>v. (v, expect v)) vs) \<and> views b' rest)"
        using Cons.prems True read4 [OF vw] by (intro Cons.IH [OF _ _ _ kn]) auto
      then show ?thesis
        using True None v read4 [OF vw] by (auto simp: is_flags_def)
    next
      case False
      then show ?thesis
        using Cons.prems Cons.IH None v by (auto simp: is_flags_def)
    qed
  next
    case (Some ty)
    then have nf: "\<not> is_flags a"
      by (auto simp: is_flags_def)
    have fb: "flagn a \<le> k" "flagb a < 32"
      using Cons.prems by auto
    have on: "flag_on fl (flag_of a) = Some (v \<noteq> VNone)"
      proof (cases "flagn a = 0")
      case True
      with Cons.hyps Some show ?thesis
        by (auto simp: flag_on_def flag_of_def arg_fits_def)
    next
      case False
      with Cons.prems fb have "fl (flagn a) = Some (fw (flagn a))"
        by (simp add: knows_def)
      moreover have "bit (fw (flagn a)) (flagb a) = (v \<noteq> VNone)"
        using Cons.hyps(1) Cons.prems(5) [of a v] Some False by (auto simp: arg_fits_def)
      ultimately show ?thesis
        using False fb by (simp add: flag_on_def flag_of_def bit_test del: push_bit_of_1)
    qed
    have IH: "ok (exec_dstmts des fl (gen_des k as) gs c)
      (\<lambda>(hs, b'). strips hs =
        strips gs @ fields as (map (\<lambda>v. (v, expect v)) vs) \<and> views b' rest)"
      if "views c (lay fw k (img (zip as vs)) @ rest)" for gs c
      using Cons.prems nf that by (intro Cons.IH) auto
    show ?thesis
    proof (cases "v = VNone")
      case True
      then show ?thesis
        using Some on IH Cons.prems nf by simp
    next
      case False
      have g: "ok (get_op des (arg_name a) (dop_kind ty) fs b) (\<lambda>r. \<exists>c b'. r = Next (fs @ [(arg_name a, c)]) b' \<and>
        strip c = expect v \<and> views b' (lay fw k (img (zip as vs)) @ rest))"
        using Cons.hyps Cons.prems False Some nf
        by (intro get_op_ok [OF d]) (auto simp: arg_fits_def)
      show ?thesis
        using Some on False
        by (auto intro!: ok_bind [OF g] ok_mono [OF IH])
    qed
  qed
qed

section \<open>Objects\<close>

lemma tl_read_ok:
  assumes d: "reads des table n" and f: "fits table (VObj m vs)" "depth (VObj m vs) \<le> Suc n"
    and v: "views b (enc_val (VObj m vs) @ rest)"
  shows "ok (tl_read des m b) (\<lambda>(x, b'). strip (FObj x) = expect (VObj m vs) \<and> views b' rest)"
proof -
  let ?ps = "zip (m_args m) vs"
  let ?body = "lay (flag_word ?ps) 0 (img ?ps) @ rest"
  have o: "obj_fits table m vs" "list_all (fits table) vs" "\<forall>v\<in>set vs. depth v \<le> n"
    using f by (auto simp: fold_max_le)
  have v': "views b (le_bytes 4 (m_id m) @ ?body)"
    using v by (simp add: zip_img)
  have copy: "ok (buf_add_buf b) (\<lambda>_. True)"
    by (rule ok_mono [OF buf_add_buf_ok [OF v views_small [OF v]]]) simp
  have sh: "flagb a < 32" if "(a, w) \<in> set ?ps" for a w
  proof -
    have "a \<in> set (m_args m)"
      using that by (rule set_zip_leftD)
    moreover have "wf_args k as \<Longrightarrow> \<forall>a\<in>set as. flagb a < 32" for k as
      by (induction as arbitrary: k) (auto split: if_splits)
    ultimately show ?thesis
      using o(1) by (auto simp: obj_fits_def)
  qed
  have body: "ok (exec_dstmts des Map.empty (gen_des 0 (m_args m)) [] (skip 4 b))
    (\<lambda>(gs, b'). strips gs =
        strips [] @ fields (m_args m) (map (\<lambda>v. (v, expect v)) vs) \<and> views b' rest)"
    using o read4 [OF v'] sh flag_word_bit [of _ _ ?ps]
    by (intro exec_dstmts_ok [OF d, of "flag_word ?ps"]) (auto simp: obj_fits_def knows_def)
  have "m_name m \<noteq> ''vector''"
    using o(1) by (simp add: obj_fits_def)
  then show ?thesis
    using read4 [OF v'] unfolding tl_read_def
    by (intro ok_bind [OF copy]) (auto intro!: ok_bind [OF body])
qed

theorem tl_deserialize_reads: "reads (tl_deserialize table fuel) table fuel"
proof (induction fuel)
  case 0
  show ?case
    by (auto simp: reads_def)
next
  case (Suc n)
  show ?case
    unfolding reads_def
  proof (intro allI impI)
    fix m vs b rest
    assume f: "fits table (VObj m vs)" "depth (VObj m vs) \<le> Suc n" and v: "views b (enc_val (VObj m vs) @ rest)"
    then have "buf_get_ui32 b = Some (m_id m)"
      using buf_get_ok(1) [OF v] by (simp add: le_simps)
    moreover have "m_id m \<noteq> 0" "get_fun table (m_id m) = Some m"
      using f by (auto simp: obj_fits_def)
    ultimately show "ok (tl_deserialize table (Suc n) b)
        (\<lambda>(x, b'). strip (FObj x) = expect (VObj m vs) \<and> views b' rest)"
      using tl_read_ok [OF Suc f v] by simp
  qed
qed

text \<open>The reader of objects meets the contract of a reader.\<close>

interpretation obj: wire_field "tl_deserialize table fuel" "\<lambda>(m, vs). enc_val (VObj m vs)"
  "\<lambda>x (m, vs). strip (FObj x) = expect (VObj m vs)"
  "\<lambda>(m, vs). fits table (VObj m vs) \<and> depth (VObj m vs) \<le> fuel" for table fuel
  by unfold_locales (use tl_deserialize_reads [of table fuel] in \<open>auto simp: reads_def\<close>)

end
