(* ===== verification/TLProps.thy ===== *)
theory TLProps
  imports Writer Reader
begin

text \<open>
  The properties of the buffers and of the generated codec, with instances on declarations of
  the schema (tl_generator/telegram_api.tl, mtproto_api.tl).
\<close>

section \<open>Declarations used as instances\<close>

definition arg :: "string \<Rightarrow> string \<Rightarrow> arg_t" where
  "arg x ty = \<lparr>arg_name = x, arg_type = Some ty, flagn = 0, flagb = 0\<rparr>"

definition opt_arg :: "string \<Rightarrow> string \<Rightarrow> nat \<Rightarrow> arg_t" where
  "opt_arg x ty bt = \<lparr>arg_name = x, arg_type = Some ty, flagn = 1, flagb = bt\<rparr>"

definition flags_arg :: arg_t where
  "flags_arg = \<lparr>arg_name = ''flags'', arg_type = None, flagn = 0, flagb = 0\<rparr>"

text \<open>updates.getDifference: a flags word, two mandatory integers, optional ones around them.\<close>

definition updates_getDifference :: method_t where
  "updates_getDifference = \<lparr>m_name = ''updates_getDifference'', m_id = 0x19c2f763, m_ret = None,
     m_args = [flags_arg, arg ''pts'' ''int'', opt_arg ''pts_limit'' ''int'' 1,
       opt_arg ''pts_total_limit'' ''int'' 0, arg ''date'' ''int'', arg ''qts'' ''int'',
       opt_arg ''qts_limit'' ''int'' 2],
     m_nflags = 1\<rparr>"

definition demo_vals :: "val list" where
  "demo_vals = [VNone, VInt 7, VInt 100, VNone, VInt 5, VInt 6, VNone]"

definition demo_env :: "string \<Rightarrow> aval option" where
  "demo_env = [''pts'' \<mapsto> AInt 7, ''pts_limit'' \<mapsto> AInt 100, ''date'' \<mapsto> AInt 5, ''qts'' \<mapsto> AInt 6]"

lemmas demo_defs = updates_getDifference_def demo_vals_def demo_env_def arg_def opt_arg_def flags_arg_def

lemma demo_carries: "list_all2 (carries mtp demo_env) (m_args updates_getDifference) demo_vals"
  by (simp add: demo_defs carries_def ser_kind_def op_passes_def int_passes_def)

lemma demo_wf: "wf_args 0 (m_args updates_getDifference)"
  by (simp add: demo_defs is_flags_def)

lemma demo_len: "length (enc_val (VObj updates_getDifference demo_vals)) \<le> 8192"
  by (simp add: demo_defs is_flags_def)

lemma demo_fits: "fits [updates_getDifference] (VObj updates_getDifference demo_vals)"
  by (simp add: demo_defs obj_fits_def is_flags_def arg_fits_def op_fits_def dop_kind_def bit_1_iff)

section \<open>Properties\<close>



text \<open>C2. The readers the generator emits invert the wire format: on a buffer that starts with
  the image of an object that fits its declaration (nested objects included), tl_deserialize
  with fuel for the nesting is defined, returns exactly that object, every field and nothing
  else, and leaves the bytes that follow.\<close>

theorem reader_inverts_format:
  assumes "fits table (VObj m vs)" and "depth (VObj m vs) \<le> fuel"
    and "views b (enc_val (VObj m vs) @ rest)"
  shows "ok (tl_deserialize table fuel b)
    (\<lambda>(x, b'). strip (FObj x) = expect (VObj m vs) \<and> views b' rest)"
  using obj.get_ok [where table = table and fuel = fuel and x = "(m, vs)" and b = b and rest = rest] assms by simp

definition demo_buf :: buf_t where
  "demo_buf = buf_of (enc_val (VObj updates_getDifference demo_vals))"

lemma demo_views: "views demo_buf (enc_val (VObj updates_getDifference demo_vals) @ [])"
  unfolding demo_buf_def append_Nil2 by (rule owns_views [OF buf_of_owns [OF demo_len]])

theorem reader_inverts_format_witness:
  "ok (tl_deserialize [updates_getDifference] 1 demo_buf)
    (\<lambda>(x, b'). strip (FObj x) = expect (VObj updates_getDifference demo_vals) \<and> views b' [])"
  by (rule reader_inverts_format [OF demo_fits _ demo_views]) (simp add: demo_vals_def)



end
