(* ===== verification/Session.thy ===== *)
theory Session
  imports GenSer
begin

text \<open>
  The session state of a client (struct tg_ of tg/tg.h) and the MTProto message layer:
  acknowledgement bookkeeping (tg/ack.c) and message headers (tg/header.c).

  The environment of the C code is part of the state record: \<^theory_text>\<open>now\<close> gives the successive
  readings of the clock as header.c scales them (seconds times 2 to the 32, as a long long),
  \<^theory_text>\<open>rnd\<close> the successive bytes of the random generator, and a lock field tells whether
  pthread_mutex_lock succeeds on that mutex.
\<close>

section \<open>State\<close>

record tg_t =
  tg_key :: buf_t
  tg_salt :: buf_t
  tg_ssid :: buf_t
  tg_seqn :: u32
  tg_msgids :: "u64 list"
  tg_todrop :: "u64 list"
  tg_timediff :: u64
  tg_now :: "nat \<Rightarrow> u64"
  tg_rnd :: "nat \<Rightarrow> byte"
  tg_seqnm :: bool
  tg_msgidsm :: bool
  tg_todropm :: bool

text \<open>Reading the clock or the generator moves the environment on.\<close>

definition next_now :: "tg_t \<Rightarrow> tg_t" where
  "next_now tg = tg\<lparr>tg_now := (\<lambda>i. tg_now tg (Suc i))\<rparr>"

definition skip_rnd :: "nat \<Rightarrow> tg_t \<Rightarrow> tg_t" where
  "skip_rnd n tg = tg\<lparr>tg_rnd := (\<lambda>i. tg_rnd tg (n + i))\<rparr>"

section \<open>Acknowledgements\<close>

text \<open>The declarations whose generated writers this layer calls (tl_generator/mtproto_api.tl).\<close>

definition d_msgs_ack :: method_t where
  "d_msgs_ack = \<lparr>m_name = ''msgs_ack'', m_id = 0x62d6b459, m_ret = Some ''MsgsAck'',
     m_args = [\<lparr>arg_name = ''msg_ids'', arg_type = Some ''Vector<long>'', flagn = 0, flagb = 0\<rparr>],
     m_nflags = 0\<rparr>"

definition d_rpc_drop_answer :: method_t where
  "d_rpc_drop_answer = \<lparr>m_name = ''rpc_drop_answer'', m_id = 0x58e4a740, m_ret = Some ''RpcDropAnswer'',
     m_args = [\<lparr>arg_name = ''req_msg_id'', arg_type = Some ''long'', flagn = 0, flagb = 0\<rparr>],
     m_nflags = 0\<rparr>"

definition id_msg_container :: u32 where
  "id_msg_container = 0x73f1f8dc"

definition tl_msgs_ack :: "u64 list \<Rightarrow> buf_t option" where
  "tl_msgs_ack ids = tl_method True d_msgs_ack [''msg_ids'' \<mapsto> AVec (map ALong ids)]"

definition tl_rpc_drop_answer :: "u64 \<Rightarrow> buf_t option" where
  "tl_rpc_drop_answer i = tl_method True d_rpc_drop_answer [''req_msg_id'' \<mapsto> ALong i]"

definition tg_add_msgid :: "u64 \<Rightarrow> tg_t \<Rightarrow> tg_t" where
  "tg_add_msgid i tg = (if tg_msgidsm tg then tg\<lparr>tg_msgids := tg_msgids tg @ [i]\<rparr> else tg)"

definition tg_add_todrop :: "u64 \<Rightarrow> tg_t \<Rightarrow> tg_t" where
  "tg_add_todrop i tg = (if tg_todropm tg then tg\<lparr>tg_todrop := tg_todrop tg @ [i]\<rparr> else tg)"

definition tg_ack :: "tg_t \<Rightarrow> (buf_t \<times> tg_t) option" where
  "tg_ack tg =
     (if \<not> tg_msgidsm tg \<or> tg_msgids tg = [] then Some (buf_new, tg)
      else do {
        ack \<leftarrow> tl_msgs_ack (tg_msgids tg);
        Some (ack, tg\<lparr>tg_msgids := []\<rparr>)
      })"

section \<open>Messages\<close>

text \<open>The mask \<^theory_text>\<open>& -4\<close> clears the two low bits before the time difference is added.\<close>

definition tg_get_current_time :: "tg_t \<Rightarrow> u64 \<times> tg_t" where
  "tg_get_current_time tg = ((tg_now tg 0 AND - 4) + tg_timediff tg, next_now tg)"

text \<open>The sequence number: a content message takes an odd one and moves the counter.\<close>

definition next_seqno :: "bool \<Rightarrow> tg_t \<Rightarrow> u32 \<times> tg_t" where
  "next_seqno content tg =
     (if content then (tg_seqn tg * 2 + 1, tg\<lparr>tg_seqn := tg_seqn tg + 1\<rparr>) else (tg_seqn tg * 2, tg))"

definition tg_mtp_message :: "buf_t \<Rightarrow> bool \<Rightarrow> tg_t \<Rightarrow> (buf_t \<times> u64 \<times> tg_t) option" where
  "tg_mtp_message payload content tg = (let (msg_id, tg) = tg_get_current_time tg in do {
     msg \<leftarrow> buf_cat_ui64 buf_new msg_id;
     (if \<not> tg_seqnm tg then Some (msg, msg_id, tg)
      else (let (q, tg) = next_seqno content tg in do {
        msg \<leftarrow> buf_cat_ui32 msg q;
        msg \<leftarrow> buf_cat_ui32 msg (bsize payload);
        msg \<leftarrow> buf_cat msg payload;
        Some (msg, msg_id, tg)
      }))
   })"

fun drop_loop :: "u64 list \<Rightarrow> buf_t \<Rightarrow> tg_t \<Rightarrow> (buf_t \<times> tg_t) option" where
  "drop_loop [] b tg = Some (b, tg)"
| "drop_loop (i # is) b tg = do {
     d \<leftarrow> tl_rpc_drop_answer i;
     (msg, _, tg) \<leftarrow> tg_mtp_message d True tg;
     b \<leftarrow> buf_cat b msg;
     drop_loop is b tg
   }"

definition tg_to_drop :: "buf_t \<Rightarrow> tg_t \<Rightarrow> (nat \<times> buf_t \<times> tg_t) option" where
  "tg_to_drop b tg =
     (if \<not> tg_todropm tg \<or> tg_todrop tg = [] then Some (0, b, tg)
      else do {
        (b, tg') \<leftarrow> drop_loop (tg_todrop tg) b tg;
        Some (length (tg_todrop tg), b, tg'\<lparr>tg_todrop := []\<rparr>)
      })"

section \<open>Headers\<close>

text \<open>The container around the payload when acknowledgements are pending: the payload, the
  acknowledgement, and the answers to drop.  Its result has the payload's message id.\<close>

definition tg_container :: "buf_t \<Rightarrow> buf_t \<Rightarrow> tg_t \<Rightarrow> (buf_t \<times> u64 \<times> tg_t) option" where
  "tg_container b ack tg = do {
     (m0, msg_id, tg) \<leftarrow> tg_mtp_message b True tg;
     (m1, _, tg) \<leftarrow> tg_mtp_message ack False tg;
     c \<leftarrow> buf_add_ui32 id_msg_container;
     (n, todrop, tg) \<leftarrow> tg_to_drop buf_new tg;
     c \<leftarrow> buf_cat_ui32 c (2 + of_nat n);
     c \<leftarrow> buf_cat c m0;
     c \<leftarrow> buf_cat c m1;
     c \<leftarrow> buf_cat c todrop;
     Some (c, msg_id, tg)
   }"

definition tg_header_body :: "buf_t \<Rightarrow> bool \<Rightarrow> tg_t \<Rightarrow> (buf_t \<times> bool \<times> u64 \<times> tg_t) option" where
  "tg_header_body b content tg = do {
     (ack, tg) \<leftarrow> tg_ack tg;
     (if bsize ack > 0
      then do { (c, i, tg) \<leftarrow> tg_container b ack tg; Some (c, False, i, tg) }
      else Some (b, content, 0, tg))
   }"

text \<open>Building the container frees the buffer with the payload, which is the caller's.\<close>

definition header_frees :: "tg_t \<Rightarrow> bool" where
  "header_frees tg \<longleftrightarrow> tg_msgidsm tg \<and> tg_msgids tg \<noteq> []"

text \<open>Salt, session id, message id, sequence number, length, body and padding.\<close>

definition tg_header_tail :: "buf_t \<Rightarrow> bool \<Rightarrow> u64 \<Rightarrow> tg_t \<Rightarrow> (buf_t \<times> u64 \<times> tg_t) option" where
  "tg_header_tail b content mid tg = do {
     s \<leftarrow> buf_cat buf_init (tg_salt tg);
     s \<leftarrow> buf_cat s (tg_ssid tg);
     (let (i, tg) = tg_get_current_time tg in do {
       s \<leftarrow> buf_cat_ui64 s i;
       (let mid = (if mid = 0 then i else mid) in
        if \<not> tg_seqnm tg then Some (s, mid, tg)
        else (let (q, tg) = next_seqno content tg; pad = 16 + (16 - bsize b mod 16) mod 16 in do {
          s \<leftarrow> buf_cat_ui32 s q;
          s \<leftarrow> buf_cat_ui32 s (bsize b);
          s \<leftarrow> buf_cat s b;
          s \<leftarrow> buf_cat_rand (tg_rnd tg) s pad;
          Some (s, mid, skip_rnd (unat pad) tg)
        }))
     })
   }"

text \<open>The encrypted header; the caller's message id pointer is read, set to zero and written:
  \<^theory_text>\<open>None\<close> is a null pointer, whose use is undefined.  The result carries what the pointer
  holds at the end.\<close>

definition tg_header_enc :: "buf_t \<Rightarrow> bool \<Rightarrow> u64 option \<Rightarrow> tg_t \<Rightarrow> (buf_t \<times> u64 \<times> tg_t) option" where
  "tg_header_enc b content msgid tg = do {
     _ \<leftarrow> msgid;
     (b, content, mid, tg) \<leftarrow> tg_header_body b content tg;
     tg_header_tail b content mid tg
   }"

definition tg_header_plain :: "buf_t \<Rightarrow> tg_t \<Rightarrow> (buf_t \<times> tg_t) option" where
  "tg_header_plain b tg = do {
     s \<leftarrow> buf_cat_ui64 buf_init 0;
     (let (i, tg) = tg_get_current_time tg in do {
       s \<leftarrow> buf_cat_ui64 s i;
       s \<leftarrow> buf_cat_ui32 s (bsize b);
       s \<leftarrow> buf_cat s b;
       Some (s, tg)
     })
   }"

definition tg_header :: "buf_t \<Rightarrow> bool \<Rightarrow> bool \<Rightarrow> u64 option \<Rightarrow> tg_t \<Rightarrow> (buf_t \<times> u64 option \<times> tg_t) option" where
  "tg_header b enc content msgid tg =
     (if enc then do { (s, i, tg) \<leftarrow> tg_header_enc b content msgid tg; Some (s, Some i, tg) }
      else do { (s, tg) \<leftarrow> tg_header_plain b tg; Some (s, msgid, tg) })"

text \<open>A session id mismatch is only reported; the size is set to the length field unchecked.\<close>

definition tg_deheader_enc :: "buf_t \<Rightarrow> tg_t \<Rightarrow> (buf_t \<times> tg_t) option" where
  "tg_deheader_enc b tg = do {
     (salt, b) \<leftarrow> deserialize_ui64 b;
     s \<leftarrow> buf_add_ui64 salt;
     tg \<leftarrow> Some (tg\<lparr>tg_salt := s\<rparr>);
     (ssid, b) \<leftarrow> deserialize_ui64 b;
     _ \<leftarrow> buf_get_ui64 (tg_ssid tg);
     (i, b) \<leftarrow> deserialize_ui64 b;
     tg \<leftarrow> Some (tg_add_msgid i tg);
     (q, b) \<leftarrow> deserialize_ui32 b;
     (n, b) \<leftarrow> deserialize_ui32 b;
     d \<leftarrow> buf_cat buf_init (b\<lparr>bsize := n\<rparr>);
     Some (d, tg)
   }"

definition tg_deheader_plain :: "buf_t \<Rightarrow> tg_t \<Rightarrow> (buf_t \<times> tg_t) option" where
  "tg_deheader_plain b tg = do {
     k \<leftarrow> buf_get_ui64 b;
     (if k \<noteq> 0 then Some (b, tg)
      else do {
        (k, b) \<leftarrow> deserialize_ui64 b;
        (i, b) \<leftarrow> deserialize_ui64 b;
        (n, b) \<leftarrow> deserialize_ui32 b;
        d \<leftarrow> buf_cat buf_init b;
        Some (d, tg)
      })
   }"

definition tg_deheader :: "buf_t \<Rightarrow> bool \<Rightarrow> tg_t \<Rightarrow> (buf_t \<times> tg_t) option" where
  "tg_deheader b enc tg =
     (if bsize b = 0 then Some (b, tg)
      else if enc then tg_deheader_enc b tg else tg_deheader_plain b tg)"

end
