(* ===== verification/Encrypt.thy ===== *)
theory Encrypt
  imports Session
begin

text \<open>
  MTProto 2.0 encryption (tg/encrypt.c over crypto/hsh.c and crypto/aes.c), the intermediate
  transport (tg/transport.c) and their composition (tg/prepare_query.c).

  SHA-1, SHA-256 and AES-IGE are OpenSSL's and are arguments, collected in the record
  \<^theory_text>\<open>crypto\<close>: functions from bytes to bytes.  \<^theory_text>\<open>crypto_ok\<close> is what
  OpenSSL documents of them: the lengths of the digests, that the cipher keeps the length, and
  that decryption inverts encryption under the same key and vector.
\<close>

section \<open>Primitives\<close>

record crypto =
  c_sha1 :: "byte list \<Rightarrow> byte list"
  c_sha256 :: "byte list \<Rightarrow> byte list"
  c_ige_e :: "byte list \<Rightarrow> byte list \<Rightarrow> byte list \<Rightarrow> byte list"
  c_ige_d :: "byte list \<Rightarrow> byte list \<Rightarrow> byte list \<Rightarrow> byte list"

text \<open>The C library writes its result at the start of a fresh block.\<close>

definition write_at_start :: "byte list \<Rightarrow> buf_t \<Rightarrow> buf_t option" where
  "write_at_start bs b = (if length bs \<le> unat (asize b) + 1
     then Some (b\<lparr>aptr := (\<lambda>i. if i < length bs then bs ! i else aptr b i)\<rparr>) else None)"

definition tg_hsh_sha1 :: "crypto \<Rightarrow> buf_t \<Rightarrow> buf_t option" where
  "tg_hsh_sha1 C b = do {
     bs \<leftarrow> peeks b 0 (unat (bsize b));
     h \<leftarrow> write_at_start (c_sha1 C bs) buf_init;
     Some (h\<lparr>bsize := 20\<rparr>)
   }"

text \<open>The size is set to 256, though a digest has 32 bytes.\<close>

definition tg_hsh_sha256 :: "crypto \<Rightarrow> buf_t \<Rightarrow> buf_t option" where
  "tg_hsh_sha256 C b = do {
     bs \<leftarrow> peeks b 0 (unat (bsize b));
     h \<leftarrow> write_at_start (c_sha256 C bs) buf_init;
     Some (h\<lparr>bsize := 256\<rparr>)
   }"

text \<open>AES_ige_encrypt asserts that the length is a multiple of the block size.\<close>

definition tg_cry_aes :: "(byte list \<Rightarrow> byte list \<Rightarrow> byte list \<Rightarrow> byte list) \<Rightarrow>
    buf_t \<Rightarrow> buf_t \<Rightarrow> buf_t \<Rightarrow> buf_t option" where
  "tg_cry_aes f b k iv = do {
     r \<leftarrow> (if bsize b > bsize buf_init then buf_realloc buf_init (bsize b * 3) else Some buf_init);
     key \<leftarrow> peeks k 0 32;
     bs \<leftarrow> peeks b 0 (unat (bsize b));
     v \<leftarrow> peeks iv 0 32;
     (if unat (bsize b) mod 16 \<noteq> 0 then None
      else do {
        r \<leftarrow> write_at_start (f key v bs) r;
        Some (r\<lparr>bsize := bsize b\<rparr>)
      })
   }"

definition tg_cry_aes_e :: "crypto \<Rightarrow> buf_t \<Rightarrow> buf_t \<Rightarrow> buf_t \<Rightarrow> buf_t option" where
  "tg_cry_aes_e C b k iv = tg_cry_aes (c_ige_e C) b k iv"

definition tg_cry_aes_d :: "crypto \<Rightarrow> buf_t \<Rightarrow> buf_t \<Rightarrow> buf_t \<Rightarrow> buf_t option" where
  "tg_cry_aes_d C b k iv = tg_cry_aes (c_ige_d C) b k iv"

section \<open>Keys\<close>

text \<open>\<^theory_text>\<open>buf_add(x.data + k, n)\<close> and
  \<^theory_text>\<open>buf_cat_data(b, x.data + k, n)\<close>.\<close>

definition add_sub :: "buf_t \<Rightarrow> nat \<Rightarrow> nat \<Rightarrow> buf_t option" where
  "add_sub x k n = do { bs \<leftarrow> peeks x k n; buf_add bs (of_nat n) }"

definition cat_sub :: "buf_t \<Rightarrow> buf_t \<Rightarrow> nat \<Rightarrow> nat \<Rightarrow> buf_t option" where
  "cat_sub b x k n = do { bs \<leftarrow> peeks x k n; buf_cat_data b bs (of_nat n) }"

definition auth_key_id_of :: "crypto \<Rightarrow> buf_t \<Rightarrow> buf_t option" where
  "auth_key_id_of C key = do { h \<leftarrow> tg_hsh_sha1 C key; add_sub h 12 8 }"

definition msg_key_of :: "crypto \<Rightarrow> buf_t \<Rightarrow> buf_t \<Rightarrow> buf_t option" where
  "msg_key_of C key b = do {
     l \<leftarrow> add_sub key 88 32;
     l \<leftarrow> buf_cat l b;
     h \<leftarrow> tg_hsh_sha256 C l;
     add_sub h 8 16
   }"

text \<open>aes_key and aes_iv from the message key, with the offset \<^theory_text>\<open>x\<close> into the
  authorization key: 0 from client to server, 8 back.\<close>

definition aes_keys_of :: "crypto \<Rightarrow> nat \<Rightarrow> buf_t \<Rightarrow> buf_t \<Rightarrow> (buf_t \<times> buf_t) option" where
  "aes_keys_of C x key msg_key = do {
     a \<leftarrow> add_sub msg_key 0 (unat (bsize msg_key));
     a \<leftarrow> cat_sub a key x 36;
     a \<leftarrow> tg_hsh_sha256 C a;
     b \<leftarrow> add_sub key (40 + x) 36;
     b \<leftarrow> cat_sub b msg_key 0 (unat (bsize msg_key));
     b \<leftarrow> tg_hsh_sha256 C b;
     k \<leftarrow> add_sub a 0 8;
     k \<leftarrow> cat_sub k b 8 16;
     k \<leftarrow> cat_sub k a 24 8;
     v \<leftarrow> add_sub b 0 8;
     v \<leftarrow> cat_sub v a 8 16;
     v \<leftarrow> cat_sub v b 24 8;
     Some (k, v)
   }"

section \<open>Encryption\<close>

definition tg_encrypt :: "crypto \<Rightarrow> tg_t \<Rightarrow> buf_t \<Rightarrow> bool \<Rightarrow> buf_t option" where
  "tg_encrypt C tg b enc =
     (if enc
      then do {
        auth_key_id \<leftarrow> auth_key_id_of C (tg_key tg);
        msg_key \<leftarrow> msg_key_of C (tg_key tg) b;
        (k, v) \<leftarrow> aes_keys_of C 0 (tg_key tg) msg_key;
        e \<leftarrow> tg_cry_aes_e C b k v;
        r \<leftarrow> buf_cat buf_init auth_key_id;
        r \<leftarrow> buf_cat r msg_key;
        buf_cat r e
      }
      else buf_cat buf_init b)"

text \<open>The second key half is appended with buf_cat here and with buf_cat_data above; both copy the
  bytes of the message key.\<close>

definition tg_decrypt :: "crypto \<Rightarrow> tg_t \<Rightarrow> buf_t \<Rightarrow> bool \<Rightarrow> buf_t option" where
  "tg_decrypt C tg m enc =
     (if bsize m = 0 then Some buf_init
      else if enc
      then do {
        i \<leftarrow> buf_get_ui64 m;
        own \<leftarrow> auth_key_id_of C (tg_key tg);
        j \<leftarrow> buf_get_ui64 own;
        (if i \<noteq> j then Some buf_init
         else do {
           (_, m) \<leftarrow> deserialize_ui64 m;
           (msg_key, m) \<leftarrow> deserialize_buf m 16;
           (if bsize m mod 16 \<noteq> 0 then Some buf_init
            else do {
              (k, v) \<leftarrow> aes_keys_of C 8 (tg_key tg) msg_key;
              tg_cry_aes_d C m k v
            })
         })
      }
      else buf_cat buf_init m)"

section \<open>Transport\<close>

definition tg_transport :: "buf_t \<Rightarrow> buf_t option" where
  "tg_transport buf = do { b \<leftarrow> buf_cat_ui32 buf_init (bsize buf); buf_cat b buf }"

text \<open>-404 as a 32-bit number.\<close>

definition err_404 :: u32 where
  "err_404 = 0xfffffe6c"

definition tg_detransport :: "buf_t \<Rightarrow> buf_t option" where
  "tg_detransport a =
     (if bsize a = 0 then Some buf_init
      else do {
        (len, a) \<leftarrow> deserialize_ui32 a;
        stop \<leftarrow> (if len = - 404 then Some True else map_option (\<lambda>w. w = err_404) (buf_get_ui32 a));
        (if stop then buf_cat_ui32 buf_init err_404
         else do {
           b \<leftarrow> buf_cat buf_init a;
           (if len \<noteq> bsize b then buf_add_ui32 (- 405) else Some b)
         })
      })"

definition tg_prepare_query :: "crypto \<Rightarrow> buf_t \<Rightarrow> bool \<Rightarrow> u64 option \<Rightarrow> tg_t \<Rightarrow>
    (buf_t \<times> u64 option \<times> tg_t) option" where
  "tg_prepare_query C query enc msgid tg = do {
     (h, i, tg) \<leftarrow> tg_header query enc True msgid tg;
     e \<leftarrow> tg_encrypt C tg h enc;
     t \<leftarrow> tg_transport e;
     Some (t, i, tg)
   }"

section \<open>What they compute\<close>

definition crypto_ok :: "crypto \<Rightarrow> bool" where
  "crypto_ok C \<longleftrightarrow>
     (\<forall>bs. length (c_sha1 C bs) = 20) \<and> (\<forall>bs. length (c_sha256 C bs) = 32) \<and>
     (\<forall>k v bs. length (c_ige_e C k v bs) = length bs) \<and> (\<forall>k v bs. length (c_ige_d C k v bs) = length bs) \<and>
     (\<forall>k v bs. length bs mod 16 = 0 \<longrightarrow> c_ige_d C k v (c_ige_e C k v bs) = bs)"

definition sub :: "byte list \<Rightarrow> nat \<Rightarrow> nat \<Rightarrow> byte list" where
  "sub bs k n = take n (drop k bs)"

definition key_id :: "crypto \<Rightarrow> byte list \<Rightarrow> byte list" where
  "key_id C key = sub (c_sha1 C key) 12 8"

text \<open>The formulas of the protocol, with the direction \<^theory_text>\<open>x\<close>.\<close>

definition msg_key2 :: "crypto \<Rightarrow> nat \<Rightarrow> byte list \<Rightarrow> byte list \<Rightarrow> byte list" where
  "msg_key2 C x key pt = sub (c_sha256 C (sub key (88 + x) 32 @ pt)) 8 16"

definition aes_keys2 :: "crypto \<Rightarrow> nat \<Rightarrow> byte list \<Rightarrow> byte list \<Rightarrow> byte list \<times> byte list" where
  "aes_keys2 C x key mk = (let a = c_sha256 C (mk @ sub key x 36); b = c_sha256 C (sub key (40 + x) 36 @ mk) in
     (sub a 0 8 @ sub b 8 16 @ sub a 24 8, sub b 0 8 @ sub a 8 16 @ sub b 24 8))"

definition mtproto2 :: "crypto \<Rightarrow> nat \<Rightarrow> byte list \<Rightarrow> byte list \<Rightarrow> byte list" where
  "mtproto2 C x key pt = (let mk = msg_key2 C x key pt; (k, v) = aes_keys2 C x key mk in
     key_id C key @ mk @ c_ige_e C k v pt)"

end
