(* ===== verification/Lists.thy ===== *)
theory Lists
  imports Prelude
begin

text \<open>
  The linked lists of tg/list.h, on a heap of cells.  A cell holds the pointer to the next cell
  (the field prev) and the item; addresses come from an allocator that hands out fresh ones, and
  reading or freeing a cell that is not allocated is undefined (\<^theory_text>\<open>None\<close>).  The locale
  \<^theory_text>\<open>cut_list\<close> is what users of the lists rely on.
\<close>

section \<open>Cells\<close>

record 'a list_t =
  prv :: "nat option"
  itm :: 'a

record 'a heap =
  cells :: "nat \<rightharpoonup> 'a list_t"
  fresh :: nat

text \<open>A list variable: the heap and the pointer \<^theory_text>\<open>*listp\<close>.\<close>

type_synonym 'a hlist = "'a heap \<times> nat option"

definition hl_empty :: "'a hlist" where
  "hl_empty = (\<lparr>cells = Map.empty, fresh = 0\<rparr>, None)"

text \<open>The allocator may fail, which the flag says.\<close>

definition list_add :: "bool \<Rightarrow> 'a \<Rightarrow> 'a hlist \<Rightarrow> int \<times> 'a hlist" where
  "list_add oom x l = (case l of (h, p) \<Rightarrow>
     if oom then (1, l)
     else (0, (h\<lparr>cells := (cells h)(fresh h \<mapsto> \<lparr>prv = p, itm = x\<rparr>), fresh := Suc (fresh h)\<rparr>, Some (fresh h))))"

text \<open>The loop of list_cut at cell \<^theory_text>\<open>p\<close>, with the cell before it; a cell that matches is
  unlinked and freed.  The number of steps is bounded by the fuel.\<close>

fun cut_loop :: "('a \<Rightarrow> bool) \<Rightarrow> nat \<Rightarrow> nat option \<Rightarrow> nat option \<Rightarrow> 'a hlist \<Rightarrow> ('a option \<times> 'a hlist) option" where
  "cut_loop cmp 0 before p l = None"
| "cut_loop cmp (Suc n) before p l =
     (case p of
        None \<Rightarrow> Some (None, l)
      | Some a \<Rightarrow> do {
          c \<leftarrow> cells (fst l) a;
          (if cmp (itm c)
           then do {
             (h, q) \<leftarrow> (case before of
                None \<Rightarrow> Some (fst l, prv c)
              | Some b \<Rightarrow> do {
                  d \<leftarrow> cells (fst l) b;
                  Some ((fst l)\<lparr>cells := (cells (fst l))(b \<mapsto> d\<lparr>prv := prv c\<rparr>)\<rparr>, snd l)
                });
             Some (Some (itm c), (h\<lparr>cells := (cells h)(a := None)\<rparr>, q))
           }
           else cut_loop cmp n (Some a) (prv c) l)
        })"

definition list_cut :: "('a \<Rightarrow> bool) \<Rightarrow> nat \<Rightarrow> 'a hlist \<Rightarrow> ('a option \<times> 'a hlist) option" where
  "list_cut cmp fuel l = cut_loop cmp fuel None (snd l) l"

text \<open>The items list_for_each visits.\<close>

fun list_for_each :: "nat \<Rightarrow> nat option \<Rightarrow> 'a heap \<Rightarrow> 'a list option" where
  "list_for_each 0 p h = None"
| "list_for_each (Suc n) p h =
     (case p of
        None \<Rightarrow> Some []
      | Some a \<Rightarrow> do { c \<leftarrow> cells h a; xs \<leftarrow> list_for_each n (prv c) h; Some (itm c # xs) })"

fun free_loop :: "nat \<Rightarrow> nat option \<Rightarrow> 'a heap \<Rightarrow> 'a heap option" where
  "free_loop 0 p h = None"
| "free_loop (Suc n) p h =
     (case p of
        None \<Rightarrow> Some h
      | Some a \<Rightarrow> do { c \<leftarrow> cells h a; free_loop n (prv c) (h\<lparr>cells := (cells h)(a := None)\<rparr>) })"

definition list_free :: "nat \<Rightarrow> 'a hlist \<Rightarrow> 'a hlist option" where
  "list_free fuel l = do { h \<leftarrow> free_loop fuel (snd l) (fst l); Some (h, None) }"

section \<open>The list a pointer leads to\<close>

text \<open>From pointer \<^theory_text>\<open>p\<close> over the cells \<^theory_text>\<open>as\<close> with the items
  \<^theory_text>\<open>xs\<close> to pointer \<^theory_text>\<open>q\<close>.\<close>

fun seg :: "'a heap \<Rightarrow> nat option \<Rightarrow> nat list \<Rightarrow> 'a list \<Rightarrow> nat option \<Rightarrow> bool" where
  "seg h p [] xs q = (p = q \<and> xs = [])"
| "seg h p (a # as) [] q = False"
| "seg h p (a # as) (x # xs) q =
     (p = Some a \<and> (\<exists>r. cells h a = Some \<lparr>prv = r, itm = x\<rparr> \<and> seg h r as xs q))"

text \<open>The cells of a list are exactly the allocated ones.\<close>

definition hl :: "'a hlist \<Rightarrow> 'a list \<Rightarrow> bool" where
  "hl l xs \<longleftrightarrow> (\<exists>as. seg (fst l) (snd l) as xs None \<and> distinct as \<and> dom (cells (fst l)) = set as \<and>
     (\<forall>a\<in>set as. a < fresh (fst l)))"

text \<open>The first item that matches, and the list without it.\<close>

definition first :: "('a \<Rightarrow> bool) \<Rightarrow> 'a list \<Rightarrow> 'a option" where
  "first P xs = List.find P xs"

fun without_first :: "('a \<Rightarrow> bool) \<Rightarrow> 'a list \<Rightarrow> 'a list" where
  "without_first P [] = []"
| "without_first P (x # xs) = (if P x then xs else x # without_first P xs)"

section \<open>The interface\<close>

locale cut_list =
  fixes rep :: "'l \<Rightarrow> 'a list \<Rightarrow> bool"
    and add :: "'a \<Rightarrow> 'l \<Rightarrow> 'l"
    and cut :: "('a \<Rightarrow> bool) \<Rightarrow> nat \<Rightarrow> 'l \<Rightarrow> ('a option \<times> 'l) option"
  assumes add_rep: "rep l xs \<Longrightarrow> rep (add x l) (x # xs)"
    and cut_rep: "rep l xs \<Longrightarrow> length xs < n \<Longrightarrow>
      ok (cut P n l) (\<lambda>(r, l'). r = first P xs \<and> rep l' (without_first P xs))"
begin

lemma cut_none:
  assumes "rep l xs" and "length xs < n" and "\<forall>x\<in>set xs. \<not> P x"
  shows "ok (cut P n l) (\<lambda>(r, l'). r = None \<and> rep l' xs)"
proof -
  have "first P xs = None" "without_first P xs = xs"
    using assms(3) by (induction xs) (auto simp: first_def)
  then show ?thesis
    using cut_rep [OF assms(1,2), of P] by (auto elim!: ok_mono)
qed

lemma cut_some:
  assumes "rep l (xs @ y # zs)" and "length xs + length zs + 1 < n" and "\<forall>x\<in>set xs. \<not> P x" and "P y"
  shows "ok (cut P n l) (\<lambda>(r, l'). r = Some y \<and> rep l' (xs @ zs))"
proof -
  have "first P (xs @ y # zs) = Some y" "without_first P (xs @ y # zs) = xs @ zs"
    using assms(3,4) by (induction xs) (auto simp: first_def)
  then show ?thesis
    using cut_rep [OF assms(1), of n P] assms(2) by (auto elim!: ok_mono)
qed

text \<open>An item that was added is found again, and cutting it gives the list back.\<close>

lemma add_cut:
  assumes "rep l xs" and "P x" and "Suc (length xs) < n"
  shows "ok (cut P n (add x l)) (\<lambda>(r, l'). r = Some x \<and> rep l' xs)"
proof -
  have "rep (add x l) ([] @ x # xs)"
    using add_rep [OF assms(1)] by simp
  from cut_some [OF this, of n P] assms(2,3) show ?thesis
    by simp
qed

end

section \<open>Heap lists are such lists\<close>

lemma seg_append:
  "length as = length xs \<Longrightarrow>
     seg h p (as @ bs) (xs @ ys) q \<longleftrightarrow> (\<exists>r. seg h p as xs r \<and> seg h r bs ys q)"
  by (induction as xs arbitrary: p rule: list_induct2) auto

lemma seg_length: "seg h p as xs q \<Longrightarrow> length as = length xs"
  by (induction h p as xs q rule: seg.induct) auto

lemma seg_frame:
  "(\<And>a. a \<in> set as \<Longrightarrow> cells h' a = cells h a) \<Longrightarrow> seg h' p as xs q = seg h p as xs q"
proof (induction as arbitrary: p xs)
  case Nil
  then show ?case by simp
next
  case (Cons a as)
  then show ?case
    by (cases xs) auto
qed

lemma hl_empty_rep: "hl hl_empty []"
  by (auto simp: hl_def hl_empty_def intro!: exI [of _ "[]"])

lemma list_add_rep:
  assumes "hl l xs"
  shows "hl (snd (list_add False x l)) (x # xs)"
proof -
  obtain as where as: "seg (fst l) (snd l) as xs None" "distinct as" "dom (cells (fst l)) = set as"
    "\<forall>a\<in>set as. a < fresh (fst l)"
    using assms by (auto simp: hl_def)
  let ?f = "fresh (fst l)" and ?l = "snd (list_add False x l)"
  have "?f \<notin> set as"
    using as(4) by auto
  moreover have "seg (fst ?l) (snd l) as xs None"
    using as(1) calculation by (subst seg_frame [of _ _ "fst l"]) (auto simp: list_add_def split: prod.splits)
  ultimately show ?thesis
    using as by (auto simp: hl_def list_add_def less_Suc_eq split: prod.splits intro!: exI [of _ "?f # as"])
qed

text \<open>Unlinking a cell.\<close>

lemma unlink_seg:
  assumes s: "seg h p (bs @ a # as) (ys @ x # xs) None" and d: "distinct (bs @ a # as)"
    and l: "length bs = length ys" and c: "cells h a = Some c"
    and h': "h' = h\<lparr>cells := (if bs = [] then cells h
        else (cells h)(last bs \<mapsto> the (cells h (last bs))\<lparr>prv := prv c\<rparr>))(a := None)\<rparr>"
    and p': "p' = (if bs = [] then prv c else p)"
  shows "seg h' p' (bs @ as) (ys @ xs) None"
proof -
  have rest: "seg h' q as zs None = seg h q as zs None" for q zs
    using d by (intro seg_frame) (cases bs rule: rev_cases; auto simp: h')
  obtain r where bs: "seg h p bs ys r" and r: "r = Some a" and as: "seg h (prv c) as xs None"
    using s l c by (auto simp: seg_append)
  show ?thesis
  proof (cases bs rule: rev_cases)
    case Nil
    with as l rest show ?thesis
      by (simp add: p')
  next
    case (snoc bs' b)
    with l obtain ys' y where ys: "ys = ys' @ [y]" "length bs' = length ys'"
      by (cases ys rule: rev_cases) auto
    with bs snoc obtain q where q: "seg h p bs' ys' q" "q = Some b" "cells h b = Some \<lparr>prv = r, itm = y\<rparr>"
      by (auto simp: seg_append)
    have "seg h' p bs' ys' q"
      using q(1) d snoc by (subst seg_frame [of _ _ h]) (auto simp: h')
    moreover have "cells h' b = Some \<lparr>prv = prv c, itm = y\<rparr>"
      using d snoc q(3) by (auto simp: h')
    ultimately have "seg h' p (bs' @ b # as) (ys' @ y # xs) None"
      using as rest q(2) ys(2) by (auto simp: seg_append)
    then show ?thesis
      by (simp add: p' snoc ys(1))
  qed
qed

lemma cut_loop_ok:
  assumes "seg h p0 (bs @ as) (ys @ xs) None" and "seg h p as xs None" and "length bs = length ys"
    and "distinct (bs @ as)" and "dom (cells h) = set (bs @ as)" and "\<forall>a\<in>set (bs @ as). a < fresh h"
    and "before = (if bs = [] then None else Some (last bs))" and "bs = [] \<Longrightarrow> p0 = p" and "length xs < n"
  shows "ok (cut_loop P n before p (h, p0)) (\<lambda>(r, l'). r = first P xs \<and> hl l' (ys @ without_first P xs))"
  using assms
proof (induction n arbitrary: bs as ys xs p before)
  case 0
  then show ?case by simp
next
  case (Suc n)
  show ?case
  proof (cases as)
    case Nil
    with Suc.prems have "p = None" "xs = []"
      by auto
    with Suc.prems Nil show ?thesis
      by (auto simp: first_def hl_def)
  next
    case (Cons a as')
    with Suc.prems(2) obtain x xs' q where x: "xs = x # xs'" "p = Some a" "cells h a = Some \<lparr>prv = q, itm = x\<rparr>"
      "seg h q as' xs' None"
      by (cases xs) auto
    show ?thesis
    proof (cases "P x")
      case False
      have "ok (cut_loop P n (Some a) q (h, p0)) (\<lambda>(r, l'). r = first P xs' \<and> hl l' ((ys @ [x]) @ without_first P xs'))"
        by (rule Suc.IH [where bs = "bs @ [a]" and as = as']) (use Suc.prems Cons x in auto)
      with False x show ?thesis
        by (simp add: first_def)
    next
      case True
      define h' where "h' = h\<lparr>cells := (if bs = [] then cells h
        else (cells h)(last bs \<mapsto> the (cells h (last bs))\<lparr>prv := q\<rparr>))(a := None)\<rparr>"
      define p' where "p' = (if bs = [] then q else p0)"
      have sg: "seg h' p' (bs @ as') (ys @ xs') None"
        by (rule unlink_seg [where h = h and p = p0 and a = a and x = x and c = "\<lparr>prv = q, itm = x\<rparr>"])
          (use Suc.prems Cons x in \<open>auto simp: h'_def p'_def\<close>)
      have lb: "bs \<noteq> [] \<Longrightarrow> last bs \<in> dom (cells h) \<and> last bs \<noteq> a"
        using Suc.prems(4,5) Cons last_in_set [of bs] by auto
      have "set (bs @ as') = dom (cells h')"
        using Suc.prems(4,5) Cons lb by (auto simp: h'_def dom_def split: if_splits)
      then have "hl (h', p') (ys @ xs')"
        using sg Suc.prems(4,6) Cons by (auto simp: hl_def h'_def intro!: exI [of _ "bs @ as'"])
      moreover have "cut_loop P (Suc n) before p (h, p0) = Some (Some x, (h', p'))"
        using True x Suc.prems(7) lb by (auto simp: h'_def p'_def)
      ultimately show ?thesis
        using True x by (simp add: first_def)
    qed
  qed
qed

lemma list_cut_rep:
  assumes "hl l xs" and "length xs < n"
  shows "ok (list_cut P n l) (\<lambda>(r, l'). r = first P xs \<and> hl l' (without_first P xs))"
proof -
  obtain as where as: "seg (fst l) (snd l) as xs None" "distinct as" "dom (cells (fst l)) = set as"
    "\<forall>a\<in>set as. a < fresh (fst l)"
    using assms(1) by (auto simp: hl_def)
  have "ok (cut_loop P n None (snd l) (fst l, snd l)) (\<lambda>(r, l'). r = first P xs \<and> hl l' ([] @ without_first P xs))"
    by (rule cut_loop_ok [where bs = "[]" and as = as]) (use as assms(2) in auto)
  then show ?thesis
    by (simp add: list_cut_def)
qed

interpretation hls: cut_list hl "\<lambda>x l. snd (list_add False x l)" list_cut
  by unfold_locales (simp_all add: list_add_rep list_cut_rep)

lemma for_each_seg: "seg h p as xs None \<Longrightarrow> length xs < n \<Longrightarrow> list_for_each n p h = Some xs"
proof (induction n arbitrary: p as xs)
  case 0
  then show ?case by simp
next
  case (Suc n)
  show ?case
  proof (cases as)
    case Nil
    with Suc.prems show ?thesis by auto
  next
    case (Cons a as')
    with Suc.prems obtain x xs' q where "xs = x # xs'" "p = Some a" "cells h a = Some \<lparr>prv = q, itm = x\<rparr>"
      "seg h q as' xs' None"
      by (cases xs) auto
    with Suc.IH [of q as' xs'] Suc.prems show ?thesis
      by simp
  qed
qed

lemma list_for_each_rep: "hl l xs \<Longrightarrow> length xs < n \<Longrightarrow> list_for_each n (snd l) (fst l) = Some xs"
  by (auto simp: hl_def intro: for_each_seg)

text \<open>list_free leaves no allocated cell.\<close>

lemma free_seg:
  "seg h p as xs None \<Longrightarrow> distinct as \<Longrightarrow> length xs < n \<Longrightarrow>
     ok (free_loop n p h) (\<lambda>h'. cells h' = (\<lambda>a. if a \<in> set as then None else cells h a) \<and> fresh h' = fresh h)"
proof (induction n arbitrary: h p as xs)
  case 0
  then show ?case by simp
next
  case (Suc n)
  show ?case
  proof (cases as)
    case Nil
    with Suc.prems show ?thesis by auto
  next
    case (Cons a as')
    with Suc.prems obtain x xs' q where x: "xs = x # xs'" "p = Some a" "cells h a = Some \<lparr>prv = q, itm = x\<rparr>"
      "seg h q as' xs' None"
      by (cases xs) auto
    let ?h = "h\<lparr>cells := (cells h)(a := None)\<rparr>"
    have "seg ?h q as' xs' None"
      using x(4) Cons Suc.prems(2) by (subst seg_frame [of _ _ h]) auto
    from Suc.IH [OF this] show ?thesis
      using Suc.prems Cons x by (auto elim!: ok_mono)
  qed
qed

lemma list_free_rep:
  assumes "hl l xs" and "length xs < n"
  shows "ok (list_free n l) (\<lambda>l'. hl l' [] \<and> cells (fst l') = Map.empty)"
proof -
  obtain as where as: "seg (fst l) (snd l) as xs None" "distinct as" "dom (cells (fst l)) = set as"
    using assms(1) by (auto simp: hl_def)
  have e: "cells (fst l) a = None" if "a \<notin> set as" for a
    using as(3) that by (auto simp: domIff)
  show ?thesis
    unfolding list_free_def
    by (rule ok_bind [OF free_seg [OF as(1,2) assms(2)]])
      (auto simp: hl_def fun_eq_iff dom_def e split: if_splits intro!: exI [of _ "[]"])
qed

end
