(* ===== verification/Client.thy ===== *)
theory Client
  imports Encrypt GenDes Lists
begin

text \<open>
  The state the query engines share (tg/queue.c, tg/send_query.c, tg/answer.c): the session, the
  list of running queries, the sockets, and what has been handed to callbacks.

  The network is part of the state: \<^theory_text>\<open>c_in\<close> lists what the socket delivers, as an
  error or a chunk of bytes, an empty chunk being the end of the stream, which lasts; and
  \<^theory_text>\<open>c_out\<close> collects what was sent.  zlib's inflate, the key exchange behind
  api.app.open and the success of locks, sends and connects are in the record
  \<^theory_text>\<open>env\<close>.
\<close>

section \<open>State\<close>

datatype recv_ev = RErr | RData "byte list"

text \<open>A running query (struct tg_queue_): the fields the engine reads and writes, and whether the
  bytes of its query have been freed.\<close>

record queue_t =
  q_loop :: bool
  q_msgid :: u64
  q_query :: buf_t
  q_freed :: bool
  q_on_done :: bool
  q_progress :: "(nat \<Rightarrow> nat \<Rightarrow> bool) option"

record client =
  c_tg :: tg_t
  c_list :: "nat hlist"
  c_store :: "nat \<rightharpoonup> queue_t"
  c_in :: "recv_ev list"
  c_out :: "byte list list"
  c_done :: "(nat \<times> tl_obj option) list"
  c_updates :: "tl_obj list"

record env =
  e_crypto :: crypto
  e_table :: "method_t list"
  e_inflate :: "byte list \<Rightarrow> nat \<Rightarrow> int \<times> byte list"
  e_handshake :: "buf_t \<times> buf_t \<times> u32"
  e_queuem :: bool
  e_qm :: bool
  e_send :: bool
  e_connect :: bool
  e_sendq :: bool
  e_samefd :: bool
  e_fuel :: nat

section \<open>Identifiers\<close>

definition id_gzip_packed :: u32 where "id_gzip_packed = 0x3072cfa1"
definition id_bad_msg_notification :: u32 where "id_bad_msg_notification = 0xa7eff811"
definition id_bad_server_salt :: u32 where "id_bad_server_salt = 0xedab447b"
definition id_rpc_error :: u32 where "id_rpc_error = 0x2144ca19"
definition id_rpc_result :: u32 where "id_rpc_result = 0xf35c6d01"
definition id_new_session_created :: u32 where "id_new_session_created = 0x9ec20908"
definition id_pong :: u32 where "id_pong = 0x347773c5"
definition id_msgs_ack :: u32 where "id_msgs_ack = 0x62d6b459"
definition id_msg_detailed_info :: u32 where "id_msg_detailed_info = 0x276d3ec6"
definition id_msg_new_detailed_info :: u32 where "id_msg_new_detailed_info = 0x809db6df"

text \<open>updatesTooLong, updateShort, updateShortMessage, updateShortChatMessage,
  updateShortSentMessage, updatesCombined, updates.\<close>

definition ids_updates :: "u32 list" where
  "ids_updates = [0xe317af7e, 0x78d4dec1, 0x313bc7f8, 0x4d6deea5, 0x9015e101, 0x725b04c3, 0x74ae4240]"

lemmas id_defs = id_gzip_packed_def id_bad_msg_notification_def id_bad_server_salt_def id_rpc_error_def
  id_rpc_result_def id_new_session_created_def id_pong_def id_msgs_ack_def id_msg_detailed_info_def
  id_msg_new_detailed_info_def ids_updates_def id_msg_container_def

section \<open>Objects\<close>

fun tl_id :: "tl_obj \<Rightarrow> u32" where
  "tl_id (TL i copy fs) = i"

fun tl_copy :: "tl_obj \<Rightarrow> byte list" where
  "tl_copy (TL i copy fs) = copy"

fun fld :: "tl_obj \<Rightarrow> string \<Rightarrow> fval option" where
  "fld (TL i copy fs) x = map_of fs x"

text \<open>A field that was not read is zero.\<close>

definition fld_long :: "tl_obj \<Rightarrow> string \<Rightarrow> u64" where
  "fld_long o' x = (case fld o' x of Some (FLong v) \<Rightarrow> v | _ \<Rightarrow> 0)"

definition fld_bytes :: "tl_obj \<Rightarrow> string \<Rightarrow> byte list" where
  "fld_bytes o' x = (case fld o' x of Some (FBytes bs) \<Rightarrow> bs | _ \<Rightarrow> [])"

definition fld_obj :: "tl_obj \<Rightarrow> string \<Rightarrow> tl_obj option" where
  "fld_obj o' x = (case fld o' x of Some (FObj r) \<Rightarrow> r | _ \<Rightarrow> None)"

definition fld_vec :: "tl_obj \<Rightarrow> string \<Rightarrow> fval list" where
  "fld_vec o' x = (case fld o' x of Some (FVec xs) \<Rightarrow> xs | _ \<Rightarrow> [])"

section \<open>Decompression (tl/gunzip.c, tg_tl_from_gzip)\<close>

text \<open>The buffer is allocated before inflating; its size is only set on success (Z_OK is 0,
  Z_STREAM_END is 1).\<close>

definition gunzip_buf :: "(byte list \<Rightarrow> nat \<Rightarrow> int \<times> byte list) \<Rightarrow> buf_t \<Rightarrow> (int \<times> buf_t) option" where
  "gunzip_buf inflate src = do {
     dst \<leftarrow> buf_realloc buf_init (bsize src * 10);
     bs \<leftarrow> peeks src 0 (unat (bsize src));
     (let (ret, out) = inflate bs (unat (asize dst)) in do {
       dst \<leftarrow> write_at_start out dst;
       (if ret \<noteq> 0 \<and> ret \<noteq> 1 then Some (ret, dst)
        else Some (0, dst\<lparr>bsize := of_nat (length out)\<rparr>))
     })
   }"

definition own_buf :: "byte list \<Rightarrow> buf_t option" where
  "own_buf bs = buf_add bs (of_nat (length bs))"

text \<open>tl_deserialize of an owned buffer, which is then freed.\<close>

definition deserialize :: "env \<Rightarrow> buf_t \<Rightarrow> tl_obj option option" where
  "deserialize E b = map_option fst (tl_deserialize (e_table E) (e_fuel E) b)"

definition tg_tl_from_gzip :: "env \<Rightarrow> tl_obj option \<Rightarrow> tl_obj option option" where
  "tg_tl_from_gzip E x = (case x of
     None \<Rightarrow> Some None
   | Some t \<Rightarrow>
       if tl_id t \<noteq> id_gzip_packed then Some None
       else do {
         p \<leftarrow> own_buf (fld_bytes t ''packed_data'');
         (e, b) \<leftarrow> gunzip_buf (e_inflate E) p;
         (if e \<noteq> 0 then Some None else deserialize E b)
       })"

section \<open>Sockets\<close>

text \<open>recv with room for \<^theory_text>\<open>n\<close> bytes: an error, or up to \<^theory_text>\<open>n\<close> bytes, the rest of
  the chunk staying for the next call.  With nothing left to deliver the call blocks
  (\<^theory_text>\<open>None\<close>).\<close>

definition recv :: "nat \<Rightarrow> client \<Rightarrow> (byte list option \<times> client) option" where
  "recv n c = (case c_in c of
     [] \<Rightarrow> None
   | RErr # es \<Rightarrow> Some (None, c\<lparr>c_in := es\<rparr>)
   | RData [] # es \<Rightarrow> Some (Some [], c)
   | RData bs # es \<Rightarrow>
       Some (Some (take n bs), c\<lparr>c_in := (if length bs \<le> n then es else RData (drop n bs) # es)\<rparr>))"

definition send :: "env \<Rightarrow> buf_t \<Rightarrow> client \<Rightarrow> (bool \<times> client) option" where
  "send E b c = do {
     bs \<leftarrow> peeks b 0 (unat (bsize b));
     (if e_send E then Some (True, c\<lparr>c_out := c_out c @ [bs]\<rparr>) else Some (False, c))
   }"

text \<open>Opening a connection announces the intermediate transport.\<close>

definition tg_net_open :: "env \<Rightarrow> client \<Rightarrow> client option" where
  "tg_net_open E c = (if e_connect E then Some (c\<lparr>c_out := c_out c @ [[0xee, 0xee, 0xee, 0xee]]\<rparr>) else None)"

definition ntp_time_diff :: u64 where
  "ntp_time_diff = 0"

definition set_timediff :: "client \<Rightarrow> client" where
  "set_timediff c = c\<lparr>c_tg := (c_tg c)\<lparr>tg_timediff := ntp_time_diff\<rparr>\<rparr>"

definition add_msgid :: "u64 \<Rightarrow> client \<Rightarrow> client" where
  "add_msgid i c = c\<lparr>c_tg := tg_add_msgid i (c_tg c)\<rparr>"

section \<open>Reading a frame\<close>

text \<open>The loop that fills the buffer: \<^theory_text>\<open>received\<close> bytes of \<^theory_text>\<open>len\<close> are there.
  The progress callback may stop it.  Its result: an error, a stop, or the filled buffer.\<close>

datatype fill = FErr | FStop | FOk buf_t

definition write_at :: "nat \<Rightarrow> byte list \<Rightarrow> buf_t \<Rightarrow> buf_t option" where
  "write_at k bs b = (if data b + k + length bs \<le> unat (asize b) + 1
     then Some (b\<lparr>aptr := (\<lambda>i. if data b + k \<le> i \<and> i < data b + k + length bs then bs ! (i - (data b + k))
       else aptr b i)\<rparr>)
     else None)"

fun fill_loop :: "(nat \<Rightarrow> nat \<Rightarrow> bool) \<Rightarrow> nat \<Rightarrow> nat \<Rightarrow> nat \<Rightarrow> buf_t \<Rightarrow> client \<Rightarrow> (fill \<times> client) option" where
  "fill_loop stop 0 received len b c = None"
| "fill_loop stop (Suc n) received len b c =
     (if received < len
      then do {
        (r, c) \<leftarrow> recv (len - received) c;
        (case r of
           None \<Rightarrow> Some (FErr, c)
         | Some bs \<Rightarrow> do {
             b \<leftarrow> write_at received bs b;
             (if stop (received + length bs) len then Some (FStop, c)
              else fill_loop stop n (received + length bs) len b c)
           })
      }
      else Some (FOk b, c))"

text \<open>The length word and the payload; fewer than four bytes leave the length indeterminate.\<close>

definition recv_len :: "client \<Rightarrow> (u32 option \<times> client) option" where
  "recv_len c = do {
     (r, c) \<leftarrow> recv 4 c;
     (case r of
        None \<Rightarrow> Some (None, c)
      | Some bs \<Rightarrow> if length bs < 4 then None else Some (Some (le_val bs), c))
   }"

definition recv_frame :: "(nat \<Rightarrow> nat \<Rightarrow> bool) \<Rightarrow> env \<Rightarrow> client \<Rightarrow> (fill \<times> client) option" where
  "recv_frame stop E c = do {
     (l, c) \<leftarrow> recv_len c;
     (case l of
        None \<Rightarrow> Some (FErr, c)
      | Some len \<Rightarrow> do {
          b \<leftarrow> buf_realloc buf_new len;
          (r, c) \<leftarrow> fill_loop stop (e_fuel E) 0 (unat len) b c;
          (case r of FOk b \<Rightarrow> Some (FOk (b\<lparr>bsize := len\<rparr>), c) | _ \<Rightarrow> Some (r, c))
        })
   }"

section \<open>Reading delivers what was sent\<close>

text \<open>The bytes the socket still delivers; it flows when there is no error and no end.\<close>

definition stream :: "client \<Rightarrow> byte list" where
  "stream c = concat (map (\<lambda>e. case e of RData d \<Rightarrow> d | RErr \<Rightarrow> []) (c_in c))"

definition flowing :: "client \<Rightarrow> bool" where
  "flowing c \<longleftrightarrow> (\<forall>e\<in>set (c_in c). case e of RErr \<Rightarrow> False | RData d \<Rightarrow> d \<noteq> [])"

text \<open>Nothing but the input has changed.\<close>

definition same_but_in :: "client \<Rightarrow> client \<Rightarrow> bool" where
  "same_but_in c d \<longleftrightarrow> d = c\<lparr>c_in := c_in d\<rparr>"

lemma same_refl [simp]: "same_but_in c c"
  by (simp add: same_but_in_def)

lemma same_trans: "same_but_in c d \<Longrightarrow> same_but_in d e \<Longrightarrow> same_but_in c e"
  unfolding same_but_in_def by (metis client.surjective client.update_convs(4))

lemma recv_ok:
  assumes "flowing c" and "0 < n" and "stream c \<noteq> []"
  shows "ok (recv n c) (\<lambda>(r, d). \<exists>bs. r = Some bs \<and> bs \<noteq> [] \<and> length bs \<le> n \<and> stream c = bs @ stream d \<and>
    flowing d \<and> same_but_in c d)"
proof -
  obtain b es bs' where "c_in c = RData (b # bs') # es"
    using assms(1,3) by (cases "c_in c") (auto simp: stream_def flowing_def neq_Nil_conv split: recv_ev.splits)
  with assms show ?thesis
    by (auto simp: recv_def stream_def flowing_def same_but_in_def)
qed

lemma write_at_views:
  assumes v: "views (b\<lparr>bsize := of_nat (length xs)\<rparr>) xs" and n: "data b + length xs + length ys \<le> unat (asize b)"
  shows "ok (write_at (length xs) ys b) (\<lambda>b'. views (b'\<lparr>bsize := of_nat (length (xs @ ys))\<rparr>) (xs @ ys) \<and>
    data b' = data b \<and> asize b' = asize b)"
proof -
  have a: "unat (asize b) + 1 < 2 ^ 32" "\<And>i. i < length xs \<Longrightarrow> aptr b (data b + i) = xs ! i"
    using views_block [OF v] views_nth [OF v] by simp_all
  then have u: "unat (of_nat (length (xs @ ys)) :: u32) = length (xs @ ys)"
    using n by (intro unat_of_nat_u32) simp
  show ?thesis
    using n a u by (auto simp: write_at_def nth_append intro!: viewsI)
qed

text \<open>The loop ends and fills the buffer with the next bytes of the stream, whatever the sizes of
  the chunks.\<close>

lemma fill_loop_ok:
  assumes "flowing c" and "views (b\<lparr>bsize := of_nat (length xs)\<rparr>) xs" and "data b + len \<le> unat (asize b)"
    and "length xs \<le> len" and "len - length xs \<le> length (stream c)" and "len - length xs < n"
    and "\<And>k. \<not> stop k len"
  shows "ok (fill_loop stop n (length xs) len b c) (\<lambda>(r, d). \<exists>b' ys. r = FOk b' \<and> stream c = ys @ stream d \<and>
    length ys = len - length xs \<and> views (b'\<lparr>bsize := of_nat len\<rparr>) (xs @ ys) \<and> data b' = data b \<and>
    flowing d \<and> same_but_in c d)"
  using assms(1-6)
proof (induction n arbitrary: c b xs)
  case 0
  then show ?case by simp
next
  case (Suc n)
  show ?case
  proof (cases "length xs < len")
    case False
    with Suc.prems show ?thesis
      by auto
  next
    case True
    have r: "ok (recv (len - length xs) c) (\<lambda>(r, d). \<exists>bs. r = Some bs \<and> bs \<noteq> [] \<and> length bs \<le> len - length xs \<and>
        stream c = bs @ stream d \<and> flowing d \<and> same_but_in c d)"
      using Suc.prems True by (intro recv_ok) auto
    have step: "ok (write_at (length xs) bs b \<bind> (\<lambda>b. fill_loop stop n (length xs + length bs) len b d))
      (\<lambda>(r, d). \<exists>b' ys. r = FOk b' \<and> stream c = ys @ stream d \<and> length ys = len - length xs \<and>
        views (b'\<lparr>bsize := of_nat len\<rparr>) (xs @ ys) \<and> data b' = data b \<and> flowing d \<and> same_but_in c d)"
      if bs: "bs \<noteq> []" "length bs \<le> len - length xs" "stream c = bs @ stream d" "flowing d" "same_but_in c d" for bs d
    proof (rule ok_bind [OF write_at_views])
      show "views (b\<lparr>bsize := of_nat (length xs)\<rparr>) xs"
        by fact
      show "data b + length xs + length bs \<le> unat (asize b)"
        using Suc.prems bs True by simp
      fix b'
      assume b': "views (b'\<lparr>bsize := of_nat (length (xs @ bs))\<rparr>) (xs @ bs) \<and> data b' = data b \<and> asize b' = asize b"
      have "ok (fill_loop stop n (length (xs @ bs)) len b' d) (\<lambda>(r, e). \<exists>b'' ys. r = FOk b'' \<and> stream d = ys @ stream e \<and>
        length ys = len - length (xs @ bs) \<and> views (b''\<lparr>bsize := of_nat len\<rparr>) ((xs @ bs) @ ys) \<and> data b'' = data b' \<and>
        flowing e \<and> same_but_in d e)"
        by (rule Suc.IH) (use Suc.prems bs b' True in \<open>auto simp: Suc_le_eq neq_Nil_conv\<close>)
      then show "ok (fill_loop stop n (length xs + length bs) len b' d) (\<lambda>(r, d). \<exists>b' ys. r = FOk b' \<and>
        stream c = ys @ stream d \<and> length ys = len - length xs \<and> views (b'\<lparr>bsize := of_nat len\<rparr>) (xs @ ys) \<and>
        data b' = data b \<and> flowing d \<and> same_but_in c d)"
        using bs b' by (auto elim!: ok_mono intro: same_trans)
    qed
    show ?thesis
      unfolding fill_loop.simps if_P [OF True]
    proof (rule ok_bind [OF r], clarify)
      fix d bs
      assume "bs \<noteq> []" "length bs \<le> len - length xs" "stream c = bs @ stream d" "flowing d" "same_but_in c d"
      from step [OF this] show "ok (case Some bs of None \<Rightarrow> Some (FErr, d)
          | Some bs \<Rightarrow> do {
              b \<leftarrow> write_at (length xs) bs b;
              (if stop (length xs + length bs) len then Some (FStop, d)
               else fill_loop stop n (length xs + length bs) len b d)
            })
        (\<lambda>(r, d). \<exists>b' ys. r = FOk b' \<and> stream c = ys @ stream d \<and> length ys = len - length xs \<and>
          views (b'\<lparr>bsize := of_nat len\<rparr>) (xs @ ys) \<and> data b' = data b \<and> flowing d \<and> same_but_in c d)"
        by (simp only: option.case assms(7) if_False)
    qed
  qed
qed

text \<open>A length word that arrives in one piece, then the payload in any pieces.\<close>

lemma recv_frame_ok:
  assumes i: "c_in c = RData (le_bytes 4 (of_nat (length bs) :: u32)) # es" and f: "flowing (c\<lparr>c_in := es\<rparr>)"
    and s: "stream (c\<lparr>c_in := es\<rparr>) = bs @ rest" and n: "length bs < 2 ^ 31" "length bs < e_fuel E"
    and stop: "\<And>k. \<not> stop k (length bs)"
  shows "ok (recv_frame stop E c) (\<lambda>(r, d). \<exists>b. r = FOk b \<and> owns b bs \<and> stream d = rest \<and> flowing d \<and> same_but_in c d)"
proof -
  let ?n = "of_nat (length bs) :: u32" and ?c = "c\<lparr>c_in := es\<rparr>"
  have u: "unat ?n = length bs"
    using n by simp
  have l: "recv_len c = Some (Some ?n, ?c)"
  proof -
    obtain x xs where e: "le_bytes 4 ?n = x # xs"
      by (cases "le_bytes 4 ?n") (auto dest: arg_cong [of _ _ length])
    have "length xs = 3"
      using arg_cong [OF e, of length] by simp
    moreover have "(le_val (x # xs) :: u32) = ?n"
      unfolding e [symmetric] by (simp add: le_simps)
    ultimately show ?thesis
      using i by (simp add: recv_len_def recv_def e)
  qed
  have b: "ok (buf_realloc buf_new ?n) (\<lambda>b. data b = 0 \<and> length bs \<le> unat (asize b) \<and> unat (asize b) + 1 < 2 ^ 32)"
    using u n u32_not_max [of ?n]
    by (auto simp: buf_realloc_def buf_new_def buf_init_def word_less_nat_alt)
  have fill: "ok (fill_loop stop (e_fuel E) (length ([] :: byte list)) (length bs) b ?c) (\<lambda>(r, d). \<exists>b' ys. r = FOk b' \<and>
      stream ?c = ys @ stream d \<and> length ys = length bs - length ([] :: byte list) \<and>
      views (b'\<lparr>bsize := of_nat (length bs)\<rparr>) ([] @ ys) \<and> data b' = data b \<and> flowing d \<and> same_but_in ?c d)"
    if "data b = 0" "length bs \<le> unat (asize b)" "unat (asize b) + 1 < 2 ^ 32" for b
    using that f s n stop by (intro fill_loop_ok) (auto intro!: viewsI)
  show ?thesis
    unfolding recv_frame_def l
    using fill s
    by (auto simp: u owns_def same_but_in_def intro!: ok_bind [OF b] ok_bind [OF fill [simplified]])
qed

end
