(* ===== verification/Queue.thy ===== *)
theory Queue
  imports Client
begin

text \<open>
  The asynchronous query engine (tg/queue.c): a thread per query sends it, reads frames and hands
  each object to the query it answers.  A query is known by the pointer to its structure; the
  list tg->queue holds the pointers, \<^theory_text>\<open>c_store\<close> the structures.  A read of a structure
  that was freed is undefined.  Each function runs to its end as one step: the engine holds the
  list's and the query's lock around what it changes.
\<close>

section \<open>Finding the query\<close>

text \<open>list_cut with cmp_msgid, which reads the message id through the item's pointer.  The model
  asks that every listed structure is live, where the code reads those up to the match.\<close>

definition cmp_msgid :: "(nat \<rightharpoonup> queue_t) \<Rightarrow> u64 \<Rightarrow> nat \<Rightarrow> bool" where
  "cmp_msgid store i p = (case store p of Some q \<Rightarrow> q_msgid q = i | None \<Rightarrow> False)"

definition all_live :: "env \<Rightarrow> client \<Rightarrow> bool" where
  "all_live E c = (case list_for_each (e_fuel E) (snd (c_list c)) (fst (c_list c)) of
     None \<Rightarrow> False | Some ps \<Rightarrow> list_all (\<lambda>p. c_store c p \<noteq> None) ps)"

definition cut_query :: "env \<Rightarrow> u64 \<Rightarrow> client \<Rightarrow> (nat option \<times> client) option" where
  "cut_query E i c =
     (if \<not> all_live E c then None
      else do {
        (r, l) \<leftarrow> list_cut (cmp_msgid (c_store c) i) (e_fuel E) (c_list c);
        Some (r, c\<lparr>c_list := l\<rparr>)
      })"

definition with_query :: "nat \<Rightarrow> (queue_t \<Rightarrow> queue_t) \<Rightarrow> client \<Rightarrow> client option" where
  "with_query p f c = do { q \<leftarrow> c_store c p; Some (c\<lparr>c_store := (c_store c)(p \<mapsto> f q)\<rparr>) }"

definition stop_loop :: "nat \<Rightarrow> client \<Rightarrow> client option" where
  "stop_loop p c = with_query p (\<lambda>q. q\<lparr>q_loop := False\<rparr>) c"

text \<open>The callback, if there is one.\<close>

definition on_done :: "nat \<Rightarrow> tl_obj option \<Rightarrow> client \<Rightarrow> client option" where
  "on_done p t c = do {
     q \<leftarrow> c_store c p;
     Some (if q_on_done q then c\<lparr>c_done := c_done c @ [(p, t)]\<rparr> else c)
   }"

section \<open>An answer for a query\<close>

definition catched_gzip :: "env \<Rightarrow> nat \<Rightarrow> tl_obj \<Rightarrow> client \<Rightarrow> client option" where
  "catched_gzip E p t c = do {
     src \<leftarrow> own_buf (fld_bytes t ''packed_data'');
     (e, b) \<leftarrow> gunzip_buf (e_inflate E) src;
     ttl \<leftarrow> (if e \<noteq> 0 then Some None else deserialize E b);
     c \<leftarrow> on_done p ttl c;
     stop_loop p c
   }"

definition catched_tl :: "env \<Rightarrow> u64 \<Rightarrow> tl_obj option \<Rightarrow> client \<Rightarrow> client option" where
  "catched_tl E i t c =
     (if \<not> e_queuem E then Some c
      else do {
        (r, c) \<leftarrow> cut_query E i c;
        (case r of
           None \<Rightarrow> Some c
         | Some p \<Rightarrow>
             if \<not> e_qm E then Some c
             else (case t of
                None \<Rightarrow> on_done p None c
              | Some x \<Rightarrow>
                  if tl_id x = id_gzip_packed then catched_gzip E p x c
                  else if tl_id x = id_bad_msg_notification
                  then do { c \<leftarrow> on_done p None (set_timediff c); stop_loop p c }
                  else do { c \<leftarrow> on_done p (Some x) c; stop_loop p c }))
      })"

section \<open>An incoming object\<close>

text \<open>The messages of a container, in order: the identifier is kept for acknowledgement, then the
  body is read and handled.  The fuel bounds the nesting.\<close>

fun handle_tl :: "env \<Rightarrow> nat \<Rightarrow> tl_obj option \<Rightarrow> client \<Rightarrow> client option"
  and handle_msgs :: "env \<Rightarrow> nat \<Rightarrow> fval list \<Rightarrow> client \<Rightarrow> client option" where
  "handle_tl E 0 t c = None"
| "handle_tl E (Suc n) t c = (case t of
     None \<Rightarrow> Some c
   | Some x \<Rightarrow>
       if tl_id x = id_gzip_packed
       then do {
         src \<leftarrow> own_buf (fld_bytes x ''packed_data'');
         (e, b) \<leftarrow> gunzip_buf (e_inflate E) src;
         ttl \<leftarrow> deserialize E b;
         handle_tl E n ttl c
       }
       else if tl_id x = id_msg_container then handle_msgs E n (fld_vec x ''messages'') c
       else if tl_id x = id_bad_msg_notification then Some (set_timediff c)
       else if tl_id x = id_msg_detailed_info \<or> tl_id x = id_msg_new_detailed_info
       then catched_tl E (fld_long x ''answer_msg_id'') None c
       else if tl_id x = id_rpc_result
       then catched_tl E (fld_long x ''req_msg_id'') (fld_obj x ''result'') c
       else if tl_id x \<in> set ids_updates then Some (c\<lparr>c_updates := c_updates c @ [x]\<rparr>)
       else Some c)"
| "handle_msgs E n [] c = Some c"
| "handle_msgs E n (m # ms) c = (case m of
     FMsg i q k bd \<Rightarrow> do {
       body \<leftarrow> own_buf bd;
       ttl \<leftarrow> deserialize E body;
       c \<leftarrow> handle_tl E n ttl (add_msgid i c);
       handle_msgs E n ms c
     }
   | _ \<Rightarrow> None)"

section \<open>Receiving\<close>

datatype RTL = RTL_EX | RTL_ER | RTL_RQ | RTL_RS

definition add_todrop :: "u64 \<Rightarrow> client \<Rightarrow> client" where
  "add_todrop i c = c\<lparr>c_tg := tg_add_todrop i (c_tg c)\<rparr>"

text \<open>An object that cannot be read is a null pointer, whose identifier is then read.\<close>

definition receive_payload :: "env \<Rightarrow> buf_t \<Rightarrow> client \<Rightarrow> (RTL \<times> client) option" where
  "receive_payload E r c = do {
     w \<leftarrow> (if bsize r = 4 then map_option (\<lambda>w. w = err_404) (buf_get_ui32 r) else Some False);
     (if w then Some (RTL_EX, c)
      else do {
        d \<leftarrow> tg_decrypt (e_crypto E) (c_tg c) r True;
        (if bsize d = 0 then Some (RTL_EX, c)
         else do {
           (msg, t) \<leftarrow> tg_deheader d True (c_tg c);
           c \<leftarrow> Some (c\<lparr>c_tg := t\<rparr>);
           x \<leftarrow> deserialize E msg;
           y \<leftarrow> x;
           (if tl_id y = id_bad_server_salt then Some (RTL_RS, c)
            else do { c \<leftarrow> handle_tl E (e_fuel E) x c; Some (RTL_RQ, c) })
         })
      })
   }"

definition tg_receive :: "env \<Rightarrow> nat \<Rightarrow> client \<Rightarrow> (RTL \<times> client) option" where
  "tg_receive E p c = do {
     q \<leftarrow> c_store c p;
     (r, c) \<leftarrow> recv_frame (case q_progress q of None \<Rightarrow> (\<lambda>_ _. False) | Some f \<Rightarrow> f) E c;
     (case r of
        FErr \<Rightarrow> Some (RTL_ER, c)
      | FStop \<Rightarrow> Some (RTL_EX, add_todrop (q_msgid q) c)
      | FOk b \<Rightarrow> receive_payload E b c)
   }"

section \<open>Sending\<close>

text \<open>The key exchange of api.app.open leaves key, salt and sequence number in shared_rc.\<close>

definition open_session :: "env \<Rightarrow> tg_t \<Rightarrow> tg_t option" where
  "open_session E tg =
     (if bsize (tg_key tg) = 0
      then (case e_handshake E of (k, s, n) \<Rightarrow> do {
        key \<leftarrow> buf_add_buf k;
        salt \<leftarrow> buf_add_buf s;
        Some (tg\<lparr>tg_key := key, tg_salt := salt, tg_seqn := n + 1\<rparr>)
      })
      else Some tg)"

definition fill_ssid :: "tg_t \<Rightarrow> tg_t option" where
  "fill_ssid tg =
     (if bsize (tg_ssid tg) = 0
      then do { b \<leftarrow> buf_rand (tg_rnd tg) 8; Some (skip_rnd 8 (tg\<lparr>tg_ssid := b\<rparr>)) }
      else Some tg)"

definition fill_salt :: "tg_t \<Rightarrow> tg_t option" where
  "fill_salt tg =
     (if bsize (tg_salt tg) = 0
      then do { b \<leftarrow> buf_rand (tg_rnd tg) 8; Some (skip_rnd 8 (tg\<lparr>tg_salt := b\<rparr>)) }
      else Some tg)"

text \<open>Each of the three is guarded by the list's lock, and the function fails when the lock does;
  True is failure.  The header may free the bytes of the query, and sending it again then reads
  freed memory.\<close>

definition tg_send :: "env \<Rightarrow> nat \<Rightarrow> client \<Rightarrow> (bool \<times> client) option" where
  "tg_send E p c = do {
     q \<leftarrow> c_store c p;
     (if \<not> e_queuem E \<and> (bsize (tg_key (c_tg c)) = 0 \<or> bsize (tg_ssid (c_tg c)) = 0 \<or> bsize (tg_salt (c_tg c)) = 0)
      then Some (True, c)
      else do {
        t \<leftarrow> open_session E (c_tg c);
        t \<leftarrow> fill_ssid t;
        t \<leftarrow> fill_salt t;
        (b, i, t') \<leftarrow> (if q_freed q then None
          else tg_prepare_query (e_crypto E) (q_query q) True (Some (q_msgid q)) t);
        c \<leftarrow> Some (c\<lparr>c_tg := t'\<rparr>);
        c \<leftarrow> (case i of None \<Rightarrow> Some c
          | Some j \<Rightarrow> with_query p (\<lambda>q. q\<lparr>q_msgid := j, q_freed := header_frees t\<rparr>) c);
        (if bsize b = 0 then Some (True, c)
         else do { (s, c) \<leftarrow> send E b c; Some (\<not> s, c) })
      })
   }"

section \<open>The thread of a query\<close>

text \<open>The receive loop runs while the query's flag is set; a resend that fails leaves it.  The
  result is the last code, if a frame was received at all.\<close>

fun run_loop :: "env \<Rightarrow> nat \<Rightarrow> nat \<Rightarrow> RTL option \<Rightarrow> client \<Rightarrow> (RTL option \<times> client) option" where
  "run_loop E 0 p res c = None"
| "run_loop E (Suc n) p prev c = do {
     q \<leftarrow> c_store c p;
     (if \<not> q_loop q then Some (prev, c)
      else do {
        (res, c) \<leftarrow> tg_receive E p c;
        (case res of
           RTL_RS \<Rightarrow> do {
             (e, c) \<leftarrow> tg_send E p c;
             (if e then Some (Some RTL_RS, c) else run_loop E n p (Some res) c)
           }
         | RTL_RQ \<Rightarrow> run_loop E n p (Some res) c
         | _ \<Rightarrow> Some (Some res, c))
      })
   }"

definition free_query :: "nat \<Rightarrow> client \<Rightarrow> client" where
  "free_query p c = c\<lparr>c_store := (c_store c)(p := None)\<rparr>"

text \<open>After the loop the query is cut from the list by its message id and freed.\<close>

definition finish_query :: "env \<Rightarrow> nat \<Rightarrow> client \<Rightarrow> client option" where
  "finish_query E p c =
     (if \<not> e_queuem E then Some c
      else do {
        q \<leftarrow> c_store c p;
        (_, c) \<leftarrow> cut_query E (q_msgid q) c;
        Some (free_query p c)
      })"

definition list_query :: "nat \<Rightarrow> client \<Rightarrow> client" where
  "list_query p c = c\<lparr>c_list := snd (list_add False p (c_list c))\<rparr>"

definition tg_run_queue :: "env \<Rightarrow> nat \<Rightarrow> client \<Rightarrow> client option" where
  "tg_run_queue E p c =
     (case tg_net_open E c of
        None \<Rightarrow> Some (free_query p c)
      | Some c \<Rightarrow>
          if \<not> e_queuem E then Some (free_query p c)
          else do {
            (e, c) \<leftarrow> tg_send E p (list_query p c);
            c \<leftarrow> (if e then stop_loop p c else Some c);
            (_, c) \<leftarrow> run_loop E (e_fuel E) p None c;
            finish_query E p c
          })"

text \<open>tg_queue_new fills the structure, with a copy of the query, and starts the thread.\<close>

definition fill_query :: "nat \<Rightarrow> buf_t \<Rightarrow> bool \<Rightarrow> (nat \<Rightarrow> nat \<Rightarrow> bool) option \<Rightarrow> client \<Rightarrow> client" where
  "fill_query p b cb progress c = c\<lparr>c_store := (c_store c)(p \<mapsto>
     \<lparr>q_loop = True, q_msgid = 0, q_query = b, q_freed = False, q_on_done = cb, q_progress = progress\<rparr>)\<rparr>"

definition tg_queue_new :: "env \<Rightarrow> nat \<Rightarrow> buf_t \<Rightarrow> bool \<Rightarrow> (nat \<Rightarrow> nat \<Rightarrow> bool) option \<Rightarrow> client \<Rightarrow> client option" where
  "tg_queue_new E p query cb progress c = do {
     b \<leftarrow> buf_add_buf query;
     tg_run_queue E p (fill_query p b cb progress c)
   }"

section \<open>Cancelling\<close>

fun stop_all :: "env \<Rightarrow> nat list \<Rightarrow> client \<Rightarrow> client option" where
  "stop_all E [] c = Some c"
| "stop_all E (p # ps) c = do { c \<leftarrow> (if e_qm E then stop_loop p c else Some c); stop_all E ps c }"

definition tg_queue_cancell_all :: "env \<Rightarrow> client \<Rightarrow> client option" where
  "tg_queue_cancell_all E c =
     (if \<not> e_queuem E then Some c
      else do {
        ps \<leftarrow> list_for_each (e_fuel E) (snd (c_list c)) (fst (c_list c));
        c \<leftarrow> stop_all E ps c;
        l \<leftarrow> list_free (e_fuel E) (c_list c);
        Some (c\<lparr>c_list := l\<rparr>)
      })"

definition tg_queue_cancell_queue :: "env \<Rightarrow> u64 \<Rightarrow> client \<Rightarrow> (bool \<times> client) option" where
  "tg_queue_cancell_queue E i c =
     (if \<not> e_queuem E then Some (True, c)
      else do {
        (r, c) \<leftarrow> cut_query E i c;
        (case r of
           None \<Rightarrow> Some (True, c)
         | Some p \<Rightarrow> if \<not> e_qm E then Some (True, c) else do { c \<leftarrow> stop_loop p c; Some (False, c) })
      })"

text \<open>The synchronous call: the callback reads the result again from the copy of its bytes, and
  the caller joins the thread.  A null result is dereferenced by the callback.\<close>

definition sync_cb :: "env \<Rightarrow> tl_obj option \<Rightarrow> tl_obj option option" where
  "sync_cb E t = do { x \<leftarrow> t; b \<leftarrow> own_buf (tl_copy x); deserialize E b }"

fun sync_result :: "env \<Rightarrow> nat \<Rightarrow> (nat \<times> tl_obj option) list \<Rightarrow> tl_obj option \<Rightarrow> tl_obj option option" where
  "sync_result E p [] r = Some r"
| "sync_result E p ((p', t) # ds) r =
     (if p' = p then do { r \<leftarrow> sync_cb E t; sync_result E p ds r } else sync_result E p ds r)"

definition tg_send_query_sync :: "env \<Rightarrow> nat \<Rightarrow> buf_t \<Rightarrow> client \<Rightarrow> (tl_obj option \<times> client) option" where
  "tg_send_query_sync E p query c = do {
     d \<leftarrow> tg_queue_new E p query True None c;
     r \<leftarrow> sync_result E p (drop (length (c_done c)) (c_done d)) None;
     Some (r, d)
   }"

end
