(* ===== verification/Query.thy ===== *)
theory Query
  imports Queue
begin

text \<open>
  The blocking query engine (tg/send_query.c) and the handling of what it receives
  (tg/answer.c): under one lock a query is sent on a socket of its own, and frames are read until
  one holds an answer.
\<close>

section \<open>Sending (tg_send)\<close>

text \<open>Its result is the message identifier, or 0 when nothing was sent.\<close>

definition sq_send :: "env \<Rightarrow> buf_t \<Rightarrow> client \<Rightarrow> (u64 \<times> client) option" where
  "sq_send E query c = do {
     t \<leftarrow> open_session E (c_tg c);
     t \<leftarrow> fill_ssid t;
     t \<leftarrow> fill_salt t;
     (b, i, t') \<leftarrow> tg_prepare_query (e_crypto E) query True (Some 0) t;
     c \<leftarrow> Some (c\<lparr>c_tg := t'\<rparr>);
     (if bsize b = 0 then Some (0, c)
      else do {
        (s, c) \<leftarrow> send E b c;
        Some (if s then (case i of None \<Rightarrow> 0 | Some j \<Rightarrow> j) else 0, c)
      })
   }"

section \<open>Receiving (tg_receive)\<close>

text \<open>The descriptor must be the one put into the set when the socket was opened: after a key
  exchange the descriptor may be another one.  A null result is an error.\<close>

definition sq_receive :: "env \<Rightarrow> bool \<Rightarrow> client \<Rightarrow> (buf_t option \<times> client) option" where
  "sq_receive E isset c =
     (if \<not> isset then Some (None, c)
      else do {
        (r, c) \<leftarrow> recv_frame (\<lambda>_ _. False) E c;
        (case r of
           FOk b \<Rightarrow> do {
             w \<leftarrow> (if bsize b = 4 then map_option (\<lambda>w. w = err_404) (buf_get_ui32 b) else Some False);
             (if w then Some (None, c)
              else do {
                d \<leftarrow> tg_decrypt (e_crypto E) (c_tg c) b True;
                (if bsize d = 0 then Some (None, c)
                 else do { (m, t) \<leftarrow> tg_deheader d True (c_tg c); Some (Some m, c\<lparr>c_tg := t\<rparr>) })
              })
           }
         | _ \<Rightarrow> Some (None, c))
      })"

section \<open>Handling (answer.c)\<close>

text \<open>tg_parse_answer_callback reads the object again from the copy of its bytes; a null object is
  dereferenced.\<close>

definition answer_cb :: "env \<Rightarrow> tl_obj option \<Rightarrow> tl_obj option option" where
  "answer_cb E t = do { x \<leftarrow> t; b \<leftarrow> own_buf (tl_copy x); deserialize E b }"

text \<open>The acknowledgements of an object; a match calls the callback once more.\<close>

fun ack_loop :: "env \<Rightarrow> u64 \<Rightarrow> tl_obj \<Rightarrow> fval list \<Rightarrow> tl_obj option \<Rightarrow> tl_obj option option" where
  "ack_loop E i t [] a = Some a"
| "ack_loop E i t (x # xs) a =
     (if x = FLong i then do { a \<leftarrow> answer_cb E (Some t); ack_loop E i t xs a } else ack_loop E i t xs a)"

text \<open>The answer found so far is threaded through.  An rpc_result acknowledges the identifier of the
  query itself.  In the branch for compressed objects the variable is used in its own
  initialisation, before it has a value.\<close>

fun tg_parse_answer :: "env \<Rightarrow> nat \<Rightarrow> u64 \<Rightarrow> tl_obj option \<Rightarrow> tl_obj option \<Rightarrow> client \<Rightarrow>
    (tl_obj option \<times> client) option"
  and parse_msgs :: "env \<Rightarrow> nat \<Rightarrow> u64 \<Rightarrow> fval list \<Rightarrow> tl_obj option \<Rightarrow> client \<Rightarrow> (tl_obj option \<times> client) option" where
  "tg_parse_answer E 0 i t a c = None"
| "tg_parse_answer E (Suc n) i t a c = (case t of
     None \<Rightarrow> Some (a, c)
   | Some x \<Rightarrow>
       if tl_id x = id_rpc_result
       then (if i = fld_long x ''req_msg_id''
             then do { a \<leftarrow> answer_cb E (fld_obj x ''result''); Some (a, add_msgid i c) }
             else Some (a, add_msgid i c))
       else if tl_id x = id_msg_detailed_info \<or> tl_id x = id_msg_new_detailed_info
       then (if i = fld_long x ''answer_msg_id''
             then do { a \<leftarrow> answer_cb E (Some x); Some (a, add_msgid (fld_long x ''answer_msg_id'') c) }
             else Some (a, add_msgid (fld_long x ''answer_msg_id'') c))
       else if tl_id x = id_rpc_error \<or> tl_id x = id_bad_msg_notification then Some (a, set_timediff c)
       else if tl_id x \<in> set ids_updates then Some (a, c\<lparr>c_updates := c_updates c @ [x]\<rparr>)
       else if tl_id x = id_msg_container then parse_msgs E n i (fld_vec x ''messages'') a c
       else if tl_id x = id_gzip_packed then None
       else if tl_id x = id_msgs_ack then do { a \<leftarrow> ack_loop E i x (fld_vec x ''msg_ids'') a; Some (a, c) }
       else Some (a, c))"
| "parse_msgs E n i [] a c = Some (a, c)"
| "parse_msgs E n i (m # ms) a c = (case m of
     FMsg j q k bd \<Rightarrow> do {
       body \<leftarrow> own_buf bd;
       t \<leftarrow> deserialize E body;
       (a, c) \<leftarrow> tg_parse_answer E n i t a c;
       parse_msgs E n i ms a c
     }
   | _ \<Rightarrow> None)"

section \<open>The query (tg_send_query_via_with_progress)\<close>

datatype via_step = VDone "tl_obj option" | VAgain | VResend

text \<open>What one frame leads to.  The object or, if there is one, the answer found in it is taken; a
  compressed object that cannot be read is a null pointer, whose identifier is then read.\<close>

definition via_frame :: "env \<Rightarrow> u64 \<Rightarrow> buf_t \<Rightarrow> client \<Rightarrow> (via_step \<times> client) option" where
  "via_frame E i r c = do {
     t \<leftarrow> deserialize E r;
     (a, c) \<leftarrow> tg_parse_answer E (e_fuel E) i t None c;
     (case (if a = None then t else a) of
        None \<Rightarrow> Some (VDone None, c)
      | Some x \<Rightarrow> do {
          y \<leftarrow> (if tl_id x = id_gzip_packed then tg_tl_from_gzip E (Some x) else Some (Some x));
          x \<leftarrow> y;
          Some (if tl_id x = id_bad_server_salt then VResend
            else if tl_id x = id_msgs_ack \<or> tl_id x \<in> set ids_updates then VAgain
            else VDone (Some x), c)
        })
   }"

fun via_loop :: "env \<Rightarrow> nat \<Rightarrow> u64 \<Rightarrow> bool \<Rightarrow> client \<Rightarrow> (via_step \<times> client) option" where
  "via_loop E 0 i isset c = None"
| "via_loop E (Suc n) i isset c = do {
     (r, c) \<leftarrow> sq_receive E isset c;
     (case r of
        None \<Rightarrow> Some (VDone None, c)
      | Some b \<Rightarrow> do {
          (s, c) \<leftarrow> via_frame E i b c;
          (if s = VAgain then via_loop E n i isset c else Some (s, c))
        })
   }"

text \<open>The whole query, with the flag whether the bytes of the query have been freed by an earlier
  header.\<close>

fun send_query_via :: "env \<Rightarrow> nat \<Rightarrow> buf_t \<Rightarrow> bool \<Rightarrow> client \<Rightarrow> (tl_obj option \<times> client) option" where
  "send_query_via E 0 query freed c = None"
| "send_query_via E (Suc n) query freed c = (case tg_net_open E c of
     None \<Rightarrow> Some (None, c)
   | Some c \<Rightarrow>
       if \<not> e_sendq E then Some (None, c)
       else if freed then None
       else do {
         isset \<leftarrow> Some (bsize (tg_key (c_tg c)) \<noteq> 0 \<or> e_samefd E);
         frees \<leftarrow> Some (header_frees (c_tg c));
         (i, c) \<leftarrow> sq_send E query c;
         (if i = 0 then Some (None, c)
          else do {
            (s, c) \<leftarrow> via_loop E (e_fuel E) i isset c;
            (case s of
               VDone t \<Rightarrow> Some (t, c)
             | _ \<Rightarrow> send_query_via E n query frees c)
          })
       })"

definition tg_send_query :: "env \<Rightarrow> buf_t \<Rightarrow> client \<Rightarrow> (tl_obj option \<times> client) option" where
  "tg_send_query E query c = send_query_via E (e_fuel E) query False c"

end
