(* ===== verification/SessionSpec.thy ===== *)
theory SessionSpec
  imports Session Writer
begin

text \<open>
  What the message layer promises.  The abstract counterparts below work on byte lists and on
  lists of messages; the operations of Session implement them.  \<^theory_text>\<open>number\<close> is the
  numbering rule of MTProto: a message's sequence number is twice the count of the content
  messages before it, plus one if it is a content message itself.
\<close>

section \<open>Abstract messages\<close>

definition new_msg :: "bool \<Rightarrow> byte list \<Rightarrow> tg_t \<Rightarrow> wire_msg \<times> tg_t" where
  "new_msg content bs tg = (let (i, tg) = tg_get_current_time tg; (q, tg) = next_seqno content tg in
     ((i, q, bs), tg))"

definition ack_body :: "u64 list \<Rightarrow> byte list" where
  "ack_body ids = enc_val (VObj d_msgs_ack [VVec (map VLong ids)])"

definition drop_body :: "u64 \<Rightarrow> byte list" where
  "drop_body i = enc_val (VObj d_rpc_drop_answer [VLong i])"

fun new_drops :: "u64 list \<Rightarrow> tg_t \<Rightarrow> wire_msg list \<times> tg_t" where
  "new_drops [] tg = ([], tg)"
| "new_drops (i # is) tg = (let (m, tg) = new_msg True (drop_body i) tg; (ms, tg) = new_drops is tg in
     (m # ms, tg))"

definition new_container :: "byte list \<Rightarrow> u64 list \<Rightarrow> tg_t \<Rightarrow> wire_msg list \<times> tg_t" where
  "new_container bs acks tg =
     (let (m0, tg) = new_msg True bs tg; (m1, tg) = new_msg False (ack_body acks) tg;
          (ms, tg) = (if tg_todropm tg then new_drops (tg_todrop tg) tg else ([], tg)) in
      (m0 # m1 # ms, if tg_todropm tg then tg\<lparr>tg_todrop := []\<rparr> else tg))"

definition enc_container :: "wire_msg list \<Rightarrow> byte list" where
  "enc_container ms = le_bytes 4 id_msg_container @ le_bytes 4 (of_nat (length ms) :: u32) @
     concat (map enc_msg ms)"

text \<open>The image of an encrypted header.\<close>

definition enc_packet :: "byte list \<Rightarrow> byte list \<Rightarrow> wire_msg \<Rightarrow> byte list \<Rightarrow> byte list" where
  "enc_packet salt ssid m pad = salt @ ssid @ enc_msg m @ pad"

definition pad_len :: "nat \<Rightarrow> nat" where
  "pad_len n = 16 + (16 - n mod 16) mod 16"

section \<open>Bodies\<close>

lemma tl_msgs_ack_ok:
  assumes "length ids \<le> 1000"
  shows "ok (tl_msgs_ack ids) (\<lambda>b. owns b (ack_body ids))"
proof -
  have len: "length (concat (map enc_val (map VLong ids))) = 8 * length ids"
    by (induction ids) auto
  have "ok (tl_method True d_msgs_ack [''msg_ids'' \<mapsto> AVec (map ALong ids)])
      (\<lambda>b. small b (enc_val (VObj d_msgs_ack [VVec (map VLong ids)])))"
  proof (rule tl_method_written)
    show "list_all2 (carries True [''msg_ids'' \<mapsto> AVec (map ALong ids)]) (m_args d_msgs_ack) [VVec (map VLong ids)]"
      by (simp add: d_msgs_ack_def carries_def ser_kind_def vector_of_def op_passes_def vec_passes_def
          as_vec_def elem_passes_def elem_kind_def long_passes_def list_all2_map1 list_all2_map2 list.rel_refl)
    show "wf_args 0 (m_args d_msgs_ack)"
      by (simp add: d_msgs_ack_def)
    show "length (enc_val (VObj d_msgs_ack [VVec (map VLong ids)])) \<le> 8192"
      using assms len by (simp add: d_msgs_ack_def is_flags_def)
  qed
  then show ?thesis
    unfolding tl_msgs_ack_def ack_body_def by (rule ok_mono) (simp add: small_def)
qed

lemma tl_rpc_drop_answer_ok: "ok (tl_rpc_drop_answer i) (\<lambda>b. owns b (drop_body i))"
proof -
  have "ok (tl_method True d_rpc_drop_answer [''req_msg_id'' \<mapsto> ALong i])
      (\<lambda>b. small b (enc_val (VObj d_rpc_drop_answer [VLong i])))"
    by (rule tl_method_written)
      (simp_all add: d_rpc_drop_answer_def carries_def ser_kind_def op_passes_def long_passes_def is_flags_def)
  then show ?thesis
    unfolding tl_rpc_drop_answer_def drop_body_def by (rule ok_mono) (simp add: small_def)
qed

lemma length_drop_body [simp]: "length (drop_body i) = 12"
  by (simp add: drop_body_def d_rpc_drop_answer_def is_flags_def)

lemma length_ack_body: "length (ack_body ids) = 12 + 8 * length ids"
  by (induction ids) (simp_all add: ack_body_def d_msgs_ack_def is_flags_def)

lemma length_enc_msg: "length (enc_msg m) = 16 + length (snd (snd m))"
  by (cases m) (simp add: enc_msg_def)

section \<open>Messages\<close>

lemma tg_mtp_message_ok:
  assumes v: "views p bs" and len: "length bs < 2 ^ 31" and m: "tg_seqnm tg"
  shows "ok (tg_mtp_message p content tg)
    (\<lambda>(b, i, tg'). \<exists>w. new_msg content bs tg = (w, tg') \<and> i = fst w \<and> owns b (enc_msg w))"
proof -
  obtain i tg1 where c: "tg_get_current_time tg = (i, tg1)"
    by fastforce
  have m1: "tg_seqnm tg1"
    using c m by (auto simp: tg_get_current_time_def next_now_def)
  obtain q tg2 where s: "next_seqno content tg1 = (q, tg2)"
    by fastforce
  have n: "bsize p = of_nat (length bs)"
    using v by (rule views_bsize)
  show ?thesis
    using v len m1
    by (auto simp: tg_mtp_message_def c s new_msg_def n enc_msg_def
        intro!: ok_bind [OF buf_cat_ui_ok(2) [where xs = "[]"]] ok_bind [OF buf_cat_ui_ok(1)] ok_bind [OF buf_cat_owns])
qed

text \<open>A message leaves the locks and the lists alone.\<close>

lemma new_msg_frame:
  "new_msg content bs tg = (w, tg') \<Longrightarrow> tg_seqnm tg' = tg_seqnm tg \<and> tg_todropm tg' = tg_todropm tg \<and>
     tg_todrop tg' = tg_todrop tg \<and> tg_msgids tg' = tg_msgids tg \<and> tg_msgidsm tg' = tg_msgidsm tg \<and>
     tg_salt tg' = tg_salt tg \<and> tg_ssid tg' = tg_ssid tg \<and> tg_key tg' = tg_key tg \<and>
     tg_rnd tg' = tg_rnd tg \<and> tg_timediff tg' = tg_timediff tg \<and> snd (snd w) = bs"
  by (auto simp: new_msg_def tg_get_current_time_def next_now_def next_seqno_def split: if_splits)

lemma new_drops_frame:
  "new_drops is tg = (ms, tg') \<Longrightarrow> tg_seqnm tg' = tg_seqnm tg \<and> tg_todropm tg' = tg_todropm tg \<and>
     tg_todrop tg' = tg_todrop tg \<and> tg_msgids tg' = tg_msgids tg \<and> tg_msgidsm tg' = tg_msgidsm tg \<and>
     tg_salt tg' = tg_salt tg \<and> tg_ssid tg' = tg_ssid tg \<and> tg_key tg' = tg_key tg \<and>
     tg_rnd tg' = tg_rnd tg \<and> tg_timediff tg' = tg_timediff tg \<and> length ms = length is \<and>
     length (concat (map enc_msg ms)) = 28 * length is"
  by (induction "is" arbitrary: tg ms)
    (fastforce dest: new_msg_frame simp: length_enc_msg split: prod.splits)+

lemma drop_loop_ok:
  assumes "owns b xs" and "tg_seqnm tg" and "length xs + 28 * length is + 1 < 2 ^ 32"
  shows "ok (drop_loop is b tg) (\<lambda>(b', tg'). \<exists>ms. new_drops is tg = (ms, tg') \<and>
    owns b' (xs @ concat (map enc_msg ms)))"
  using assms
proof (induction "is" arbitrary: b xs tg)
  case Nil
  then show ?case by simp
next
  case (Cons i "is")
  have msg: "ok (tg_mtp_message d True tg)
      (\<lambda>(m, j, tg'). \<exists>w. new_msg True (drop_body i) tg = (w, tg') \<and> j = fst w \<and> owns m (enc_msg w))"
    if "owns d (drop_body i)" for d
    using that Cons.prems by (intro tg_mtp_message_ok) auto
  have rest: "ok (drop_loop is c tg') (\<lambda>(b', tg''). \<exists>ms. new_drops (i # is) tg = (ms, tg'') \<and>
      owns b' (xs @ concat (map enc_msg ms)))"
    if w: "new_msg True (drop_body i) tg = (w, tg')" and c: "owns c (xs @ enc_msg w)" for c tg' w
  proof -
    have "tg_seqnm tg'" "length (enc_msg w) = 28"
      using new_msg_frame [OF w] Cons.prems by (auto simp: length_enc_msg)
    then show ?thesis
      using Cons.prems w by (auto intro!: ok_mono [OF Cons.IH [OF c]])
  qed
  have cat: "ok (buf_cat b m) (\<lambda>c. owns c (xs @ enc_msg w))"
    if w: "new_msg True (drop_body i) tg = (w, tg')" and m: "owns m (enc_msg w)" for m w tg'
    using Cons.prems(1,3) m new_msg_frame [OF w] by (intro buf_cat_owns) (auto simp: length_enc_msg)
  show ?case
    by (auto intro!: ok_bind [OF tl_rpc_drop_answer_ok] ok_bind [OF msg] ok_bind [OF cat] rest
        simp del: new_drops.simps(2))
qed

lemma tg_to_drop_ok:
  assumes "tg_seqnm tg" and "28 * length (tg_todrop tg) + 1 < 2 ^ 32"
  shows "ok (tg_to_drop buf_new tg) (\<lambda>(n, b, tg'). \<exists>ms.
    (if tg_todropm tg then (case new_drops (tg_todrop tg) tg of (ms, tg) \<Rightarrow> (ms, tg\<lparr>tg_todrop := []\<rparr>))
     else ([], tg)) = (ms, tg') \<and> n = length ms \<and> owns b (concat (map enc_msg ms)))"
proof (cases "tg_todropm tg \<and> tg_todrop tg \<noteq> []")
  case True
  have "ok (drop_loop (tg_todrop tg) buf_new tg) (\<lambda>(b', tg'). \<exists>ms. new_drops (tg_todrop tg) tg = (ms, tg') \<and>
      owns b' ([] @ concat (map enc_msg ms)))"
    using assms by (intro drop_loop_ok) auto
  moreover have "length ms = length is" if "new_drops is tg' = (ms, tg'')" for ms "is" tg' tg''
    using new_drops_frame [OF that] by blast
  ultimately show ?thesis
    using True by (fastforce simp: tg_to_drop_def elim!: ok_bind)
next
  case False
  have "tg_todrop tg = [] \<Longrightarrow> tg\<lparr>tg_todrop := []\<rparr> = tg"
    by (cases tg) simp
  with False show ?thesis
    by (auto simp: tg_to_drop_def)
qed

section \<open>Containers\<close>

lemma tg_container_ok:
  assumes b: "views b bs" and a: "owns ack (ack_body acks)" and m: "tg_seqnm tg"
    and len: "length bs < 2 ^ 30" "length acks \<le> 1000" "length (tg_todrop tg) \<le> 1000000"
  shows "ok (tg_container b ack tg) (\<lambda>(c, i, tg'). \<exists>ms. new_container bs acks tg = (ms, tg') \<and>
    i = fst (hd ms) \<and> owns c (enc_container ms))"
proof -
  obtain w0 tg0 where w0: "new_msg True bs tg = (w0, tg0)"
    by fastforce
  obtain w1 tg1 where w1: "new_msg False (ack_body acks) tg0 = (w1, tg1)"
    by fastforce
  note f0 = new_msg_frame [OF w0] and f1 = new_msg_frame [OF w1]
  have m0: "ok (tg_mtp_message b True tg) (\<lambda>(c, i, tg'). i = fst w0 \<and> tg' = tg0 \<and> owns c (enc_msg w0))"
    using tg_mtp_message_ok [OF b _ m, of True] len w0 by (auto elim!: ok_mono)
  have m1: "ok (tg_mtp_message ack False tg0) (\<lambda>(c, i, tg'). tg' = tg1 \<and> owns c (enc_msg w1))"
    using tg_mtp_message_ok [OF owns_views [OF a], of tg0 False] len f0 m w1
    by (auto simp: length_ack_body elim!: ok_mono)
  have d: "ok (tg_to_drop buf_new tg1) (\<lambda>(n, b, tg'). \<exists>ms. new_container bs acks tg = (w0 # w1 # ms, tg') \<and>
      n = length ms \<and> owns b (concat (map enc_msg ms)) \<and> length (concat (map enc_msg ms)) \<le> 28 * 1000000)"
  proof (rule ok_mono [OF tg_to_drop_ok])
    show "tg_seqnm tg1" "28 * length (tg_todrop tg1) + 1 < 2 ^ 32"
      using f0 f1 m len by auto
  qed (use f0 f1 len w0 w1 in \<open>auto simp: new_container_def split: prod.splits if_splits dest: new_drops_frame\<close>)
  have l: "length (enc_msg w0) = 16 + length bs" "length (enc_msg w1) \<le> 28 + 8000"
    using f0 f1 len by (auto simp: length_enc_msg length_ack_body)
  show ?thesis
    unfolding tg_container_def
    apply (rule ok_bind [OF m0], clarsimp)
    apply (rule ok_bind [OF m1], clarsimp)
    apply (rule ok_bind [OF buf_add_ui_ok(1)])
    apply (rule ok_bind [OF d], clarsimp)
    apply (rule ok_bind [OF buf_cat_ui_ok(1)], assumption, simp)
    apply (rule ok_bind [OF buf_cat_owns], assumption, erule owns_views)
    using l len apply simp
    apply (rule ok_bind [OF buf_cat_owns], assumption, erule owns_views)
    using l len apply simp
    apply (rule ok_bind [OF buf_cat_owns], assumption, erule owns_views)
    using l len apply simp
    apply (simp add: enc_container_def add.commute)
    done
qed

section \<open>Headers\<close>

definition header_body :: "byte list \<Rightarrow> bool \<Rightarrow> tg_t \<Rightarrow> byte list \<times> bool \<times> u64 \<times> tg_t" where
  "header_body bs content tg =
     (if tg_msgidsm tg \<and> tg_msgids tg \<noteq> []
      then (let (ms, tg') = new_container bs (tg_msgids tg) (tg\<lparr>tg_msgids := []\<rparr>) in
        (enc_container ms, False, fst (hd ms), tg'))
      else (bs, content, 0, tg))"

definition header_out :: "byte list \<Rightarrow> bool \<Rightarrow> tg_t \<Rightarrow> byte list \<times> u64 \<times> tg_t" where
  "header_out bs content tg =
     (let (body, content, mid, tg1) = header_body bs content tg; (w, tg2) = new_msg content body tg1;
          n = pad_len (length body) in
      (enc_packet (view (tg_salt tg)) (view (tg_ssid tg)) w (map (tg_rnd tg2) [0..<n]),
       if mid = 0 then fst w else mid, skip_rnd n tg2))"

lemma pad_len_bounds: "16 \<le> pad_len n" "pad_len n < 32"
  by (auto simp: pad_len_def)

lemma pad_len_aligned: "(n + pad_len n) mod 16 = 0"
proof -
  have "n mod 16 + (16 - n mod 16) mod 16 = 0 \<or> n mod 16 + (16 - n mod 16) mod 16 = 16"
    by (cases "n mod 16 = 0") auto
  then have "(n mod 16 + (16 - n mod 16) mod 16) mod 16 = 0"
    by auto
  then have "(n + (16 - n mod 16) mod 16) mod 16 = 0"
    by (simp add: mod_add_left_eq)
  then show ?thesis
    by (simp add: pad_len_def add.left_commute [of n])
qed

lemma unat_pad: "unat (16 + (16 - (n :: u32) mod 16) mod 16) = pad_len (unat n)"
proof -
  have "unat (16 - n mod 16) = 16 - unat n mod 16"
    by (subst unat_sub_u32) (auto simp: unat_mod_distrib less_imp_le)
  then have "unat ((16 - n mod 16) mod 16) = (16 - unat n mod 16) mod 16"
    by (simp add: unat_mod_distrib)
  then show ?thesis
    by (subst unat_add_u32) (auto simp: pad_len_def)
qed

lemma tg_ack_ok:
  assumes "length (tg_msgids tg) \<le> 1000"
  shows "ok (tg_ack tg) (\<lambda>(a, tg'). if tg_msgidsm tg \<and> tg_msgids tg \<noteq> []
    then owns a (ack_body (tg_msgids tg)) \<and> tg' = tg\<lparr>tg_msgids := []\<rparr> else bsize a = 0 \<and> tg' = tg)"
proof (cases "tg_msgidsm tg \<and> tg_msgids tg \<noteq> []")
  case True
  then show ?thesis
    by (auto simp: tg_ack_def intro!: ok_bind [OF tl_msgs_ack_ok [OF assms]])
next
  case False
  then show ?thesis
    by (auto simp: tg_ack_def buf_new_def buf_init_def)
qed

lemma tg_header_body_ok:
  assumes b: "views b bs" and m: "tg_seqnm tg"
    and len: "length bs < 2 ^ 30" "length (tg_msgids tg) \<le> 1000" "length (tg_todrop tg) \<le> 1000000"
  shows "ok (tg_header_body b content tg)
    (\<lambda>(c, t, i, tg2). \<exists>body. header_body bs content tg = (body, t, i, tg2) \<and> views c body \<and>
      length body < 2 ^ 31 \<and> tg_seqnm tg2 \<and> tg_salt tg2 = tg_salt tg \<and> tg_ssid tg2 = tg_ssid tg)"
proof (cases "tg_msgidsm tg \<and> tg_msgids tg \<noteq> []")
  case True
  let ?t = "tg\<lparr>tg_msgids := []\<rparr>"
  have a: "ok (tg_ack tg) (\<lambda>(a, tg'). owns a (ack_body (tg_msgids tg)) \<and> tg' = ?t)"
    using tg_ack_ok [OF len(2)] True by simp
  have pos: "bsize ack > 0" if "owns ack (ack_body (tg_msgids tg))" for ack
    using views_length [OF owns_views [OF that]] by (simp add: length_ack_body word_less_nat_alt)
  have c: "ok (tg_container b ack ?t) (\<lambda>(c, i, tg2). \<exists>ms. new_container bs (tg_msgids tg) ?t = (ms, tg2) \<and>
    i = fst (hd ms) \<and> owns c (enc_container ms))" if "owns ack (ack_body (tg_msgids tg))" for ack
    using m len by (intro tg_container_ok [OF b that]) auto
  have bound: "length (enc_container ms) < 2 ^ 31 \<and> tg_seqnm tg2 \<and> tg_salt tg2 = tg_salt tg \<and> tg_ssid tg2 = tg_ssid tg"
    if n: "new_container bs (tg_msgids tg) ?t = (ms, tg2)" for ms tg2
  proof -
    obtain w0 t0 where w0: "new_msg True bs ?t = (w0, t0)" by fastforce
    obtain w1 t1 where w1: "new_msg False (ack_body (tg_msgids tg)) t0 = (w1, t1)" by fastforce
    obtain ds t2 where d: "new_drops (tg_todrop t1) t1 = (ds, t2)" by fastforce
    note f = new_msg_frame [OF w0] new_msg_frame [OF w1] new_drops_frame [OF d]
    show ?thesis
      using n w0 w1 d f m len
      by (auto simp: new_container_def enc_container_def length_enc_msg length_ack_body split: if_splits)
  qed
  have c': "ok (tg_container b ack ?t \<bind> (\<lambda>(c, i, tg). Some (c, False, i, tg)))
    (\<lambda>(c, t, i, tg2). \<exists>body. header_body bs content tg = (body, t, i, tg2) \<and> views c body \<and>
      length body < 2 ^ 31 \<and> tg_seqnm tg2 \<and> tg_salt tg2 = tg_salt tg \<and> tg_ssid tg2 = tg_ssid tg)"
    if o: "owns ack (ack_body (tg_msgids tg))" for ack
  proof (rule ok_bind [OF c [OF o]], clarify)
    fix d i tg2 ms
    assume n: "new_container bs (tg_msgids tg) ?t = (ms, tg2)" and d: "owns d (enc_container ms)"
    show "ok (Some (d, False, fst (hd ms), tg2)) (\<lambda>(c, t, i, tg2). \<exists>body. header_body bs content tg = (body, t, i, tg2) \<and>
      views c body \<and> length body < 2 ^ 31 \<and> tg_seqnm tg2 \<and> tg_salt tg2 = tg_salt tg \<and> tg_ssid tg2 = tg_ssid tg)"
      using True bound [OF n] d by (auto simp: header_body_def n)
  qed
  show ?thesis
    unfolding tg_header_body_def
    by (rule ok_bind [OF a]) (use pos c' in auto)
next
  case False
  have "ok (tg_ack tg) (\<lambda>(a, tg'). bsize a = 0 \<and> tg' = tg)"
    using tg_ack_ok [OF len(2)] False by auto
  then show ?thesis
    using False b m len by (auto simp: tg_header_body_def header_body_def intro!: ok_bind)
qed

definition tail_out :: "byte list \<Rightarrow> bool \<Rightarrow> u64 \<Rightarrow> tg_t \<Rightarrow> byte list \<times> u64 \<times> tg_t" where
  "tail_out body content mid tg = (let (w, tg2) = new_msg content body tg; n = pad_len (length body) in
     (enc_packet (view (tg_salt tg)) (view (tg_ssid tg)) w (map (tg_rnd tg2) [0..<n]),
      if mid = 0 then fst w else mid, skip_rnd n tg2))"

lemma header_out_tail:
  "header_body bs content tg = (body, t, mid, tg2) \<Longrightarrow> tg_salt tg2 = tg_salt tg \<Longrightarrow> tg_ssid tg2 = tg_ssid tg \<Longrightarrow>
     header_out bs content tg = tail_out body t mid tg2"
  by (simp add: header_out_def tail_out_def)

lemma tg_header_tail_ok:
  assumes c: "views c body" and m: "tg_seqnm tg" and s: "views (tg_salt tg) sa" "views (tg_ssid tg) ss"
    and len: "length body < 2 ^ 31" "length sa = 8" "length ss = 8"
  shows "ok (tg_header_tail c content mid tg)
    (\<lambda>(p, i, tg'). \<exists>out. tail_out body content mid tg = (out, i, tg') \<and> owns p out)"
proof -
  obtain i tg3 where i: "tg_get_current_time tg = (i, tg3)" by fastforce
  obtain q tg4 where q: "next_seqno content tg3 = (q, tg4)" by fastforce
  have m3: "tg_seqnm tg3"
    using i m by (auto simp: tg_get_current_time_def next_now_def)
  have w: "new_msg content body tg = ((i, q, body), tg4)"
    by (simp add: new_msg_def i q)
  have n: "bsize c = of_nat (length body)"
    using c by (rule views_bsize)
  have pad: "unat (16 + (16 - bsize c mod 16) mod 16) = pad_len (length body)"
    using n len by (simp add: unat_pad)
  define pd where "pd = 16 + (16 - bsize c mod 16) mod 16"
  have out: "tail_out body content mid tg = (sa @ ss @ enc_msg (i, q, body) @ map (tg_rnd tg4) [0..<unat pd],
      if mid = 0 then i else mid, skip_rnd (unat pd) tg4)"
    using s by (simp add: tail_out_def w enc_packet_def views_def pad pd_def Let_def)
  have pl: "unat pd < 32"
    using pad pad_len_bounds(2) by (simp add: pd_def)
  show ?thesis
    unfolding tg_header_tail_def out
    apply (rule ok_bind [OF buf_cat_owns [OF owns_init s(1)]])
    using len apply simp
    apply (rule ok_bind [OF buf_cat_owns [OF _ s(2)]], simp)
    using len apply simp
    apply (simp only: i Let_def prod.case)
    apply (rule ok_bind [OF buf_cat_ui_ok(2)], assumption)
    using len apply simp
    apply (simp only: m3 not_True_eq_False if_False q prod.case flip: pd_def)
    apply (rule ok_bind [OF buf_cat_ui_ok(1)], assumption)
    using len apply simp
    apply (rule ok_bind [OF buf_cat_ui_ok(1)], assumption)
    using len apply simp
    apply (rule ok_bind [OF buf_cat_owns [OF _ c]], assumption)
    using len apply simp
    apply (rule ok_bind [OF buf_cat_rand_ok], assumption)
    using len pl apply simp_all
    apply (simp add: enc_msg_def n)
    done
qed

lemma tg_header_enc_ok:
  assumes b: "views b bs" and m: "tg_seqnm tg" and s: "views (tg_salt tg) sa" "views (tg_ssid tg) ss"
    and len: "length bs < 2 ^ 30" "length (tg_msgids tg) \<le> 1000" "length (tg_todrop tg) \<le> 1000000"
      "length sa = 8" "length ss = 8"
  shows "ok (tg_header_enc b content (Some j) tg)
    (\<lambda>(p, i, tg'). \<exists>out. header_out bs content tg = (out, i, tg') \<and> owns p out)"
  unfolding tg_header_enc_def bind.bind_lunit
proof (rule ok_bind [OF tg_header_body_ok [OF b m len(1-3)]], clarify)
  fix c t mid tg2 body
  assume h: "header_body bs content tg = (body, t, mid, tg2)" and c: "views c body" "length body < 2 ^ 31"
    and k: "tg_seqnm tg2" "tg_salt tg2 = tg_salt tg" "tg_ssid tg2 = tg_ssid tg"
  show "ok (tg_header_tail c t mid tg2) (\<lambda>(p, i, tg'). \<exists>out. header_out bs content tg = (out, i, tg') \<and> owns p out)"
    unfolding header_out_tail [OF h k(2,3)]
    using c k s len by (intro tg_header_tail_ok [where sa = sa and ss = ss]) auto
qed

text \<open>The states a container passes through.\<close>

lemma new_container_cases:
  obtains w0 t0 w1 t1 ds t2 where "new_msg True bs tg = (w0, t0)"
    "new_msg False (ack_body acks) t0 = (w1, t1)"
    "(if tg_todropm t1 then new_drops (tg_todrop t1) t1 else ([], t1)) = (ds, t2)"
    "new_container bs acks tg = (w0 # w1 # ds, if tg_todropm t2 then t2\<lparr>tg_todrop := []\<rparr> else t2)"
proof -
  obtain w0 t0 where w0: "new_msg True bs tg = (w0, t0)" by fastforce
  obtain w1 t1 where w1: "new_msg False (ack_body acks) t0 = (w1, t1)" by fastforce
  obtain ds t2 where d: "(if tg_todropm t1 then new_drops (tg_todrop t1) t1 else ([], t1)) = (ds, t2)" by fastforce
  have "new_container bs acks tg = (w0 # w1 # ds, if tg_todropm t2 then t2\<lparr>tg_todrop := []\<rparr> else t2)"
    by (simp only: new_container_def Let_def w0 w1 d prod.case)
  with w0 w1 d that show ?thesis
    by blast
qed

lemma drops_frame:
  assumes "(if tg_todropm t1 then new_drops (tg_todrop t1) t1 else ([], t1)) = (ds, t2)"
  shows "tg_salt t2 = tg_salt t1 \<and> tg_ssid t2 = tg_ssid t1 \<and> tg_seqnm t2 = tg_seqnm t1 \<and> tg_key t2 = tg_key t1 \<and>
    tg_msgidsm t2 = tg_msgidsm t1 \<and> tg_msgids t2 = tg_msgids t1 \<and> tg_timediff t2 = tg_timediff t1"
proof (cases "tg_todropm t1")
  case True
  with assms have "new_drops (tg_todrop t1) t1 = (ds, t2)"
    by simp
  from new_drops_frame [OF this] show ?thesis
    by blast
next
  case False
  with assms show ?thesis
    by simp
qed

lemma new_container_frame:
  assumes "new_container bs acks tg = (ms, tg')"
  shows "tg_salt tg' = tg_salt tg \<and> tg_ssid tg' = tg_ssid tg \<and> tg_seqnm tg' = tg_seqnm tg \<and> tg_key tg' = tg_key tg \<and>
    tg_msgidsm tg' = tg_msgidsm tg \<and> tg_msgids tg' = tg_msgids tg \<and> tg_timediff tg' = tg_timediff tg"
proof -
  obtain w0 t0 w1 t1 ds t2 where c: "new_msg True bs tg = (w0, t0)" "new_msg False (ack_body acks) t0 = (w1, t1)"
    "(if tg_todropm t1 then new_drops (tg_todrop t1) t1 else ([], t1)) = (ds, t2)"
    "new_container bs acks tg = (w0 # w1 # ds, if tg_todropm t2 then t2\<lparr>tg_todrop := []\<rparr> else t2)"
    by (rule new_container_cases)
  have t: "tg' = (if tg_todropm t2 then t2\<lparr>tg_todrop := []\<rparr> else t2)"
    by (rule Pair_inject [OF trans [OF c(4) [symmetric] assms]]) (erule sym)
  show ?thesis
    unfolding t using new_msg_frame [OF c(1)] new_msg_frame [OF c(2)] drops_frame [OF c(3)]
    by (cases "tg_todropm t2") simp_all
qed

section \<open>Reading a header\<close>

lemma tg_deheader_ok:
  assumes v: "views b (le_bytes 8 (salt :: u64) @ le_bytes 8 (ssid :: u64) @ enc_msg (i, q, body) @ pad)"
    and s: "views (tg_ssid tg) ss" "8 \<le> length ss" and len: "length body < 2 ^ 31"
  shows "ok (tg_deheader b True tg) (\<lambda>(d, tg'). owns d body \<and>
    (\<exists>sb. owns sb (le_bytes 8 salt) \<and> tg' = tg_add_msgid i (tg\<lparr>tg_salt := sb\<rparr>)))"
proof -
  let ?n = "of_nat (length body) :: u32"
  have n: "unat ?n = length body"
    using len by simp
  have ne: "bsize b \<noteq> 0"
    using views_length [OF v] by auto
  have v': "views b (le_bytes 8 salt @ le_bytes 8 ssid @ le_bytes 8 i @ le_bytes 4 q @ le_bytes 4 ?n @ body @ pad)"
    using v by (simp add: enc_msg_def)
  have g: "\<exists>w. buf_get_ui64 (tg_ssid tg) = Some w"
    using buf_get_ok(2) [OF s] by blast
  have cut: "views (c\<lparr>bsize := ?n\<rparr>) body" if c: "views c (body @ pad)" for c
    using views_bound [OF c] views_nth [OF c] views_block [OF c] n
    by (intro viewsI) (auto simp: nth_append)
  have fin: "ok (buf_cat buf_init (c\<lparr>bsize := ?n\<rparr>)) (\<lambda>d. owns d body)" if "views c (body @ pad)" for c
    using buf_cat_owns [OF owns_init cut [OF that]] len by simp
  show ?thesis
    unfolding tg_deheader_def tg_deheader_enc_def if_not_P [OF ne] if_True
    apply (rule ui64.then_ok [OF TrueI v'], simp only:)
    apply (rule ok_bind [OF buf_add_ui_ok(2)], simp only: bind.bind_lunit)
    apply (rule ui64.then_ok [OF TrueI], assumption)
    using g apply clarsimp
    apply (rule ui64.then_ok [OF TrueI], assumption, clarsimp)
    apply (rule ui32.then_ok [OF TrueI], assumption, clarsimp)
    apply (rule ui32.then_ok [OF TrueI], assumption, clarsimp)
    apply (rule ok_bind [OF fin], assumption)
    apply auto
    done
qed

section \<open>Numbering\<close>

fun number :: "u32 \<Rightarrow> bool list \<Rightarrow> u32 list" where
  "number n [] = []"
| "number n (c # cs) = (2 * n + of_bool c) # number (if c then n + 1 else n) cs"

definition contents :: "bool list \<Rightarrow> u32" where
  "contents cs = of_nat (length (filter id cs))"

lemma contents_simps [simp]:
  "contents [] = 0"
  "contents (c # cs) = of_bool c + contents cs"
  "contents (cs @ ds) = contents cs + contents ds"
  by (simp_all add: contents_def)

lemma number_append: "number n (cs @ ds) = number n cs @ number (n + contents cs) ds"
  by (induction cs arbitrary: n) (auto simp: add.assoc)

lemma length_number [simp]: "length (number n cs) = length cs"
  by (induction cs arbitrary: n) auto

lemma new_msg_number:
  "new_msg content bs tg = (w, tg') \<Longrightarrow>
     [fst (snd w)] = number (tg_seqn tg) [content] \<and> tg_seqn tg' = tg_seqn tg + contents [content] \<and>
     fst w = (tg_now tg 0 AND - 4) + tg_timediff tg"
  by (auto simp: new_msg_def tg_get_current_time_def next_now_def next_seqno_def split: if_splits)

lemma new_drops_number:
  "new_drops is tg = (ms, tg') \<Longrightarrow>
     map (\<lambda>w. fst (snd w)) ms = number (tg_seqn tg) (replicate (length is) True) \<and>
     tg_seqn tg' = tg_seqn tg + contents (replicate (length is) True)"
proof (induction "is" arbitrary: tg ms tg')
  case Nil
  then show ?case by simp
next
  case (Cons i "is")
  obtain w t where w: "new_msg True (drop_body i) tg = (w, t)" by fastforce
  obtain ns t' where d: "new_drops is t = (ns, t')" by fastforce
  show ?case
    using Cons.prems Cons.IH [OF d] new_msg_number [OF w] w d by auto
qed

text \<open>The messages a header creates, in the order of creation, each with whether it is a content
  message: the message itself, or the messages of the container and then the container.\<close>

definition header_msgs :: "byte list \<Rightarrow> bool \<Rightarrow> tg_t \<Rightarrow> (wire_msg \<times> bool) list" where
  "header_msgs bs content tg =
     (if tg_msgidsm tg \<and> tg_msgids tg \<noteq> []
      then (let (ms, tg1) = new_container bs (tg_msgids tg) (tg\<lparr>tg_msgids := []\<rparr>);
                (w, _) = new_msg False (enc_container ms) tg1 in
        zip ms (True # False # replicate (length ms - 2) True) @ [(w, False)])
      else (let (w, _) = new_msg content bs tg in [(w, content)]))"

lemma map_zip_fst: "length xs = length ys \<Longrightarrow> map (\<lambda>(x, y). f x) (zip xs ys) = map f xs"
  by (induction xs ys rule: list_induct2) auto

lemma header_numbering:
  assumes "header_out bs content tg = (out, i, tg')"
  shows "map (\<lambda>(w, c). fst (snd w)) (header_msgs bs content tg) =
      number (tg_seqn tg) (map snd (header_msgs bs content tg))"
    and "tg_seqn tg' = tg_seqn tg + contents (map snd (header_msgs bs content tg))"
proof -
  let ?P = "map (\<lambda>(w, c). fst (snd w)) (header_msgs bs content tg) =
      number (tg_seqn tg) (map snd (header_msgs bs content tg)) \<and>
      tg_seqn tg' = tg_seqn tg + contents (map snd (header_msgs bs content tg))"
  have ?P
  proof (cases "tg_msgidsm tg \<and> tg_msgids tg \<noteq> []")
    case True
    let ?t = "tg\<lparr>tg_msgids := []\<rparr>"
    obtain w0 t0 where w0: "new_msg True bs ?t = (w0, t0)" by fastforce
    obtain w1 t1 where w1: "new_msg False (ack_body (tg_msgids tg)) t0 = (w1, t1)" by fastforce
    obtain ds t2 where d: "(if tg_todropm t1 then new_drops (tg_todrop t1) t1 else ([], t1)) = (ds, t2)" by fastforce
    define t3 where "t3 = (if tg_todropm t2 then t2\<lparr>tg_todrop := []\<rparr> else t2)"
    have nc: "new_container bs (tg_msgids tg) ?t = (w0 # w1 # ds, t3)"
      using d by (auto simp: new_container_def w0 w1 t3_def split: if_splits)
    obtain w2 t4 where w2: "new_msg False (enc_container (w0 # w1 # ds)) t3 = (w2, t4)" by fastforce
    have tg': "tg_seqn tg' = tg_seqn t4"
      using assms True by (auto simp: header_out_def header_body_def nc w2 skip_rnd_def Let_def)
    have dn: "map (\<lambda>w. fst (snd w)) ds = number (tg_seqn t1) (replicate (length ds) True) \<and>
      tg_seqn t2 = tg_seqn t1 + contents (replicate (length ds) True)"
    proof (cases "tg_todropm t1")
      case True
      with d have n: "new_drops (tg_todrop t1) t1 = (ds, t2)"
        by simp
      have "length ds = length (tg_todrop t1)"
        using new_drops_frame [OF n] by blast
      with new_drops_number [OF n] show ?thesis
        by (simp only:)
    next
      case False
      with d show ?thesis
        by simp
    qed
    have s3: "tg_seqn t3 = tg_seqn t2"
      by (simp add: t3_def)
    show ?thesis
      using True new_msg_number [OF w0] new_msg_number [OF w1] new_msg_number [OF w2] dn
      by (auto simp: header_msgs_def nc w2 tg' s3 number_append map_zip_fst split_beta)
  next
    case False
    obtain w t where w: "new_msg content bs tg = (w, t)" by fastforce
    then show ?thesis
      using False assms new_msg_number [OF w]
      by (auto simp: header_msgs_def header_out_def header_body_def skip_rnd_def Let_def)
  qed
  then show "map (\<lambda>(w, c). fst (snd w)) (header_msgs bs content tg) =
      number (tg_seqn tg) (map snd (header_msgs bs content tg))"
    and "tg_seqn tg' = tg_seqn tg + contents (map snd (header_msgs bs content tg))"
    by simp_all
qed

end
