(* ===== verification/QueueSpec.thy ===== *)
theory QueueSpec
  imports Queue SessionSpec
begin

text \<open>
  The query engine delivers each answer to the query it belongs to, and to no query twice.  The
  proofs use the list only through the facts of \<^theory_text>\<open>cut_list\<close>.
\<close>

section \<open>First matches\<close>

lemma first_Some: "first P xs = Some x \<Longrightarrow> x \<in> set xs \<and> P x"
  by (auto simp: first_def find_Some_iff)

lemma first_None: "first P xs = None \<longleftrightarrow> (\<forall>x\<in>set xs. \<not> P x)"
  by (auto simp: first_def find_None_iff)

lemma set_without_first: "set (without_first P xs) \<subseteq> set xs"
  by (induction xs) auto

lemma length_without_first: "length (without_first P xs) \<le> length xs"
  by (induction xs) auto

lemma without_first_id: "(\<forall>x\<in>set xs. \<not> P x) \<Longrightarrow> without_first P xs = xs"
  by (induction xs) auto

lemma without_first_distinct: "distinct xs \<Longrightarrow> distinct (without_first P xs)"
  using set_without_first [of P] by (induction xs) (auto dest: subsetD)

lemma without_first_set:
  "distinct xs \<Longrightarrow> first P xs = Some x \<Longrightarrow> set (without_first P xs) = set xs - {x}"
proof (induction xs)
  case Nil
  then show ?case by (simp add: first_def)
next
  case (Cons y xs)
  show ?case
  proof (cases "P y")
    case True
    with Cons show ?thesis
      by (auto simp: first_def)
  next
    case False
    then have "first P xs = Some x"
      using Cons.prems by (simp add: first_def)
    with Cons False first_Some [of P xs x] show ?thesis
      by auto
  qed
qed

section \<open>The invariant of the engine\<close>

text \<open>The listed queries are distinct and live, and a query whose callback was called is listed
  no more; no callback was called twice.\<close>

definition called :: "client \<Rightarrow> nat \<Rightarrow> bool" where
  "called c a \<longleftrightarrow> a \<in> set (map fst (c_done c))"

lemma called_simps [simp]:
  "called (c\<lparr>c_done := c_done c @ [(p, t)]\<rparr>) a \<longleftrightarrow> called c a \<or> a = p"
  "called (c\<lparr>c_store := s\<rparr>) a = called c a" "called (c\<lparr>c_list := l\<rparr>) a = called c a"
  "called (c\<lparr>c_tg := tg\<rparr>) a = called c a" "called (c\<lparr>c_updates := u\<rparr>) a = called c a"
  "called (c\<lparr>c_in := i\<rparr>) a = called c a" "called (c\<lparr>c_out := out\<rparr>) a = called c a"
  by (auto simp: called_def)

lemma called_fst: "called c a = (a \<in> fst ` set (c_done c))"
  by (simp add: called_def)

lemma called_cong: "c_done d = c_done c \<Longrightarrow> called d a = called c a"
  by (simp add: called_def)

definition qinv :: "env \<Rightarrow> client \<Rightarrow> nat list \<Rightarrow> bool" where
  "qinv E c xs \<longleftrightarrow> hl (c_list c) xs \<and> distinct xs \<and> length xs < e_fuel E \<and>
     (\<forall>p\<in>set xs. c_store c p \<noteq> None) \<and> distinct (map fst (c_done c)) \<and>
     (\<forall>a\<in>set xs. \<not> called c a)"

lemma qinv_live: "qinv E c xs \<Longrightarrow> all_live E c"
  using list_for_each_rep [of "c_list c" xs "e_fuel E"]
  by (auto simp: qinv_def all_live_def list_all_iff)

lemma cut_query_ok:
  assumes "qinv E c xs"
  shows "ok (cut_query E i c) (\<lambda>(r, d). r = first (cmp_msgid (c_store c) i) xs \<and> d = c\<lparr>c_list := c_list d\<rparr> \<and>
    hl (c_list d) (without_first (cmp_msgid (c_store c) i) xs))"
proof -
  have "hl (c_list c) xs" "length xs < e_fuel E"
    using assms by (auto simp: qinv_def)
  from hls.cut_rep [OF this] show ?thesis
    unfolding cut_query_def using qinv_live [OF assms] by (auto intro!: ok_bind)
qed

text \<open>Cutting a query leaves it live, unlisted and not called.\<close>

definition held :: "env \<Rightarrow> client \<Rightarrow> nat list \<Rightarrow> nat \<Rightarrow> bool" where
  "held E c xs p \<longleftrightarrow> qinv E c xs \<and> p \<notin> set xs \<and> c_store c p \<noteq> None \<and> \<not> called c p"

lemma cut_query_frame:
  assumes q: "qinv E c xs" and c: "cut_query E i c = Some (r, d)"
  shows "r = first (cmp_msgid (c_store c) i) xs" "d = c\<lparr>c_list := c_list d\<rparr>" "c_store d = c_store c"
    "called d a = called c a" "hl (c_list d) (without_first (cmp_msgid (c_store c) i) xs)" "c_done d = c_done c"
proof -
  show r: "r = first (cmp_msgid (c_store c) i) xs" "d = c\<lparr>c_list := c_list d\<rparr>"
    "hl (c_list d) (without_first (cmp_msgid (c_store c) i) xs)"
    using cut_query_ok [OF q, of i] c by auto
  show "c_store d = c_store c" "c_done d = c_done c"
    by (subst r(2), simp)+
  then show "called d a = called c a"
    by (intro called_cong)
qed

lemma cut_query_rest:
  assumes q: "qinv E c xs" and c: "cut_query E i c = Some (r, d)"
  shows "c_tg d = c_tg c" "c_in d = c_in c" "c_out d = c_out c" "c_updates d = c_updates c"
  by (subst cut_query_frame(2) [OF q c], simp)+

lemma cut_query_keep:
  assumes q: "qinv E c xs" and c: "cut_query E i c = Some (r, d)"
  shows "qinv E d (without_first (cmp_msgid (c_store c) i) xs)"
  using q cut_query_frame [OF q c] set_without_first [of "cmp_msgid (c_store c) i" xs]
    length_without_first [of "cmp_msgid (c_store c) i" xs] without_first_distinct [of xs "cmp_msgid (c_store c) i"]
  by (auto simp: qinv_def dest: subsetD)

lemma cut_query_inv:
  assumes q: "qinv E c xs" and c: "cut_query E i c = Some (r, d)"
  shows "\<exists>ys. qinv E d ys \<and> set ys \<subseteq> set xs \<and> (\<forall>p. r = Some p \<longrightarrow> held E d ys p \<and> p \<in> set xs)"
proof (intro exI conjI allI impI)
  let ?P = "cmp_msgid (c_store c) i"
  show "qinv E d (without_first ?P xs)"
    by (rule cut_query_keep [OF q c])
  show "set (without_first ?P xs) \<subseteq> set xs"
    by (rule set_without_first)
  fix p
  assume "r = Some p"
  then have p: "p \<in> set xs" "p \<notin> set (without_first ?P xs)"
    using q cut_query_frame(1) [OF q c] first_Some [of ?P xs p] without_first_set [of xs ?P p] by (auto simp: qinv_def)
  then show "p \<in> set xs" "held E d (without_first ?P xs) p"
    using q cut_query_keep [OF q c] cut_query_frame(3,4) [OF q c] by (auto simp: held_def qinv_def)
qed

lemma on_done_held:
  "held E c xs p \<Longrightarrow> on_done p t c = Some d \<Longrightarrow> qinv E d xs \<and> c_store d p \<noteq> None"
  by (auto simp: held_def on_done_def qinv_def called_def [symmetric] simp del: set_map split: if_splits)

lemma stop_loop_inv: "qinv E c xs \<Longrightarrow> stop_loop p c = Some d \<Longrightarrow> qinv E d xs"
  by (auto simp: stop_loop_def with_query_def qinv_def bind_eq_Some_conv)

lemma tg_inv [simp]: "qinv E (c\<lparr>c_tg := t\<rparr>) xs = qinv E c xs"
  "qinv E (c\<lparr>c_updates := u\<rparr>) xs = qinv E c xs" "qinv E (c\<lparr>c_in := i\<rparr>) xs = qinv E c xs"
  "qinv E (c\<lparr>c_out := out\<rparr>) xs = qinv E c xs"
  by (simp_all add: qinv_def)

lemma held_timediff [simp]: "held E (set_timediff c) xs p = held E c xs p"
  by (simp add: held_def set_timediff_def)

lemma misc_inv [simp]: "qinv E (set_timediff c) xs = qinv E c xs" "qinv E (add_msgid i c) xs = qinv E c xs"
  "qinv E (add_todrop i c) xs = qinv E c xs"
  by (simp_all add: set_timediff_def add_msgid_def add_todrop_def)

lemma catched_tl_inv:
  assumes q: "qinv E c xs" and c: "catched_tl E i t c = Some d"
  shows "\<exists>ys. qinv E d ys \<and> set ys \<subseteq> set xs"
proof (cases "e_queuem E")
  case False
  with q c show ?thesis
    by (auto simp: catched_tl_def)
next
  case True
  with c obtain r e where e: "cut_query E i c = Some (r, e)"
    by (auto simp: catched_tl_def bind_eq_Some_conv)
  obtain ys where ys: "qinv E e ys" "set ys \<subseteq> set xs" and h: "\<And>p. r = Some p \<Longrightarrow> held E e ys p"
    using cut_query_inv [OF q e] by blast
  have fin: "qinv E f ys" if "held E g ys p" "on_done p u g = Some k" "stop_loop p k = Some f" for g f p u k
    using that on_done_held stop_loop_inv by blast
  have "qinv E d ys"
  proof (cases r)
    case None
    with True c e ys show ?thesis
      by (auto simp: catched_tl_def)
  next
    case (Some p)
    show ?thesis
    proof (cases t)
      case None
      with True c e ys Some h on_done_held show ?thesis
        by (auto simp: catched_tl_def split: if_splits)
    next
      case (Some x)
      have hp: "held E e ys p"
        using h \<open>r = Some p\<close> .
      have ht: "held E (set_timediff e) ys p"
        using hp by simp
      from Some True c e ys \<open>r = Some p\<close> show ?thesis
        by (auto simp: catched_tl_def catched_gzip_def bind_eq_Some_conv split: if_splits
            intro: fin [OF hp] fin [OF ht])
    qed
  qed
  with ys(2) show ?thesis
    by blast
qed

lemma handle_inv:
  "qinv E c xs \<Longrightarrow> handle_tl E n t c = Some d \<Longrightarrow> \<exists>ys. qinv E d ys \<and> set ys \<subseteq> set xs"
  "qinv E c xs \<Longrightarrow> handle_msgs E n ms c = Some d \<Longrightarrow> \<exists>ys. qinv E d ys \<and> set ys \<subseteq> set xs"
proof (induction E n t c and E n ms c arbitrary: d xs and d xs rule: handle_tl_handle_msgs.induct)
  case (1 E t c)
  then show ?case by simp
next
  case (2 E n t c)
  show ?case
  proof (cases t)
    case None
    with 2 show ?thesis by auto
  next
    case (Some x)
    with 2 show ?thesis
      using catched_tl_inv [OF 2(3)] by (auto simp: bind_eq_Some_conv split: if_splits prod.splits)
  qed
next
  case (3 E n c)
  then show ?case by auto
next
  case (4 E n m ms c)
  then obtain i q k bd where m: "m = FMsg i q k bd"
    by (auto split: fval.splits)
  with 4 obtain b u e where e: "own_buf bd = Some b" "deserialize E b = Some u"
    "handle_tl E n u (add_msgid i c) = Some e" "handle_msgs E n ms e = Some d"
    by (auto simp: bind_eq_Some_conv)
  obtain ys where ys: "qinv E e ys" "set ys \<subseteq> set xs"
    using 4(1) [OF m e(1,2) _ e(3)] 4(3) by auto
  with 4(2) [OF m e(1,2,3) ys(1) e(4)] show ?case
    by blast
qed

end
