(* ===== verification/EncryptSpec.thy ===== *)
theory EncryptSpec
  imports Encrypt
begin

text \<open>
  The encryption layer implements the formulas of MTProto 2.0, decryption inverts what the server
  sends, and the transport is framed.
\<close>

section \<open>Slices\<close>

lemma length_sub [simp]: "k + n \<le> length bs \<Longrightarrow> length (sub bs k n) = n"
  by (simp add: sub_def)

lemma sub_append [simp]: "k + n \<le> length bs \<Longrightarrow> sub (bs @ zs) k n = sub bs k n"
  by (simp add: sub_def)

lemma sub_all: "length bs = n \<Longrightarrow> sub bs 0 n = bs"
  by (simp add: sub_def)

lemma add_sub_ok:
  assumes "views x bs" and "k + n \<le> length bs"
  shows "ok (add_sub x k n) (\<lambda>b. owns b (sub bs k n))"
proof -
  have "length (sub bs k n) + 1 < 2 ^ 32"
    using assms views_small [OF assms(1)] by simp
  then have "ok (buf_add (sub bs k n) (of_nat n)) (\<lambda>b. owns b (sub bs k n))"
    using buf_add_all [of "sub bs k n"] assms(2) by simp
  then show ?thesis
    using views_peeks [OF assms] by (simp add: add_sub_def sub_def)
qed

lemma cat_sub_ok:
  assumes "owns d xs" and "views x bs" and "k + n \<le> length bs" and "length xs + n + 1 < 2 ^ 32"
  shows "ok (cat_sub d x k n) (\<lambda>b. owns b (xs @ sub bs k n))"
proof -
  have "ok (buf_cat_data d (sub bs k n) (of_nat n)) (\<lambda>b. owns b (xs @ sub bs k n))"
    using assms by (intro ok_mono [OF buf_cat_data_ok]) auto
  then show ?thesis
    using views_peeks [OF assms(2,3)] by (simp add: cat_sub_def sub_def)
qed

lemma write_at_start_ok:
  assumes "length bs \<le> unat (asize b)" and "data b = 0" and "unat (asize b) + 1 < 2 ^ 32" and "unat n = length bs"
  shows "ok (write_at_start bs b) (\<lambda>h. owns (h\<lparr>bsize := n\<rparr>) bs)"
  using assms by (auto simp: write_at_start_def owns_def intro!: viewsI)

section \<open>Digests and the cipher\<close>

lemma digest_ok:
  assumes "length ds + m \<le> 8192" and "unat n = length ds + m"
  shows "ok (write_at_start ds buf_init) (\<lambda>h. owns (h\<lparr>bsize := n\<rparr>) (ds @ replicate m 0))"
  using assms by (auto simp: write_at_start_def owns_def buf_init_def nth_append intro!: viewsI)

lemma tg_hsh_ok:
  assumes "crypto_ok C" and "views b bs"
  shows "ok (tg_hsh_sha256 C b) (\<lambda>h. owns h (c_sha256 C bs @ replicate 224 0))"
    and "ok (tg_hsh_sha1 C b) (\<lambda>h. owns h (c_sha1 C bs))"
proof -
  have p: "peeks b 0 (unat (bsize b)) = Some bs"
    using views_peeks [OF assms(2), of 0 "length bs"] views_length [OF assms(2)] by simp
  have l: "length (c_sha256 C bs) = 32" "length (c_sha1 C bs) = 20"
    using assms(1) by (auto simp: crypto_ok_def)
  show "ok (tg_hsh_sha256 C b) (\<lambda>h. owns h (c_sha256 C bs @ replicate 224 0))"
    unfolding tg_hsh_sha256_def p bind.bind_lunit
    by (rule ok_bind [OF digest_ok [where m = 224 and n = 256]]) (use l in auto)
  show "ok (tg_hsh_sha1 C b) (\<lambda>h. owns h (c_sha1 C bs))"
    unfolding tg_hsh_sha1_def p bind.bind_lunit
    by (rule ok_bind [OF digest_ok [where m = 0 and n = 20]]) (use l in auto)
qed

lemma tg_cry_aes_ok:
  assumes b: "views b bs" and k: "views k kk" "length kk = 32" and v: "views v vv" "length vv = 32"
    and m: "length bs mod 16 = 0" and len: "3 * length bs + 1 < 2 ^ 32" and f: "length (f kk vv bs) = length bs"
  shows "ok (tg_cry_aes f b k v) (\<lambda>r. owns r (f kk vv bs))"
proof -
  have n: "unat (bsize b) = length bs"
    using b by (rule views_length)
  have p: "peeks k 0 32 = Some kk" "peeks v 0 32 = Some vv" "peeks b 0 (unat (bsize b)) = Some bs"
    using views_peeks [OF k(1), of 0 32] views_peeks [OF v(1), of 0 32] views_peeks [OF b, of 0 "length bs"]
      k v n by simp_all
  have t: "unat (bsize b * 3) = 3 * length bs"
    using len n by (simp add: unat_word_ariths)
  have r: "ok (if bsize b > bsize buf_init then buf_realloc buf_init (bsize b * 3) else Some buf_init)
    (\<lambda>r. length bs \<le> unat (asize r) \<and> data r = 0 \<and> unat (asize r) + 1 < 2 ^ 32)"
  proof (cases "bsize b > bsize buf_init")
    case True
    have "ok (buf_realloc buf_init (bsize b * 3)) (\<lambda>r. data r = 0 \<and> asize r = max BUFSIZ (bsize b * 3))"
      using t len u32_not_max [of "bsize b * 3"]
      by (auto simp: buf_realloc_def buf_init_def max_def)
    with True show ?thesis
      using t len by (auto simp: unat_max_u32 elim!: ok_mono)
  next
    case False
    then have "length bs = 0"
      using n by (simp add: buf_init_def word_less_nat_alt)
    with False show ?thesis
      by (simp add: buf_init_def)
  qed
  show ?thesis
    unfolding tg_cry_aes_def
    by (rule ok_bind [OF r]) (use p n m f in \<open>auto intro!: ok_bind [OF write_at_start_ok]\<close>)
qed

section \<open>Keys\<close>

lemma auth_key_id_of_ok:
  assumes C: "crypto_ok C" and k: "views key kb"
  shows "ok (auth_key_id_of C key) (\<lambda>b. owns b (key_id C kb))"
  using C unfolding auth_key_id_of_def key_id_def
  by (intro ok_bind [OF tg_hsh_ok(2) [OF C k]] add_sub_ok) (auto simp: crypto_ok_def)

lemma msg_key_of_ok:
  assumes C: "crypto_ok C" and k: "views key kb" "120 \<le> length kb" and b: "views b bs" "length bs + 33 < 2 ^ 32"
  shows "ok (msg_key_of C key b) (\<lambda>m. owns m (msg_key2 C 0 kb bs))"
proof -
  have l: "length (c_sha256 C xs) = 32" for xs
    using C by (simp add: crypto_ok_def)
  have fin: "ok (add_sub h 8 16) (\<lambda>m. owns m (msg_key2 C 0 kb bs))"
    if "owns h (c_sha256 C (sub kb 88 32 @ bs) @ replicate 224 0)" for h
    using add_sub_ok [OF owns_views [OF that], of 8 16] l by (simp add: msg_key2_def)
  show ?thesis
    unfolding msg_key_of_def
    by (rule ok_bind [OF add_sub_ok [OF k(1)]], use k in simp)
      (rule ok_bind [OF buf_cat_owns [OF _ b(1)]], assumption, use k b in simp,
        rule ok_bind [OF tg_hsh_ok(1) [OF C]], erule owns_views, rule fin)
qed

lemma aes_keys_of_ok:
  assumes C: "crypto_ok C" and k: "views key kb" "84 \<le> length kb" and m: "views mk mb" "length mb = 16" and x: "x \<le> 8"
  shows "ok (aes_keys_of C x key mk) (\<lambda>(k, v). owns k (fst (aes_keys2 C x kb mb)) \<and> owns v (snd (aes_keys2 C x kb mb)))"
proof -
  define a where "a = c_sha256 C (mb @ sub kb x 36)"
  define b where "b = c_sha256 C (sub kb (40 + x) 36 @ mb)"
  have l: "length a = 32" "length b = 32"
    using C by (auto simp: crypto_ok_def a_def b_def)
  have n: "unat (bsize mk) = 16"
    using views_length [OF m(1)] m(2) by simp
  have ha: "ok (add_sub mk 0 (unat (bsize mk)) \<bind> (\<lambda>d. cat_sub d key x 36 \<bind> tg_hsh_sha256 C))
      (\<lambda>h. owns h (a @ replicate 224 0))"
    unfolding a_def n
    by (rule ok_bind [OF add_sub_ok [OF m(1)]], use m in simp, rule ok_bind [OF cat_sub_ok [OF _ k(1)]], assumption)
      (use k m x in \<open>auto simp: sub_all intro: tg_hsh_ok(1) [OF C]\<close>)
  have hb: "ok (add_sub key (40 + x) 36 \<bind> (\<lambda>d. cat_sub d mk 0 (unat (bsize mk)) \<bind> tg_hsh_sha256 C))
      (\<lambda>h. owns h (b @ replicate 224 0))"
    unfolding b_def n
    by (rule ok_bind [OF add_sub_ok [OF k(1)]], use k x in simp, rule ok_bind [OF cat_sub_ok [OF _ m(1)]], assumption)
      (use k m x in \<open>auto simp: sub_all intro: tg_hsh_ok(1) [OF C]\<close>)
  have join: "ok (add_sub p 0 8 \<bind> (\<lambda>k. cat_sub k q 8 16 \<bind> (\<lambda>k. cat_sub k p 24 8)))
      (\<lambda>k. owns k (sub xs 0 8 @ sub ys 8 16 @ sub xs 24 8))"
    if "owns p (xs @ replicate 224 0)" "owns q (ys @ replicate 224 0)" "length xs = 32" "length ys = 32" for p q xs ys
  proof -
    have 1: "ok (add_sub p 0 8) (\<lambda>k. owns k (sub xs 0 8))"
      using add_sub_ok [OF owns_views [OF that(1)], of 0 8] that by simp
    have 2: "ok (cat_sub k q 8 16) (\<lambda>k. owns k (sub xs 0 8 @ sub ys 8 16))" if "owns k (sub xs 0 8)" for k
      using cat_sub_ok [OF that owns_views [OF \<open>owns q _\<close>], of 8 16] \<open>length xs = 32\<close> \<open>length ys = 32\<close> by simp
    have 3: "ok (cat_sub k p 24 8) (\<lambda>k. owns k (sub xs 0 8 @ sub ys 8 16 @ sub xs 24 8))"
      if "owns k (sub xs 0 8 @ sub ys 8 16)" for k
      using cat_sub_ok [OF that owns_views [OF \<open>owns p _\<close>], of 24 8] \<open>length xs = 32\<close> \<open>length ys = 32\<close> by simp
    show ?thesis
      by (rule ok_bind [OF 1], rule ok_bind [OF 2], assumption, rule 3)
  qed
  have e: "aes_keys2 C x kb mb = (sub a 0 8 @ sub b 8 16 @ sub a 24 8, sub b 0 8 @ sub a 8 16 @ sub b 24 8)"
    by (simp add: aes_keys2_def a_def b_def Let_def)
  have assoc: "aes_keys_of C x key mk =
      (add_sub mk 0 (unat (bsize mk)) \<bind> (\<lambda>d. cat_sub d key x 36 \<bind> tg_hsh_sha256 C)) \<bind> (\<lambda>ha.
      (add_sub key (40 + x) 36 \<bind> (\<lambda>d. cat_sub d mk 0 (unat (bsize mk)) \<bind> tg_hsh_sha256 C)) \<bind> (\<lambda>hb.
      (add_sub ha 0 8 \<bind> (\<lambda>k. cat_sub k hb 8 16 \<bind> (\<lambda>k. cat_sub k ha 24 8))) \<bind> (\<lambda>k.
      (add_sub hb 0 8 \<bind> (\<lambda>v. cat_sub v ha 8 16 \<bind> (\<lambda>v. cat_sub v hb 24 8))) \<bind> (\<lambda>v. Some (k, v)))))"
    by (simp add: aes_keys_of_def)
  show ?thesis
    unfolding assoc e
    by (rule ok_bind [OF ha], rule ok_bind [OF hb], rule ok_bind [OF join], (assumption | rule l)+,
        rule ok_bind [OF join], (assumption | rule l)+) simp
qed

section \<open>Encryption and decryption\<close>

lemma length_mtproto2:
  assumes "crypto_ok C" and "x \<le> 8"
  shows "length (key_id C kb) = 8" and "length (msg_key2 C x kb pt) = 16"
    and "length (mtproto2 C x kb pt) = 24 + length pt"
    and "length (fst (aes_keys2 C x kb mb)) = 32" and "length (snd (aes_keys2 C x kb mb)) = 32"
  using assms by (auto simp: crypto_ok_def key_id_def msg_key2_def mtproto2_def aes_keys2_def Let_def split_beta)

lemma tg_encrypt_ok:
  assumes C: "crypto_ok C" and k: "views (tg_key tg) kb" "120 \<le> length kb"
    and b: "views b pt" "length pt mod 16 = 0" "3 * length pt + 100 < 2 ^ 32"
  shows "ok (tg_encrypt C tg b True) (\<lambda>e. owns e (mtproto2 C 0 kb pt))"
proof -
  define mk where "mk = msg_key2 C 0 kb pt"
  obtain kk vv where kv: "aes_keys2 C 0 kb mk = (kk, vv)"
    by fastforce
  have len32: "length kk = 32" "length vv = 32"
    using length_mtproto2(4,5) [OF C, of 0 kb mk] by (simp_all add: kv)
  have l: "length (key_id C kb) = 8" "length mk = 16" "length kk = 32" "length vv = 32"
    "length (c_ige_e C kk vv pt) = length pt"
    using length_mtproto2 [OF C, where x = 0] len32 kv C
    by (auto simp: mk_def crypto_ok_def)
  have out: "mtproto2 C 0 kb pt = key_id C kb @ mk @ c_ige_e C kk vv pt"
    by (simp add: mtproto2_def mk_def [symmetric] kv)
  have keys: "ok (aes_keys_of C 0 (tg_key tg) m) (\<lambda>(k, v). owns k kk \<and> owns v vv)" if "owns m mk" for m
    using aes_keys_of_ok [OF C k(1) _ owns_views [OF that] l(2), of 0] k kv by simp
  have msg: "ok (msg_key_of C (tg_key tg) b) (\<lambda>m. owns m mk)"
    using b unfolding mk_def by (intro msg_key_of_ok [OF C k b(1)]) simp
  have aes: "ok (tg_cry_aes_e C b p q) (\<lambda>e. owns e (c_ige_e C kk vv pt))" if "owns p kk" "owns q vv" for p q
    unfolding tg_cry_aes_e_def using that b l by (intro tg_cry_aes_ok) auto
  show ?thesis
    unfolding tg_encrypt_def if_True out
    by (rule ok_bind [OF auth_key_id_of_ok [OF C k(1)]], rule ok_bind [OF msg], rule ok_bind [OF keys], assumption,
        clarsimp, rule ok_bind [OF aes], assumption, assumption, rule ok_bind [OF buf_cat_owns [OF owns_init]],
        erule owns_views, use l in simp, rule ok_bind [OF buf_cat_owns], simp, erule owns_views, use l in simp)
      (use l b in \<open>auto intro!: ok_mono [OF buf_cat_owns]\<close>)
qed

text \<open>What the server sends, with offset 8, is decrypted to the plaintext.\<close>

lemma tg_decrypt_ok:
  assumes C: "crypto_ok C" and k: "views (tg_key tg) kb" "120 \<le> length kb"
    and b: "views b (mtproto2 C 8 kb pt)" "length pt mod 16 = 0" "length pt < 2 ^ 30"
  shows "ok (tg_decrypt C tg b True) (\<lambda>d. owns d pt)"
proof -
  define mk where "mk = msg_key2 C 8 kb pt"
  obtain kk vv where kv: "aes_keys2 C 8 kb mk = (kk, vv)"
    by fastforce
  let ?id = "key_id C kb" and ?ct = "c_ige_e C kk vv pt"
  have len32: "length kk = 32" "length vv = 32"
    using length_mtproto2(4,5) [OF C, of 8 kb mk] by (simp_all add: kv)
  have l: "length ?id = 8" "length mk = 16" "length kk = 32" "length vv = 32" "length ?ct = length pt"
    "c_ige_d C kk vv ?ct = pt"
    using length_mtproto2 [OF C, where x = 8] len32 kv C b
    by (auto simp: mk_def crypto_ok_def)
  have out: "mtproto2 C 8 kb pt = ?id @ mk @ ?ct"
    by (simp add: mtproto2_def mk_def [symmetric] kv)
  have ne: "bsize b \<noteq> 0"
    using views_length [OF b(1)] l by (auto simp: out)
  have i: "buf_get_ui64 b = Some (le_val ?id)"
    using buf_get_ok(2) [OF b(1)] l by (simp add: out)
  have j: "buf_get_ui64 own = Some (le_val ?id)" if "owns own ?id" for own
    using buf_get_ok(2) [OF owns_views [OF that]] l by simp
  have v: "views b (le_bytes 8 (le_val ?id :: u64) @ mk @ ?ct)"
    using b(1) l(1) by (simp add: out le_bytes_le_val)
  have d: "deserialize_ui64 b = Some (le_val ?id, skip 8 b)" "views (skip 8 b) (mk @ ?ct)"
    using deserialize_ui_ok(2) [OF v] by auto
  have m: "ok (deserialize_buf (skip 8 b) 16) (\<lambda>(m, c). owns m mk \<and> views c ?ct)"
    using l by (intro deserialize_buf_ok [OF d(2)]) auto
  have keys: "ok (aes_keys_of C 8 (tg_key tg) m) (\<lambda>(k, v). owns k kk \<and> owns v vv)" if "owns m mk" for m
    using aes_keys_of_ok [OF C k(1) _ owns_views [OF that] l(2), of 8] k kv by simp
  have aes: "ok (tg_cry_aes_d C c p q) (\<lambda>e. owns e pt)" if "owns p kk" "owns q vv" "views c ?ct" for c p q
  proof -
    have "ok (tg_cry_aes (c_ige_d C) c p q) (\<lambda>e. owns e (c_ige_d C kk vv ?ct))"
      using that b l by (intro tg_cry_aes_ok) auto
    then show ?thesis
      by (simp add: tg_cry_aes_d_def l)
  qed
  have sz: "bsize c mod 16 = 0" if "views c ?ct" for c
  proof -
    have "unat (bsize c mod 16) = 0"
      using views_length [OF that] l b by (simp add: unat_mod_distrib)
    then show ?thesis
      by (rule unat_0_iff [THEN iffD1])
  qed
  show ?thesis
    unfolding tg_decrypt_def if_not_P [OF ne] if_True i bind.bind_lunit
    by (rule ok_bind [OF auth_key_id_of_ok [OF C k(1)]])
      (auto simp: j d(1) sz intro!: ok_bind [OF m] ok_bind [OF keys] aes)
qed

section \<open>Transport\<close>

lemma tg_transport_ok:
  assumes "views b bs" and "length bs + 5 < 2 ^ 32"
  shows "ok (tg_transport b) (\<lambda>t. owns t (le_bytes 4 (of_nat (length bs) :: u32) @ bs))"
  using assms views_bsize [OF assms(1)]
  by (auto simp: tg_transport_def intro!: ok_bind [OF buf_cat_ui_ok(1) [OF owns_init]] ok_mono [OF buf_cat_owns])

text \<open>A frame is taken apart again, except for what reads as the 404 code.\<close>

lemma tg_detransport_ok:
  assumes v: "views t (le_bytes 4 (of_nat (length bs) :: u32) @ bs)"
    and n: "4 \<le> length bs" "length bs < 2 ^ 31" "le_val (take 4 bs) \<noteq> err_404"
  shows "ok (tg_detransport t) (\<lambda>b. owns b bs)"
proof -
  let ?n = "of_nat (length bs) :: u32"
  have u: "unat ?n = length bs"
    using n by simp
  have ne: "bsize t \<noteq> 0"
    using views_length [OF v] by auto
  have d: "deserialize_ui32 t = Some (?n, skip 4 t)" "views (skip 4 t) bs"
    using deserialize_ui_ok(1) [OF v] by auto
  have g: "buf_get_ui32 (skip 4 t) = Some (le_val (take 4 bs))"
    using buf_get_ok(1) [OF d(2)] n by simp
  have "?n \<noteq> - 404"
  proof
    assume "?n = - 404"
    then have "unat ?n = unat (- 404 :: u32)"
      by simp
    with u n show False
      by simp
  qed
  moreover have "owns c bs \<Longrightarrow> bsize c = ?n" for c
    using views_bsize by (auto simp: owns_def)
  ultimately show ?thesis
    using n d(2) g
    by (auto simp: tg_detransport_def ne d(1) intro!: ok_bind [OF buf_cat_owns [OF owns_init d(2)]])
qed

end
