(* ===== verification/SessionProps.thy ===== *)
theory SessionProps
  imports SessionSpec EncryptSpec Reader
begin

text \<open>
  The properties of the session layer: numbering of messages over the life of a session, the
  shape of what is sent, and the exchange with a server that follows the protocol.
\<close>

section \<open>Sessions\<close>

text \<open>What a session keeps: a salt and a session id of eight bytes.\<close>

definition sess_ok :: "tg_t \<Rightarrow> bool" where
  "sess_ok tg \<longleftrightarrow> tg_seqnm tg \<and> buf_wf (tg_salt tg) \<and> bsize (tg_salt tg) = 8 \<and>
     buf_wf (tg_ssid tg) \<and> bsize (tg_ssid tg) = 8"

definition sendable :: "buf_t \<Rightarrow> tg_t \<Rightarrow> bool" where
  "sendable b tg \<longleftrightarrow> buf_wf b \<and> bsize b < 2 ^ 30 \<and> length (tg_msgids tg) \<le> 1000 \<and>
     length (tg_todrop tg) \<le> 1000000"

text \<open>The steps of a session: sending a message, receiving one, asking for an answer to be
  dropped.  The trace lists the sequence numbers of the messages created, each with whether the
  message is a content message.\<close>

inductive session :: "tg_t \<Rightarrow> (u32 \<times> bool) list \<Rightarrow> tg_t \<Rightarrow> bool" where
  session_start: "session tg [] tg"
| session_send: "session tg es tg1 \<Longrightarrow> sendable b tg1 \<Longrightarrow>
    tg_header_enc b content (Some j) tg1 = Some (p, i, tg2) \<Longrightarrow>
    session tg (es @ map (\<lambda>(w, c). (fst (snd w), c)) (header_msgs (view b) content tg1)) tg2"
| session_receive: "session tg es tg1 \<Longrightarrow> tg_deheader b True tg1 = Some (d, tg2) \<Longrightarrow> session tg es tg2"
| session_drop: "session tg es tg1 \<Longrightarrow> session tg es (tg_add_todrop i tg1)"

lemma sess_views:
  assumes "sess_ok tg"
  shows "views (tg_salt tg) (view (tg_salt tg))" "views (tg_ssid tg) (view (tg_ssid tg))"
    "length (view (tg_salt tg)) = 8" "length (view (tg_ssid tg)) = 8"
  using assms by (simp_all add: sess_ok_def views_def)

lemma header_enc_Some:
  assumes s: "sess_ok tg" and b: "sendable b tg"
  shows "ok (tg_header_enc b content (Some j) tg)
    (\<lambda>(p, i, tg'). \<exists>out. header_out (view b) content tg = (out, i, tg') \<and> owns p out)"
proof (rule tg_header_enc_ok [OF _ _ sess_views(1,2) [OF s]])
  show "views b (view b)"
    using b by (simp add: sendable_def views_def)
  have "unat (bsize b) < unat (2 ^ 30 :: u32)"
    using b by (simp only: sendable_def word_less_nat_alt)
  then show "length (view b) < 2 ^ 30"
    by simp
qed (use s b sess_views [OF s] in \<open>auto simp: sess_ok_def sendable_def\<close>)

lemma header_out_frame:
  assumes "header_out bs content tg = (out, i, tg')"
  shows "tg_salt tg' = tg_salt tg" "tg_ssid tg' = tg_ssid tg" "tg_seqnm tg' = tg_seqnm tg" "tg_key tg' = tg_key tg"
proof -
  obtain body c mid t where h: "header_body bs content tg = (body, c, mid, t)"
    by (metis prod_cases4)
  have t: "tg_salt t = tg_salt tg \<and> tg_ssid t = tg_ssid tg \<and> tg_seqnm t = tg_seqnm tg \<and> tg_key t = tg_key tg"
  proof (cases "tg_msgidsm tg \<and> tg_msgids tg \<noteq> []")
    case True
    obtain ms t' where n: "new_container bs (tg_msgids tg) (tg\<lparr>tg_msgids := []\<rparr>) = (ms, t')" by fastforce
    show ?thesis
      using True h new_container_frame [OF n] by (auto simp: header_body_def n)
  next
    case False
    with h show ?thesis
      by (auto simp: header_body_def)
  qed
  obtain w t' where w: "new_msg c body t = (w, t')" by fastforce
  show "tg_salt tg' = tg_salt tg" "tg_ssid tg' = tg_ssid tg" "tg_seqnm tg' = tg_seqnm tg" "tg_key tg' = tg_key tg"
    using assms t new_msg_frame [OF w] by (auto simp: header_out_def h w Let_def skip_rnd_def)
qed

lemma header_enc_sess:
  assumes "sess_ok tg" and "sendable b tg" and "tg_header_enc b content (Some j) tg = Some (p, i, tg')"
  shows "sess_ok tg'" and "\<exists>out. header_out (view b) content tg = (out, i, tg') \<and> owns p out"
  using header_enc_Some [OF assms(1,2), of content j] assms header_out_frame [of "view b" content tg _ i tg']
  by (auto simp: sess_ok_def)

lemma deheader_sess:
  assumes "sess_ok tg" and "tg_deheader b True tg = Some (d, tg')"
  shows "sess_ok tg'" and "tg_seqn tg' = tg_seqn tg"
proof -
  have s: "buf_wf s \<and> bsize s = 8" if "buf_add_ui64 v = Some s" for s and v :: u64
    using buf_add_ui_ok(2) [of v] that views_bsize [of s] by (auto simp: owns_def views_def)
  have "sess_ok tg' \<and> tg_seqn tg' = tg_seqn tg"
  proof (cases "bsize b = 0")
    case True
    with assms show ?thesis
      by (simp add: tg_deheader_def)
  next
    case False
    with assms show ?thesis
      by (auto simp: tg_deheader_def tg_deheader_enc_def tg_add_msgid_def sess_ok_def bind_eq_Some_conv dest: s)
  qed
  then show "sess_ok tg'" and "tg_seqn tg' = tg_seqn tg"
    by simp_all
qed

lemma session_inv:
  "session tg es tg' \<Longrightarrow> sess_ok tg \<Longrightarrow>
     sess_ok tg' \<and> map fst es = number (tg_seqn tg) (map snd es) \<and> tg_seqn tg' = tg_seqn tg + contents (map snd es)"
proof (induction rule: session.induct)
  case (session_start tg)
  then show ?case by simp
next
  case (session_send tg es tg1 b content j p i tg2)
  then have s: "sess_ok tg1" by simp
  obtain out where o: "header_out (view b) content tg1 = (out, i, tg2)"
    using header_enc_sess(2) [OF s session_send.hyps(2,3)] by blast
  have e: "map fst (map (\<lambda>(w, c). (fst (snd w), c)) ms) = map (\<lambda>(w, c). fst (snd w)) ms"
    "map snd (map (\<lambda>(w, c). (fst (snd w), c)) ms) = map snd ms" for ms :: "(wire_msg \<times> bool) list"
    by auto
  show ?case
    using session_send header_enc_sess(1) [OF s session_send.hyps(2,3)] header_numbering [OF o]
    by (simp only: map_append e number_append contents_simps add.assoc)
next
  case (session_receive tg es tg1 b d tg2)
  then show ?case
    using deheader_sess [OF _ session_receive.hyps(2)] by simp
next
  case (session_drop tg es tg1 i)
  then show ?case
    by (auto simp: tg_add_todrop_def sess_ok_def)
qed

text \<open>Distinct content numbers.\<close>

lemma content_numbers:
  "map fst (filter snd (zip (number n cs) cs)) =
     map (\<lambda>k. 2 * (n + of_nat k) + 1) [0..<length (filter id cs)]"
proof (induction cs arbitrary: n)
  case Nil
  then show ?case by simp
next
  case (Cons c cs)
  have u: "[0..<Suc m] = 0 # map Suc [0..<m]" for m
    by (simp add: upt_conv_Cons map_Suc_upt del: upt_Suc)
  have "map (\<lambda>k. 2 * (n + 1 + of_nat k) + 1) ks = map ((\<lambda>k. 2 * (n + of_nat k) + 1) \<circ> Suc) ks" for ks
    by (simp add: add.assoc)
  then show ?case
    using Cons [of "n + 1"] Cons [of n] by (cases c) (simp_all only: number.simps zip_Cons_Cons filter.simps
      snd_conv id_apply if_True if_False list.map fst_conv of_bool_eq list.size u map_map semiring_1_class.of_nat_0
      add_0_right add_Suc_right)
qed

lemma double_inj:
  assumes "a < 2 ^ 31" "b < 2 ^ 31" "2 * (n + of_nat a) + 1 = (2 * (n + of_nat b) + 1 :: u32)"
  shows "a = b"
proof -
  have "2 * (of_nat a :: u32) = 2 * of_nat b"
    using assms(3) by (simp add: distrib_left)
  then have e: "(of_nat (2 * a) :: u32) = of_nat (2 * b)"
    by simp
  have l: "2 * a < 2 ^ 32" "2 * b < 2 ^ 32"
    using assms(1,2) by simp_all
  have "2 * a = 2 * b"
    using arg_cong [OF e, of unat] unfolding unat_of_nat_u32 [OF l(1)] unat_of_nat_u32 [OF l(2)] .
  then show ?thesis
    by simp
qed

lemma numbers_distinct:
  assumes "length (filter id cs) \<le> 2 ^ 31"
  shows "distinct (map fst (filter snd (zip (number n cs) cs)))"
  unfolding content_numbers distinct_map
proof
  show "inj_on (\<lambda>k. 2 * (n + of_nat k) + 1) (set [0..<length (filter id cs)])"
  proof (rule inj_onI)
    fix a b
    assume "a \<in> set [0..<length (filter id cs)]" "b \<in> set [0..<length (filter id cs)]"
      and e: "2 * (n + of_nat a) + 1 = 2 * (n + of_nat b) + 1"
    with assms have "a < 2 ^ 31" "b < 2 ^ 31"
      by auto
    then show "a = b"
      using e by (rule double_inj)
  qed
qed simp

section \<open>Instances\<close>

definition demo_crypto :: crypto where
  "demo_crypto = \<lparr>c_sha1 = (\<lambda>bs. replicate 20 (of_nat (length bs))),
     c_sha256 = (\<lambda>bs. replicate 32 (of_nat (length bs))),
     c_ige_e = (\<lambda>k v bs. map (\<lambda>b. b XOR hd k) bs), c_ige_d = (\<lambda>k v bs. map (\<lambda>b. b XOR hd k) bs)\<rparr>"

lemma xor_twice: "(b XOR k) XOR k = (b :: byte)"
  by (simp add: xor.assoc)

lemma demo_crypto_ok: "crypto_ok demo_crypto"
  by (simp add: crypto_ok_def demo_crypto_def comp_def xor_twice)

definition demo_tg :: tg_t where
  "demo_tg = \<lparr>tg_key = buf_of (replicate 256 7), tg_salt = buf_of (replicate 8 1), tg_ssid = buf_of (replicate 8 2),
     tg_seqn = 3, tg_msgids = [11, 12], tg_todrop = [], tg_timediff = 0,
     tg_now = (\<lambda>i. of_nat (4096 + 8 * i)), tg_rnd = (\<lambda>_. 9), tg_seqnm = True, tg_msgidsm = True, tg_todropm = True\<rparr>"

lemma demo_tg_views:
  "views (tg_key demo_tg) (replicate 256 7)" "views (tg_salt demo_tg) (replicate 8 1)"
  "views (tg_ssid demo_tg) (replicate 8 2)"
  using buf_of_owns [of "replicate 256 7"] buf_of_owns [of "replicate 8 1"] buf_of_owns [of "replicate 8 2"]
  by (simp_all add: demo_tg_def owns_def)

lemma demo_sess: "sess_ok demo_tg"
  by (simp add: sess_ok_def demo_tg_def buf_wf_def buf_of_def)

definition demo_query :: buf_t where
  "demo_query = buf_of [0x6b, 0x18, 0xf9, 0xc4]"

lemma demo_query_views: "views demo_query [0x6b, 0x18, 0xf9, 0xc4]"
  unfolding demo_query_def by (rule owns_views [OF buf_of_owns]) simp

lemma demo_sendable: "sendable demo_query demo_tg"
  by (simp add: sendable_def demo_query_def demo_tg_def buf_wf_def buf_of_def)

section \<open>Properties\<close>



text \<open>No two content messages of a session share a sequence number, for the first 2 to the 31
  of them.\<close>

theorem session_content_distinct:
  assumes "session tg es tg'" and "sess_ok tg" and "length (filter snd es) \<le> 2 ^ 31"
  shows "distinct (map fst (filter snd es))"
proof -
  have e: "es = zip (number (tg_seqn tg) (map snd es)) (map snd es)"
    using session_inv [OF assms(1,2)] by (metis zip_map_fst_snd)
  have "length (filter id (map snd es)) = length (filter snd es)"
    by (induction es) auto
  then show ?thesis
    using numbers_distinct [of "map snd es" "tg_seqn tg"] assms(3) e by simp
qed

theorem session_content_distinct_witness:
  "\<exists>es tg'. session demo_tg es tg' \<and> length (filter snd es) = 0 \<and> distinct (map fst (filter snd es))"
  using session_content_distinct [OF session_start demo_sess] session_start [of demo_tg] by fastforce

text \<open>A header with a container.\<close>

lemma packet_length:
  assumes "owns p (sa @ ss @ enc_msg w @ map f [0..<pad_len (length (snd (snd w)))])" and "length sa = 8" "length ss = 8"
  shows "bsize p mod 16 = 0"
proof -
  let ?n = "length (snd (snd w))"
  have "unat (bsize p) = 32 + (?n + pad_len ?n)"
    using views_length [OF owns_views [OF assms(1)]] assms(2,3) by (simp add: length_enc_msg)
  then have "unat (bsize p) mod 16 = 0"
    using pad_len_aligned [of ?n] by (simp add: mod_add_right_eq [symmetric, of 32])
  then have "unat (bsize p mod 16) = 0"
    by (simp add: unat_mod_distrib)
  then show ?thesis
    by (rule unat_0_iff [THEN iffD1])
qed

lemma header_out_plain:
  assumes "tg_msgids tg = []" and "header_out bs content tg = (out, i, tg')"
  shows "\<exists>w f. out = view (tg_salt tg) @ view (tg_ssid tg) @ enc_msg w @ map f [0..<pad_len (length (snd (snd w)))] \<and>
    snd (snd w) = bs \<and> i = fst w \<and> tg_msgids tg' = []"
proof -
  obtain w t where w: "new_msg content bs tg = (w, t)" by fastforce
  have f: "snd (snd w) = bs" "tg_msgids t = []"
    using new_msg_frame [OF w] assms(1) by simp_all
  have "header_out bs content tg = (view (tg_salt tg) @ view (tg_ssid tg) @ enc_msg w @
      map (tg_rnd t) [0..<pad_len (length (snd (snd w)))], fst w, skip_rnd (pad_len (length (snd (snd w)))) t)"
    using assms(1) f(1) by (simp add: header_out_def header_body_def w enc_packet_def Let_def)
  then have "out = view (tg_salt tg) @ view (tg_ssid tg) @ enc_msg w @ map (tg_rnd t) [0..<pad_len (length (snd (snd w)))]"
    "i = fst w" "tg' = skip_rnd (pad_len (length (snd (snd w)))) t"
    using assms(2) by simp_all
  then show ?thesis
    using f by (intro exI [where x = w] exI [where x = "tg_rnd t"] conjI) (simp_all add: skip_rnd_def)
qed

lemma header_out_acks:
  assumes "tg_msgids tg \<noteq> []" "tg_msgidsm tg" and "header_out bs content tg = (out, i, tg')"
    and id: "(tg_now tg 0 AND - 4) + tg_timediff tg \<noteq> 0"
  shows "\<exists>w f m0 m1 ds.
    out = view (tg_salt tg) @ view (tg_ssid tg) @ enc_msg w @ map f [0..<pad_len (length (snd (snd w)))] \<and>
    snd (snd w) = enc_container (m0 # m1 # ds) \<and> snd (snd m0) = bs \<and> i = fst m0 \<and>
    fst (snd m0) = 2 * tg_seqn tg + 1 \<and> snd (snd m1) = ack_body (tg_msgids tg) \<and> even (fst (snd w)) \<and> tg_msgids tg' = []"
proof -
  let ?t = "tg\<lparr>tg_msgids := []\<rparr>"
  obtain w0 t0 w1 t1 ds t2 where c: "new_msg True bs ?t = (w0, t0)" "new_msg False (ack_body (tg_msgids tg)) t0 = (w1, t1)"
    "new_container bs (tg_msgids tg) ?t = (w0 # w1 # ds, if tg_todropm t2 then t2\<lparr>tg_todrop := []\<rparr> else t2)"
    by (rule new_container_cases)
  define t3 where "t3 = (if tg_todropm t2 then t2\<lparr>tg_todrop := []\<rparr> else t2)"
  note n = c(3) [folded t3_def]
  obtain w t where w: "new_msg False (enc_container (w0 # w1 # ds)) t3 = (w, t)" by fastforce
  have ne: "fst w0 \<noteq> 0"
    using new_msg_number [OF c(1)] id by simp
  have m: "tg_msgids t = []"
    using new_msg_frame [OF w] new_container_frame [OF n] by simp
  have f: "snd (snd w) = enc_container (w0 # w1 # ds)" "snd (snd w0) = bs" "snd (snd w1) = ack_body (tg_msgids tg)"
    using new_msg_frame [OF w] new_msg_frame [OF c(1)] new_msg_frame [OF c(2)] by blast+
  have q: "fst (snd w0) = 2 * tg_seqn tg + 1" "even (fst (snd w))"
    using new_msg_number [OF c(1)] new_msg_number [OF w] by simp_all
  have "header_out bs content tg = (view (tg_salt tg) @ view (tg_ssid tg) @ enc_msg w @
      map (tg_rnd t) [0..<pad_len (length (snd (snd w)))], fst w0, skip_rnd (pad_len (length (snd (snd w)))) t)"
    using assms(1,2) ne f(1) by (simp add: header_out_def header_body_def n w enc_packet_def Let_def)
  then have "out = view (tg_salt tg) @ view (tg_ssid tg) @ enc_msg w @ map (tg_rnd t) [0..<pad_len (length (snd (snd w)))]"
    "i = fst w0" "tg' = skip_rnd (pad_len (length (snd (snd w)))) t"
    using assms(3) by simp_all
  moreover from this have "tg_msgids tg' = []"
    using m by (simp add: skip_rnd_def)
  ultimately show ?thesis
    using f q by blast
qed

text \<open>C6. The encrypted header of a message: the salt, the session id, one message and 16 to 31
  bytes of padding that bring the length to a multiple of the cipher block.  When
  acknowledgements are pending the message is a container whose first message carries the
  payload as a content message, whose second acknowledges exactly the received messages, and
  whose others are the drop requests, and it is not a content message itself; otherwise the
  message carries the payload.  The identifier handed back is that of the message with the
  payload, and nothing stays pending.\<close>

theorem header_shape:
  assumes "views b bs" and "length bs < 2 ^ 30" and "sess_ok tg" and "tg_msgidsm tg"
    and "length (tg_msgids tg) \<le> 1000" and "length (tg_todrop tg) \<le> 1000000"
    and "(tg_now tg 0 AND - 4) + tg_timediff tg \<noteq> 0"
  shows "ok (tg_header_enc b content (Some j) tg) (\<lambda>(p, i, tg'). \<exists>w pad. 
    owns p (view (tg_salt tg) @ view (tg_ssid tg) @ enc_msg w @ pad) \<and>
    16 \<le> length pad \<and> length pad < 32 \<and> bsize p mod 16 = 0 \<and> tg_msgids tg' = [] \<and>
    (if tg_msgids tg = [] then snd (snd w) = bs \<and> i = fst w
     else \<exists>m0 m1 ds. snd (snd w) = enc_container (m0 # m1 # ds) \<and> snd (snd m0) = bs \<and> i = fst m0 \<and>
       fst (snd m0) = 2 * tg_seqn tg + 1 \<and> snd (snd m1) = ack_body (tg_msgids tg) \<and> even (fst (snd w))))"
proof -
  have m: "tg_seqnm tg"
    using assms(3) by (simp add: sess_ok_def)
  note enc = tg_header_enc_ok [OF assms(1) m sess_views(1,2) [OF assms(3)] assms(2,5,6) sess_views(3,4) [OF assms(3)]]
  show ?thesis
  proof (rule ok_mono [OF enc], clarify)
  fix p i tg' out
  assume o: "header_out bs content tg = (out, i, tg')" and p: "owns p out"
  note l = packet_length [OF _ sess_views(3,4) [OF assms(3)]]
  show "\<exists>w pad. owns p (view (tg_salt tg) @ view (tg_ssid tg) @ enc_msg w @ pad) \<and>
    16 \<le> length pad \<and> length pad < 32 \<and> bsize p mod 16 = 0 \<and> tg_msgids tg' = [] \<and>
    (if tg_msgids tg = [] then snd (snd w) = bs \<and> i = fst w
     else \<exists>m0 m1 ds. snd (snd w) = enc_container (m0 # m1 # ds) \<and> snd (snd m0) = bs \<and> i = fst m0 \<and>
       fst (snd m0) = 2 * tg_seqn tg + 1 \<and> snd (snd m1) = ack_body (tg_msgids tg) \<and> even (fst (snd w)))"
  proof (cases "tg_msgids tg = []")
    case True
    obtain w f where w: "out = view (tg_salt tg) @ view (tg_ssid tg) @ enc_msg w @ map f [0..<pad_len (length (snd (snd w)))]"
      "snd (snd w) = bs" "i = fst w" "tg_msgids tg' = []"
      using header_out_plain [OF True o] by blast
    have q: "owns p (view (tg_salt tg) @ view (tg_ssid tg) @ enc_msg w @ map f [0..<pad_len (length (snd (snd w)))])"
      using p w(1) by simp
    from w q l [OF q] True show ?thesis
      by (intro exI [where x = w] exI [where x = "map f [0..<pad_len (length (snd (snd w)))]"])
        (simp add: pad_len_bounds)
  next
    case False
    obtain w f m0 m1 ds where
      w: "out = view (tg_salt tg) @ view (tg_ssid tg) @ enc_msg w @ map f [0..<pad_len (length (snd (snd w)))]"
      and c: "snd (snd w) = enc_container (m0 # m1 # ds)" "snd (snd m0) = bs" "i = fst m0"
        "fst (snd m0) = 2 * tg_seqn tg + 1" "snd (snd m1) = ack_body (tg_msgids tg)" "even (fst (snd w))" "tg_msgids tg' = []"
      using header_out_acks [OF False assms(4) o assms(7)] by blast
    have q: "owns p (view (tg_salt tg) @ view (tg_ssid tg) @ enc_msg w @ map f [0..<pad_len (length (snd (snd w)))])"
      using p w(1) by simp
    have "\<exists>m0 m1 ds. snd (snd w) = enc_container (m0 # m1 # ds) \<and> snd (snd m0) = bs \<and> i = fst m0 \<and>
       fst (snd m0) = 2 * tg_seqn tg + 1 \<and> snd (snd m1) = ack_body (tg_msgids tg) \<and> even (fst (snd w))"
      using c by blast
    then show ?thesis
      using q l [OF q] c(7) False pad_len_bounds [of "length (snd (snd w))"]
      by (intro exI [where x = w] exI [where x = "map f [0..<pad_len (length (snd (snd w)))]"])
        (simp only: if_False length_map length_upt diff_zero simp_thms)
  qed
  qed
qed

theorem header_shape_witness:
  "ok (tg_header_enc demo_query True (Some 0) demo_tg) (\<lambda>(p, i, tg'). \<exists>w pad.
    owns p (view (tg_salt demo_tg) @ view (tg_ssid demo_tg) @ enc_msg w @ pad) \<and>
    16 \<le> length pad \<and> length pad < 32 \<and> bsize p mod 16 = 0 \<and> tg_msgids tg' = [] \<and>
    (if tg_msgids demo_tg = [] then snd (snd w) = [0x6b, 0x18, 0xf9, 0xc4] \<and> i = fst w
     else \<exists>m0 m1 ds. snd (snd w) = enc_container (m0 # m1 # ds) \<and> snd (snd m0) = [0x6b, 0x18, 0xf9, 0xc4] \<and>
       i = fst m0 \<and> fst (snd m0) = 2 * tg_seqn demo_tg + 1 \<and> snd (snd m1) = ack_body (tg_msgids demo_tg) \<and>
       even (fst (snd w))))"
  by (rule header_shape [OF demo_query_views _ demo_sess]) (simp_all add: demo_tg_def)

text \<open>The size of a header's image.\<close>

lemma container_length:
  assumes "new_container bs acks tg = (ms, tg')"
  shows "length (enc_container ms) \<le> length bs + 8 * length acks + 28 * length (tg_todrop tg) + 60"
proof -
  obtain w0 t0 w1 t1 ds t2 where c: "new_msg True bs tg = (w0, t0)" "new_msg False (ack_body acks) t0 = (w1, t1)"
    "(if tg_todropm t1 then new_drops (tg_todrop t1) t1 else ([], t1)) = (ds, t2)"
    "new_container bs acks tg = (w0 # w1 # ds, if tg_todropm t2 then t2\<lparr>tg_todrop := []\<rparr> else t2)"
    by (rule new_container_cases)
  have t: "tg_todrop t1 = tg_todrop tg" "snd (snd w0) = bs" "snd (snd w1) = ack_body acks"
    using new_msg_frame [OF c(1)] new_msg_frame [OF c(2)] by simp_all
  have d: "length (concat (map enc_msg ds)) \<le> 28 * length (tg_todrop tg)"
  proof (cases "tg_todropm t1")
    case True
    with c(3) have "new_drops (tg_todrop t1) t1 = (ds, t2)"
      by simp
    from new_drops_frame [OF this] t(1) show ?thesis
      by simp
  qed (use c(3) in simp)
  have "ms = w0 # w1 # ds"
    using assms c(4) by simp
  then show ?thesis
    using d t by (simp add: enc_container_def length_enc_msg length_ack_body)
qed

lemma header_out_length:
  assumes "header_out bs content tg = (out, i, tg')" and "length (view (tg_salt tg)) = 8" "length (view (tg_ssid tg)) = 8"
  shows "length out mod 16 = 0"
    and "length out \<le> length bs + 8 * length (tg_msgids tg) + 28 * length (tg_todrop tg) + 200"
proof -
  obtain body c mid t where h: "header_body bs content tg = (body, c, mid, t)"
    by (metis prod_cases4)
  obtain w t' where w: "new_msg c body t = (w, t')" by fastforce
  have b: "length body \<le> length bs + 8 * length (tg_msgids tg) + 28 * length (tg_todrop tg) + 60"
  proof (cases "tg_msgidsm tg \<and> tg_msgids tg \<noteq> []")
    case True
    obtain ms t2 where n: "new_container bs (tg_msgids tg) (tg\<lparr>tg_msgids := []\<rparr>) = (ms, t2)" by fastforce
    with True h have "body = enc_container ms"
      by (simp add: header_body_def)
    with container_length [OF n] show ?thesis
      by simp
  next
    case False
    then have "body = bs"
      using h by (simp add: header_body_def split: if_splits)
    then show ?thesis
      by simp
  qed
  have "length out = 32 + (length body + pad_len (length body))"
    using assms new_msg_frame [OF w] by (auto simp: header_out_def h w enc_packet_def length_enc_msg Let_def)
  then show "length out mod 16 = 0" "length out \<le> length bs + 8 * length (tg_msgids tg) + 28 * length (tg_todrop tg) + 200"
    using pad_len_aligned [of "length body"] pad_len_bounds(2) [of "length body"] b
    by (simp_all add: mod_add_right_eq [symmetric, of 32])
qed

lemma sendable_length:
  assumes "sendable b tg" and "sess_ok tg" and "header_out (view b) content tg = (out, i, tg')"
  shows "length out mod 16 = 0" and "3 * length out + 100 < 2 ^ 32"
proof -
  have "unat (bsize b) < unat (2 ^ 30 :: u32)"
    using assms(1) by (simp only: sendable_def word_less_nat_alt)
  then show "length out mod 16 = 0" and "3 * length out + 100 < 2 ^ 32"
    using header_out_length [OF assms(3) sess_views(3,4) [OF assms(2)]] assms(1) by (simp_all add: sendable_def)
qed

lemma prepare_query_ok:
  assumes "crypto_ok C" and "views (tg_key tg) kb" and "120 \<le> length kb"
    and "sess_ok tg" and "sendable b tg"
  shows "ok (tg_prepare_query C b True (Some j) tg) (\<lambda>(t, i, tg'). \<exists>out k. 
    header_out (view b) True tg = (out, k, tg') \<and> i = Some k \<and>
    owns t (le_bytes 4 (of_nat (24 + length out) :: u32) @ mtproto2 C 0 kb out))"
proof -
  have step: "ok (tg_encrypt C tg' p True \<bind> (\<lambda>e. tg_transport e \<bind> (\<lambda>t. Some (t, Some i, tg'))))
    (\<lambda>(t, i, tg'). \<exists>out k. header_out (view b) True tg = (out, k, tg') \<and> i = Some k \<and>
      owns t (le_bytes 4 (of_nat (24 + length out) :: u32) @ mtproto2 C 0 kb out))"
    if h: "tg_header_enc b True (Some j) tg = Some (p, i, tg')" for p i tg'
  proof -
    obtain out where o: "header_out (view b) True tg = (out, i, tg')" and p: "owns p out"
      using header_enc_sess(2) [OF assms(4,5) h] by blast
    have k: "views (tg_key tg') kb"
      using header_out_frame(4) [OF o] assms(2) by simp
    note al = sendable_length [OF assms(5,4) o]
    have e: "ok (tg_encrypt C tg' p True) (\<lambda>e. owns e (mtproto2 C 0 kb out))"
      using al p by (intro tg_encrypt_ok [OF assms(1) k assms(3)]) auto
    have t: "ok (tg_transport x) (\<lambda>t. owns t (le_bytes 4 (of_nat (24 + length out) :: u32) @ mtproto2 C 0 kb out))"
      if "owns x (mtproto2 C 0 kb out)" for x
      using tg_transport_ok [OF owns_views [OF that]] al length_mtproto2(3) [OF assms(1), of 0 kb out] by simp
    show ?thesis
      by (rule ok_bind [OF e], rule ok_bind [OF t], assumption) (use o in simp)
  qed
  have "ok (tg_header_enc b True (Some j) tg) (\<lambda>(p, i, tg'). tg_header_enc b True (Some j) tg = Some (p, i, tg'))"
    using header_enc_Some [OF assms(4,5), of True j] by (auto simp: ok_iff)
  then show ?thesis
    unfolding tg_prepare_query_def tg_header_def if_True Option.bind_assoc
    by (rule ok_bind) (auto simp del: of_nat_add intro!: step)
qed

text \<open>C7. Sending: a query becomes one frame of the intermediate transport that holds the MTProto
  2.0 encryption, with the client's direction, of the header's image.\<close>

theorem prepare_query_wire:
  assumes "crypto_ok C" and "views (tg_key tg) kb" and "120 \<le> length kb"
    and "sess_ok tg" and "sendable b tg"
  shows "ok (tg_prepare_query C b True (Some j) tg) (\<lambda>(t, i, tg'). \<exists>out k. 
    header_out (view b) True tg = (out, k, tg') \<and> i = Some k \<and>
    owns t (le_bytes 4 (of_nat (24 + length out) :: u32) @ mtproto2 C 0 kb out))"
  using assms by (rule prepare_query_ok)

theorem prepare_query_wire_witness:
  "ok (tg_prepare_query demo_crypto demo_query True (Some 0) demo_tg) (\<lambda>(t, i, tg'). \<exists>out k.
    header_out (view demo_query) True demo_tg = (out, k, tg') \<and> i = Some k \<and>
    owns t (le_bytes 4 (of_nat (24 + length out) :: u32) @ mtproto2 demo_crypto 0 (replicate 256 7) out))"
  by (rule prepare_query_wire [OF demo_crypto_ok demo_tg_views(1) _ demo_sess demo_sendable]) simp

text \<open>C8. Receiving: what a server sends that shares the key (the encryption with the server's
  direction of a packet with any salt, message and padding) is decrypted and taken apart to the
  body of the message; the session adopts the salt and keeps the message identifier for the
  next acknowledgement.\<close>

theorem receive_server_packet:
  assumes "crypto_ok C" and "views (tg_key tg) kb" and "120 \<le> length kb" and "sess_ok tg"
    and "views r (mtproto2 C 8 kb (enc_packet (le_bytes 8 (salt :: u64)) (le_bytes 8 (ssid :: u64)) (i, q, body) pad))"
    and "(length body + length pad) mod 16 = 0" and "length body + length pad + 100 < 2 ^ 30"
  shows "ok (tg_decrypt C tg r True \<bind> (\<lambda>d. tg_deheader d True tg)) (\<lambda>(m, tg'). owns m body \<and>
    view (tg_salt tg') = le_bytes 8 salt \<and>
    tg_msgids tg' = (if tg_msgidsm tg then tg_msgids tg @ [i] else tg_msgids tg) \<and> tg_seqn tg' = tg_seqn tg)"
proof (rule ok_bind [OF tg_decrypt_ok [OF assms(1-3,5)]])
  let ?pt = "enc_packet (le_bytes 8 (salt :: u64)) (le_bytes 8 (ssid :: u64)) (i, q, body) pad"
  have n: "length ?pt = 32 + (length body + length pad)"
    by (simp add: enc_packet_def length_enc_msg)
  then show "length ?pt mod 16 = 0" "length ?pt < 2 ^ 30"
    using assms(6,7) by (simp_all add: mod_add_right_eq [symmetric, of 32])
  fix d
  assume "owns d ?pt"
  then have d: "views d (le_bytes 8 salt @ le_bytes 8 ssid @ enc_msg (i, q, body) @ pad)"
    by (auto simp: enc_packet_def)
  show "ok (tg_deheader d True tg) (\<lambda>(m, tg'). owns m body \<and> view (tg_salt tg') = le_bytes 8 salt \<and>
    tg_msgids tg' = (if tg_msgidsm tg then tg_msgids tg @ [i] else tg_msgids tg) \<and> tg_seqn tg' = tg_seqn tg)"
    by (rule ok_mono [OF tg_deheader_ok [OF d sess_views(2) [OF assms(4)]]])
      (use assms(7) sess_views(4) [OF assms(4)] in \<open>auto simp: tg_add_msgid_def owns_def views_def\<close>)
qed

theorem receive_server_packet_witness:
  "ok (tg_decrypt demo_crypto demo_tg
       (buf_of (mtproto2 demo_crypto 8 (replicate 256 7) (enc_packet (le_bytes 8 (5 :: u64)) (le_bytes 8 (6 :: u64))
          (20, 1, [1, 2, 3, 4]) (replicate 12 0)))) True \<bind> (\<lambda>d. tg_deheader d True demo_tg))
    (\<lambda>(m, tg'). owns m [1, 2, 3, 4] \<and> view (tg_salt tg') = le_bytes 8 (5 :: u64) \<and>
      tg_msgids tg' = (if tg_msgidsm demo_tg then tg_msgids demo_tg @ [20] else tg_msgids demo_tg) \<and>
      tg_seqn tg' = tg_seqn demo_tg)"
proof (rule receive_server_packet [OF demo_crypto_ok demo_tg_views(1) _ demo_sess])
  show "views (buf_of (mtproto2 demo_crypto 8 (replicate 256 7) (enc_packet (le_bytes 8 (5 :: u64)) (le_bytes 8 (6 :: u64))
      (20, 1, [1, 2, 3, 4]) (replicate 12 0))))
    (mtproto2 demo_crypto 8 (replicate 256 7) (enc_packet (le_bytes 8 (5 :: u64)) (le_bytes 8 (6 :: u64))
      (20, 1, [1, 2, 3, 4]) (replicate 12 0)))"
    by (rule owns_views [OF buf_of_owns]) (simp add: length_mtproto2(3) [OF demo_crypto_ok] enc_packet_def length_enc_msg)
qed simp_all

end
