(* ===== verification/Engine.thy ===== *)
theory Engine
  imports QueueSpec SessionProps
begin

text \<open>
  The threads of the query engine as a step relation: every operation of tg/queue.c that holds the
  locks is one step, and the steps of different queries interleave freely.
\<close>

section \<open>Partial correctness\<close>

definition whenever :: "'a option \<Rightarrow> ('a \<Rightarrow> bool) \<Rightarrow> bool" where
  "whenever m P \<longleftrightarrow> (\<forall>x. m = Some x \<longrightarrow> P x)"

lemma whenever_simps [simp]: "whenever None P" "whenever (Some x) P \<longleftrightarrow> P x"
  by (simp_all add: whenever_def)

lemma whenever_bind: "(\<And>x. m = Some x \<Longrightarrow> whenever (f x) P) \<Longrightarrow> whenever (m \<bind> f) P"
  by (auto simp: whenever_def bind_eq_Some_conv)

lemma whenever_if: "(b \<Longrightarrow> whenever m P) \<Longrightarrow> (\<not> b \<Longrightarrow> whenever n P) \<Longrightarrow> whenever (if b then m else n) P"
  by simp

lemma whenever_prod: "(\<And>x y. z = (x, y) \<Longrightarrow> whenever (f x y) P) \<Longrightarrow> whenever (case z of (x, y) \<Rightarrow> f x y) P"
  by (cases z) simp

lemma whenever_option:
  "(z = None \<Longrightarrow> whenever m P) \<Longrightarrow> (\<And>x. z = Some x \<Longrightarrow> whenever (f x) P) \<Longrightarrow>
     whenever (case z of None \<Rightarrow> m | Some x \<Rightarrow> f x) P"
  by (cases z) simp_all

lemmas whenever_rules = whenever_bind whenever_if whenever_prod whenever_option

section \<open>Every operation keeps the invariant\<close>

lemma with_query_inv: "qinv E c xs \<Longrightarrow> with_query p f c = Some d \<Longrightarrow> qinv E d xs"
  by (auto simp: with_query_def qinv_def bind_eq_Some_conv)

lemma recv_frame_frame: "recv_frame stop E c = Some (r, d) \<Longrightarrow> same_but_in c d"
proof -
  have rc: "same_but_in c d" if "recv n c = Some (r, d)" for n c r d
    using that by (auto simp: recv_def same_but_in_def split: list.splits recv_ev.splits)
  have fl: "same_but_in c d" if "fill_loop stop n k len b c = Some (r, d)" for n k len b c r d
    using that
  proof (induction n arbitrary: k b c)
    case (Suc n)
    then show ?case
      by (auto simp: bind_eq_Some_conv split: if_splits option.splits dest!: rc Suc.IH intro: same_trans)
  qed simp
  assume r: "recv_frame stop E c = Some (r, d)"
  then obtain l c1 where l: "recv_len c = Some (l, c1)"
    by (auto simp: recv_frame_def bind_eq_Some_conv)
  then have c1: "same_but_in c c1"
    by (auto simp: recv_len_def bind_eq_Some_conv split: if_splits option.splits dest!: rc)
  show "same_but_in c d"
  proof (cases l)
    case None
    with r l c1 show ?thesis
      by (simp add: recv_frame_def)
  next
    case (Some len)
    with r l obtain b k c2 where f: "fill_loop stop (e_fuel E) 0 (unat len) b c1 = Some (k, c2)"
      and "(case k of FOk b \<Rightarrow> Some (FOk (b\<lparr>bsize := len\<rparr>), c2) | _ \<Rightarrow> Some (k, c2)) = Some (r, d)"
      by (auto simp: recv_frame_def bind_eq_Some_conv)
    then have "d = c2"
      by (cases k) auto
    with c1 fl [OF f] show ?thesis
      by (blast intro: same_trans)
  qed
qed

lemma same_but_in_inv:
  assumes "same_but_in c d" and "qinv E c xs"
  shows "qinv E d xs"
  using assms tg_inv(3) [of E "c_in d" c xs] unfolding same_but_in_def by simp

lemma receive_payload_inv:
  assumes q: "qinv E c xs" and r: "receive_payload E b c = Some (res, d)"
  shows "\<exists>ys. qinv E d ys \<and> set ys \<subseteq> set xs"
proof -
  consider "d = c" | (salt) t where "d = c\<lparr>c_tg := t\<rparr>"
    | (handle) t x where "handle_tl E (e_fuel E) x (c\<lparr>c_tg := t\<rparr>) = Some d"
    using r by (auto simp: receive_payload_def bind_eq_Some_conv split: if_splits)
  then show ?thesis
  proof cases
    case (handle t x)
    from handle_inv(1) [OF _ this, of xs] q show ?thesis
      by simp
  qed (use q in auto)
qed

lemma tg_receive_inv:
  assumes q: "qinv E c xs" and r: "tg_receive E p c = Some (res, d)"
  shows "\<exists>ys. qinv E d ys \<and> set ys \<subseteq> set xs"
proof -
  obtain stop f c' where f: "recv_frame stop E c = Some (f, c')"
    and d: "case f of FErr \<Rightarrow> d = c' | FStop \<Rightarrow> (\<exists>i. d = add_todrop i c') | FOk b \<Rightarrow> receive_payload E b c' = Some (res, d)"
    using r by (fastforce simp: tg_receive_def bind_eq_Some_conv split: fill.splits)
  have "qinv E c' xs"
    by (rule same_but_in_inv [OF recv_frame_frame [OF f] q])
  with d receive_payload_inv show ?thesis
    by (cases f) auto
qed

lemma tg_send_inv:
  assumes "qinv E c xs" and "tg_send E p c = Some (e, d)"
  shows "qinv E d xs"
proof -
  have s: "qinv E d xs" if "send E b c = Some (r, d)" "qinv E c xs" for b c d r
    using that by (auto simp: send_def bind_eq_Some_conv split: if_splits)
  have w: "qinv E d xs" if "with_query p f (c\<lparr>c_tg := t\<rparr>) = Some d" for f t d
    by (rule with_query_inv [OF _ that]) (use assms(1) in simp)
  have "whenever (tg_send E p c) (\<lambda>(e, d). qinv E d xs)"
    unfolding tg_send_def
    by (intro whenever_rules) (auto simp: assms(1) dest: w s split: option.splits)
  with assms(2) show ?thesis
    by (simp add: whenever_def)
qed

lemma stop_all_inv: "qinv E c xs \<Longrightarrow> stop_all E ps c = Some d \<Longrightarrow> qinv E d xs"
  by (induction ps arbitrary: c) (auto simp: bind_eq_Some_conv split: if_splits dest: stop_loop_inv)

lemma cancell_all_inv:
  assumes q: "qinv E c xs" and d: "tg_queue_cancell_all E c = Some d"
  shows "\<exists>ys. qinv E d ys \<and> set ys \<subseteq> set xs"
proof (cases "e_queuem E")
  case True
  with d obtain ps e l where e: "stop_all E ps c = Some e" "list_free (e_fuel E) (c_list e) = Some l" "d = e\<lparr>c_list := l\<rparr>"
    by (auto simp: tg_queue_cancell_all_def bind_eq_Some_conv)
  have i: "qinv E e xs"
    by (rule stop_all_inv [OF q e(1)])
  then have "hl l []"
    using list_free_rep [of "c_list e" xs "e_fuel E"] e(2) by (auto simp: qinv_def)
  with i e(3) have "qinv E d []"
    by (auto simp: qinv_def)
  then show ?thesis by force
qed (use q d in \<open>auto simp: tg_queue_cancell_all_def\<close>)

lemma cancell_queue_inv:
  assumes q: "qinv E c xs" and d: "tg_queue_cancell_queue E i c = Some (r, d)"
  shows "\<exists>ys. qinv E d ys \<and> set ys \<subseteq> set xs"
proof (cases "e_queuem E")
  case True
  with d obtain k e where e: "cut_query E i c = Some (k, e)" and "d = e \<or> (\<exists>p. stop_loop p e = Some d)"
    by (auto simp: tg_queue_cancell_queue_def bind_eq_Some_conv split: option.splits if_splits)
  with cut_query_inv [OF q e] show ?thesis
    by (auto dest: stop_loop_inv)
qed (use q d in \<open>auto simp: tg_queue_cancell_queue_def\<close>)

lemma free_query_inv: "qinv E c xs \<Longrightarrow> p \<notin> set xs \<Longrightarrow> qinv E (free_query p c) xs"
  by (auto simp: qinv_def free_query_def called_def)

lemma finish_query_inv:
  assumes q: "qinv E c xs" and d: "finish_query E p c = Some d"
    and alone: "\<And>a k j. a \<in> set xs \<Longrightarrow> c_store c a = Some k \<Longrightarrow> c_store c p = Some j \<Longrightarrow> q_msgid k = q_msgid j \<Longrightarrow> a = p"
  shows "\<exists>ys. qinv E d ys \<and> set ys \<subseteq> set xs"
proof (cases "e_queuem E")
  case True
  with d obtain j r e where j: "c_store c p = Some j" and e: "cut_query E (q_msgid j) c = Some (r, e)" "d = free_query p e"
    by (auto simp: finish_query_def bind_eq_Some_conv)
  let ?P = "cmp_msgid (c_store c) (q_msgid j)"
  have live: "\<forall>a\<in>set xs. c_store c a \<noteq> None" and dist: "distinct xs"
    using q by (auto simp: qinv_def)
  have only: "a = p" if "a \<in> set xs" "?P a" for a
    using that live alone [OF that(1) _ j] by (auto simp: cmp_msgid_def split: option.splits)
  have "p \<notin> set (without_first ?P xs)"
  proof (cases "p \<in> set xs")
    case True
    have "?P p"
      using j by (simp add: cmp_msgid_def)
    with True have "first ?P xs \<noteq> None"
      by (auto simp: first_None)
    then obtain a where a: "first ?P xs = Some a"
      by blast
    moreover have "a = p"
      by (rule only) (use first_Some [OF a] in simp_all)
    ultimately have "first ?P xs = Some p"
      by simp
    with dist show ?thesis
      using without_first_set [of xs ?P p] by simp
  qed (use set_without_first [of ?P xs] in auto)
  moreover have "qinv E e (without_first ?P xs)"
    by (rule cut_query_keep [OF q e(1)])
  ultimately have "qinv E d (without_first ?P xs)"
    using e(2) free_query_inv by simp
  then show ?thesis
    by (intro exI [of _ "without_first ?P xs"] conjI set_without_first)
qed (use q d in \<open>auto simp: finish_query_def\<close>)

section \<open>Interleaved threads\<close>

text \<open>The listed queries.\<close>

definition listed :: "env \<Rightarrow> client \<Rightarrow> nat list option" where
  "listed E c = list_for_each (e_fuel E) (snd (c_list c)) (fst (c_list c))"

text \<open>No listed query but \<^theory_text>\<open>p\<close> has its message identifier.\<close>

definition alone :: "env \<Rightarrow> client \<Rightarrow> nat \<Rightarrow> bool" where
  "alone E c p \<longleftrightarrow> (case listed E c of None \<Rightarrow> False
     | Some xs \<Rightarrow> list_all (\<lambda>a. a = p \<or> map_option q_msgid (c_store c a) \<noteq> map_option q_msgid (c_store c p)) xs)"

text \<open>The steps: a thread starts with a structure of its own, sends, receives, stops, and ends;
  queries are cancelled.  The count is that of the threads started.\<close>

inductive engine :: "env \<Rightarrow> client \<Rightarrow> nat \<Rightarrow> client \<Rightarrow> bool" for E :: env and c0 :: client where
  engine_init: "engine E c0 0 c0"
| engine_start: "engine E c0 n c \<Longrightarrow> c_store c p = None \<Longrightarrow> p \<notin> set (map fst (c_done c)) \<Longrightarrow>
    tg_net_open E (fill_query p b cb progress c) = Some d \<Longrightarrow> engine E c0 (Suc n) (list_query p d)"
| engine_send: "engine E c0 n c \<Longrightarrow> tg_send E p c = Some (e, d) \<Longrightarrow> engine E c0 n d"
| engine_receive: "engine E c0 n c \<Longrightarrow> tg_receive E p c = Some (r, d) \<Longrightarrow> engine E c0 n d"
| engine_stop: "engine E c0 n c \<Longrightarrow> stop_loop p c = Some d \<Longrightarrow> engine E c0 n d"
| engine_finish: "engine E c0 n c \<Longrightarrow> alone E c p \<Longrightarrow> finish_query E p c = Some d \<Longrightarrow> engine E c0 n d"
| engine_cancel: "engine E c0 n c \<Longrightarrow> tg_queue_cancell_queue E i c = Some (r, d) \<Longrightarrow> engine E c0 n d"
| engine_cancel_all: "engine E c0 n c \<Longrightarrow> tg_queue_cancell_all E c = Some d \<Longrightarrow> engine E c0 n d"

lemma qinv_listed: "qinv E c xs \<Longrightarrow> listed E c = Some xs"
  by (auto simp: qinv_def listed_def list_for_each_rep)

lemma start_inv:
  assumes q: "qinv E c xs" and n: "length xs + 1 < e_fuel E" and p: "c_store c p = None" "p \<notin> set (map fst (c_done c))"
    and d: "tg_net_open E (fill_query p b cb progress c) = Some d"
  shows "qinv E (list_query p d) (p # xs)"
proof -
  have d: "d = (fill_query p b cb progress c)\<lparr>c_out := c_out c @ [[0xee, 0xee, 0xee, 0xee]]\<rparr>"
    using d by (auto simp: tg_net_open_def fill_query_def split: if_splits)
  have f: "p \<notin> set xs"
    using q p(1) by (auto simp: qinv_def)
  have "hl (snd (list_add False p (c_list c))) (p # xs)"
    using q list_add_rep [of "c_list c" xs p] by (auto simp: qinv_def)
  then show ?thesis
    using q n f p(2) unfolding d by (auto simp: qinv_def list_query_def fill_query_def called_def)
qed

lemma shrink:
  assumes "qinv E c xs" and "\<exists>ys. qinv E d ys \<and> set ys \<subseteq> set xs"
  shows "\<exists>ys. qinv E d ys \<and> length ys \<le> length xs"
proof -
  obtain ys where ys: "qinv E d ys" "set ys \<subseteq> set xs"
    using assms(2) by blast
  then have "card (set ys) \<le> card (set xs)" "distinct xs" "distinct ys"
    using assms(1) by (auto simp: qinv_def intro: card_mono)
  with ys(1) show ?thesis
    by (auto simp: distinct_card)
qed

lemma engine_inv:
  assumes "engine E c0 n c" and "qinv E c0 []" and "n < e_fuel E"
  shows "\<exists>xs. qinv E c xs \<and> length xs \<le> n"
  using assms
proof (induction rule: engine.induct)
  case engine_init
  then show ?case by auto
next
  case (engine_start n c p b cb progress d)
  then obtain xs where xs: "qinv E c xs" "length xs \<le> n"
    by auto
  have "qinv E (list_query p d) (p # xs)"
    by (rule start_inv [OF xs(1) _ engine_start.hyps(2-4)]) (use xs engine_start in simp)
  with xs(2) show ?case
    by (intro exI [of _ "p # xs"]) simp
next
  case (engine_send n c p e d)
  then show ?case by (blast dest: tg_send_inv)
next
  case (engine_receive n c p r d)
  then obtain xs where xs: "qinv E c xs" "length xs \<le> n"
    by auto
  from shrink [OF xs(1) tg_receive_inv [OF xs(1) engine_receive.hyps(2)]] xs(2) show ?case
    by (auto intro: le_trans)
next
  case (engine_stop n c p d)
  then show ?case by (blast dest: stop_loop_inv)
next
  case (engine_finish n c p d)
  then obtain xs where xs: "qinv E c xs" "length xs \<le> n"
    by auto
  have "\<exists>ys. qinv E d ys \<and> set ys \<subseteq> set xs"
    by (rule finish_query_inv [OF xs(1) engine_finish.hyps(3)])
      (use engine_finish.hyps(2) qinv_listed [OF xs(1)] in \<open>auto simp: alone_def list_all_iff\<close>)
  from shrink [OF xs(1) this] xs(2) show ?case
    by (auto intro: le_trans)
next
  case (engine_cancel n c i r d)
  then obtain xs where xs: "qinv E c xs" "length xs \<le> n"
    by auto
  from shrink [OF xs(1) cancell_queue_inv [OF xs(1) engine_cancel.hyps(2)]] xs(2) show ?case
    by (auto intro: le_trans)
next
  case (engine_cancel_all n c d)
  then obtain xs where xs: "qinv E c xs" "length xs \<le> n"
    by auto
  from shrink [OF xs(1) cancell_all_inv [OF xs(1) engine_cancel_all.hyps(2)]] xs(2) show ?case
    by (auto intro: le_trans)
qed

text \<open>A query handed to tg_queue_new runs through these steps only.\<close>

lemma run_loop_engine:
  "engine E c0 n c \<Longrightarrow> run_loop E k p prev c = Some (res, d) \<Longrightarrow> engine E c0 n d"
proof (induction k arbitrary: prev c)
  case 0
  then show ?case by simp
next
  case (Suc k)
  obtain q where q: "c_store c p = Some q"
    using Suc.prems by (auto simp: bind_eq_Some_conv)
  show ?case
  proof (cases "q_loop q")
    case True
    with Suc.prems q obtain r e where r: "tg_receive E p c = Some (r, e)"
      by (auto simp: bind_eq_Some_conv)
    then have e: "engine E c0 n e"
      using Suc.prems(1) by (rule engine_receive [rotated])
    show ?thesis
    proof (cases r)
      case RTL_RS
      with Suc.prems q True r obtain x f where x: "tg_send E p e = Some (x, f)"
        by (auto simp: bind_eq_Some_conv)
      then have "engine E c0 n f"
        using e by (rule engine_send [rotated])
      with RTL_RS Suc q True r x show ?thesis
        by (auto split: if_splits)
    qed (use Suc q True r e in auto)
  qed (use Suc.prems q in auto)
qed

end
