(* ===== verification/Delivery.thy ===== *)
theory Delivery
  imports Engine
begin

text \<open>
  The way of an answer: from the frame on the socket, through decryption, the header and the
  generated reader, to the callback of the query it belongs to.
\<close>

section \<open>The answered query\<close>

text \<open>An answer other than a compressed one or a notification is handed over as it is.\<close>

definition direct :: "tl_obj \<Rightarrow> bool" where
  "direct t \<longleftrightarrow> tl_id t \<noteq> id_gzip_packed \<and> tl_id t \<noteq> id_bad_msg_notification"

text \<open>What delivering to query \<^theory_text>\<open>p\<close> leaves.\<close>

definition delivered :: "client \<Rightarrow> nat list \<Rightarrow> nat \<Rightarrow> tl_obj \<Rightarrow> client \<Rightarrow> bool" where
  "delivered c xs p t d \<longleftrightarrow> c_done d = c_done c @ [(p, Some t)] \<and>
     (\<exists>q. c_store c p = Some q \<and> c_store d = (c_store c)(p \<mapsto> q\<lparr>q_loop := False\<rparr>)) \<and>
     (\<exists>ys. hl (c_list d) ys \<and> set ys = set xs - {p}) \<and>
     c_tg d = c_tg c \<and> c_in d = c_in c \<and> c_out d = c_out c \<and> c_updates d = c_updates c"

lemma catched_tl_delivers:
  assumes q: "qinv E c xs" and e: "e_queuem E" "e_qm E" and p: "first (cmp_msgid (c_store c) i) xs = Some p"
    and k: "c_store c p = Some k" "q_on_done k" and t: "direct t"
  shows "ok (catched_tl E i (Some t) c) (delivered c xs p t)"
proof -
  obtain d where d: "cut_query E i c = Some (Some p, d)"
    using cut_query_ok [OF q, of i] p by (auto elim!: okE)
  note f = cut_query_frame [OF q d]
  have "delivered c xs p t (d\<lparr>c_done := c_done d @ [(p, Some t)], c_store := (c_store d)(p \<mapsto> k\<lparr>q_loop := False\<rparr>)\<rparr>)"
    using q k f(5) without_first_set [OF _ p]
    by (auto simp: delivered_def qinv_def f(3,6) cut_query_rest [OF q d])
  then show ?thesis
    using d e k t f(3) by (auto simp: catched_tl_def direct_def on_done_def stop_loop_def with_query_def)
qed

lemma catched_tl_unknown:
  assumes q: "qinv E c xs" and p: "first (cmp_msgid (c_store c) i) xs = None"
  shows "ok (catched_tl E i t c) (\<lambda>d. c_done d = c_done c \<and> c_store d = c_store c \<and> hl (c_list d) xs)"
proof -
  obtain d where d: "cut_query E i c = Some (None, d)"
    using cut_query_ok [OF q, of i] p by (auto elim!: okE)
  have "without_first (cmp_msgid (c_store c) i) xs = xs"
    using p by (simp add: first_None without_first_id)
  then show ?thesis
    using d q cut_query_frame(3,5,6) [OF q d] by (simp add: catched_tl_def qinv_def)
qed

section \<open>The object on the wire\<close>

definition d_rpc_result :: method_t where
  "d_rpc_result = \<lparr>m_name = ''rpc_result'', m_id = id_rpc_result, m_ret = Some ''RpcResult'',
     m_args = [\<lparr>arg_name = ''req_msg_id'', arg_type = Some ''long'', flagn = 0, flagb = 0\<rparr>,
       \<lparr>arg_name = ''result'', arg_type = Some ''Object'', flagn = 0, flagb = 0\<rparr>],
     m_nflags = 0\<rparr>"

lemma strip_obj_id: "strip_obj x = TL i copy fs \<Longrightarrow> tl_id x = i"
  by (cases x) simp

lemma strip_object:
  assumes "strip f = expect (VObj m vs)"
  obtains r where "f = FObj (Some r)" "tl_id r = m_id m"
proof (cases f)
  case (FObj x)
  with assms obtain r where "x = Some r" "strip_obj r = TL (m_id m) [] (fields (m_args m) (map (\<lambda>v. (v, expect v)) vs))"
    by (cases x) auto
  with FObj that strip_obj_id show ?thesis
    by blast
qed (use assms in simp_all)

lemma rpc_result_fields:
  assumes "strip (FObj x) = expect (VObj d_rpc_result [VLong j, VObj m vs])"
  shows "\<exists>o' r. x = Some o' \<and> tl_id o' = id_rpc_result \<and> fld_long o' ''req_msg_id'' = j \<and>
    fld_obj o' ''result'' = Some r \<and> strip (FObj (Some r)) = expect (VObj m vs) \<and> tl_id r = m_id m"
proof -
  obtain o' where x: "x = Some o'" "strip_obj o' = TL id_rpc_result []
      [(''req_msg_id'', FLong j), (''result'', expect (VObj m vs))]"
    using assms by (cases x) (auto simp: d_rpc_result_def)
  obtain i copy fs where o': "o' = TL i copy fs"
    by (cases o')
  then have i: "i = id_rpc_result" and s: "strips fs = [(''req_msg_id'', FLong j), (''result'', expect (VObj m vs))]"
    using x(2) by simp_all
  then obtain a b where fs: "fs = [(''req_msg_id'', a), (''result'', b)]" "strip a = FLong j" "strip b = expect (VObj m vs)"
    by (auto simp: strips_def map_prod_def)
  then have a: "a = FLong j"
    by (cases a) simp_all
  obtain r where r: "b = FObj (Some r)" "tl_id r = m_id m"
    by (rule strip_object [OF fs(3)])
  have "tl_id o' = id_rpc_result" "fld_long o' ''req_msg_id'' = j" "fld_obj o' ''result'' = Some r"
    by (simp_all add: o' i fs(1) a r(1) fld_long_def fld_obj_def)
  moreover have "strip (FObj (Some r)) = expect (VObj m vs)"
    using fs(3) r(1) by (simp only:)
  ultimately show ?thesis
    using x(1) r(2) by (intro exI conjI)
qed

section \<open>The frame\<close>

lemma payload_length:
  assumes "crypto_ok C"
  shows "length (mtproto2 C 8 kb (enc_packet (le_bytes 8 (salt :: u64)) (le_bytes 8 (ssid :: u64)) (i, q, body) pad)) =
    56 + length body + length pad"
  by (simp add: length_mtproto2(3) [OF assms] enc_packet_def length_enc_msg)

text \<open>A packet of the server is decrypted and its header adopted.\<close>

lemma packet_opened:
  assumes C: "crypto_ok C" "views (tg_key tg) kb" "120 \<le> length kb" "sess_ok tg"
    and r: "owns r (mtproto2 C 8 kb (enc_packet (le_bytes 8 (salt :: u64)) (le_bytes 8 (ssid :: u64)) (i, q, body) pad))"
    and n: "(length body + length pad) mod 16 = 0" "length body + length pad + 100 < 2 ^ 30"
  shows "\<exists>d msg sb. bsize r \<noteq> 4 \<and> tg_decrypt C tg r True = Some d \<and> bsize d \<noteq> 0 \<and>
    tg_deheader d True tg = Some (msg, tg_add_msgid i (tg\<lparr>tg_salt := sb\<rparr>)) \<and> owns msg body \<and> owns sb (le_bytes 8 salt)"
proof -
  let ?pt = "enc_packet (le_bytes 8 salt) (le_bytes 8 ssid) (i, q, body) pad"
  have lp: "length ?pt = 32 + (length body + length pad)"
    by (simp add: enc_packet_def length_enc_msg)
  then have l: "length ?pt mod 16 = 0" "length ?pt < 2 ^ 30"
    using n by (simp_all add: mod_add_right_eq [symmetric, of 32])
  have v: "views r (mtproto2 C 8 kb ?pt)"
    using r by (auto simp: owns_def)
  have "unat (bsize r) \<noteq> 4"
    using views_length [OF v] payload_length [OF C(1), of kb salt ssid i q body pad] by simp
  then have b4: "bsize r \<noteq> 4"
    by auto
  obtain d where d: "tg_decrypt C tg r True = Some d" "owns d ?pt"
    using tg_decrypt_ok [OF C(1-3) v l] by (auto elim!: okE)
  have vd: "views d (le_bytes 8 salt @ le_bytes 8 ssid @ enc_msg (i, q, body) @ pad)"
    using d(2) by (auto simp: enc_packet_def owns_def)
  have d0: "bsize d \<noteq> 0"
    using views_length [OF vd] by auto
  obtain msg sb where "tg_deheader d True tg = Some (msg, tg_add_msgid i (tg\<lparr>tg_salt := sb\<rparr>))"
      "owns msg body" "owns sb (le_bytes 8 salt)"
    using tg_deheader_ok [OF vd sess_views(2) [OF C(4)]] n(2) sess_views(4) [OF C(4)] by (auto elim!: okE)
  with b4 d(1) d0 show ?thesis
    by blast
qed

text \<open>The object it carries is read.\<close>

lemma receive_payload_reads:
  assumes C: "crypto_ok (e_crypto E)" "views (tg_key (c_tg c)) kb" "120 \<le> length kb" "sess_ok (c_tg c)"
    and r: "owns r (mtproto2 (e_crypto E) 8 kb (enc_packet (le_bytes 8 (salt :: u64)) (le_bytes 8 (ssid :: u64)) (i, q, body) pad))"
    and n: "(length body + length pad) mod 16 = 0" "length body + length pad + 100 < 2 ^ 30"
    and f: "fits (e_table E) (VObj m vs)" "depth (VObj m vs) \<le> e_fuel E" "body = enc_val (VObj m vs)"
    and salt: "m_id m \<noteq> id_bad_server_salt"
  shows "\<exists>x sb. owns sb (le_bytes 8 salt) \<and> strip (FObj x) = expect (VObj m vs) \<and>
    receive_payload E r c = (do {
      d \<leftarrow> handle_tl E (e_fuel E) x (c\<lparr>c_tg := tg_add_msgid i ((c_tg c)\<lparr>tg_salt := sb\<rparr>)\<rparr>);
      Some (RTL_RQ, d)
    })"
proof -
  obtain d msg sb where d: "bsize r \<noteq> 4" "tg_decrypt (e_crypto E) (c_tg c) r True = Some d" "bsize d \<noteq> 0"
    "tg_deheader d True (c_tg c) = Some (msg, tg_add_msgid i ((c_tg c)\<lparr>tg_salt := sb\<rparr>))" "owns msg body" "owns sb (le_bytes 8 salt)"
    using packet_opened [OF C r n] by blast
  have "views msg (enc_val (VObj m vs) @ [])"
    using d(5) f(3) by (auto simp: owns_def)
  with f(1,2) tl_deserialize_reads [of "e_table E" "e_fuel E"] have
    "ok (tl_deserialize (e_table E) (e_fuel E) msg) (\<lambda>(x, b'). strip (FObj x) = expect (VObj m vs) \<and> views b' [])"
    unfolding reads_def by blast
  then obtain x where x: "deserialize E msg = Some x" "strip (FObj x) = expect (VObj m vs)"
    by (auto simp: deserialize_def elim!: okE)
  obtain y where y: "x = Some y" "tl_id y = m_id m"
    by (rule strip_object [OF x(2)]) simp
  have "receive_payload E r c = (do {
      d \<leftarrow> handle_tl E (e_fuel E) x (c\<lparr>c_tg := tg_add_msgid i ((c_tg c)\<lparr>tg_salt := sb\<rparr>)\<rparr>);
      Some (RTL_RQ, d)
    })"
    using salt by (simp add: receive_payload_def d(1-4) x(1) y)
  with d(6) x(2) show ?thesis
    by (intro exI conjI)
qed

lemma same_fields:
  assumes "same_but_in c d"
  shows "c_tg d = c_tg c" "c_list d = c_list c" "c_store d = c_store c" "c_out d = c_out c"
    "c_done d = c_done c" "c_updates d = c_updates c"
proof -
  obtain i where d: "d = c\<lparr>c_in := i\<rparr>"
    using assms by (auto simp: same_but_in_def)
  show "c_tg d = c_tg c" "c_list d = c_list c" "c_store d = c_store c" "c_out d = c_out c"
    "c_done d = c_done c" "c_updates d = c_updates c"
    by (simp_all add: d)
qed

text \<open>The answer to query \<^theory_text>\<open>j\<close>: the server's packet with message \<^theory_text>\<open>i\<close>.\<close>

definition answer_frame :: "crypto \<Rightarrow> byte list \<Rightarrow> u64 \<Rightarrow> u64 \<Rightarrow> u64 \<times> u32 \<Rightarrow> u64 \<Rightarrow> val \<Rightarrow> byte list \<Rightarrow> byte list" where
  "answer_frame C kb salt ssid iq j v pad = mtproto2 C 8 kb (enc_packet (le_bytes 8 salt) (le_bytes 8 ssid)
     (fst iq, snd iq, enc_val (VObj d_rpc_result [VLong j, v])) pad)"

definition answer_ready :: "env \<Rightarrow> client \<Rightarrow> byte list \<Rightarrow> nat list \<Rightarrow> u64 \<Rightarrow> nat \<Rightarrow> queue_t \<Rightarrow> bool" where
  "answer_ready E c kb xs j p k \<longleftrightarrow> crypto_ok (e_crypto E) \<and> views (tg_key (c_tg c)) kb \<and> 120 \<le> length kb \<and>
     sess_ok (c_tg c) \<and> qinv E c xs \<and> e_queuem E \<and> e_qm E \<and>
     first (cmp_msgid (c_store c) j) xs = Some p \<and> c_store c p = Some k \<and> q_on_done k"

text \<open>What a delivery through the whole stack leaves.\<close>

definition answered :: "client \<Rightarrow> nat list \<Rightarrow> nat \<Rightarrow> queue_t \<Rightarrow> val \<Rightarrow> u64 \<Rightarrow> u64 \<Rightarrow> client \<Rightarrow> bool" where
  "answered c xs p k v salt i d \<longleftrightarrow>
     (\<exists>t. strip (FObj (Some t)) = expect v \<and> c_done d = c_done c @ [(p, Some t)]) \<and>
     c_store d = (c_store c)(p \<mapsto> k\<lparr>q_loop := False\<rparr>) \<and> (\<exists>ys. hl (c_list d) ys \<and> set ys = set xs - {p}) \<and>
     view (tg_salt (c_tg d)) = le_bytes 8 salt \<and>
     tg_msgids (c_tg d) = (if tg_msgidsm (c_tg c) then tg_msgids (c_tg c) @ [i] else tg_msgids (c_tg c)) \<and>
     c_out d = c_out c \<and> c_updates d = c_updates c"

lemma receive_answer:
  assumes r: "answer_ready E c kb xs j p k"
    and b: "owns b (answer_frame (e_crypto E) kb salt ssid (i, q) j (VObj m vs) pad)"
    and n: "(length (enc_val (VObj d_rpc_result [VLong j, VObj m vs])) + length pad) mod 16 = 0"
      "length (enc_val (VObj d_rpc_result [VLong j, VObj m vs])) + length pad + 100 < 2 ^ 30"
    and f: "fits (e_table E) (VObj d_rpc_result [VLong j, VObj m vs])" "depth (VObj m vs) < e_fuel E"
    and m: "m_id m \<noteq> id_gzip_packed" "m_id m \<noteq> id_bad_msg_notification"
  shows "ok (receive_payload E b c) (\<lambda>(res, d). res = RTL_RQ \<and> answered c xs p k (VObj m vs) salt i d \<and> c_in d = c_in c)"
proof -
  have C: "crypto_ok (e_crypto E)" "views (tg_key (c_tg c)) kb" "120 \<le> length kb" "sess_ok (c_tg c)" "qinv E c xs"
    "e_queuem E" "e_qm E" "first (cmp_msgid (c_store c) j) xs = Some p" "c_store c p = Some k" "q_on_done k"
    using r by (simp_all add: answer_ready_def)
  have d: "depth (VObj d_rpc_result [VLong j, VObj m vs]) \<le> e_fuel E"
    using f(2) by simp
  have salt: "m_id d_rpc_result \<noteq> id_bad_server_salt"
    by (simp add: d_rpc_result_def id_rpc_result_def id_bad_server_salt_def)
  obtain x sb where x: "owns sb (le_bytes 8 salt)" "strip (FObj x) = expect (VObj d_rpc_result [VLong j, VObj m vs])"
    and e: "receive_payload E b c = (do {
      d \<leftarrow> handle_tl E (e_fuel E) x (c\<lparr>c_tg := tg_add_msgid i ((c_tg c)\<lparr>tg_salt := sb\<rparr>)\<rparr>);
      Some (RTL_RQ, d)
    })"
    using receive_payload_reads [OF C(1-4) _ n f(1) d refl salt, of b salt ssid i q] b
    by (auto simp: answer_frame_def)
  let ?c = "c\<lparr>c_tg := tg_add_msgid i ((c_tg c)\<lparr>tg_salt := sb\<rparr>)\<rparr>"
  obtain t' t where t: "x = Some t'" "tl_id t' = id_rpc_result" "fld_long t' ''req_msg_id'' = j"
    "fld_obj t' ''result'' = Some t" "strip (FObj (Some t)) = expect (VObj m vs)" "tl_id t = m_id m"
    using rpc_result_fields [OF x(2)] by blast
  obtain n' where n': "e_fuel E = Suc n'"
    using f(2) by (cases "e_fuel E") simp_all
  have h: "handle_tl E (e_fuel E) x ?c = catched_tl E j (Some t) ?c"
    by (simp add: n' t id_defs)
  have "ok (catched_tl E j (Some t) ?c) (delivered ?c xs p t)"
    by (rule catched_tl_delivers) (use C t m in \<open>simp_all add: direct_def\<close>)
  then obtain d where d: "catched_tl E j (Some t) ?c = Some d" "delivered ?c xs p t d"
    by (auto elim!: okE)
  have "answered c xs p k (VObj m vs) salt i d \<and> c_in d = c_in c"
    using d(2) C(9) t(5) x(1) owns_view [OF x(1)] by (auto simp: delivered_def answered_def tg_add_msgid_def)
  then show ?thesis
    by (simp add: e h d(1))
qed

text \<open>The frame may arrive in any pieces after its length; the reading thread may be that of
  another query.\<close>

lemma tg_receive_answer:
  assumes r: "answer_ready E c kb xs j p k" and p: "c_store c p' = Some k'" "q_progress k' = None"
    and fr: "fr = answer_frame (e_crypto E) kb salt ssid (i, q) j (VObj m vs) pad" "length fr < e_fuel E"
    and s: "c_in c = RData (le_bytes 4 (of_nat (length fr) :: u32)) # es" "flowing (c\<lparr>c_in := es\<rparr>)"
      "stream (c\<lparr>c_in := es\<rparr>) = fr @ rest"
    and n: "(length (enc_val (VObj d_rpc_result [VLong j, VObj m vs])) + length pad) mod 16 = 0"
      "length (enc_val (VObj d_rpc_result [VLong j, VObj m vs])) + length pad + 100 < 2 ^ 30"
    and f: "fits (e_table E) (VObj d_rpc_result [VLong j, VObj m vs])" "depth (VObj m vs) < e_fuel E"
    and m: "m_id m \<noteq> id_gzip_packed" "m_id m \<noteq> id_bad_msg_notification"
  shows "ok (tg_receive E p' c) (\<lambda>(res, d). res = RTL_RQ \<and> answered c xs p k (VObj m vs) salt i d \<and> stream d = rest)"
proof -
  have "crypto_ok (e_crypto E)"
    using r by (simp add: answer_ready_def)
  then have "length fr < 2 ^ 31"
    using n(2) by (simp add: fr(1) answer_frame_def payload_length)
  from recv_frame_ok [OF s this fr(2), of "\<lambda>_ _. False"] obtain b c1 where b: "recv_frame (\<lambda>_ _. False) E c = Some (FOk b, c1)"
    "owns b fr" "stream c1 = rest" "same_but_in c c1"
    by (auto elim!: okE)
  note c1 = same_fields [OF b(4)]
  have r1: "answer_ready E c1 kb xs j p k"
    using r same_but_in_inv [OF b(4)] by (simp add: answer_ready_def c1)
  obtain d where d: "receive_payload E b c1 = Some (RTL_RQ, d)" "answered c1 xs p k (VObj m vs) salt i d" "c_in d = c_in c1"
    using receive_answer [OF r1 b(2) [unfolded fr(1)] n f m] by (auto elim!: okE)
  have "answered c xs p k (VObj m vs) salt i d" "stream d = rest"
    using d(2,3) b(3) by (simp_all add: answered_def c1 stream_def)
  then show ?thesis
    by (simp add: tg_receive_def p b(1) d(1))
qed

section \<open>Sending\<close>

text \<open>A client that has its key, salt and session id and a query to send.\<close>

definition send_ready :: "env \<Rightarrow> client \<Rightarrow> byte list \<Rightarrow> nat \<Rightarrow> queue_t \<Rightarrow> bool" where
  "send_ready E c kb p k \<longleftrightarrow> crypto_ok (e_crypto E) \<and> views (tg_key (c_tg c)) kb \<and> 120 \<le> length kb \<and>
     sess_ok (c_tg c) \<and> e_send E \<and> c_store c p = Some k \<and> \<not> q_freed k \<and> sendable (q_query k) (c_tg c)"

lemma tg_send_ok:
  assumes "send_ready E c kb p k"
  shows "ok (tg_send E p c) (\<lambda>(e, d). \<not> e \<and> (\<exists>out i tg'. header_out (view (q_query k)) True (c_tg c) = (out, i, tg') \<and>
    c_out d = c_out c @ [le_bytes 4 (of_nat (24 + length out) :: u32) @ mtproto2 (e_crypto E) 0 kb out] \<and>
    c_store d = (c_store c)(p \<mapsto> k\<lparr>q_msgid := i, q_freed := header_frees (c_tg c)\<rparr>) \<and> c_tg d = tg' \<and>
    c_list d = c_list c \<and> c_done d = c_done c \<and> c_in d = c_in c))"
proof -
  have r: "crypto_ok (e_crypto E)" "views (tg_key (c_tg c)) kb" "120 \<le> length kb" "sess_ok (c_tg c)" "e_send E"
    "c_store c p = Some k" "\<not> q_freed k" "sendable (q_query k) (c_tg c)"
    using assms by (simp_all add: send_ready_def)
  have nz: "bsize (tg_key (c_tg c)) \<noteq> 0" "bsize (tg_ssid (c_tg c)) \<noteq> 0" "bsize (tg_salt (c_tg c)) \<noteq> 0"
    using views_length [OF r(2)] r(3,4) by (auto simp: sess_ok_def)
  obtain b i tg' out where b: "tg_prepare_query (e_crypto E) (q_query k) True (Some (q_msgid k)) (c_tg c) = Some (b, Some i, tg')"
    "header_out (view (q_query k)) True (c_tg c) = (out, i, tg')"
    "owns b (le_bytes 4 (of_nat (24 + length out) :: u32) @ mtproto2 (e_crypto E) 0 kb out)"
    using prepare_query_ok [OF r(1-4,8), of "q_msgid k"] by (auto elim!: okE)
  have v: "views b (le_bytes 4 (of_nat (24 + length out) :: u32) @ mtproto2 (e_crypto E) 0 kb out)"
    using b(3) by (auto simp: owns_def)
  have "bsize b \<noteq> 0"
    using views_length [OF v] by auto
  moreover have "peeks b 0 (unat (bsize b)) = Some (le_bytes 4 (of_nat (24 + length out) :: u32) @ mtproto2 (e_crypto E) 0 kb out)"
    using views_peeks [OF v, of 0 "length (le_bytes 4 (of_nat (24 + length out) :: u32) @ mtproto2 (e_crypto E) 0 kb out)"]
      views_length [OF v] by simp
  ultimately show ?thesis
    using r(5-7) nz b(1,2)
    by (simp add: tg_send_def open_session_def fill_ssid_def fill_salt_def with_query_def send_def)
qed

end
