(* ===== verification/QuerySpec.thy ===== *)
theory QuerySpec
  imports Query Delivery
begin

text \<open>
  The blocking engine: what an answer leads to, read again from the copy that every object keeps
  of its bytes.
\<close>

section \<open>Copies\<close>

lemma tl_deserialize_copy:
  assumes "tl_deserialize table n b = Some (Some x, b')" and v: "views b xs"
  shows "tl_copy x = xs"
proof -
  obtain m des where "tl_read des m b = Some (Some x, b')"
    using assms(1) by (cases n) (auto simp: bind_eq_Some_conv split: if_splits option.splits)
  then obtain c i fs where c: "buf_add_buf b = Some c" "x = TL i (view c) fs"
    by (auto simp: tl_read_def bind_eq_Some_conv)
  have "ok (buf_add_buf b) (\<lambda>c. owns c xs)"
    by (rule buf_add_buf_ok [OF v views_small [OF v]])
  with c show ?thesis
    by (auto simp: owns_view)
qed

text \<open>An rpc_result with its result, down to the result's copy.\<close>

lemma rpc_result_read:
  assumes f: "fits table (VObj d_rpc_result [VLong j, VObj m vs])" "depth (VObj m vs) \<le> n"
    and v: "views b (enc_val (VObj d_rpc_result [VLong j, VObj m vs]))"
  shows "\<exists>b' o' r. tl_deserialize table (Suc n) b = Some (Some o', b') \<and> tl_id o' = id_rpc_result \<and>
    fld_long o' ''req_msg_id'' = j \<and> fld_obj o' ''result'' = Some r \<and> tl_copy r = enc_val (VObj m vs) \<and>
    strip (FObj (Some r)) = expect (VObj m vs)"
proof -
  have enc: "enc_val (VObj d_rpc_result [VLong j, VObj m vs]) =
      le_bytes 4 id_rpc_result @ le_bytes 8 j @ enc_val (VObj m vs) @ []"
    by (simp add: d_rpc_result_def is_flags_def)
  have fm: "fits table (VObj m vs)"
    using f(1) by simp
  have g: "get_fun table id_rpc_result = Some d_rpc_result"
    using f(1) by (simp add: obj_fits_def d_rpc_result_def)
  have b0: "buf_get_ui32 b = Some id_rpc_result"
    using buf_get_ok(1) [OF v [unfolded enc]] by (simp add: le_simps)
  note r1 = deserialize_ui_ok(1) [OF v [unfolded enc]]
  note r2 = deserialize_ui_ok(2) [OF conjunct2 [OF r1]]
  have v2: "views (skip 8 (skip 4 b)) (enc_val (VObj m vs) @ [])"
    using r2 by simp
  obtain x b3 where x: "tl_deserialize table n (skip 8 (skip 4 b)) = Some (x, b3)" "strip (FObj x) = expect (VObj m vs)"
    using tl_deserialize_reads [of table n] fm f(2) v2 unfolding reads_def by (fastforce elim!: okE)
  obtain r where r: "x = Some r"
    by (rule strip_object [OF x(2)]) simp
  have copy: "tl_copy r = enc_val (VObj m vs)"
    using tl_deserialize_copy [OF x(1) [unfolded r] v2] by simp
  obtain c where c: "buf_add_buf b = Some c"
    by (rule okE [OF buf_add_buf_ok [OF v views_small [OF v]]])
  have gen: "gen_des 0 (m_args d_rpc_result) = [DGet ''req_msg_id'' None DLong, DGet ''result'' None DObj]"
    by code_simp
  have "id_rpc_result \<noteq> 0" "m_name d_rpc_result \<noteq> ''vector''"
    by (simp_all add: id_rpc_result_def d_rpc_result_def)
  then have "tl_deserialize table (Suc n) b =
      Some (Some (TL id_rpc_result (view c) [(''req_msg_id'', FLong j), (''result'', FObj (Some r))]), b3)"
    using b0 g c r1 r2 x(1)
    by (simp add: tl_read_def gen flag_on_def get_op_def put_field_def rd_map_def r)
  then show ?thesis
    using copy x(2) r by (auto simp: fld_long_def fld_obj_def simp del: strip.simps expect.simps)
qed

section \<open>An answer\<close>

lemma own_buf_ok:
  assumes "length bs + 1 < 2 ^ 32"
  shows "ok (own_buf bs) (\<lambda>b. owns b bs)"
  using buf_add_ok [of "of_nat (length bs)" bs] assms unat_of_nat_u32 [of "length bs"]
  by (auto simp: own_buf_def elim!: ok_mono)

text \<open>Reading an object again from its copy gives the object.\<close>

lemma answer_cb_ok:
  assumes "tl_copy r = enc_val (VObj m vs)" and "fits (e_table E) (VObj m vs)" and "depth (VObj m vs) \<le> e_fuel E"
    and "length (enc_val (VObj m vs)) + 1 < 2 ^ 32"
  shows "ok (answer_cb E (Some r)) (\<lambda>a. \<exists>t. a = Some t \<and> strip (FObj (Some t)) = expect (VObj m vs) \<and> tl_id t = m_id m)"
proof -
  have d: "ok (deserialize E b) (\<lambda>a. \<exists>t. a = Some t \<and> strip (FObj (Some t)) = expect (VObj m vs) \<and> tl_id t = m_id m)"
    if "owns b (enc_val (VObj m vs))" for b
  proof -
    have "views b (enc_val (VObj m vs) @ [])"
      using that by (simp add: owns_def)
    then obtain x b' where x: "tl_deserialize (e_table E) (e_fuel E) b = Some (x, b')" "strip (FObj x) = expect (VObj m vs)"
      using tl_deserialize_reads [of "e_table E" "e_fuel E"] assms(2,3) unfolding reads_def by (fastforce elim!: okE)
    moreover obtain t where "x = Some t" "tl_id t = m_id m"
      by (rule strip_object [OF x(2)]) simp
    ultimately show ?thesis
      by (simp add: deserialize_def del: strip.simps expect.simps)
  qed
  show ?thesis
    unfolding answer_cb_def using own_buf_ok [OF assms(4)] d by (auto simp: assms(1) intro!: ok_bind)
qed

text \<open>The frame's fate.\<close>

definition fate :: "tl_obj \<Rightarrow> via_step" where
  "fate t = (if tl_id t = id_bad_server_salt then VResend
     else if tl_id t = id_msgs_ack \<or> tl_id t \<in> set ids_updates then VAgain
     else VDone (Some t))"

lemma via_frame_answer:
  assumes f: "fits (e_table E) (VObj d_rpc_result [VLong i, VObj m vs])" "depth (VObj m vs) < e_fuel E"
    and b: "owns b (enc_val (VObj d_rpc_result [VLong i, VObj m vs]))" and m: "m_id m \<noteq> id_gzip_packed"
  shows "ok (via_frame E i b c) (\<lambda>(s, d). d = add_msgid i c \<and>
    (\<exists>t. s = fate t \<and> strip (FObj (Some t)) = expect (VObj m vs) \<and> tl_id t = m_id m))"
proof -
  obtain n where n: "e_fuel E = Suc n" "depth (VObj m vs) \<le> n"
    using f(2) by (cases "e_fuel E") simp_all
  have v: "views b (enc_val (VObj d_rpc_result [VLong i, VObj m vs]))"
    using b by (simp add: owns_def)
  obtain b' o' r where r: "tl_deserialize (e_table E) (Suc n) b = Some (Some o', b')" "tl_id o' = id_rpc_result"
    "fld_long o' ''req_msg_id'' = i" "fld_obj o' ''result'' = Some r" "tl_copy r = enc_val (VObj m vs)"
    using rpc_result_read [OF f(1) n(2) v] by blast
  have "length (enc_val (VObj m vs)) \<le> length (enc_val (VObj d_rpc_result [VLong i, VObj m vs]))"
    by (simp add: d_rpc_result_def is_flags_def)
  then have l: "length (enc_val (VObj m vs)) + 1 < 2 ^ 32"
    using views_small [OF v] by linarith
  have fm: "fits (e_table E) (VObj m vs)"
    using f(1) by simp
  obtain t where t: "answer_cb E (Some r) = Some (Some t)" "strip (FObj (Some t)) = expect (VObj m vs)" "tl_id t = m_id m"
    using answer_cb_ok [OF r(5) fm _ l] n by (auto elim!: okE)
  have "via_frame E i b c = Some (fate t, add_msgid i c)"
    using r t m by (simp add: via_frame_def deserialize_def n(1) fate_def del: tl_deserialize.simps)
  with t show ?thesis
    by (simp del: strip.simps expect.simps) blast
qed

section \<open>The whole query\<close>

text \<open>A client with its session and a query to send.\<close>

definition query_ready :: "env \<Rightarrow> client \<Rightarrow> byte list \<Rightarrow> buf_t \<Rightarrow> bool" where
  "query_ready E c kb b \<longleftrightarrow> crypto_ok (e_crypto E) \<and> views (tg_key (c_tg c)) kb \<and> 120 \<le> length kb \<and>
     sess_ok (c_tg c) \<and> e_connect E \<and> e_sendq E \<and> e_send E \<and> sendable b (c_tg c)"

lemma sq_send_ok:
  assumes "query_ready E c kb query"
  shows "ok (sq_send E query c) (\<lambda>(i, d). \<exists>out tg'. header_out (view query) True (c_tg c) = (out, i, tg') \<and>
    d = c\<lparr>c_tg := tg', c_out := c_out c @ [le_bytes 4 (of_nat (24 + length out) :: u32) @ mtproto2 (e_crypto E) 0 kb out]\<rparr>)"
proof -
  have r: "crypto_ok (e_crypto E)" "views (tg_key (c_tg c)) kb" "120 \<le> length kb" "sess_ok (c_tg c)" "e_send E"
    "sendable query (c_tg c)"
    using assms by (simp_all add: query_ready_def)
  have nz: "bsize (tg_key (c_tg c)) \<noteq> 0" "bsize (tg_ssid (c_tg c)) \<noteq> 0" "bsize (tg_salt (c_tg c)) \<noteq> 0"
    using views_length [OF r(2)] r(3,4) by (auto simp: sess_ok_def)
  obtain b i tg' out where b: "tg_prepare_query (e_crypto E) query True (Some 0) (c_tg c) = Some (b, Some i, tg')"
    "header_out (view query) True (c_tg c) = (out, i, tg')"
    "owns b (le_bytes 4 (of_nat (24 + length out) :: u32) @ mtproto2 (e_crypto E) 0 kb out)"
    using prepare_query_ok [OF r(1-4,6), of 0] by (auto elim!: okE)
  have v: "views b (le_bytes 4 (of_nat (24 + length out) :: u32) @ mtproto2 (e_crypto E) 0 kb out)"
    using b(3) by (auto simp: owns_def)
  have "bsize b \<noteq> 0"
    using views_length [OF v] by auto
  moreover have "peeks b 0 (unat (bsize b)) = Some (le_bytes 4 (of_nat (24 + length out) :: u32) @ mtproto2 (e_crypto E) 0 kb out)"
    using views_peeks [OF v, of 0 "length (le_bytes 4 (of_nat (24 + length out) :: u32) @ mtproto2 (e_crypto E) 0 kb out)"]
      views_length [OF v] by simp
  ultimately show ?thesis
    using r(5) nz b(1,2) by (simp add: sq_send_def open_session_def fill_ssid_def fill_salt_def send_def)
qed

lemma sq_receive_ok:
  assumes C: "crypto_ok (e_crypto E)" "views (tg_key (c_tg c)) kb" "120 \<le> length kb" "sess_ok (c_tg c)"
    and fr: "fr = mtproto2 (e_crypto E) 8 kb (enc_packet (le_bytes 8 (salt :: u64)) (le_bytes 8 (ssid :: u64)) (i, q, body) pad)"
      "length fr < e_fuel E"
    and s: "c_in c = RData (le_bytes 4 (of_nat (length fr) :: u32)) # es" "flowing (c\<lparr>c_in := es\<rparr>)"
      "stream (c\<lparr>c_in := es\<rparr>) = fr @ rest"
    and n: "(length body + length pad) mod 16 = 0" "length body + length pad + 100 < 2 ^ 30"
  shows "ok (sq_receive E True c) (\<lambda>(r, d). \<exists>b sb cs. r = Some b \<and> owns b body \<and> owns sb (le_bytes 8 salt) \<and>
    d = c\<lparr>c_in := cs, c_tg := tg_add_msgid i ((c_tg c)\<lparr>tg_salt := sb\<rparr>)\<rparr> \<and> stream d = rest \<and> flowing d)"
proof -
  have l: "length fr < 2 ^ 31"
    using n(2) by (simp add: fr(1) payload_length [OF C(1)])
  obtain b c1 where b: "recv_frame (\<lambda>_ _. False) E c = Some (FOk b, c1)" "owns b fr" "stream c1 = rest" "flowing c1"
    and same: "same_but_in c c1"
    using recv_frame_ok [OF s l fr(2), of "\<lambda>_ _. False"] by (auto elim!: okE)
  obtain cs where c1: "c1 = c\<lparr>c_in := cs\<rparr>"
    using same by (auto simp: same_but_in_def)
  obtain d msg sb where d: "bsize b \<noteq> 4" "tg_decrypt (e_crypto E) (c_tg c) b True = Some d" "bsize d \<noteq> 0"
    "tg_deheader d True (c_tg c) = Some (msg, tg_add_msgid i ((c_tg c)\<lparr>tg_salt := sb\<rparr>))" "owns msg body" "owns sb (le_bytes 8 salt)"
    using packet_opened [OF C _ n] b(2) fr(1) by blast
  have "stream (c\<lparr>c_in := cs, c_tg := t\<rparr>) = rest" "flowing (c\<lparr>c_in := cs, c_tg := t\<rparr>)" for t
    using b(3,4) by (simp_all add: c1 stream_def flowing_def)
  then show ?thesis
    using d by (simp add: sq_receive_def b(1) c1) blast
qed

text \<open>Identifiers of objects that are handed to the caller.\<close>

definition returned :: "u32 \<Rightarrow> bool" where
  "returned i \<longleftrightarrow> i \<noteq> id_bad_server_salt \<and> i \<noteq> id_msgs_ack \<and> i \<notin> set ids_updates"

lemma fate_returned: "returned (tl_id t) \<Longrightarrow> fate t = VDone (Some t)"
  by (simp add: fate_def returned_def)

lemma send_query_answer:
  assumes r: "query_ready E c kb query" and h: "header_out (view query) True (c_tg c) = (out, i, tg')" and i: "i \<noteq> 0"
    and fr: "fr = answer_frame (e_crypto E) kb salt ssid (mid, q) i (VObj m vs) pad" "length fr < e_fuel E"
    and s: "c_in c = RData (le_bytes 4 (of_nat (length fr) :: u32)) # es" "flowing (c\<lparr>c_in := es\<rparr>)"
      "stream (c\<lparr>c_in := es\<rparr>) = fr @ rest"
    and n: "(length (enc_val (VObj d_rpc_result [VLong i, VObj m vs])) + length pad) mod 16 = 0"
      "length (enc_val (VObj d_rpc_result [VLong i, VObj m vs])) + length pad + 100 < 2 ^ 30"
    and f: "fits (e_table E) (VObj d_rpc_result [VLong i, VObj m vs])" "depth (VObj m vs) < e_fuel E"
    and m: "m_id m \<noteq> id_gzip_packed" "returned (m_id m)"
  shows "ok (tg_send_query E query c) (\<lambda>(x, d). (\<exists>t. x = Some t \<and> strip (FObj (Some t)) = expect (VObj m vs)) \<and>
    c_out d = c_out c @ [[0xee, 0xee, 0xee, 0xee], le_bytes 4 (of_nat (24 + length out) :: u32) @ mtproto2 (e_crypto E) 0 kb out] \<and>
    stream d = rest \<and> tg_msgids (c_tg d) = (if tg_msgidsm tg' then tg_msgids tg' @ [mid, i] else tg_msgids tg'))"
proof -
  have C: "crypto_ok (e_crypto E)" "views (tg_key (c_tg c)) kb" "120 \<le> length kb" "sess_ok (c_tg c)" "e_connect E" "e_sendq E"
    using r by (simp_all add: query_ready_def)
  have nz: "bsize (tg_key (c_tg c)) \<noteq> 0"
    using views_length [OF C(2)] C(3) by auto
  let ?frame = "le_bytes 4 (of_nat (24 + length out) :: u32) @ mtproto2 (e_crypto E) 0 kb out"
  define c1 where "c1 = c\<lparr>c_out := c_out c @ [[0xee, 0xee, 0xee, 0xee]]\<rparr>"
  define c2 where "c2 = c1\<lparr>c_tg := tg', c_out := c_out c1 @ [?frame]\<rparr>"
  have open1: "tg_net_open E c = Some c1"
    using C(5) by (simp add: tg_net_open_def c1_def)
  have "query_ready E c1 kb query"
    using r by (simp add: query_ready_def c1_def)
  then have snd: "sq_send E query c1 = Some (i, c2)"
    using sq_send_ok [of E c1 kb query] h by (auto simp: c2_def c1_def elim!: okE)
  have C2: "views (tg_key (c_tg c2)) kb" "sess_ok (c_tg c2)"
    using C(2,4) header_out_frame [OF h] by (simp_all add: c2_def sess_ok_def)
  have in2: "c_in c2 = RData (le_bytes 4 (of_nat (length fr) :: u32)) # es" "flowing (c2\<lparr>c_in := es\<rparr>)"
    "stream (c2\<lparr>c_in := es\<rparr>) = fr @ rest"
    using s by (simp_all add: c2_def c1_def flowing_def stream_def)
  obtain b sb cs where b: "sq_receive E True c2 = Some (Some b, c2\<lparr>c_in := cs, c_tg := tg_add_msgid mid (tg'\<lparr>tg_salt := sb\<rparr>)\<rparr>)"
    "owns b (enc_val (VObj d_rpc_result [VLong i, VObj m vs]))"
    "stream (c2\<lparr>c_in := cs, c_tg := tg_add_msgid mid (tg'\<lparr>tg_salt := sb\<rparr>)\<rparr>) = rest"
    using sq_receive_ok [OF C(1) C2(1) C(3) C2(2) fr(1) [unfolded answer_frame_def fst_conv snd_conv] fr(2) in2 n]
    by (auto simp: c2_def elim!: okE)
  define c3 where "c3 = c2\<lparr>c_in := cs, c_tg := tg_add_msgid mid (tg'\<lparr>tg_salt := sb\<rparr>)\<rparr>"
  obtain t where t: "via_frame E i b c3 = Some (fate t, add_msgid i c3)" "strip (FObj (Some t)) = expect (VObj m vs)" "tl_id t = m_id m"
    using via_frame_answer [OF f b(2) m(1), of c3] by (auto elim!: okE)
  have ft: "fate t = VDone (Some t)"
    using m(2) t(3) by (intro fate_returned) simp
  obtain k where k: "e_fuel E = Suc k"
    using fr(2) by (cases "e_fuel E") simp_all
  have "via_loop E (e_fuel E) i True c2 = Some (VDone (Some t), add_msgid i c3)"
    using b(1) t(1) ft by (simp add: k c3_def)
  then have q: "tg_send_query E query c = Some (Some t, add_msgid i c3)"
    using open1 snd i C(6) nz by (simp add: tg_send_query_def k c1_def del: via_loop.simps)
  have "c_out (add_msgid i c3) = c_out c @ [[0xee, 0xee, 0xee, 0xee], ?frame]" "stream (add_msgid i c3) = rest"
    "tg_msgids (c_tg (add_msgid i c3)) = (if tg_msgidsm tg' then tg_msgids tg' @ [mid, i] else tg_msgids tg')"
    using b(3) by (simp_all add: add_msgid_def c3_def c2_def c1_def tg_add_msgid_def stream_def)
  with q t(2) show ?thesis
    by (simp del: strip.simps expect.simps)
qed

text \<open>What the blocking call hands out.\<close>

lemma via_frame_returned:
  "whenever (via_frame E i b c) (\<lambda>(s, d). \<forall>t. s = VDone (Some t) \<longrightarrow> returned (tl_id t))"
  unfolding via_frame_def by (intro whenever_rules) (auto simp: returned_def)

lemma via_loop_returned:
  "whenever (via_loop E n i isset c) (\<lambda>(s, d). s \<noteq> VAgain \<and> (\<forall>t. s = VDone (Some t) \<longrightarrow> returned (tl_id t)))"
proof (induction n arbitrary: c)
  case 0
  then show ?case by simp
next
  case (Suc n)
  have f: "\<forall>t. s = VDone (Some t) \<longrightarrow> returned (tl_id t)" if "via_frame E i b c = Some (s, d)" for b c s d
    using via_frame_returned [of E i b c] that by (simp add: whenever_def)
  show ?case
    unfolding via_loop.simps by (intro whenever_rules) (auto simp: Suc.IH dest: f)
qed

lemma send_query_returned:
  "whenever (send_query_via E n query freed c) (\<lambda>(x, d). \<forall>t. x = Some t \<longrightarrow> returned (tl_id t))"
proof (induction n arbitrary: freed c)
  case 0
  then show ?case by simp
next
  case (Suc n)
  have l: "\<forall>t. s = VDone (Some t) \<longrightarrow> returned (tl_id t)" if "via_loop E k i isset c = Some (s, d)" for k i isset c s d
    using via_loop_returned [of E k i isset c] that by (simp add: whenever_def)
  show ?case
    unfolding send_query_via.simps
    by (intro whenever_rules) (auto simp: Suc.IH dest: l split: via_step.splits)
qed

end
