(* ===== verification/QueueFacts.thy ===== *)
theory QueueFacts
  imports Delivery
begin

text \<open>
  What the properties of the query engine rest on: acknowledgements, freed queries, runs of list
  operations, cancelling.
\<close>

section \<open>Acknowledging what arrived\<close>

text \<open>The identifiers kept for acknowledgement only grow while objects are handled.\<close>

definition acks_grow :: "client \<Rightarrow> client \<Rightarrow> bool" where
  "acks_grow c d \<longleftrightarrow> (\<exists>is. tg_msgids (c_tg d) = tg_msgids (c_tg c) @ is) \<and> tg_msgidsm (c_tg d) = tg_msgidsm (c_tg c)"

lemma acks_refl [simp]: "acks_grow c c"
  by (simp add: acks_grow_def)

lemma acks_trans: "acks_grow c d \<Longrightarrow> acks_grow d e \<Longrightarrow> acks_grow c e"
  by (auto simp: acks_grow_def)

lemma acks_mono: "acks_grow c d \<Longrightarrow> i \<in> set (tg_msgids (c_tg c)) \<Longrightarrow> i \<in> set (tg_msgids (c_tg d))"
  by (auto simp: acks_grow_def)

lemma acks_simps [simp]:
  "acks_grow (set_timediff c) d = acks_grow c d" "acks_grow c (set_timediff d) = acks_grow c d"
  "acks_grow c (d\<lparr>c_updates := u\<rparr>) = acks_grow c d" "acks_grow c (add_msgid i c)"
  by (auto simp: acks_grow_def set_timediff_def add_msgid_def tg_add_msgid_def)

lemma step_acks:
  "cut_query E i c = Some (r, d) \<Longrightarrow> acks_grow c d"
  "on_done p t c = Some d \<Longrightarrow> acks_grow c d"
  "stop_loop p c = Some d \<Longrightarrow> acks_grow c d"
  by (auto simp: acks_grow_def cut_query_def on_done_def stop_loop_def with_query_def bind_eq_Some_conv split: if_splits)

lemma catched_acks: "catched_tl E i t c = Some d \<Longrightarrow> acks_grow c d"
proof -
  assume d: "catched_tl E i t c = Some d"
  have "whenever (catched_tl E i t c) (acks_grow c)"
    unfolding catched_tl_def catched_gzip_def
    by (intro whenever_rules) (auto simp: whenever_def dest!: step_acks, (blast intro: acks_trans)+)
  with d show ?thesis
    by (simp add: whenever_def)
qed

text \<open>What the messages of a container must be for the loop not to be undefined.\<close>

fun msg_id_of :: "fval \<Rightarrow> u64 option" where
  "msg_id_of (FMsg i q k bd) = Some i"
| "msg_id_of _ = None"

lemma handle_acks:
  "handle_tl E n t c = Some d \<Longrightarrow> acks_grow c d"
  "handle_msgs E n ms c = Some d \<Longrightarrow> acks_grow c d \<and>
     (tg_msgidsm (c_tg c) \<longrightarrow> list_all (\<lambda>m. \<exists>i. msg_id_of m = Some i \<and> i \<in> set (tg_msgids (c_tg d))) ms)"
proof (induction E n t c and E n ms c arbitrary: d and d rule: handle_tl_handle_msgs.induct)
  case (1 E t c)
  then show ?case by simp
next
  case (2 E n t c)
  show ?case
  proof (cases t)
    case None
    with 2 show ?thesis by simp
  next
    case (Some x)
    with 2 show ?thesis
      by (auto simp: bind_eq_Some_conv split: if_splits dest: catched_acks)
  qed
next
  case (3 E n c)
  then show ?case by simp
next
  case (4 E n m ms c)
  then obtain i q k bd where m: "m = FMsg i q k bd"
    by (auto split: fval.splits)
  with 4 obtain b u e where e: "own_buf bd = Some b" "deserialize E b = Some u"
    "handle_tl E n u (add_msgid i c) = Some e" "handle_msgs E n ms e = Some d"
    by (auto simp: bind_eq_Some_conv)
  have h: "acks_grow (add_msgid i c) e"
    by (rule 4(1) [OF m e(1,2,3)])
  have t: "acks_grow e d" "tg_msgidsm (c_tg e) \<longrightarrow> list_all (\<lambda>m. \<exists>i. msg_id_of m = Some i \<and> i \<in> set (tg_msgids (c_tg d))) ms"
    using 4(2) [OF m e(1,2,3) e(4)] by simp_all
  have i: "i \<in> set (tg_msgids (c_tg d))" if "tg_msgidsm (c_tg c)"
    by (rule acks_mono [OF t(1)], rule acks_mono [OF h]) (use that in \<open>simp add: add_msgid_def tg_add_msgid_def\<close>)
  have "tg_msgidsm (c_tg e) = tg_msgidsm (c_tg c)"
    using h by (simp add: acks_grow_def add_msgid_def tg_add_msgid_def)
  with i t h show ?case
    by (auto simp: m intro: acks_trans [OF acks_trans [OF acks_simps(4) h] t(1)])
qed

section \<open>Sending again\<close>

text \<open>The fields of the session that decide on a container are not touched before it is built.\<close>

lemma fill_frees: "open_session E t = Some u \<Longrightarrow> header_frees u = header_frees t"
  "fill_ssid t = Some u \<Longrightarrow> header_frees u = header_frees t" "fill_salt t = Some u \<Longrightarrow> header_frees u = header_frees t"
  by (auto simp: open_session_def fill_ssid_def fill_salt_def header_frees_def skip_rnd_def bind_eq_Some_conv
      split: if_splits prod.splits)

lemma prepare_id: "tg_prepare_query C b True (Some j) t = Some (w, i, t') \<Longrightarrow> i \<noteq> None"
  by (auto simp: tg_prepare_query_def tg_header_def bind_eq_Some_conv)

lemma send_store: "send E b c = Some (r, d) \<Longrightarrow> c_store d = c_store c"
  by (auto simp: send_def bind_eq_Some_conv split: if_splits)

text \<open>A send that got to the header marks the query as freed when acknowledgements were pending.\<close>

lemma tg_send_frees:
  assumes s: "tg_send E p c = Some (e, d)" and k: "e_queuem E" "header_frees (c_tg c)"
  shows "\<exists>q. c_store d p = Some q \<and> q_freed q"
proof -
  have "whenever (tg_send E p c) (\<lambda>(e, d). \<exists>q. c_store d p = Some q \<and> q_freed q)"
    unfolding tg_send_def
    by (intro whenever_rules)
      (auto simp: k fill_frees with_query_def bind_eq_Some_conv split: if_splits option.splits dest: prepare_id dest!: send_store)
  with s show ?thesis
    by (simp add: whenever_def)
qed

lemma tg_send_freed:
  assumes "c_store c p = Some q" and "q_freed q" and "e_queuem E"
  shows "tg_send E p c = None"
  using assms by (simp add: tg_send_def bind_eq_None_conv)

section \<open>Lists\<close>

text \<open>A run of list operations, on the heap and on the represented lists.\<close>

datatype 'a list_op = Add 'a | Cut "'a \<Rightarrow> bool"

fun run_heap :: "nat \<Rightarrow> 'a list_op list \<Rightarrow> 'a hlist \<Rightarrow> ('a option list \<times> 'a hlist) option" where
  "run_heap n [] l = Some ([], l)"
| "run_heap n (Add x # ops) l = run_heap n ops (snd (list_add False x l))"
| "run_heap n (Cut P # ops) l = do {
     (r, l) \<leftarrow> list_cut P n l;
     (rs, l) \<leftarrow> run_heap n ops l;
     Some (r # rs, l)
   }"

fun run_list :: "'a list_op list \<Rightarrow> 'a list \<Rightarrow> 'a option list \<times> 'a list" where
  "run_list [] xs = ([], xs)"
| "run_list (Add x # ops) xs = run_list ops (x # xs)"
| "run_list (Cut P # ops) xs = (let (rs, ys) = run_list ops (without_first P xs) in (first P xs # rs, ys))"

lemma hl_Nil: "hl l [] \<Longrightarrow> snd l = None"
  by (auto simp: hl_def elim: seg.elims)

lemma run_heap_ok:
  "hl l xs \<Longrightarrow> length xs + length ops < n \<Longrightarrow> run_list ops xs = (rs, ys) \<Longrightarrow>
     ok (run_heap n ops l) (\<lambda>(rs', l'). rs' = rs \<and> hl l' ys) \<and> length ys \<le> length xs + length ops"
proof (induction ops arbitrary: l xs rs)
  case Nil
  then show ?case by simp
next
  case (Cons op ops)
  show ?case
  proof (cases op)
    case (Add x)
    from Cons.IH [OF hls.add_rep [OF Cons.prems(1), of x]] Cons.prems(2,3) Add show ?thesis
      by simp
  next
    case (Cut P)
    have n: "length xs < n"
      using Cons.prems(2) by simp
    obtain l' where l': "list_cut P n l = Some (first P xs, l')" "hl l' (without_first P xs)"
      using hls.cut_rep [OF Cons.prems(1) n, of P] by (auto elim!: okE)
    obtain ss where r: "run_list ops (without_first P xs) = (ss, ys)" "rs = first P xs # ss"
      using Cons.prems(3) Cut by (auto split: prod.splits)
    have le: "length (without_first P xs) \<le> length xs"
      by (rule length_without_first)
    have "ok (run_heap n ops l') (\<lambda>(rs', l'). rs' = ss \<and> hl l' ys) \<and> length ys \<le> length (without_first P xs) + length ops"
      by (rule Cons.IH [OF l'(2) _ r(1)]) (use Cons.prems(2) le in simp)
    with Cut l'(1) r(2) le show ?thesis
      by (auto elim!: okE)
  qed
qed

section \<open>Cancelling\<close>

lemma stop_all_ok:
  "\<forall>p\<in>set ps. c_store c p \<noteq> None \<Longrightarrow>
     ok (stop_all E ps c) (\<lambda>d. c_list d = c_list c \<and> c_done d = c_done c \<and>
       (\<forall>p. c_store d p = (if e_qm E \<and> p \<in> set ps then map_option (\<lambda>q. q\<lparr>q_loop := False\<rparr>) (c_store c p) else c_store c p)))"
proof (induction ps arbitrary: c)
  case Nil
  then show ?case by simp
next
  case (Cons p ps)
  show ?case
  proof (cases "e_qm E")
    case True
    obtain q where q: "c_store c p = Some q"
      using Cons.prems by auto
    let ?d = "c\<lparr>c_store := (c_store c)(p \<mapsto> q\<lparr>q_loop := False\<rparr>)\<rparr>"
    have "\<forall>p\<in>set ps. c_store ?d p \<noteq> None"
      using Cons.prems by auto
    from Cons.IH [OF this] True q show ?thesis
      by (auto simp: stop_loop_def with_query_def elim!: ok_mono)
  next
    case False
    with Cons.IH [of c] Cons.prems show ?thesis
      by simp
  qed
qed

lemma cancell_all_ok:
  assumes q: "qinv E c xs" and e: "e_queuem E" "e_qm E"
  shows "ok (tg_queue_cancell_all E c) (\<lambda>d. listed E d = Some [] \<and> cells (fst (c_list d)) = Map.empty \<and> c_done d = c_done c \<and>
    (\<forall>p. c_store d p = (if p \<in> set xs then map_option (\<lambda>q. q\<lparr>q_loop := False\<rparr>) (c_store c p) else c_store c p)))"
proof -
  have l: "list_for_each (e_fuel E) (snd (c_list c)) (fst (c_list c)) = Some xs" "hl (c_list c) xs" "length xs < e_fuel E"
    using q qinv_listed [OF q] by (auto simp: listed_def qinv_def)
  obtain d where d: "stop_all E xs c = Some d" "c_list d = c_list c" "c_done d = c_done c"
    "\<And>p. c_store d p = (if p \<in> set xs then map_option (\<lambda>q. q\<lparr>q_loop := False\<rparr>) (c_store c p) else c_store c p)"
    using stop_all_ok [of xs c E] q e(2) by (auto simp: qinv_def elim!: okE)
  obtain l' where l': "list_free (e_fuel E) (c_list c) = Some l'" "hl l' []" "cells (fst l') = Map.empty"
    using list_free_rep [OF l(2,3)] by (auto elim!: okE)
  have "list_for_each (e_fuel E) (snd l') (fst l') = Some []"
    using list_for_each_rep [OF l'(2), of "e_fuel E"] l(3) by simp
  then show ?thesis
    using e(1) l(1) l' d by (simp add: tg_queue_cancell_all_def listed_def)
qed

end
