(* ===== verification/QueueProps.thy ===== *)
theory QueueProps
  imports QueueFacts
begin

text \<open>
  The properties of the query engine (tg/queue.c) and of the lists it keeps (tg/list.h), with
  instances: a client with two running queries whose server answers the one with a pong.
\<close>

section \<open>Instances\<close>

definition d_pong :: method_t where
  "d_pong = \<lparr>m_name = ''pong'', m_id = id_pong, m_ret = Some ''Pong'',
     m_args = [\<lparr>arg_name = ''msg_id'', arg_type = Some ''long'', flagn = 0, flagb = 0\<rparr>,
       \<lparr>arg_name = ''ping_id'', arg_type = Some ''long'', flagn = 0, flagb = 0\<rparr>],
     m_nflags = 0\<rparr>"

definition demo_pong :: val where
  "demo_pong = VObj d_pong [VLong 0, VLong 77]"

definition demo_frame :: "byte list" where
  "demo_frame = answer_frame demo_crypto (replicate 256 7) 5 6 (20, 1) 0 demo_pong (replicate 16 0)"

definition demo_E :: env where
  "demo_E = \<lparr>e_crypto = demo_crypto, e_table = [d_rpc_result, d_pong], e_inflate = (\<lambda>_ _. (- 3, [])),
     e_handshake = (buf_new, buf_new, 0), e_queuem = True, e_qm = True, e_send = True, e_connect = True, e_sendq = True, e_samefd = True, e_fuel = 200\<rparr>"

text \<open>The frame arrives in two pieces.\<close>

definition demo_0 :: client where
  "demo_0 = \<lparr>c_tg = demo_tg, c_list = hl_empty, c_store = Map.empty,
     c_in = [RData (le_bytes 4 (104 :: u32)), RData (take 50 demo_frame), RData (drop 50 demo_frame)],
     c_out = [], c_done = [], c_updates = []\<rparr>"

definition demo_start :: "nat \<Rightarrow> client \<Rightarrow> client" where
  "demo_start p c = list_query p ((fill_query p demo_query True None c)\<lparr>c_out := c_out c @ [[0xee, 0xee, 0xee, 0xee]]\<rparr>)"

definition demo_2 :: client where
  "demo_2 = demo_start 1 (demo_start 0 demo_0)"

definition idle :: "client \<Rightarrow> bool" where
  "idle c \<longleftrightarrow> c_list c = hl_empty \<and> c_done c = []"

lemma idle_inv: "idle c \<Longrightarrow> 0 < e_fuel E \<Longrightarrow> qinv E c []"
  by (simp add: idle_def qinv_def hl_empty_rep)

lemma demo_idle: "idle demo_0"
  by (simp add: idle_def demo_0_def)

lemma demo_engine: "engine demo_E demo_0 2 demo_2"
proof -
  have o': "tg_net_open demo_E (fill_query p demo_query True None c) =
      Some ((fill_query p demo_query True None c)\<lparr>c_out := c_out c @ [[0xee, 0xee, 0xee, 0xee]]\<rparr>)" for p c
    by (simp add: tg_net_open_def demo_E_def fill_query_def)
  have "engine demo_E demo_0 (Suc 0) (demo_start 0 demo_0)"
    unfolding demo_start_def by (rule engine_start [OF engine_init _ _ o']) (simp_all add: demo_0_def)
  then have "engine demo_E demo_0 (Suc (Suc 0)) demo_2"
    unfolding demo_2_def demo_start_def [of 1]
    by (rule engine_start [OF _ _ _ o']) (simp_all add: demo_start_def demo_0_def list_query_def fill_query_def)
  then show ?thesis
    by (simp add: numeral_2_eq_2)
qed

lemma demo_listed: "listed demo_E demo_2 = Some [1, 0]"
  by (simp add: listed_def demo_2_def demo_start_def list_query_def fill_query_def demo_0_def demo_E_def hl_empty_def
      list_add_def eval_nat_numeral)

lemma demo_qinv: "qinv demo_E demo_2 [1, 0]"
proof -
  obtain xs where "qinv demo_E demo_2 xs"
    using engine_inv [OF demo_engine idle_inv [OF demo_idle]] by (auto simp: demo_E_def)
  with qinv_listed [OF this] demo_listed show ?thesis
    by simp
qed

definition demo_k :: queue_t where
  "demo_k = \<lparr>q_loop = True, q_msgid = 0, q_query = demo_query, q_freed = False, q_on_done = True, q_progress = None\<rparr>"

lemma demo_ready: "answer_ready demo_E demo_2 (replicate 256 7) [1, 0] 0 1 demo_k"
proof -
  have t: "c_tg demo_2 = demo_tg" "c_store demo_2 1 = Some demo_k" "e_crypto demo_E = demo_crypto" "e_queuem demo_E" "e_qm demo_E"
    by (simp_all add: demo_2_def demo_start_def list_query_def fill_query_def demo_0_def demo_k_def demo_E_def)
  then show ?thesis
    using demo_crypto_ok demo_tg_views(1) demo_sess demo_qinv
    by (simp add: answer_ready_def first_def cmp_msgid_def) (simp add: demo_k_def)
qed

lemma demo_answer_len: "length (enc_val (VObj d_rpc_result [VLong 0, demo_pong])) = 32"
  by (simp add: d_rpc_result_def demo_pong_def d_pong_def is_flags_def)

lemma demo_frame_len: "length demo_frame = 104"
  using demo_answer_len by (simp add: demo_frame_def answer_frame_def payload_length [OF demo_crypto_ok])

lemma kind_Object: "dop_kind ''Object'' = DObj"
  by code_simp

lemma demo_frame_eq: "demo_frame = answer_frame (e_crypto demo_E) (replicate 256 7) 5 6 (20, 1) 0
    (VObj d_pong [VLong 0, VLong 77]) (replicate 16 0)"
  by (simp add: demo_frame_def demo_E_def demo_pong_def)

lemma kind_long: "dop_kind ''long'' = DLong"
  by (simp add: dop_kind_def)

lemma pong_fits: "fits [d_rpc_result, d_pong] (VObj d_rpc_result [VLong 0, demo_pong])"
  by (simp add: d_rpc_result_def demo_pong_def d_pong_def obj_fits_def is_flags_def arg_fits_def op_fits_def kind_Object kind_long
      id_rpc_result_def id_pong_def)

section \<open>Properties\<close>







text \<open>An answer to a message no listed query sent changes nothing: no callback is called and
  every query is as before.\<close>

theorem unknown_answer_ignored:
  assumes "engine E c0 n c" and "idle c0" and "n < e_fuel E" and "listed E c = Some xs"
    and "list_all (\<lambda>p. map_option q_msgid (c_store c p) \<noteq> Some (fld_long x ''req_msg_id'')) xs"
    and "tl_id x = id_rpc_result"
  shows "ok (handle_tl E (Suc k) (Some x) c) (\<lambda>d. c_done d = c_done c \<and> c_store d = c_store c \<and> listed E d = Some xs)"
proof -
  obtain ys where "qinv E c ys"
    using engine_inv [OF assms(1) idle_inv [OF assms(2)] assms(3)] assms(3) by auto
  with assms(4) have q: "qinv E c xs"
    using qinv_listed by fastforce
  have "first (cmp_msgid (c_store c) (fld_long x ''req_msg_id'')) xs = None"
    using assms(5) by (auto simp: first_None cmp_msgid_def list_all_iff split: option.splits)
  from catched_tl_unknown [OF q this, of "fld_obj x ''result''"] show ?thesis
    using q assms(6) by (auto simp: id_defs qinv_def listed_def list_for_each_rep elim!: ok_mono)
qed

definition demo_stray :: tl_obj where
  "demo_stray = TL id_rpc_result [] [(''req_msg_id'', FLong 99), (''result'', FObj None)]"

theorem unknown_answer_ignored_witness:
  "ok (handle_tl demo_E (Suc 9) (Some demo_stray) demo_2)
    (\<lambda>d. c_done d = c_done demo_2 \<and> c_store d = c_store demo_2 \<and> listed demo_E d = Some [1, 0])"
proof (rule unknown_answer_ignored [OF demo_engine demo_idle _ demo_listed])
  show "list_all (\<lambda>p. map_option q_msgid (c_store demo_2 p) \<noteq> Some (fld_long demo_stray ''req_msg_id'')) [1, 0]"
    by (simp add: demo_2_def demo_start_def list_query_def fill_query_def demo_0_def demo_stray_def fld_long_def)
qed (simp_all add: demo_E_def demo_stray_def)


definition demo_container :: tl_obj where
  "demo_container = TL id_msg_container [] [(''messages'', FVec [FMsg 5 1 4 [0, 0, 0, 0], FMsg 6 2 4 [0, 0, 0, 0]])]"

lemma demo_container_handled:
  "ok (handle_tl demo_E 3 (Some demo_container) demo_0) (\<lambda>d. tg_msgids (c_tg d) = [11, 12, 5, 6])"
proof -
  have b: "ok (own_buf [0, 0, 0, 0]) (\<lambda>b. deserialize demo_E b = Some None)"
  proof -
    have "ok (own_buf [0, 0, 0, 0]) (\<lambda>b. owns b [0, 0, 0, 0])"
      using buf_add_ok [of 4 "[0, 0, 0, 0]"] by (simp add: own_buf_def) (auto elim!: ok_mono)
    then show ?thesis
    proof (rule ok_mono)
      fix b
      assume "owns b [0, 0, 0, 0 :: byte]"
      then have v: "views b [0, 0, 0, 0]"
        by (auto simp: owns_def)
      have "buf_get_ui32 b = Some 0"
        using buf_get_ok(1) [OF v] by (simp add: le_val_def)
      then show "deserialize demo_E b = Some None"
        by (simp add: deserialize_def demo_E_def eval_nat_numeral)
    qed
  qed
  moreover have "tg_msgids (c_tg demo_0) = [11, 12]" "tg_msgidsm (c_tg demo_0)"
    by (simp_all add: demo_0_def demo_tg_def)
  ultimately show ?thesis
    by (auto simp: numeral_3_eq_3 demo_container_def id_defs fld_vec_def add_msgid_def tg_add_msgid_def elim!: okE)
qed


text \<open>C14. Sending a query twice: a send that had acknowledgements to carry along frees the bytes
  of the query when it builds the container (header.c frees the buffer its caller owns), so
  sending the query again, which the receive loop does on bad_server_salt, reads freed
  memory: it has no defined result.\<close>

theorem resend_reads_freed:
  assumes "tg_send E p c = Some (e, d)" and "e_queuem E" and "tg_msgidsm (c_tg c)" and "tg_msgids (c_tg c) \<noteq> []"
  shows "tg_send E p d = None"
proof -
  obtain q where "c_store d p = Some q" "q_freed q"
    using tg_send_frees [OF assms(1,2)] assms(3,4) by (auto simp: header_frees_def)
  with assms(2) show ?thesis
    by (intro tg_send_freed)
qed

lemma demo_send_ready: "send_ready demo_E demo_2 (replicate 256 7) 1 demo_k"
  using demo_crypto_ok demo_tg_views(1) demo_sess demo_sendable
  by (simp add: send_ready_def demo_2_def demo_start_def list_query_def fill_query_def demo_0_def demo_k_def demo_E_def)

theorem resend_reads_freed_witness:
  "\<exists>d. tg_send demo_E 1 demo_2 = Some (False, d) \<and> tg_send demo_E 1 d = None"
proof -
  obtain d where d: "tg_send demo_E 1 demo_2 = Some (False, d)"
    using tg_send_ok [OF demo_send_ready] by (auto elim!: okE)
  have "c_tg demo_2 = demo_tg"
    by (simp add: demo_2_def demo_start_def list_query_def fill_query_def demo_0_def)
  with resend_reads_freed [OF d] d show ?thesis
    by (simp add: demo_E_def demo_tg_def)
qed

text \<open>C15. Sending: with a key, a salt and a session id, the engine puts exactly one frame on the
  socket, the transport frame of the encrypted header of the query; the query keeps the message
  identifier it went out with, by which its answer is recognised, and nothing else changes but
  the session's numbering.\<close>

theorem query_sent:
  assumes "send_ready E c kb p k"
  shows "ok (tg_send E p c) (\<lambda>(e, d). \<not> e \<and> (\<exists>out i tg'. header_out (view (q_query k)) True (c_tg c) = (out, i, tg') \<and>
    c_out d = c_out c @ [le_bytes 4 (of_nat (24 + length out) :: u32) @ mtproto2 (e_crypto E) 0 kb out] \<and>
    map_option q_msgid (c_store d p) = Some i \<and> c_tg d = tg' \<and> c_list d = c_list c \<and> c_done d = c_done c))"
  by (rule ok_mono [OF tg_send_ok [OF assms]]) auto

theorem query_sent_witness:
  "ok (tg_send demo_E 1 demo_2) (\<lambda>(e, d). \<not> e \<and> (\<exists>out i tg'. header_out (view (q_query demo_k)) True (c_tg demo_2) = (out, i, tg') \<and>
    c_out d = c_out demo_2 @ [le_bytes 4 (of_nat (24 + length out) :: u32) @ mtproto2 (e_crypto demo_E) 0 (replicate 256 7) out] \<and>
    map_option q_msgid (c_store d 1) = Some i \<and> c_tg d = tg' \<and> c_list d = c_list demo_2 \<and> c_done d = c_done demo_2))"
  by (rule query_sent [OF demo_send_ready])

text \<open>C16. A notice that the answer was sent already (msg_detailed_info) calls the callback of the
  query with no object and takes the query off the list, so that the answer itself finds no
  query any more; the callback of the synchronous call reads the object's bytes, which is
  undefined.\<close>

theorem detailed_info_breaks_sync:
  assumes "answer_ready E c kb xs j p k" and "tl_id x = id_msg_detailed_info" and "fld_long x ''answer_msg_id'' = j"
  shows "ok (handle_tl E (Suc n) (Some x) c) (\<lambda>d. c_done d = c_done c @ [(p, None)] \<and>
    sync_result E p (drop (length (c_done c)) (c_done d)) None = None \<and>
    (\<exists>ys. listed E d = Some ys \<and> p \<notin> set ys))"
proof -
  have r: "qinv E c xs" "e_queuem E" "e_qm E" "first (cmp_msgid (c_store c) j) xs = Some p" "c_store c p = Some k" "q_on_done k"
    using assms(1) by (simp_all add: answer_ready_def)
  obtain d where d: "cut_query E j c = Some (Some p, d)"
    using cut_query_ok [OF r(1), of j] r(4) by (auto elim!: okE)
  note f = cut_query_frame [OF r(1) d] and i = cut_query_keep [OF r(1) d]
  have "p \<notin> set (without_first (cmp_msgid (c_store c) j) xs)"
    using without_first_set [OF _ r(4)] r(1) by (auto simp: qinv_def)
  then show ?thesis
    using r d f(3,6) qinv_listed [OF i] assms(2,3)
    by (simp add: id_defs catched_tl_def on_done_def sync_cb_def listed_def)
qed

theorem detailed_info_breaks_sync_witness:
  "ok (handle_tl demo_E (Suc 0) (Some (TL id_msg_detailed_info [] [(''answer_msg_id'', FLong 0)])) demo_2)
    (\<lambda>d. c_done d = c_done demo_2 @ [(1, None)] \<and>
      sync_result demo_E 1 (drop (length (c_done demo_2)) (c_done d)) None = None \<and>
      (\<exists>ys. listed demo_E d = Some ys \<and> 1 \<notin> set ys))"
  by (rule detailed_info_breaks_sync [OF demo_ready]) (simp_all add: fld_long_def)

text \<open>C17. Cancelling all queries: every listed query is told to stop and no other is touched,
  the list is empty and all its cells are freed, and no callback is called.\<close>

theorem cancell_all_stops:
  assumes "engine E c0 n c" and "idle c0" and "n < e_fuel E" and "listed E c = Some xs" and "e_queuem E" and "e_qm E"
  shows "ok (tg_queue_cancell_all E c) (\<lambda>d. listed E d = Some [] \<and> cells (fst (c_list d)) = Map.empty \<and> c_done d = c_done c \<and>
    (\<forall>p. c_store d p = (if p \<in> set xs then map_option (\<lambda>q. q\<lparr>q_loop := False\<rparr>) (c_store c p) else c_store c p)))"
proof -
  obtain ys where "qinv E c ys"
    using engine_inv [OF assms(1) idle_inv [OF assms(2)] assms(3)] assms(3) by auto
  with assms(4) have "qinv E c xs"
    using qinv_listed by fastforce
  from cancell_all_ok [OF this assms(5,6)] show ?thesis .
qed

theorem cancell_all_stops_witness:
  "ok (tg_queue_cancell_all demo_E demo_2) (\<lambda>d. listed demo_E d = Some [] \<and> cells (fst (c_list d)) = Map.empty \<and>
    c_done d = c_done demo_2 \<and> (\<forall>p. c_store d p =
      (if p \<in> set [1, 0] then map_option (\<lambda>q. q\<lparr>q_loop := False\<rparr>) (c_store demo_2 p) else c_store demo_2 p)))"
  by (rule cancell_all_stops [OF demo_engine demo_idle _ demo_listed]) (simp_all add: demo_E_def)

text \<open>C18. The linked list: over any sequence of insertions and removals from the empty list, the
  heap operations are defined, never touch a freed cell, remove and return the first item that
  matches, and represent what the same sequence gives on lists; freeing the list then leaves no
  cell allocated.\<close>

theorem heap_lists_refine:
  assumes "length ops < n" and "run_list ops [] = (rs, ys)"
  shows "ok (run_heap n ops hl_empty) (\<lambda>(rs', l). rs' = rs \<and> list_for_each (Suc n) (snd l) (fst l) = Some ys \<and>
    ok (list_free (Suc n) l) (\<lambda>l'. snd l' = None \<and> cells (fst l') = Map.empty))"
proof -
  note r = run_heap_ok [OF hl_empty_rep, of ops n rs ys]
  have free: "ok (list_free (Suc n) l) (\<lambda>l'. snd l' = None \<and> cells (fst l') = Map.empty)" if "hl l ys" for l
    using list_free_rep [OF that, of "Suc n"] r assms by (auto elim!: ok_mono dest: hl_Nil)
  have each: "list_for_each (Suc n) (snd l) (fst l) = Some ys" if "hl l ys" for l
    by (rule list_for_each_rep [OF that]) (use r assms in simp)
  show ?thesis
    by (rule ok_mono [OF r [THEN conjunct1]]) (use assms in \<open>simp_all add: split_def free each del: list_for_each.simps\<close>)
qed

theorem heap_lists_refine_witness:
  "ok (run_heap 4 [Add (1 :: nat), Add 2, Cut even] hl_empty) (\<lambda>(rs', l). rs' = [Some 2] \<and>
    list_for_each (Suc 4) (snd l) (fst l) = Some [1] \<and>
    ok (list_free (Suc 4) l) (\<lambda>l'. snd l' = None \<and> cells (fst l') = Map.empty))"
  by (rule heap_lists_refine) (simp_all add: first_def)

end
