(* ===== verification/QueryProps.thy ===== *)
theory QueryProps
  imports QuerySpec QueueProps
begin

text \<open>
  The properties of the blocking query engine (tg/send_query.c, tg/answer.c).
\<close>

section \<open>Instances\<close>

definition blocking_frame :: "byte list" where
  "blocking_frame = answer_frame demo_crypto (replicate 256 7) 5 6 (20, 1) 4096 demo_pong (replicate 16 0)"

definition blocking_client :: client where
  "blocking_client = demo_0\<lparr>c_in := [RData (le_bytes 4 (104 :: u32)), RData blocking_frame, RData [1]]\<rparr>"

lemma blocking_ready: "query_ready demo_E blocking_client (replicate 256 7) demo_query"
  using demo_crypto_ok demo_tg_views(1) demo_sess demo_sendable
  by (simp add: query_ready_def blocking_client_def demo_0_def demo_E_def)

lemma blocking_id: "fst (snd (header_out (view demo_query) True (c_tg blocking_client))) = 4096"
  by (simp add: header_out_def header_body_def new_container_def new_msg_def blocking_client_def demo_0_def demo_tg_def
      tg_get_current_time_def next_now_def next_seqno_def split_def Let_def)

lemma blocking_len: "length (enc_val (VObj d_rpc_result [VLong 4096, demo_pong])) = 32"
  by (simp add: d_rpc_result_def demo_pong_def d_pong_def is_flags_def)

lemma blocking_frame_len: "length blocking_frame = 104"
  using blocking_len by (simp add: blocking_frame_def answer_frame_def payload_length [OF demo_crypto_ok])

lemma blocking_frame_eq: "blocking_frame = answer_frame (e_crypto demo_E) (replicate 256 7) 5 6 (20, 1) 4096
    (VObj d_pong [VLong 0, VLong 77]) (replicate 16 0)"
  by (simp add: blocking_frame_def demo_E_def demo_pong_def)

lemma blocking_fits: "fits [d_rpc_result, d_pong] (VObj d_rpc_result [VLong 4096, demo_pong])"
  by (simp add: d_rpc_result_def demo_pong_def d_pong_def obj_fits_def is_flags_def arg_fits_def op_fits_def kind_Object kind_long
      id_rpc_result_def id_pong_def)

section \<open>Properties\<close>



text \<open>C20. Whatever the server sends, and after any number of resends, the blocking call returns no
  salt notice, no acknowledgement and no update.\<close>

theorem blocking_returns_answers:
  assumes "tg_send_query E query c = Some (Some t, d)"
  shows "tl_id t \<noteq> id_bad_server_salt \<and> tl_id t \<noteq> id_msgs_ack \<and> tl_id t \<notin> set ids_updates"
  using send_query_returned [of E "e_fuel E" query False c] assms
  by (auto simp: tg_send_query_def returned_def whenever_def)

theorem blocking_returns_answers_witness:
  "\<exists>t d. tg_send_query demo_E demo_query blocking_client = Some (Some t, d) \<and>
     tl_id t \<noteq> id_bad_server_salt \<and> tl_id t \<noteq> id_msgs_ack \<and> tl_id t \<notin> set ids_updates"
proof -
  obtain out i tg' where h: "header_out (view demo_query) True (c_tg blocking_client) = (out, i, tg')"
    by (rule prod_cases3)
  then have i: "i = 4096"
    using blocking_id by simp
  have "ok (tg_send_query demo_E demo_query blocking_client) (\<lambda>(x, d). \<exists>t. x = Some t)"
    by (rule ok_mono [OF send_query_answer [OF blocking_ready h [unfolded i] _ blocking_frame_eq,
          where es = "[RData blocking_frame, RData [1]]" and rest = "[1]"]])
      (use blocking_frame_len blocking_len blocking_fits in \<open>auto simp: demo_E_def demo_pong_def d_pong_def id_defs
        returned_def blocking_client_def flowing_def stream_def\<close>)
  then obtain t d where t: "tg_send_query demo_E demo_query blocking_client = Some (Some t, d)"
    by (auto elim!: okE)
  from t blocking_returns_answers [OF t] show ?thesis
    by blast
qed

text \<open>C21. An answer that is itself an update (as messages.sendMessage returns) is dropped: the
  blocking call neither returns it nor hands it to the updates, and goes on reading.\<close>

theorem update_answer_dropped:
  assumes "fits (e_table E) (VObj d_rpc_result [VLong i, VObj m vs])" and "depth (VObj m vs) < e_fuel E"
    and "owns b (enc_val (VObj d_rpc_result [VLong i, VObj m vs]))" and "m_id m \<in> set ids_updates"
  shows "ok (via_frame E i b c) (\<lambda>(s, d). s = VAgain \<and> c_updates d = c_updates c)"
proof -
  have g: "m_id m \<noteq> id_gzip_packed" "m_id m \<noteq> id_bad_server_salt"
    using assms(4) by (auto simp: id_defs)
  show ?thesis
    by (rule ok_mono [OF via_frame_answer [OF assms(1-3) g(1)]]) (use g(2) assms(4) in \<open>auto simp: fate_def add_msgid_def\<close>)
qed

definition d_updatesTooLong :: method_t where
  "d_updatesTooLong = \<lparr>m_name = ''updatesTooLong'', m_id = 0xe317af7e, m_ret = Some ''Updates'', m_args = [], m_nflags = 0\<rparr>"

theorem update_answer_dropped_witness:
  "ok (via_frame (demo_E\<lparr>e_table := [d_rpc_result, d_updatesTooLong]\<rparr>) 4096
      (buf_of (enc_val (VObj d_rpc_result [VLong 4096, VObj d_updatesTooLong []]))) demo_0)
    (\<lambda>(s, d). s = VAgain \<and> c_updates d = c_updates demo_0)"
proof (rule update_answer_dropped)
  show "fits (e_table (demo_E\<lparr>e_table := [d_rpc_result, d_updatesTooLong]\<rparr>)) (VObj d_rpc_result [VLong 4096, VObj d_updatesTooLong []])"
    by (simp add: d_rpc_result_def d_updatesTooLong_def obj_fits_def is_flags_def arg_fits_def op_fits_def kind_Object kind_long
        id_rpc_result_def)
  show "owns (buf_of (enc_val (VObj d_rpc_result [VLong 4096, VObj d_updatesTooLong []])))
      (enc_val (VObj d_rpc_result [VLong 4096, VObj d_updatesTooLong []]))"
    by (rule buf_of_owns) (simp add: d_rpc_result_def d_updatesTooLong_def is_flags_def)
qed (simp_all add: demo_E_def d_updatesTooLong_def ids_updates_def)

end
