(* ===== verification/Hash.thy ===== *)
theory Hash
  imports Prelude
begin

text \<open>
  What the two hash functions share: messages cut into blocks of 64 bytes, streams that take a
  message byte by byte (\<^theory_text>\<open>byte_stream\<close>), and the padding loop.
\<close>

section \<open>Blocks\<close>

definition blocks :: "byte list \<Rightarrow> byte list list" where
  "blocks m = map (\<lambda>k. take 64 (drop (64 * k) m)) [0..<length m div 64]"

text \<open>The bytes after the last full block.\<close>

definition tail_of :: "byte list \<Rightarrow> byte list" where
  "tail_of m = drop (64 * (length m div 64)) m"

lemma length_tail_of [simp]: "length (tail_of m) = length m mod 64"
  by (simp add: tail_of_def minus_mult_div_eq_mod)

lemma blocks_Nil [simp]: "blocks [] = []" "tail_of [] = []"
  by (simp_all add: blocks_def tail_of_def)

lemma blocks_prefix: "length m div 64 = n \<Longrightarrow>
    map (\<lambda>k. take 64 (drop (64 * k) (m @ bs))) [0..<n] = blocks m"
  by (auto simp: blocks_def)

lemma blocks_snoc:
  assumes "length m mod 64 \<noteq> 63"
  shows "blocks (m @ [b]) = blocks m" and "tail_of (m @ [b]) = tail_of m @ [b]"
proof -
  have "Suc (length m) mod 64 \<noteq> 0"
    using assms by (simp add: mod_Suc)
  then have d: "Suc (length m) div 64 = length m div 64"
    by (simp add: div_Suc)
  have "64 * (length m div 64) \<le> length m"
    by simp
  with d show "tail_of (m @ [b]) = tail_of m @ [b]"
    by (simp add: tail_of_def)
  show "blocks (m @ [b]) = blocks m"
    using blocks_prefix [of m _ "[b]"] d by (simp add: blocks_def [of "m @ [b]"])
qed

lemma blocks_snoc_full:
  assumes "length m mod 64 = 63"
  shows "blocks (m @ [b]) = blocks m @ [tail_of m @ [b]]" and "tail_of (m @ [b]) = []"
proof -
  have d: "Suc (length m) div 64 = Suc (length m div 64)"
    using assms by (simp add: div_Suc mod_Suc)
  have l: "length m = 64 * (length m div 64) + 63"
    using mult_div_mod_eq [of 64 "length m"] assms by simp
  have "take 64 (drop (64 * (length m div 64)) (m @ [b])) = tail_of m @ [b]"
    using l by (simp add: tail_of_def)
  then show "blocks (m @ [b]) = blocks m @ [tail_of m @ [b]]"
    using blocks_prefix [of m "length m div 64" "[b]"] d by (simp add: blocks_def [of "m @ [b]"])
  show "tail_of (m @ [b]) = []"
    using d l by (simp add: tail_of_def)
qed

text \<open>The words of a block are big-endian.\<close>

definition be_word :: "byte list \<Rightarrow> nat \<Rightarrow> u32" where
  "be_word bl t = le_val (rev (take 4 (drop (4 * t) bl)))"

section \<open>Streams\<close>

fun append_all :: "(byte \<Rightarrow> 's \<Rightarrow> 's option) \<Rightarrow> byte list \<Rightarrow> 's \<Rightarrow> 's option" where
  "append_all app [] s = Some s"
| "append_all app (b # bs) s = do { s \<leftarrow> app b s; append_all app bs s }"

text \<open>Zeros until 56 bytes are in the block; the count comes round within 64 steps.\<close>

fun pad_loop :: "(byte \<Rightarrow> 's \<Rightarrow> 's option) \<Rightarrow> ('s \<Rightarrow> nat) \<Rightarrow> nat \<Rightarrow> 's \<Rightarrow> 's option" where
  "pad_loop app cnt 0 s = None"
| "pad_loop app cnt (Suc n) s =
     (if cnt s \<noteq> 56 then do { s \<leftarrow> app 0 s; pad_loop app cnt n s } else Some s)"

text \<open>The number of zeros after a message and the byte 0x80.\<close>

definition zeros :: "nat \<Rightarrow> nat" where
  "zeros n = (119 - n mod 64) mod 64"

lemma zeros_less: "zeros n < 64"
  by (simp add: zeros_def)

lemma zeros_aligned: "(n + 1 + zeros n) mod 64 = 56"
proof -
  have r: "n mod 64 < 64" "n = 64 * (n div 64) + n mod 64"
    by simp_all
  have "(n + 1 + zeros n) mod 64 = (n + 1 + (119 - n mod 64)) mod 64"
    unfolding zeros_def by (rule mod_add_right_eq)
  also have "n + 1 + (119 - n mod 64) = 120 + 64 * (n div 64)"
    using r by linarith
  finally show ?thesis
    by simp
qed

locale byte_stream =
  fixes rep :: "'s \<Rightarrow> byte list \<Rightarrow> bool"
    and app :: "byte \<Rightarrow> 's \<Rightarrow> 's option"
    and cnt :: "'s \<Rightarrow> nat"
  assumes app_rep: "rep s m \<Longrightarrow> ok (app b s) (\<lambda>s'. rep s' (m @ [b]))"
    and cnt_rep: "rep s m \<Longrightarrow> cnt s = length m mod 64"
begin

lemma append_all_rep: "rep s m \<Longrightarrow> ok (append_all app bs s) (\<lambda>s'. rep s' (m @ bs))"
proof (induction bs arbitrary: s m)
  case Nil
  then show ?case by simp
next
  case (Cons b bs)
  show ?case
    unfolding append_all.simps
  proof (rule ok_bind [OF app_rep [OF Cons.prems]])
    fix s'
    assume "rep s' (m @ [b])"
    from Cons.IH [OF this] show "ok (append_all app bs s') (\<lambda>s'. rep s' (m @ b # bs))"
      by simp
  qed
qed

lemma pad_loop_rep:
  "rep s m \<Longrightarrow> z < n \<Longrightarrow> z < 64 \<Longrightarrow> (length m + z) mod 64 = 56 \<Longrightarrow>
     ok (pad_loop app cnt n s) (\<lambda>s'. rep s' (m @ replicate z 0))"
proof (induction z arbitrary: n s m)
  case 0
  then show ?case
    by (cases n) (simp_all add: cnt_rep)
next
  case (Suc z)
  obtain k where k: "n = Suc k"
    using Suc.prems(2) by (cases n) simp_all
  have c: "length m mod 64 \<noteq> 56"
  proof
    assume "length m mod 64 = 56"
    with Suc.prems(4) have "(56 + Suc z) mod 64 = 56"
      by (metis mod_add_left_eq)
    with Suc.prems(3) show False
      by (simp add: mod_if split: if_splits)
  qed
  have "ok (app 0 s \<bind> pad_loop app cnt k) (\<lambda>s'. rep s' (m @ replicate (Suc z) 0))"
  proof (rule ok_bind [OF app_rep [OF Suc.prems(1)]])
    fix s'
    assume "rep s' (m @ [0])"
    from Suc.IH [OF this, of k] Suc.prems k show "ok (pad_loop app cnt k s') (\<lambda>s'. rep s' (m @ replicate (Suc z) 0))"
      by simp
  qed
  with c show ?case
    by (simp add: k cnt_rep [OF Suc.prems(1)])
qed

text \<open>The mark and the zeros.\<close>

lemma mark_rep:
  assumes "rep s m"
  shows "ok (app 0x80 s \<bind> pad_loop app cnt 64) (\<lambda>s'. rep s' (m @ 0x80 # replicate (zeros (length m)) 0))"
proof (rule ok_bind [OF app_rep [OF assms]])
  fix s'
  assume "rep s' (m @ [0x80])"
  from pad_loop_rep [OF this zeros_less [of "length m"] zeros_less [of "length m"]]
  show "ok (pad_loop app cnt 64 s') (\<lambda>s'. rep s' (m @ 0x80 # replicate (zeros (length m)) 0))"
    using zeros_aligned [of "length m"] by simp
qed

end

end
