(* ===== verification/Sha256.thy ===== *)
theory Sha256
  imports Hash
begin

text \<open>
  SHA-256 as mtx/src/sha256.c computes it: a state that takes the message byte by byte, a message
  schedule of sixteen words updated in place, and rounds that rotate the roles of the variables
  instead of their values.
\<close>

unbundle bit_operations_syntax

record sha256 =
  state :: "u32 list"
  buffer :: "byte list"
  n_bits :: u64
  buffer_counter :: byte

definition rotr :: "u32 \<Rightarrow> nat \<Rightarrow> u32" where
  "rotr x n = drop_bit n x OR push_bit (32 - n) x"

definition step1 :: "u32 \<Rightarrow> u32 \<Rightarrow> u32 \<Rightarrow> u32" where
  "step1 e f g = (rotr e 6 XOR rotr e 11 XOR rotr e 25) + ((e AND f) XOR (NOT e AND g))"

definition step2 :: "u32 \<Rightarrow> u32 \<Rightarrow> u32 \<Rightarrow> u32" where
  "step2 a b c = (rotr a 2 XOR rotr a 13 XOR rotr a 22) + ((a AND b) XOR (a AND c) XOR (b AND c))"

text \<open>The sixteen words: the block's words at first, then the next sixteen, each from the words
  that are there.\<close>

definition load_word :: "byte list \<Rightarrow> nat \<Rightarrow> u32" where
  "load_word bf j = push_bit 24 (ucast (bf ! (4 * j))) OR push_bit 16 (ucast (bf ! (4 * j + 1))) OR
     push_bit 8 (ucast (bf ! (4 * j + 2))) OR ucast (bf ! (4 * j + 3))"

definition update_word :: "nat \<Rightarrow> byte list \<Rightarrow> u32 list \<Rightarrow> nat \<Rightarrow> u32 list" where
  "update_word i bf w j =
     (if i < 16 then w[j := load_word bf j]
      else (let a = w ! ((j + 1) mod 16); b = w ! ((j + 14) mod 16);
                s0 = rotr a 7 XOR rotr a 18 XOR drop_bit 3 a;
                s1 = rotr b 17 XOR rotr b 19 XOR drop_bit 10 b in
            w[j := w ! j + (w ! ((j + 9) mod 16) + s0 + s1)]))"

definition update_w :: "u32 list \<Rightarrow> nat \<Rightarrow> byte list \<Rightarrow> u32 list" where
  "update_w w i bf = foldl (update_word i bf) w [0..<16]"

text \<open>The table, in rows as the code writes it.\<close>

definition k256 :: "u32 list" where
  "k256 = concat [
     [0x428a2f98, 0x71374491, 0xb5c0fbcf, 0xe9b5dba5], [0x3956c25b, 0x59f111f1, 0x923f82a4, 0xab1c5ed5],
     [0xd807aa98, 0x12835b01, 0x243185be, 0x550c7dc3], [0x72be5d74, 0x80deb1fe, 0x9bdc06a7, 0xc19bf174],
     [0xe49b69c1, 0xefbe4786, 0x0fc19dc6, 0x240ca1cc], [0x2de92c6f, 0x4a7484aa, 0x5cb0a9dc, 0x76f988da],
     [0x983e5152, 0xa831c66d, 0xb00327c8, 0xbf597fc7], [0xc6e00bf3, 0xd5a79147, 0x06ca6351, 0x14292967],
     [0x27b70a85, 0x2e1b2138, 0x4d2c6dfc, 0x53380d13], [0x650a7354, 0x766a0abb, 0x81c2c92e, 0x92722c85],
     [0xa2bfe8a1, 0xa81a664b, 0xc24b8b70, 0xc76c51a3], [0xd192e819, 0xd6990624, 0xf40e3585, 0x106aa070],
     [0x19a4c116, 0x1e376c08, 0x2748774c, 0x34b0bcb5], [0x391c0cb3, 0x4ed8aa4a, 0x5b9cca4f, 0x682e6ff3],
     [0x748f82ee, 0x78a5636f, 0x84c87814, 0x8cc70208], [0x90befffa, 0xa4506ceb, 0xbef9a3f7, 0xc67178f2]]"

type_synonym vars = "u32 \<times> u32 \<times> u32 \<times> u32 \<times> u32 \<times> u32 \<times> u32 \<times> u32"

text \<open>Four rounds: the variables a to h keep their places, their roles move on.\<close>

definition quad :: "nat \<Rightarrow> u32 list \<Rightarrow> vars \<Rightarrow> nat \<Rightarrow> vars" where
  "quad i w s j = (case s of (a, b, c, d, e, f, g, h) \<Rightarrow>
     let temp = h + step1 e f g + k256 ! (i + j + 0) + w ! (j + 0); h = temp + d; d = temp + step2 a b c;
         temp = g + step1 h e f + k256 ! (i + j + 1) + w ! (j + 1); g = temp + c; c = temp + step2 d a b;
         temp = f + step1 g h e + k256 ! (i + j + 2) + w ! (j + 2); f = temp + b; b = temp + step2 c d a;
         temp = e + step1 f g h + k256 ! (i + j + 3) + w ! (j + 3); e = temp + a; a = temp + step2 b c d in
     (a, b, c, d, e, f, g, h))"

definition sixteen :: "byte list \<Rightarrow> u32 list \<times> vars \<Rightarrow> nat \<Rightarrow> u32 list \<times> vars" where
  "sixteen bf ws i = (let w = update_w (fst ws) i bf in (w, foldl (quad i w) (snd ws) [0, 4, 8, 12]))"

definition vars_of :: "u32 list \<Rightarrow> vars" where
  "vars_of st = (st ! 0, st ! 1, st ! 2, st ! 3, st ! 4, st ! 5, st ! 6, st ! 7)"

definition list_of :: "vars \<Rightarrow> u32 list" where
  "list_of s = (case s of (a, b, c, d, e, f, g, h) \<Rightarrow> [a, b, c, d, e, f, g, h])"

text \<open>The sixteen words are uninitialised before they are written; the model takes zeros.\<close>

definition sha256_block :: "sha256 \<Rightarrow> sha256" where
  "sha256_block sha =
     (let (w, s) = foldl (sixteen (buffer sha)) (replicate 16 0, vars_of (state sha)) [0, 16, 32, 48] in
      sha\<lparr>state := map2 (+) (state sha) (list_of s)\<rparr>)"

definition sha256_init :: "sha256 \<Rightarrow> sha256" where
  "sha256_init sha = sha\<lparr>state := [0x6a09e667, 0xbb67ae85, 0x3c6ef372, 0xa54ff53a, 0x510e527f, 0x9b05688c, 0x1f83d9ab, 0x5be0cd19],
     n_bits := 0, buffer_counter := 0\<rparr>"

text \<open>A write outside the buffer is undefined.\<close>

definition sha256_append_byte :: "byte \<Rightarrow> sha256 \<Rightarrow> sha256 option" where
  "sha256_append_byte b sha =
     (if unat (buffer_counter sha) < 64
      then (let sha = sha\<lparr>buffer := (buffer sha)[unat (buffer_counter sha) := b],
                 buffer_counter := buffer_counter sha + 1, n_bits := n_bits sha + 8\<rparr> in
            if buffer_counter sha = 64 then Some (sha256_block (sha\<lparr>buffer_counter := 0\<rparr>)) else Some sha)
      else None)"

definition sha256_append :: "byte list \<Rightarrow> sha256 \<Rightarrow> sha256 option" where
  "sha256_append src sha = append_all sha256_append_byte src sha"

definition sha256_finalize :: "sha256 \<Rightarrow> sha256 option" where
  "sha256_finalize sha = (let n = n_bits sha in do {
     sha \<leftarrow> sha256_append_byte 0x80 sha;
     sha \<leftarrow> pad_loop sha256_append_byte (\<lambda>s. unat (buffer_counter s)) 64 sha;
     append_all sha256_append_byte (map (\<lambda>i. ucast (drop_bit (8 * i) n AND 0xff)) [7, 6, 5, 4, 3, 2, 1, 0]) sha
   })"

definition sha256_finalize_bytes :: "sha256 \<Rightarrow> byte list option" where
  "sha256_finalize_bytes sha = do {
     sha \<leftarrow> sha256_finalize sha;
     Some (concat (map (\<lambda>i. map (\<lambda>j. ucast (drop_bit (j * 8) (state sha ! i) AND 0xff)) [3, 2, 1, 0]) [0..<8]))
   }"

definition sha256_finalize_hex :: "sha256 \<Rightarrow> string option" where
  "sha256_finalize_hex sha = do {
     sha \<leftarrow> sha256_finalize sha;
     Some (concat (map (\<lambda>i. map (\<lambda>j. ''0123456789abcdef'' ! unat (drop_bit (j * 4) (state sha ! i) AND 0xf))
       [7, 6, 5, 4, 3, 2, 1, 0]) [0..<8]))
   }"

text \<open>A structure on the stack: its bytes are indeterminate before sha256_init, the model takes any.\<close>

definition sha256_bytes :: "sha256 \<Rightarrow> byte list \<Rightarrow> byte list option" where
  "sha256_bytes sha src = do { sha \<leftarrow> sha256_append src (sha256_init sha); sha256_finalize_bytes sha }"

definition sha256_hex :: "sha256 \<Rightarrow> byte list \<Rightarrow> string option" where
  "sha256_hex sha src = do { sha \<leftarrow> sha256_append src (sha256_init sha); sha256_finalize_hex sha }"

end
