(* ===== verification/Sha256Spec.thy ===== *)
theory Sha256Spec
  imports Sha256
begin

text \<open>
  SHA-256 of FIPS 180-4, and that the code computes it: the schedule updated in place holds the
  words of the standard's schedule, four rounds with moving roles are four rounds of the
  standard, and the bytewise stream hashes the blocks of the padded message.
\<close>

section \<open>The standard\<close>

definition Ch :: "u32 \<Rightarrow> u32 \<Rightarrow> u32 \<Rightarrow> u32" where "Ch x y z = (x AND y) XOR (NOT x AND z)"
definition Maj :: "u32 \<Rightarrow> u32 \<Rightarrow> u32 \<Rightarrow> u32" where "Maj x y z = (x AND y) XOR (x AND z) XOR (y AND z)"
definition Sum0 :: "u32 \<Rightarrow> u32" where "Sum0 x = word_rotr 2 x XOR word_rotr 13 x XOR word_rotr 22 x"
definition Sum1 :: "u32 \<Rightarrow> u32" where "Sum1 x = word_rotr 6 x XOR word_rotr 11 x XOR word_rotr 25 x"
definition sig0 :: "u32 \<Rightarrow> u32" where "sig0 x = word_rotr 7 x XOR word_rotr 18 x XOR drop_bit 3 x"
definition sig1 :: "u32 \<Rightarrow> u32" where "sig1 x = word_rotr 17 x XOR word_rotr 19 x XOR drop_bit 10 x"

fun W :: "byte list \<Rightarrow> nat \<Rightarrow> u32" where
  "W bl t = (if t < 16 then be_word bl t else sig1 (W bl (t - 2)) + W bl (t - 7) + sig0 (W bl (t - 15)) + W bl (t - 16))"

declare W.simps [simp del]

definition round256 :: "byte list \<Rightarrow> vars \<Rightarrow> nat \<Rightarrow> vars" where
  "round256 bl s t = (case s of (a, b, c, d, e, f, g, h) \<Rightarrow>
     let T1 = h + Sum1 e + Ch e f g + k256 ! t + W bl t; T2 = Sum0 a + Maj a b c in
     (T1 + T2, a, b, c, d + T1, e, f, g))"

definition compress256 :: "u32 list \<Rightarrow> byte list \<Rightarrow> u32 list" where
  "compress256 H bl = map2 (+) H (list_of (foldl (round256 bl) (vars_of H) [0..<64]))"

definition H256 :: "u32 list" where
  "H256 = [0x6a09e667, 0xbb67ae85, 0x3c6ef372, 0xa54ff53a, 0x510e527f, 0x9b05688c, 0x1f83d9ab, 0x5be0cd19]"

text \<open>The padded message: a one bit, zeros to 56 bytes modulo 64, the length in bits as 64 bits,
  big-endian.\<close>

definition padded :: "byte list \<Rightarrow> byte list" where
  "padded m = m @ 0x80 # replicate (zeros (length m)) 0 @ rev (le_bytes 8 (of_nat (8 * length m) :: u64))"

definition fips_sha256 :: "byte list \<Rightarrow> byte list" where
  "fips_sha256 m = concat (map (\<lambda>w. rev (le_bytes 4 w)) (foldl compress256 H256 (blocks (padded m))))"

section \<open>Words\<close>

lemma rotr_word: "n < 32 \<Longrightarrow> rotr x n = word_rotr n x"
proof (rule bit_word_eqI)
  fix k
  assume n: "n < 32" and "k < LENGTH(32)"
  then have k: "k < 32"
    by simp
  have m: "(k + n) mod 32 = (if k + n < 32 then k + n else k + n - 32)"
    using n k by (simp add: mod_if)
  have h: "\<not> bit x (n + k)" if "32 \<le> k + n"
    using that bit_imp_le_length [of x "n + k"] by auto
  show "bit (rotr x n) k = bit (word_rotr n x) k"
  proof (cases "k + n < 32")
    case True
    then have "\<not> 32 - n \<le> k"
      by simp
    with True k m show ?thesis
      by (simp add: rotr_def bit_or_iff bit_drop_bit_eq bit_push_bit_iff bit_word_rotr_iff add.commute)
  next
    case False
    then have "32 - n \<le> k" "k - (32 - n) = k + n - 32"
      using n by simp_all
    with False k m h show ?thesis
      by (simp add: rotr_def bit_or_iff bit_drop_bit_eq bit_push_bit_iff bit_word_rotr_iff)
  qed
qed

lemma steps: "step1 e f g = Sum1 e + Ch e f g" "step2 a b c = Sum0 a + Maj a b c"
  by (simp_all add: step1_def step2_def Sum1_def Sum0_def Ch_def Maj_def rotr_word)

lemma load_word: "4 * j + 4 \<le> length bf \<Longrightarrow> load_word bf j = be_word bf j"
proof (rule bit_word_eqI)
  fix k
  assume l: "4 * j + 4 \<le> length bf" and k: "k < LENGTH(32)"
  have t: "take 4 (drop (4 * j) bf) = [bf ! (4 * j), bf ! (4 * j + 1), bf ! (4 * j + 2), bf ! (4 * j + 3)]"
    using l by (intro nth_equalityI) (auto simp: less_Suc_eq eval_nat_numeral)
  show "bit (load_word bf j) k = bit (be_word bf j) k"
    unfolding be_word_def t
    using k by (auto simp: load_word_def le_val_def bit_or_iff bit_push_bit_iff bit_ucast_iff dest: bit_imp_le_length)
qed

section \<open>The schedule\<close>

text \<open>Halfway through an update the first words are the new ones.\<close>

definition halfway :: "byte list \<Rightarrow> nat \<Rightarrow> nat \<Rightarrow> u32 list" where
  "halfway bl i n = map (\<lambda>m. if m < n then W bl (i + m) else W bl (i + m - 16)) [0..<16]"

lemma nth_halfway: "m < 16 \<Longrightarrow> halfway bl i n ! m = (if m < n then W bl (i + m) else W bl (i + m - 16))"
  by (simp add: halfway_def)

lemma halfway_ahead:
  assumes "n < 16" "0 < c" "c < 16" "16 \<le> i"
  shows "halfway bl i n ! ((n + c) mod 16) = W bl (i + n + c - 16)"
proof (cases "n + c < 16")
  case True
  then show ?thesis
    using assms by (simp add: nth_halfway add.assoc)
next
  case False
  then have "(n + c) mod 16 = n + c - 16" "n + c - 16 < n"
    using assms by (simp_all add: mod_if)
  then show ?thesis
    using assms False by (simp add: nth_halfway ac_simps)
qed

lemma halfway_Suc:
  assumes "n < 16"
  shows "(halfway bl i n)[n := W bl (i + n)] = halfway bl i (Suc n)"
  by (rule nth_equalityI) (auto simp: halfway_def nth_list_update less_Suc_eq)

lemma update_word_step:
  assumes "n < 16" "16 \<le> i"
  shows "update_word i bl (halfway bl i n) n = halfway bl i (Suc n)"
proof -
  have s: "rotr a 7 XOR rotr a 18 XOR drop_bit 3 a = sig0 a" "rotr a 17 XOR rotr a 19 XOR drop_bit 10 a = sig1 a" for a
    by (simp_all add: sig0_def sig1_def rotr_word)
  have "W bl (i + n) = W bl (i + n - 16) + (W bl (i + n + 9 - 16) + sig0 (W bl (i + n + 1 - 16)) + sig1 (W bl (i + n + 14 - 16)))"
    using assms(2) by (subst W.simps) (simp add: algebra_simps numeral_2_eq_2)
  moreover have "halfway bl i n ! n = W bl (i + n - 16)" "halfway bl i n ! (Suc n mod 16) = W bl (i + n - 15)"
    using assms halfway_ahead [of n 1 i bl] by (simp_all add: nth_halfway)
  ultimately have "update_word i bl (halfway bl i n) n = (halfway bl i n)[n := W bl (i + n)]"
    using assms by (simp add: update_word_def Let_def halfway_ahead s)
  then show ?thesis
    using halfway_Suc [OF assms(1)] by simp
qed

lemma update_w_next:
  assumes "16 \<le> i"
  shows "update_w (map (\<lambda>j. W bl (i - 16 + j)) [0..<16]) i bl = map (\<lambda>j. W bl (i + j)) [0..<16]"
proof -
  have "foldl (update_word i bl) (halfway bl i 0) [0..<n] = halfway bl i n" if "n \<le> 16" for n
    using that by (induction n) (simp_all add: update_word_step [OF _ assms])
  from this [of 16] have "update_w (halfway bl i 0) i bl = halfway bl i 16"
    by (simp add: update_w_def)
  moreover have "halfway bl i 0 = map (\<lambda>j. W bl (i - 16 + j)) [0..<16]" "halfway bl i 16 = map (\<lambda>j. W bl (i + j)) [0..<16]"
    using assms by (auto simp: halfway_def)
  ultimately show ?thesis
    by simp
qed

lemma update_w_first:
  assumes "length w = 16" "length bl = 64"
  shows "update_w w 0 bl = map (W bl) [0..<16]"
proof -
  have "length (foldl (update_word 0 bl) w [0..<n]) = 16 \<and>
      (\<forall>m<n. foldl (update_word 0 bl) w [0..<n] ! m = W bl m)" if "n \<le> 16" for n
    using that
  proof (induction n)
    case (Suc n)
    have "W bl n = load_word bl n"
      using Suc.prems assms(2) by (subst W.simps) (simp add: load_word)
    with Suc show ?case
      by (auto simp: update_word_def nth_list_update less_Suc_eq)
  qed (simp add: assms)
  from this [of 16] show ?thesis
    unfolding update_w_def by (intro nth_equalityI) simp_all
qed

section \<open>The rounds\<close>

text \<open>A round of the standard, as the code adds.\<close>

lemma round256_code:
  "round256 bl (a, b, c, d, e, f, g, h) t = (let temp = h + step1 e f g + k256 ! t + W bl t in
     (temp + step2 a b c, a, b, c, temp + d, e, f, g))"
  by (simp add: round256_def Let_def steps add.assoc add.commute add.left_commute)

lemma quad_rounds:
  assumes "\<And>m. m < 4 \<Longrightarrow> w ! (j + m) = W bl (i + j + m)"
  shows "quad i w s j = foldl (round256 bl) s [i + j, i + j + 1, i + j + 2, i + j + 3]"
proof -
  obtain a b c d e f g h where s: "s = (a, b, c, d, e, f, g, h)"
    by (metis surj_pair)
  show ?thesis
    using assms [of 0] assms [of 1] assms [of 2] assms [of 3]
    by (simp add: quad_def s round256_code Let_def)
qed

lemma upt_add4: "[n..<n + 4] = [n, n + 1, n + 2, n + 3]"
  by (simp add: upt_rec)

lemma sixteen_rounds:
  assumes w: "update_w w i bl = map (\<lambda>j. W bl (i + j)) [0..<16]"
  shows "sixteen bl (w, s) i = (map (\<lambda>j. W bl (i + j)) [0..<16], foldl (round256 bl) s [i..<i + 16])"
proof -
  let ?w = "map (\<lambda>j. W bl (i + j)) [0..<16]"
  have q: "quad i ?w s j = foldl (round256 bl) s [i + j..<i + j + 4]" if "j \<le> 12" for s j
    unfolding upt_add4 by (rule quad_rounds) (use that in \<open>simp add: add.assoc\<close>)
  have "[i..<i + 16] = [i..<i + 0 + 4] @ [i + 4..<i + 4 + 4] @ [i + 8..<i + 8 + 4] @ [i + 12..<i + 12 + 4]"
    using upt_add_eq_append [of i "i + 4" 12] upt_add_eq_append [of "i + 4" "i + 8" 8]
      upt_add_eq_append [of "i + 8" "i + 12" 4] by (simp add: ac_simps)
  then show ?thesis
    by (simp add: sixteen_def Let_def w q)
qed

lemma sha256_block_compress:
  assumes "length (buffer sha) = 64"
  shows "sha256_block sha = sha\<lparr>state := compress256 (state sha) (buffer sha)\<rparr>"
proof -
  let ?bl = "buffer sha" and ?s = "vars_of (state sha)"
  have w: "update_w (map (\<lambda>j. W ?bl (i + j)) [0..<16]) (i + 16) ?bl = map (\<lambda>j. W ?bl (i + 16 + j)) [0..<16]" for i
    using update_w_next [of "i + 16" ?bl] by simp
  have "update_w (replicate 16 0) 0 ?bl = map (\<lambda>j. W ?bl (0 + j)) [0..<16]"
    using update_w_first [of "replicate 16 0" ?bl] assms by simp
  from sixteen_rounds [OF this, of ?s]
  have 1: "sixteen ?bl (replicate 16 0, ?s) 0 = (map (W ?bl) [0..<16], foldl (round256 ?bl) ?s [0..<16])"
    by simp
  have n: "sixteen ?bl (map (\<lambda>j. W ?bl (i + j)) [0..<16], s) (i + 16) =
      (map (\<lambda>j. W ?bl (i + 16 + j)) [0..<16], foldl (round256 ?bl) s [i + 16..<i + 32])" for i s
    using sixteen_rounds [OF w, of i s] by (simp add: add.commute)
  have "[0..<64] = [0..<16] @ [16..<32] @ [32..<48] @ [48..<64 :: nat]"
    using upt_add_eq_append [of 0 16 48] upt_add_eq_append [of 16 32 32] upt_add_eq_append [of 32 48 16] by simp
  then show ?thesis
    using n [of 0] n [of 16] n [of 32] by (simp add: sha256_block_def compress256_def 1)
qed

section \<open>The stream\<close>

text \<open>What a state holds of the message so far.\<close>

definition holds :: "sha256 \<Rightarrow> byte list \<Rightarrow> bool" where
  "holds sha m \<longleftrightarrow> state sha = foldl compress256 H256 (blocks m) \<and> length (buffer sha) = 64 \<and>
     take (length m mod 64) (buffer sha) = tail_of m \<and> n_bits sha = of_nat (8 * length m) \<and>
     buffer_counter sha = of_nat (length m mod 64)"

lemma holds_counter: "holds sha m \<Longrightarrow> unat (buffer_counter sha) = length m mod 64"
  by (simp add: holds_def unat_of_nat)

lemma take_update: "n < length xs \<Longrightarrow> take (Suc n) (xs[n := x]) = take n xs @ [x]"
  by (simp add: take_Suc_conv_app_nth)

lemma holds_append:
  assumes h: "holds sha m"
  shows "ok (sha256_append_byte b sha) (\<lambda>s. holds s (m @ [b]))"
proof -
  let ?n = "length m mod 64"
  have n: "?n < 64" "unat (buffer_counter sha) = ?n" "length (buffer sha) = 64"
    using h holds_counter by (simp_all add: holds_def)
  have t: "take (Suc ?n) ((buffer sha)[?n := b]) = tail_of m @ [b]"
    using h n by (simp add: take_update holds_def)
  have bits: "n_bits sha + 8 = of_nat (8 * length (m @ [b]))"
    using h by (simp add: holds_def algebra_simps)
  show ?thesis
  proof (cases "?n = 63")
    case True
    then have full: "(buffer sha)[63 := b] = tail_of m @ [b]" "buffer_counter sha + 1 = 64"
      using t n(3) h by (simp_all add: holds_def)
    have z: "Suc (length m) mod 64 = 0"
      using True by (simp add: mod_Suc)
    let ?s = "sha\<lparr>buffer := (buffer sha)[63 := b], n_bits := n_bits sha + 8, buffer_counter := 0\<rparr>"
    have "sha256_append_byte b sha = Some (sha256_block ?s)"
      using n(2) True full(2) by (simp add: sha256_append_byte_def)
    moreover have "holds (sha256_block ?s) (m @ [b])"
      using h n(3) full(1) z bits True
      by (subst sha256_block_compress) (simp_all add: holds_def blocks_snoc_full [OF True])
    ultimately show ?thesis
      by simp
  next
    case False
    have c: "buffer_counter sha + 1 \<noteq> 64" "Suc (length m) mod 64 = Suc ?n"
    proof -
      have "unat (buffer_counter sha + 1) = Suc ?n"
        using n(1,2) by (subst unat_add_lem [THEN iffD1]) simp_all
      with False show "buffer_counter sha + 1 \<noteq> 64"
        by auto
      show "Suc (length m) mod 64 = Suc ?n"
        using False by (simp add: mod_Suc)
    qed
    then show ?thesis
      using h n t bits by (auto simp: sha256_append_byte_def Let_def holds_def blocks_snoc [OF False])
  qed
qed

interpretation sha256: byte_stream holds sha256_append_byte "\<lambda>s. unat (buffer_counter s)"
  by unfold_locales (simp_all add: holds_append holds_counter)

lemma holds_init: "length (buffer sha) = 64 \<Longrightarrow> holds (sha256_init sha) []"
  by (simp add: holds_def sha256_init_def H256_def)

section \<open>The whole function\<close>

lemma length_bytes_bits: "map (\<lambda>i. ucast (drop_bit (8 * i) (n :: u64) AND 0xff)) [7, 6, 5, 4, 3, 2, 1, 0] = rev (le_bytes 8 n)"
proof -
  have "ucast (w AND 0xff) = (ucast w :: byte)" for w :: u64
  proof -
    have "bit (0xff :: u64) k" if "k < 8" for k
      using bit_mask_iff [where 'a = u64, of 8 k] that by (simp add: mask_eq_exp_minus_1)
    then show ?thesis
      by (intro bit_word_eqI) (auto simp: bit_ucast_iff bit_and_iff)
  qed
  then show ?thesis
    by (simp add: le_bytes_def upt_rec)
qed

lemma sha256_finalize_ok:
  assumes h: "holds sha m"
  shows "ok (sha256_finalize sha) (\<lambda>s. holds s (padded m))"
proof -
  let ?app = sha256_append_byte
  have n: "n_bits sha = of_nat (8 * length m)"
    using h by (simp add: holds_def)
  have len: "ok (append_all ?app (rev (le_bytes 8 (n_bits sha))) s) (\<lambda>s. holds s (padded m))"
    if "holds s (m @ 0x80 # replicate (zeros (length m)) 0)" for s
    using sha256.append_all_rep [OF that, of "rev (le_bytes 8 (n_bits sha))"] by (simp add: padded_def n)
  have "ok ((?app 0x80 sha \<bind> pad_loop ?app (\<lambda>s. unat (buffer_counter s)) 64) \<bind>
      append_all ?app (rev (le_bytes 8 (n_bits sha)))) (\<lambda>s. holds s (padded m))"
    by (rule ok_bind [OF sha256.mark_rep [OF h] len])
  then show ?thesis
    unfolding sha256_finalize_def Let_def length_bytes_bits by simp
qed

lemma length_padded: "length (padded m) mod 64 = 0"
proof -
  have "length (padded m) = length m + 1 + zeros (length m) + 8"
    by (simp add: padded_def)
  then show ?thesis
    using zeros_aligned [of "length m"] by (metis mod_add_left_eq mod_self numeral_plus_numeral add_num_simps)
qed

lemma length_compress: "length H = 8 \<Longrightarrow> length (foldl compress256 H bls) = 8"
  by (induction bls arbitrary: H) (auto simp: compress256_def list_of_def split: prod.splits)

lemma digest_bytes: "map (\<lambda>j. ucast (drop_bit (j * 8) (w :: u32) AND 0xff)) [3, 2, 1, 0] = rev (le_bytes 4 w)"
proof -
  have "ucast (w AND 0xff) = (ucast w :: byte)" for w :: u32
  proof -
    have "bit (0xff :: u32) k" if "k < 8" for k
      using bit_mask_iff [where 'a = u32, of 8 k] that by (simp add: mask_eq_exp_minus_1)
    then show ?thesis
      by (intro bit_word_eqI) (auto simp: bit_ucast_iff bit_and_iff)
  qed
  then show ?thesis
    by (simp add: le_bytes_def upt_rec)
qed

lemma map_nth_8: "length xs = 8 \<Longrightarrow> map (\<lambda>i. f (xs ! i)) [0..<8] = map f xs"
  by (rule nth_equalityI) simp_all

lemma sha256_state:
  "length (buffer sha) = 64 \<Longrightarrow> ok (sha256_append m (sha256_init sha) \<bind> sha256_finalize) (\<lambda>s. state s = foldl compress256 H256 (blocks (padded m)))"
proof -
  assume "length (buffer sha) = 64"
  then have "ok (sha256_append m (sha256_init sha)) (\<lambda>s. holds s m)"
    using sha256.append_all_rep [OF holds_init, of _ m] by (simp add: sha256_append_def)
  then show ?thesis
    by (rule ok_bind) (rule ok_mono [OF sha256_finalize_ok], auto simp: holds_def)
qed

lemma sha256_bytes_fips: "length (buffer sha) = 64 \<Longrightarrow> sha256_bytes sha m = Some (fips_sha256 m)"
proof -
  assume b: "length (buffer sha) = 64"
  obtain s where s: "sha256_append m (sha256_init sha) \<bind> sha256_finalize = Some s"
    "state s = foldl compress256 H256 (blocks (padded m))"
    using sha256_state [OF b] by (auto elim!: okE)
  have l: "length (state s) = 8"
    by (simp add: s(2) length_compress H256_def)
  have "sha256_bytes sha m = (sha256_append m (sha256_init sha) \<bind> sha256_finalize) \<bind>
      (\<lambda>sha. Some (concat (map (\<lambda>i. rev (le_bytes 4 (state sha ! i))) [0..<8])))"
    unfolding sha256_bytes_def sha256_finalize_bytes_def digest_bytes by simp
  also have "\<dots> = Some (fips_sha256 m)"
    unfolding s(1) using map_nth_8 [OF l, of "\<lambda>w. rev (le_bytes 4 w)"] by (simp add: fips_sha256_def s(2))
  finally show ?thesis .
qed

text \<open>The hexadecimal digits of a byte.\<close>

definition hex_byte :: "byte \<Rightarrow> string" where
  "hex_byte b = [''0123456789abcdef'' ! unat (drop_bit 4 b), ''0123456789abcdef'' ! unat (b AND 0xf)]"

lemma bit_0xf: "bit (0xf :: int) i \<longleftrightarrow> i < 4"
  using bit_mask_iff [where 'a = int, of 4 i] by (simp add: mask_eq_exp_minus_1)

lemma concat_map_concat: "concat (map (\<lambda>x. concat (f x)) xs) = concat (concat (map f xs))"
  by (induction xs) simp_all

lemma nibble:
  assumes "k < 8"
  shows "unat (drop_bit (k * 4) (w :: u32) AND 0xf) =
    unat (drop_bit (4 * (k mod 2)) (ucast (drop_bit (8 * (k div 2)) w) :: byte) AND 0xf)"
proof -
  have k: "k * 4 = 8 * (k div 2) + 4 * (k mod 2)"
    using mult_div_mod_eq [of 2 k] by linarith
  have "drop_bit (k * 4) w AND 0xf = ucast (drop_bit (4 * (k mod 2)) (ucast (drop_bit (8 * (k div 2)) w) :: byte) AND 0xf)"
    unfolding k by (rule bit_word_eqI) (auto simp: bit_and_iff bit_ucast_iff bit_drop_bit_eq bit_0xf add.assoc)
  moreover have "unat (ucast (x :: byte) :: u32) = unat x" for x
    using unsigned_less [where 'a = nat, of x] by (simp add: unsigned_ucast_eq take_bit_nat_eq_self)
  ultimately show ?thesis
    by simp
qed

lemma sha256_hex_fips: "length (buffer sha) = 64 \<Longrightarrow> sha256_hex sha m = Some (concat (map hex_byte (fips_sha256 m)))"
proof -
  assume b: "length (buffer sha) = 64"
  obtain s where s: "sha256_append m (sha256_init sha) \<bind> sha256_finalize = Some s"
    "state s = foldl compress256 H256 (blocks (padded m))"
    using sha256_state [OF b] by (auto elim!: okE)
  have l: "length (state s) = 8"
    by (simp add: s(2) length_compress H256_def)
  have d: "map (\<lambda>j. ''0123456789abcdef'' ! unat (drop_bit (j * 4) w AND 0xf)) [7, 6, 5, 4, 3, 2, 1, 0] =
      concat (map hex_byte (rev (le_bytes 4 w)))" for w :: u32
  proof -
    have "(drop_bit 4 b :: byte) AND 0xf = drop_bit 4 b" for b
    proof (rule bit_word_eqI)
      fix i
      show "bit (drop_bit 4 b AND 0xf) i = bit (drop_bit 4 b) i" if "i < LENGTH(8)"
        using bit_imp_le_length [of b "4 + i"] by (auto simp: bit_0xf bit_and_iff bit_drop_bit_eq)
    qed
    then show ?thesis
      using nibble [of 7 w] nibble [of 6 w] nibble [of 5 w] nibble [of 4 w]
        nibble [of 3 w] nibble [of 2 w] nibble [of 1 w] nibble [of 0 w]
      by (simp add: hex_byte_def le_bytes_def upt_rec)
  qed
  have "sha256_hex sha m = (sha256_append m (sha256_init sha) \<bind> sha256_finalize) \<bind>
      (\<lambda>sha. Some (concat (map (\<lambda>i. concat (map hex_byte (rev (le_bytes 4 (state sha ! i))))) [0..<8])))"
    unfolding sha256_hex_def sha256_finalize_hex_def d by simp
  also have "\<dots> = Some (concat (map hex_byte (fips_sha256 m)))"
  proof -
    have "fips_sha256 m = concat (map (\<lambda>w. rev (le_bytes 4 w)) (state s))"
      by (simp add: fips_sha256_def s(2))
    then show ?thesis
      unfolding s(1) using map_nth_8 [OF l, of "\<lambda>w. concat (map hex_byte (rev (le_bytes 4 w)))"]
      by (simp add: map_concat comp_def concat_map_concat [symmetric])
  qed
  finally show ?thesis .
qed

lemma length_fips: "length (fips_sha256 m) = 32"
proof -
  have "length (foldl compress256 H256 (blocks (padded m))) = 8"
    by (simp add: length_compress H256_def)
  then show ?thesis
    by (simp add: fips_sha256_def length_concat comp_def sum_list_triv)
qed

end
