(* ===== verification/Sha1.thy ===== *)
theory Sha1
  imports Hash
begin

text \<open>
  SHA-1 and HMAC-SHA-1 as mtx/src/sha1.c computes them on a little-endian host.  The buffer and
  the state are unions of bytes and words: the buffer is kept as bytes and seen as words while a
  block is hashed, the state is kept as words.
\<close>

unbundle bit_operations_syntax

record sha1nfo =
  buf1 :: "byte list"
  bufferOffset :: byte
  st1 :: "u32 list"
  byteCount :: u32
  keyBuffer :: "byte list"
  innerHash :: "byte list"

text \<open>The two views of a union.\<close>

definition words_of :: "byte list \<Rightarrow> u32 list" where
  "words_of bs = map (\<lambda>k. le_val (take 4 (drop (4 * k) bs))) [0..<length bs div 4]"

definition bytes_of :: "u32 list \<Rightarrow> byte list" where
  "bytes_of ws = concat (map (le_bytes 4) ws)"

definition sha1InitState :: "byte list" where
  "sha1InitState = [0x01, 0x23, 0x45, 0x67, 0x89, 0xab, 0xcd, 0xef, 0xfe, 0xdc, 0xba, 0x98, 0x76, 0x54, 0x32, 0x10,
     0xf0, 0xe1, 0xd2, 0xc3]"

definition sha1_init :: "sha1nfo \<Rightarrow> sha1nfo" where
  "sha1_init s = s\<lparr>st1 := words_of sha1InitState, byteCount := 0, bufferOffset := 0\<rparr>"

definition sha1_rol32 :: "u32 \<Rightarrow> nat \<Rightarrow> u32" where
  "sha1_rol32 number bits = push_bit bits number OR drop_bit (32 - bits) number"

text \<open>A step of the 80: the schedule word is replaced in place, the variables move.\<close>

type_synonym vars1 = "u32 \<times> u32 \<times> u32 \<times> u32 \<times> u32"

definition sched1 :: "u32 list \<Rightarrow> nat \<Rightarrow> u32 list" where
  "sched1 w i = (if 16 \<le> i
     then w[i mod 16 := sha1_rol32 (w ! ((i + 13) mod 16) XOR w ! ((i + 8) mod 16) XOR w ! ((i + 2) mod 16) XOR w ! (i mod 16)) 1]
     else w)"

definition mix1 :: "nat \<Rightarrow> u32 \<Rightarrow> u32 \<Rightarrow> u32 \<Rightarrow> u32" where
  "mix1 i b c d =
     (if i < 20 then (d XOR (b AND (c XOR d))) + 0x5a827999
      else if i < 40 then (b XOR c XOR d) + 0x6ed9eba1
      else if i < 60 then ((b AND c) OR (d AND (b OR c))) + 0x8f1bbcdc
      else (b XOR c XOR d) + 0xca62c1d6)"

definition hash_step :: "u32 list \<times> vars1 \<Rightarrow> nat \<Rightarrow> u32 list \<times> vars1" where
  "hash_step ws i = (case ws of (w, a, b, c, d, e) \<Rightarrow>
     let w = sched1 w i; t = mix1 i b c d + (sha1_rol32 a 5 + e + w ! (i mod 16)) in
     (w, t, a, sha1_rol32 b 30, c, d))"

definition sha1_hashBlock :: "sha1nfo \<Rightarrow> sha1nfo" where
  "sha1_hashBlock s =
     (case foldl hash_step (words_of (buf1 s), st1 s ! 0, st1 s ! 1, st1 s ! 2, st1 s ! 3, st1 s ! 4) [0..<80] of
        (w, a, b, c, d, e) \<Rightarrow> s\<lparr>buf1 := bytes_of w, st1 := map2 (+) (st1 s) [a, b, c, d, e]\<rparr>)"

definition sha1_addUncounted :: "byte \<Rightarrow> sha1nfo \<Rightarrow> sha1nfo option" where
  "sha1_addUncounted x s =
     (if unat (bufferOffset s XOR 3) < 64
      then (let s = s\<lparr>buf1 := (buf1 s)[unat (bufferOffset s XOR 3) := x], bufferOffset := bufferOffset s + 1\<rparr> in
            if bufferOffset s = 64 then Some ((sha1_hashBlock s)\<lparr>bufferOffset := 0\<rparr>) else Some s)
      else None)"

definition sha1_writebyte :: "byte \<Rightarrow> sha1nfo \<Rightarrow> sha1nfo option" where
  "sha1_writebyte x s = sha1_addUncounted x (s\<lparr>byteCount := byteCount s + 1\<rparr>)"

definition sha1_write :: "byte list \<Rightarrow> sha1nfo \<Rightarrow> sha1nfo option" where
  "sha1_write xs s = append_all sha1_writebyte xs s"

definition sha1_pad :: "sha1nfo \<Rightarrow> sha1nfo option" where
  "sha1_pad s = do {
     s \<leftarrow> sha1_addUncounted 0x80 s;
     s \<leftarrow> pad_loop sha1_addUncounted (\<lambda>s. unat (bufferOffset s)) 64 s;
     let n = byteCount s in append_all sha1_addUncounted
       [0, 0, 0, ucast (drop_bit 29 n), ucast (drop_bit 21 n), ucast (drop_bit 13 n), ucast (drop_bit 5 n), ucast (push_bit 3 n)] s
   }"

definition swap_word :: "u32 \<Rightarrow> u32" where
  "swap_word a = push_bit 24 a OR (push_bit 8 a AND 0x00ff0000) OR (drop_bit 8 a AND 0x0000ff00) OR drop_bit 24 a"

text \<open>The result is the state with its bytes swapped, seen as bytes.\<close>

definition sha1_result :: "sha1nfo \<Rightarrow> (byte list \<times> sha1nfo) option" where
  "sha1_result s = do {
     s \<leftarrow> sha1_pad s;
     (let s = s\<lparr>st1 := map swap_word (st1 s)\<rparr> in Some (bytes_of (st1 s), s))
   }"

section \<open>HMAC\<close>

definition sha1_initHmac :: "byte list \<Rightarrow> sha1nfo \<Rightarrow> sha1nfo option" where
  "sha1_initHmac key s = do {
     s \<leftarrow> Some (s\<lparr>keyBuffer := replicate 64 0\<rparr>);
     s \<leftarrow> (if 64 < length key
       then do {
         s \<leftarrow> sha1_write key (sha1_init s);
         (h, s) \<leftarrow> sha1_result s;
         Some (s\<lparr>keyBuffer := h @ drop 20 (keyBuffer s)\<rparr>)
       }
       else Some (s\<lparr>keyBuffer := key @ drop (length key) (keyBuffer s)\<rparr>));
     sha1_write (map (\<lambda>x. x XOR 0x36) (keyBuffer s)) (sha1_init s)
   }"

definition sha1_resultHmac :: "sha1nfo \<Rightarrow> (byte list \<times> sha1nfo) option" where
  "sha1_resultHmac s = do {
     (h, s) \<leftarrow> sha1_result s;
     s \<leftarrow> Some (sha1_init (s\<lparr>innerHash := h\<rparr>));
     s \<leftarrow> sha1_write (map (\<lambda>x. x XOR 0x5c) (keyBuffer s)) s;
     s \<leftarrow> sha1_write (innerHash s) s;
     sha1_result s
   }"

text \<open>A structure on the stack: its bytes are indeterminate before sha1_init, the model takes any.\<close>

definition sha1 :: "sha1nfo \<Rightarrow> byte list \<Rightarrow> byte list option" where
  "sha1 s d = do { s \<leftarrow> sha1_write d (sha1_init s); (h, s) \<leftarrow> sha1_result s; Some h }"

end
