(* ===== verification/Sha1Spec.thy ===== *)
theory Sha1Spec
  imports Sha1
begin

text \<open>
  SHA-1 of FIPS 180-4 and HMAC of RFC 2104, and that the code computes them for messages of less
  than 2 to the 32 bytes, as many as the byte count holds.
\<close>

section \<open>The standard\<close>

fun W1 :: "byte list \<Rightarrow> nat \<Rightarrow> u32" where
  "W1 bl t = (if t < 16 then be_word bl t
     else word_rotl 1 (W1 bl (t - 3) XOR W1 bl (t - 8) XOR W1 bl (t - 14) XOR W1 bl (t - 16)))"

declare W1.simps [simp del]

definition f1 :: "nat \<Rightarrow> u32 \<Rightarrow> u32 \<Rightarrow> u32 \<Rightarrow> u32" where
  "f1 t x y z = (if t < 20 then (x AND y) XOR (NOT x AND z) else if t < 40 then x XOR y XOR z
     else if t < 60 then (x AND y) XOR (x AND z) XOR (y AND z) else x XOR y XOR z)"

definition K1 :: "nat \<Rightarrow> u32" where
  "K1 t = (if t < 20 then 0x5a827999 else if t < 40 then 0x6ed9eba1 else if t < 60 then 0x8f1bbcdc else 0xca62c1d6)"

definition round1 :: "byte list \<Rightarrow> vars1 \<Rightarrow> nat \<Rightarrow> vars1" where
  "round1 bl s t = (case s of (a, b, c, d, e) \<Rightarrow>
     (word_rotl 5 a + f1 t b c d + e + K1 t + W1 bl t, a, word_rotl 30 b, c, d))"

definition compress1 :: "u32 list \<Rightarrow> byte list \<Rightarrow> u32 list" where
  "compress1 H bl = (case foldl (round1 bl) (H ! 0, H ! 1, H ! 2, H ! 3, H ! 4) [0..<80] of
     (a, b, c, d, e) \<Rightarrow> map2 (+) H [a, b, c, d, e])"

definition H1 :: "u32 list" where
  "H1 = [0x67452301, 0xefcdab89, 0x98badcfe, 0x10325476, 0xc3d2e1f0]"

definition padded1 :: "byte list \<Rightarrow> byte list" where
  "padded1 m = m @ 0x80 # replicate (zeros (length m)) 0 @ rev (le_bytes 8 (of_nat (8 * length m) :: u64))"

definition fips_sha1 :: "byte list \<Rightarrow> byte list" where
  "fips_sha1 m = concat (map (\<lambda>w. rev (le_bytes 4 w)) (foldl compress1 H1 (blocks (padded1 m))))"

text \<open>The key, hashed when it is longer than a block, padded with zeros to a block.\<close>

definition hmac_key :: "byte list \<Rightarrow> byte list" where
  "hmac_key key = (let k = (if 64 < length key then fips_sha1 key else key) in k @ replicate (64 - length k) 0)"

definition hmac_sha1 :: "byte list \<Rightarrow> byte list \<Rightarrow> byte list" where
  "hmac_sha1 key m = fips_sha1 (map (\<lambda>x. x XOR 0x5c) (hmac_key key) @
     fips_sha1 (map (\<lambda>x. x XOR 0x36) (hmac_key key) @ m))"

section \<open>Words\<close>

lemma rol_word: "0 < n \<Longrightarrow> n < 32 \<Longrightarrow> sha1_rol32 x n = word_rotl n x"
proof (rule bit_word_eqI)
  fix k
  assume n: "0 < n" "n < 32" and "k < LENGTH(32)"
  then have k: "k < 32"
    by simp
  define j where "j = 32 - n"
  have h: "\<not> bit x (j + k)" if "n \<le> k"
    using that n bit_imp_le_length [of x "j + k"] by (auto simp: j_def)
  have m: "(k + j) mod 32 = (if n \<le> k then k - n else j + k)"
    using n k by (auto simp: j_def mod_if)
  have r: "bit (word_rotl n x) k = bit x ((k + j) mod 32)"
    using n k by (auto simp: bit_word_rotl_iff j_def intro: arg_cong [where f = "bit x"])
  have "bit (sha1_rol32 x n) k \<longleftrightarrow> n \<le> k \<and> bit x (k - n) \<or> bit x (j + k)"
    using k by (simp add: sha1_rol32_def bit_or_iff bit_drop_bit_eq bit_push_bit_iff j_def)
  with h m r show "bit (sha1_rol32 x n) k = bit (word_rotl n x) k"
    by (cases "n \<le> k") simp_all
qed

lemma mix_code: "mix1 i b c d = f1 i b c d + K1 i"
proof -
  have "d XOR (b AND (c XOR d)) = (b AND c) XOR (NOT b AND d)"
    by (rule bit_word_eqI) (auto simp: bit_simps)
  moreover have "(b AND c) OR (d AND (b OR c)) = (b AND c) XOR (b AND d) XOR (c AND d)"
    by (rule bit_word_eqI) (auto simp: bit_simps)
  ultimately show ?thesis
    by (simp add: mix1_def f1_def K1_def)
qed

lemma bit_0xff: "bit (0xff :: int) i \<longleftrightarrow> i < 8"
  using bit_mask_iff [where 'a = int, of 8 i] by (simp add: mask_eq_exp_minus_1)

lemma swap_masks: "bit (0x00ff0000 :: u32) i \<longleftrightarrow> 16 \<le> i \<and> i < 24" "bit (0x0000ff00 :: u32) i \<longleftrightarrow> 8 \<le> i \<and> i < 16"
proof -
  have "(0x00ff0000 :: u32) = push_bit 16 (mask 8)" "(0x0000ff00 :: u32) = push_bit 8 (mask 8)"
    by (simp_all add: mask_eq_exp_minus_1 push_bit_eq_mult)
  then show "bit (0x00ff0000 :: u32) i \<longleftrightarrow> 16 \<le> i \<and> i < 24" "bit (0x0000ff00 :: u32) i \<longleftrightarrow> 8 \<le> i \<and> i < 16"
    by (auto simp only: bit_push_bit_iff bit_mask_iff) (auto simp: bit_mask_iff)
qed

lemma bit_swap_word: "k < 32 \<Longrightarrow> bit (swap_word a) k \<longleftrightarrow> bit a (8 * (3 - k div 8) + k mod 8)"
proof -
  assume k: "k < 32"
  have s: "bit (swap_word a) k \<longleftrightarrow> 24 \<le> k \<and> bit a (k - 24) \<or> 16 \<le> k \<and> k < 24 \<and> bit a (k - 8) \<or>
      8 \<le> k \<and> k < 16 \<and> bit a (8 + k) \<or> bit a (24 + k)"
    using k by (auto simp only: swap_word_def bit_or_iff bit_and_iff swap_masks bit_push_bit_iff bit_drop_bit_eq
      possible_bit_word len_num1 len_bit0 comp_def)
  have d: "k = 8 * (k div 8) + k mod 8" "k mod 8 < 8"
    by simp_all
  have h: "\<not> bit a (24 + k)" if "8 \<le> k"
    using that bit_imp_le_length [of a "24 + k"] by auto
  have "k div 8 = 0 \<or> k div 8 = 1 \<or> k div 8 = 2 \<or> k div 8 = 3"
    using k by linarith
  then show ?thesis
  proof (elim disjE)
    assume q: "k div 8 = 0"
    then have "k < 8" "8 * (3 - k div 8) + k mod 8 = 24 + k"
      using d by simp_all
    then show ?thesis
      by (simp add: s)
  next
    assume q: "k div 8 = 1"
    then have "8 \<le> k" "k < 16" "8 * (3 - k div 8) + k mod 8 = 8 + k"
      using d by simp_all
    with h show ?thesis
      by (simp add: s)
  next
    assume q: "k div 8 = 2"
    then have "16 \<le> k" "k < 24" "8 * (3 - k div 8) + k mod 8 = k - 8"
      using d by simp_all
    with h show ?thesis
      by (simp add: s)
  next
    assume q: "k div 8 = 3"
    then have "24 \<le> k" "8 * (3 - k div 8) + k mod 8 = k - 24"
      using d by simp_all
    with h show ?thesis
      by (simp add: s)
  qed
qed

lemma swap_bytes: "le_bytes 4 (swap_word a) = rev (le_bytes 4 a)"
proof -
  have b: "(ucast (drop_bit (8 * k) (swap_word a)) :: byte) = ucast (drop_bit (8 * (3 - k)) a)" if "k < 4" for k
    using that by (intro bit_word_eqI) (simp add: bit_ucast_iff bit_drop_bit_eq bit_swap_word)
  show ?thesis
    by (rule nth_equalityI) (auto simp: nth_le_bytes rev_nth b)
qed

section \<open>The block\<close>

text \<open>The words in use at step \<^theory_text>\<open>i\<close> are a ring of the last sixteen.\<close>

definition ring :: "byte list \<Rightarrow> nat \<Rightarrow> u32 list \<Rightarrow> bool" where
  "ring bl i w \<longleftrightarrow> length w = 16 \<and> (\<forall>t. t < max 16 i \<longrightarrow> i \<le> t + 16 \<longrightarrow> w ! (t mod 16) = W1 bl t)"

lemma ring_nth: "ring bl i w \<Longrightarrow> t < max 16 i \<Longrightarrow> i \<le> t + 16 \<Longrightarrow> w ! (t mod 16) = W1 bl t"
  by (simp add: ring_def)

lemma sched_ring:
  assumes r: "ring bl i w"
  shows "ring bl (Suc i) (sched1 w i)" and "sched1 w i ! (i mod 16) = W1 bl i"
proof -
  have l: "length w = 16"
    using r by (simp add: ring_def)
  have "ring bl (Suc i) (sched1 w i) \<and> sched1 w i ! (i mod 16) = W1 bl i"
  proof (cases "16 \<le> i")
    case False
    then have "w ! (i mod 16) = W1 bl i"
      by (intro ring_nth [OF r]) auto
    with False r show ?thesis
      by (auto simp: sched1_def ring_def)
  next
    case True
    have "i + 13 = i - 3 + 16" "i + 8 = i - 8 + 16" "i + 2 = i - 14 + 16" "i = i - 16 + 16"
      using True by simp_all
    then have m: "(i + 13) mod 16 = (i - 3) mod 16" "(i + 8) mod 16 = (i - 8) mod 16" "(i + 2) mod 16 = (i - 14) mod 16"
      "i mod 16 = (i - 16) mod 16"
      by (metis mod_add_self2)+
    have w: "w ! ((i + 13) mod 16) = W1 bl (i - 3)" "w ! ((i + 8) mod 16) = W1 bl (i - 8)"
      "w ! ((i + 2) mod 16) = W1 bl (i - 14)" "w ! (i mod 16) = W1 bl (i - 16)"
      unfolding m by (intro ring_nth [OF r]; use True in simp)+
    have new: "sched1 w i = w[i mod 16 := W1 bl i]"
      using True by (subst W1.simps) (simp add: sched1_def w rol_word del: add_2_eq_Suc' One_nat_def)
    have keep: "w ! (t mod 16) = W1 bl t" "i mod 16 \<noteq> t mod 16" if "t < i" "i \<le> 15 + t" for t
    proof -
      show "w ! (t mod 16) = W1 bl t"
        using that by (intro ring_nth [OF r]) auto
      show "i mod 16 \<noteq> t mod 16"
      proof
        assume "i mod 16 = t mod 16"
        then have "16 dvd i - t"
          using that(1) by (metis mod_eq_dvd_iff_nat less_imp_le)
        with that show False
          by (auto dest: dvd_imp_le)
      qed
    qed
    then have "sched1 w i ! (t mod 16) = W1 bl t" if "t < Suc i" "i \<le> 15 + t" for t
      using that l by (cases "t = i") (simp_all add: new)
    with True l show ?thesis
      by (simp add: new ring_def)
  qed
  then show "ring bl (Suc i) (sched1 w i)" and "sched1 w i ! (i mod 16) = W1 bl i"
    by simp_all
qed

lemma foldl_snoc: "foldl f x [0..<Suc n] = f (foldl f x [0..<n]) n"
  by simp

lemma steps_rounds:
  assumes "ring bl 0 w"
  shows "\<exists>w'. length w' = 16 \<and> foldl hash_step (w, s) [0..<80] = (w', foldl (round1 bl) s [0..<80])"
proof -
  have "ring bl n (fst (foldl hash_step (w, s) [0..<n])) \<and>
      snd (foldl hash_step (w, s) [0..<n]) = foldl (round1 bl) s [0..<n]" for n
  proof (induction n)
    case 0
    with assms show ?case by simp
  next
    case (Suc n)
    obtain w1 a b c d e where x: "foldl hash_step (w, s) [0..<n] = (w1, a, b, c, d, e)"
      by (metis surj_pair)
    with Suc have r: "ring bl n w1" "foldl (round1 bl) s [0..<n] = (a, b, c, d, e)"
      by simp_all
    have "hash_step (w1, a, b, c, d, e) n = (sched1 w1 n, round1 bl (a, b, c, d, e) n)"
      using sched_ring [OF r(1)] by (simp add: hash_step_def round1_def mix_code rol_word Let_def algebra_simps)
    then have "foldl hash_step (w, s) [0..<Suc n] = (sched1 w1 n, foldl (round1 bl) s [0..<Suc n])"
      by (simp only: foldl_snoc x r(2))
    with sched_ring [OF r(1)] show ?case
      by simp
  qed
  from this [of 80] show ?thesis
    by (intro exI [of _ "fst (foldl hash_step (w, s) [0..<80])"]) (auto simp: ring_def prod_eq_iff)
qed

text \<open>Within a word the bytes are stored backwards.\<close>

definition backwards :: "nat \<Rightarrow> nat" where
  "backwards k = 4 * (k div 4) + (3 - k mod 4)"

lemma xor_backwards: "k < 64 \<Longrightarrow> unat ((of_nat k :: byte) XOR 3) = backwards k"
proof -
  have "list_all (\<lambda>k. unat ((of_nat k :: byte) XOR 3) = backwards k) [0..<64]"
    by code_simp
  then show "k < 64 \<Longrightarrow> unat ((of_nat k :: byte) XOR 3) = backwards k"
    by (simp add: list_all_iff)
qed

lemma backwards_less: "k < 64 \<Longrightarrow> backwards k < 64"
proof -
  assume "k < 64"
  then have "k div 4 < 16" "3 - k mod 4 < 4"
    by simp_all
  then show "backwards k < 64"
    unfolding backwards_def by linarith
qed

lemma backwards_inj: "backwards j = backwards k \<longleftrightarrow> j = k"
proof
  assume h: "backwards j = backwards k"
  have r: "j mod 4 < 4" "k mod 4 < 4" "j = 4 * (j div 4) + j mod 4" "k = 4 * (k div 4) + k mod 4"
    by simp_all
  with h have d: "j div 4 = k div 4"
    unfolding backwards_def by linarith
  with h r(1,2) have "j mod 4 = k mod 4"
    unfolding backwards_def d by linarith
  with d r(3,4) show "j = k"
    by simp
qed simp

lemma length_bytes_of [simp]: "length (bytes_of ws) = 4 * length ws"
  by (induction ws) (simp_all add: bytes_of_def)

lemma words_be:
  assumes "length bf = 64" "length bl = 64" and b: "\<And>k. k < 64 \<Longrightarrow> bf ! backwards k = bl ! k"
  shows "words_of bf = map (be_word bl) [0..<16]"
proof -
  have "take 4 (drop (4 * k) bf) = rev (take 4 (drop (4 * k) bl))" if k: "k < 16" for k
  proof (rule nth_equalityI)
    fix i
    assume "i < length (take 4 (drop (4 * k) bf))"
    then have i: "i < 4"
      by simp
    have "(4 * k + (3 - i)) div 4 = k" "(4 * k + (3 - i)) mod 4 = 3 - i"
      by simp_all
    then have "bf ! (4 * k + i) = bl ! (4 * k + (3 - i))"
      using b [of "4 * k + (3 - i)"] i k by (simp add: backwards_def)
    then show "take 4 (drop (4 * k) bf) ! i = rev (take 4 (drop (4 * k) bl)) ! i"
      using i k assms(1,2) by (simp add: rev_nth)
  qed (use assms in simp)
  then show ?thesis
    using assms(1) by (simp add: words_of_def be_word_def)
qed

lemma sha1_hashBlock_compress:
  assumes "words_of (buf1 s) = map (be_word bl) [0..<16]"
  shows "\<exists>bf. length bf = 64 \<and> sha1_hashBlock s = s\<lparr>buf1 := bf, st1 := compress1 (st1 s) bl\<rparr>"
proof -
  have "ring bl 0 (words_of (buf1 s))"
    by (auto simp: assms ring_def W1.simps [of bl])
  from steps_rounds [OF this, of "(st1 s ! 0, st1 s ! 1, st1 s ! 2, st1 s ! 3, st1 s ! 4)"] obtain w where
    "length w = 16" "foldl hash_step (words_of (buf1 s), st1 s ! 0, st1 s ! 1, st1 s ! 2, st1 s ! 3, st1 s ! 4) [0..<80] =
      (w, foldl (round1 bl) (st1 s ! 0, st1 s ! 1, st1 s ! 2, st1 s ! 3, st1 s ! 4) [0..<80])"
    by auto
  then show ?thesis
    by (intro exI [of _ "bytes_of w"]) (simp add: sha1_hashBlock_def compress1_def split: prod.splits)
qed

section \<open>The stream\<close>

text \<open>What a structure holds of the bytes given to sha1_addUncounted; the key and the inner hash of the HMAC stay, and so does the count.\<close>

definition raw :: "byte list \<times> byte list \<Rightarrow> u32 \<Rightarrow> sha1nfo \<Rightarrow> byte list \<Rightarrow> bool" where
  "raw kb n s m \<longleftrightarrow> st1 s = foldl compress1 H1 (blocks m) \<and> length (buf1 s) = 64 \<and>
     (\<forall>k < length m mod 64. buf1 s ! backwards k = tail_of m ! k) \<and>
     bufferOffset s = of_nat (length m mod 64) \<and> (keyBuffer s, innerHash s) = kb \<and> byteCount s = n"

lemma raw_offset: "raw kb n s m \<Longrightarrow> unat (bufferOffset s) = length m mod 64"
  by (simp add: raw_def unat_of_nat)

lemma raw_stored:
  assumes "raw kb n s m" "k \<le> length m mod 64"
  shows "(buf1 s)[backwards (length m mod 64) := b] ! backwards k = (tail_of m @ [b]) ! k"
proof -
  have "backwards (length m mod 64) < length (buf1 s)"
    using assms(1) backwards_less by (simp add: raw_def)
  with assms show ?thesis
    by (auto simp: raw_def nth_list_update backwards_inj nth_append le_less)
qed

lemma raw_append:
  assumes h: "raw kb n s m"
  shows "ok (sha1_addUncounted b s) (\<lambda>s'. raw kb n s' (m @ [b]))"
proof -
  let ?n = "length m mod 64"
  have n: "?n < 64" "unat (bufferOffset s XOR 3) = backwards ?n" "unat (bufferOffset s) = ?n" "backwards ?n < 64"
    using h xor_backwards [of ?n] backwards_less [of ?n] by (simp_all add: raw_def unat_of_nat)
  let ?bf = "(buf1 s)[backwards ?n := b]"
  show ?thesis
  proof (cases "?n = 63")
    case True
    then have o: "bufferOffset s + 1 = 64"
      using h by (simp add: raw_def)
    have "?bf ! backwards k = (tail_of m @ [b]) ! k" if "k < 64" for k
      using raw_stored [OF h, of k] True that by simp
    then have "words_of ?bf = map (be_word (tail_of m @ [b])) [0..<16]"
      using h True by (intro words_be) (simp_all add: raw_def)
    then obtain bf where "length bf = 64" "sha1_hashBlock (s\<lparr>buf1 := ?bf, bufferOffset := 64\<rparr>) =
        s\<lparr>buf1 := bf, bufferOffset := 64, st1 := compress1 (st1 s) (tail_of m @ [b])\<rparr>"
      using sha1_hashBlock_compress [of "s\<lparr>buf1 := ?bf, bufferOffset := 64\<rparr>" "tail_of m @ [b]"] by auto
    moreover have "Suc (length m) mod 64 = 0"
      using True by (simp add: mod_Suc)
    ultimately show ?thesis
      using h n o by (simp add: sha1_addUncounted_def raw_def blocks_snoc_full [OF True])
  next
    case False
    have "unat (bufferOffset s + 1) = Suc ?n"
      using n(1,3) by (subst unat_add_lem [THEN iffD1]) simp_all
    then have o: "bufferOffset s + 1 \<noteq> 64" "Suc (length m) mod 64 = Suc ?n"
      using False n(1) by (auto simp: mod_Suc)
    have "bufferOffset s + 1 = of_nat (Suc ?n)"
      using h by (simp add: raw_def)
    moreover have "?bf ! backwards k = (tail_of m @ [b]) ! k" if "k < Suc ?n" for k
      using raw_stored [OF h, of k] that by simp
    ultimately show ?thesis
      using h n(2,4) o by (simp add: sha1_addUncounted_def Let_def raw_def blocks_snoc [OF False])
  qed
qed

interpretation sha1: byte_stream "raw kb n" sha1_addUncounted "\<lambda>s. unat (bufferOffset s)"
  by unfold_locales (simp_all add: raw_append raw_offset)

text \<open>The counted stream.\<close>

definition counted :: "byte list \<times> byte list \<Rightarrow> sha1nfo \<Rightarrow> byte list \<Rightarrow> bool" where
  "counted kb s m \<longleftrightarrow> raw kb (of_nat (length m)) s m"

lemma counted_append:
  assumes h: "counted kb s m"
  shows "ok (sha1_writebyte b s) (\<lambda>s'. counted kb s' (m @ [b]))"
proof -
  have "raw kb (of_nat (length m) + 1) (s\<lparr>byteCount := byteCount s + 1\<rparr>) m"
    using h by (simp add: counted_def raw_def)
  from raw_append [OF this, of b] show ?thesis
    unfolding sha1_writebyte_def by (simp add: counted_def add.commute)
qed

interpretation sha1_counted: byte_stream "counted kb" sha1_writebyte "\<lambda>s. unat (bufferOffset s)"
  by unfold_locales (erule counted_append, auto simp: counted_def dest: raw_offset)

lemma sha1_write_ok: "counted kb s m \<Longrightarrow> ok (sha1_write bs s) (\<lambda>s'. counted kb s' (m @ bs))"
  unfolding sha1_write_def by (rule sha1_counted.append_all_rep)

section \<open>The whole function\<close>

lemma length_bytes:
  assumes "n < 2 ^ 32"
  shows "rev (le_bytes 8 (of_nat (8 * n) :: u64)) = (let w = (of_nat n :: u32) in
    [0, 0, 0, ucast (drop_bit 29 w), ucast (drop_bit 21 w), ucast (drop_bit 13 w), ucast (drop_bit 5 w), ucast (push_bit 3 w)])"
proof -
  define w where "w = (of_nat n :: u32)"
  have "(of_nat n :: u64) = ucast w"
    using assms by (simp add: w_def unsigned_of_nat take_bit_nat_eq_self)
  moreover define v where "v = (of_nat (8 * n) :: u64)"
  ultimately have "v = push_bit 3 (ucast w)"
    by (simp add: push_bit_eq_mult mult.commute)
  then have b: "bit v k \<longleftrightarrow> 3 \<le> k \<and> bit w (k - 3)" for k
    using bit_imp_le_length [of w "k - 3"] by (auto simp only: bit_push_bit_iff bit_ucast_iff) simp_all
  have z: "(ucast (drop_bit (8 * i) v) :: byte) = 0" if "5 \<le> i" for i
    using that by (intro bit_word_eqI) (auto simp: bit_ucast_iff bit_drop_bit_eq b dest!: bit_imp_le_length)
  have y: "(ucast (drop_bit (8 * i) v) :: byte) = ucast (drop_bit (8 * i - 3) w)" if "0 < i" for i
    using that by (intro bit_word_eqI) (auto simp: bit_ucast_iff bit_drop_bit_eq b)
  have "(ucast v :: byte) = ucast (push_bit 3 w)"
    by (intro bit_word_eqI) (auto simp: bit_ucast_iff bit_push_bit_iff b)
  with y [of 1] y [of 2] y [of 3] y [of 4] z [of 5] z [of 6] z [of 7]
  have "le_bytes 8 v = rev [0, 0, 0, ucast (drop_bit 29 w), ucast (drop_bit 21 w), ucast (drop_bit 13 w),
      ucast (drop_bit 5 w), ucast (push_bit 3 w)]"
    by (simp add: le_bytes_def upt_rec)
  then show ?thesis
    by (simp add: v_def w_def Let_def)
qed

lemma sha1_pad_ok:
  assumes h: "counted kb s m" and l: "length m < 2 ^ 32"
  shows "ok (sha1_pad s) (\<lambda>s'. raw kb (of_nat (length m)) s' (padded1 m))"
proof -
  let ?app = sha1_addUncounted and ?n = "of_nat (length m) :: u32"
  let ?len = "rev (le_bytes 8 (of_nat (8 * length m) :: u64))"
  have len: "ok (let w = byteCount s in append_all ?app [0, 0, 0, ucast (drop_bit 29 w), ucast (drop_bit 21 w), ucast (drop_bit 13 w),
      ucast (drop_bit 5 w), ucast (push_bit 3 w)] s) (\<lambda>s'. raw kb ?n s' (padded1 m))"
    if "raw kb ?n s (m @ 0x80 # replicate (zeros (length m)) 0)" for s
  proof -
    have "byteCount s = ?n"
      using that by (simp add: raw_def)
    then show ?thesis
      using sha1.append_all_rep [OF that, of ?len] by (simp only: Let_def padded1_def length_bytes [OF l] append_assoc append_Cons)
  qed
  have "raw kb ?n s m"
    using h by (simp add: counted_def)
  from ok_bind [OF sha1.mark_rep [OF this] len] show ?thesis
    unfolding sha1_pad_def by (simp add: Let_def)
qed

lemma length_compress1: "length H = 5 \<Longrightarrow> length (foldl compress1 H bls) = 5"
  by (induction bls arbitrary: H) (auto simp: compress1_def split: prod.splits)

lemma length_H1 [simp]: "length H1 = 5"
  by (simp add: H1_def)

lemma sha1_result_ok:
  assumes "counted kb s m" "length m < 2 ^ 32"
  shows "ok (sha1_result s) (\<lambda>(h, s'). h = fips_sha1 m \<and> (keyBuffer s', innerHash s') = kb \<and> length (buf1 s') = 64)"
  unfolding sha1_result_def
  by (rule ok_bind [OF sha1_pad_ok [OF assms]]) (simp add: raw_def fips_sha1_def bytes_of_def comp_def swap_bytes)

lemma sha1_init_counted:
  assumes "length (buf1 s) = 64"
  shows "counted (keyBuffer s, innerHash s) (sha1_init s) []"
proof -
  have "words_of sha1InitState = H1"
    by code_simp
  with assms show ?thesis
    by (simp add: counted_def raw_def sha1_init_def)
qed

lemma sha1_fips:
  assumes "length (buf1 s) = 64" "length m < 2 ^ 32"
  shows "sha1 s m = Some (fips_sha1 m)"
proof -
  have "ok (sha1 s m) (\<lambda>h. h = fips_sha1 m)"
    unfolding sha1_def
    by (rule ok_bind [OF sha1_write_ok [OF sha1_init_counted [OF assms(1)]]],
        rule ok_bind [OF sha1_result_ok]) (use assms(2) in auto)
  then show ?thesis
    by (auto elim: okE)
qed

section \<open>HMAC\<close>

lemma length_fips_sha1 [simp]: "length (fips_sha1 m) = 20"
  using length_compress1 [of H1] by (simp add: fips_sha1_def length_concat comp_def sum_list_triv)

lemma length_hmac_key: "length (hmac_key key) = 64"
  by (simp add: hmac_key_def)

lemma sha1_start:
  assumes "length (buf1 s) = 64"
  shows "ok (sha1_write m (sha1_init s)) (\<lambda>s'. counted (keyBuffer s, innerHash s) s' m)"
  using sha1_write_ok [OF sha1_init_counted [OF assms], of m] by simp

lemma sha1_initHmac_ok:
  assumes b: "length (buf1 s) = 64" and l: "length key < 2 ^ 32"
  shows "ok (sha1_initHmac key s) (\<lambda>s'. counted (hmac_key key, innerHash s) s' (map (\<lambda>x. x XOR 0x36) (hmac_key key)))"
proof -
  let ?s = "s\<lparr>keyBuffer := replicate 64 0\<rparr>"
  let ?P = "\<lambda>s'. keyBuffer s' = hmac_key key \<and> innerHash s' = innerHash s \<and> length (buf1 s') = 64"
  have k: "ok (if 64 < length key
      then do { s \<leftarrow> sha1_write key (sha1_init ?s); (h, s) \<leftarrow> sha1_result s; Some (s\<lparr>keyBuffer := h @ drop 20 (keyBuffer s)\<rparr>) }
      else Some (?s\<lparr>keyBuffer := key @ drop (length key) (keyBuffer ?s)\<rparr>)) ?P"
  proof (cases "64 < length key")
    case True
    have w: "ok (sha1_write key (sha1_init ?s)) (\<lambda>s'. counted (replicate 64 0, innerHash s) s' key)"
      using sha1_start [of ?s key] b by simp
    have "ok (do { s \<leftarrow> sha1_write key (sha1_init ?s); (h, s) \<leftarrow> sha1_result s; Some (s\<lparr>keyBuffer := h @ drop 20 (keyBuffer s)\<rparr>) }) ?P"
      by (rule ok_bind [OF w], rule ok_bind [OF sha1_result_ok]) (use l True in \<open>auto simp: hmac_key_def\<close>)
    with True show ?thesis
      by simp
  next
    case False
    with b show ?thesis
      by (simp add: hmac_key_def)
  qed
  show ?thesis
    unfolding sha1_initHmac_def bind.simps
    by (rule ok_bind [OF k]) (metis sha1_start)
qed

lemma sha1_resultHmac_ok:
  assumes h: "counted (hmac_key key, ih) s (map (\<lambda>x. x XOR 0x36) (hmac_key key) @ m)" and l: "length m < 2 ^ 32 - 64"
  shows "ok (sha1_resultHmac s) (\<lambda>(h, s'). h = hmac_sha1 key m)"
proof -
  let ?i = "fips_sha1 (map (\<lambda>x. x XOR 0x36) (hmac_key key) @ m)" and ?o = "map (\<lambda>x. x XOR 0x5c) (hmac_key key)"
  have inner: "ok (sha1_result s) (\<lambda>(h, s'). h = ?i \<and> (keyBuffer s', innerHash s') = (hmac_key key, ih) \<and> length (buf1 s') = 64)"
    using l by (intro sha1_result_ok [OF h]) (simp add: length_hmac_key)
  have second: "ok (sha1_write (innerHash t) t) (\<lambda>s'. counted (hmac_key key, ?i) s' (?o @ ?i))"
    if "counted (hmac_key key, ?i) t ?o" for t
    using sha1_write_ok [OF that, of "innerHash t"] that by (simp add: counted_def raw_def)
  have outer: "ok (do { t \<leftarrow> sha1_write (map (\<lambda>x. x XOR 0x5c) (keyBuffer (sha1_init t))) (sha1_init t);
      t \<leftarrow> sha1_write (innerHash t) t; sha1_result t }) (\<lambda>(h, s'). h = hmac_sha1 key m)"
    if t: "keyBuffer t = hmac_key key" "innerHash t = ?i" "length (buf1 t) = 64" for t
  proof -
    have "ok (sha1_write (map (\<lambda>x. x XOR 0x5c) (keyBuffer (sha1_init t))) (sha1_init t)) (\<lambda>s'. counted (hmac_key key, ?i) s' ?o)"
      using sha1_start [OF t(3), of ?o] t(1,2) by (simp add: sha1_init_def)
    then show ?thesis
    proof (rule ok_bind)
      fix t
      assume "counted (hmac_key key, ?i) t ?o"
      from second [OF this] show "ok (sha1_write (innerHash t) t \<bind> sha1_result) (\<lambda>(h, s'). h = hmac_sha1 key m)"
        by (rule ok_bind) (rule ok_mono [OF sha1_result_ok], auto simp: hmac_sha1_def length_hmac_key)
    qed
  qed
  show ?thesis
    unfolding sha1_resultHmac_def bind.simps
    by (rule ok_bind [OF inner]) (use outer in auto)
qed

text \<open>The three calls of a user of the HMAC.\<close>

lemma hmac_ok:
  assumes "length (buf1 s) = 64" "length key < 2 ^ 32" "length m < 2 ^ 32 - 64"
  shows "ok (do { s \<leftarrow> sha1_initHmac key s; s \<leftarrow> sha1_write m s; sha1_resultHmac s }) (\<lambda>(h, s'). h = hmac_sha1 key m)"
  by (rule ok_bind [OF sha1_initHmac_ok [OF assms(1,2)]], rule ok_bind [OF sha1_write_ok], assumption,
      rule sha1_resultHmac_ok [OF _ assms(3)])

end
