(* ===== verification/HashProps.thy ===== *)
theory HashProps
  imports Sha256Spec Sha1Spec
begin

text \<open>
  The properties of the hash functions: the streaming code of mtx/src/sha256.c and
  mtx/src/sha1.c computes the functions of the standards.
\<close>

text \<open>C22. SHA-256. On a structure with a buffer of 64 bytes, whatever it held before, and for a
  message of any length the byte result of the code is the SHA-256 of FIPS 180-4 of the message,
  and the string result is its digits in lower case: the in-place schedule, the unrolled rounds,
  the byte-by-byte stream and the padding loop never go wrong.\<close>

theorem sha256_is_fips:
  assumes "length (buffer sha) = 64"
  shows "sha256_bytes sha m = Some (fips_sha256 m) \<and> sha256_hex sha m = Some (concat (map hex_byte (fips_sha256 m)))"
  using assms by (simp add: sha256_bytes_fips sha256_hex_fips)

definition demo_sha256 :: sha256 where
  "demo_sha256 = \<lparr>state = [], buffer = replicate 64 0xaa, n_bits = 5, buffer_counter = 60\<rparr>"

theorem sha256_is_fips_witness:
  "sha256_bytes demo_sha256 [0x61, 0x62, 0x63] = Some (fips_sha256 [0x61, 0x62, 0x63]) \<and>
   sha256_hex demo_sha256 [0x61, 0x62, 0x63] = Some (concat (map hex_byte (fips_sha256 [0x61, 0x62, 0x63])))"
  by (rule sha256_is_fips) (simp add: demo_sha256_def)

text \<open>C23. SHA-1. On a structure with a buffer of 64 bytes, whatever it held before, and a message
  whose length fits the 32 bits of byteCount, the code computes the SHA-1 of FIPS 180-4.\<close>

theorem sha1_is_fips:
  assumes "length (buf1 s) = 64" and "length m < 2 ^ 32"
  shows "sha1 s m = Some (fips_sha1 m)"
  using assms by (rule sha1_fips)

definition demo_sha1 :: sha1nfo where
  "demo_sha1 = \<lparr>buf1 = replicate 64 0xaa, bufferOffset = 7, st1 = [], byteCount = 9, keyBuffer = [], innerHash = []\<rparr>"

theorem sha1_is_fips_witness: "sha1 demo_sha1 [0x61, 0x62, 0x63] = Some (fips_sha1 [0x61, 0x62, 0x63])"
  by (rule sha1_is_fips) (simp_all add: demo_sha1_def)

text \<open>C24. HMAC. Starting with a key, of any length that fits the count, writing a message and
  taking the result yields the HMAC-SHA-1 of RFC 2104, long keys being hashed first.\<close>

theorem hmac_is_rfc2104:
  assumes "length (buf1 s) = 64" and "length key < 2 ^ 32" and "length m < 2 ^ 32 - 64"
  shows "map_option fst (do { s \<leftarrow> sha1_initHmac key s; s \<leftarrow> sha1_write m s; sha1_resultHmac s }) = Some (hmac_sha1 key m)"
  using hmac_ok [OF assms] by (auto elim!: okE)

theorem hmac_is_rfc2104_witness:
  "map_option fst (do { s \<leftarrow> sha1_initHmac (replicate 100 0x50) demo_sha1; s \<leftarrow> sha1_write [1, 2, 3] s; sha1_resultHmac s }) =
     Some (hmac_sha1 (replicate 100 0x50) [1, 2, 3])"
  by (rule hmac_is_rfc2104) (simp_all add: demo_sha1_def)

end
