(* ===== verification/MtxBuf.thy ===== *)
theory MtxBuf
  imports Prelude
begin

text \<open>
  The buffers of mtx/src/buf.c: an array of 800 bytes and a size, passed by value.  An access
  outside the array of the buffer or of the source is undefined (\<^theory_text>\<open>None\<close>); the
  error messages of the functions only print (log_error does not exit), so the guards that print
  them guard nothing.

  \<^theory_text>\<open>mkj bs js\<close> is the buffer that holds \<^theory_text>\<open>bs\<close> with \<^theory_text>\<open>js\<close>
  behind it, \<^theory_text>\<open>mk bs\<close> the one with zeros behind; on these buffers every operation is
  rewritten to the operation on lists (\<^theory_text>\<open>mtx_simps\<close>).
\<close>

named_theorems mtx_simps

record mbuf =
  mdata :: "byte list"
  msize :: u32

definition zero_mbuf :: mbuf where
  "zero_mbuf = \<lparr>mdata = replicate 800 0, msize = 0\<rparr>"

text \<open>\<^theory_text>\<open>buf_add_(src + k, n)\<close>: a fresh buffer with \<^theory_text>\<open>n\<close> bytes of the array
  \<^theory_text>\<open>src\<close> from index \<^theory_text>\<open>k\<close>.\<close>

definition mbuf_add :: "byte list \<Rightarrow> nat \<Rightarrow> u32 \<Rightarrow> mbuf option" where
  "mbuf_add src k n =
     (if k + unat n \<le> length src \<and> unat n \<le> 800
      then Some \<lparr>mdata = take (unat n) (drop k src) @ replicate (800 - unat n) 0, msize = n\<rparr> else None)"

definition mbuf_cat :: "mbuf \<Rightarrow> mbuf \<Rightarrow> mbuf option" where
  "mbuf_cat dest src = (let offset = unat (msize dest); n = unat (msize src) in
     if n = 0 then Some dest
     else if offset + n \<le> 800
     then Some \<lparr>mdata = take offset (mdata dest) @ take n (mdata src) @ drop (offset + n) (mdata dest), msize = msize dest + msize src\<rparr>
     else None)"

text \<open>The dump reads as many bytes as the size says.\<close>

definition mbuf_dump :: "mbuf \<Rightarrow> unit option" where
  "mbuf_dump b = (if unat (msize b) \<le> 800 then Some () else None)"

text \<open>The loop runs over the size of the first buffer and returns at the first difference.\<close>

definition mbuf_cmp :: "mbuf \<Rightarrow> mbuf \<Rightarrow> bool option" where
  "mbuf_cmp a b = (let n = unat (msize a) in
     if n \<le> 800 then Some (take n (mdata a) = take n (mdata b)) else if mdata a \<noteq> mdata b then Some False else None)"

definition mbuf_swap :: "mbuf \<Rightarrow> mbuf option" where
  "mbuf_swap b = (let n = unat (msize b) in
     if n \<le> 800 then Some (b\<lparr>mdata := rev (take n (mdata b)) @ drop n (mdata b)\<rparr>) else None)"

definition mbuf_add_ui32 :: "u32 \<Rightarrow> mbuf option" where
  "mbuf_add_ui32 v = mbuf_add (le_bytes 4 v) 0 4"

definition mbuf_add_ui64 :: "u64 \<Rightarrow> mbuf option" where
  "mbuf_add_ui64 v = mbuf_add (le_bytes 8 v) 0 8"

definition mbuf_get_ui32 :: "mbuf \<Rightarrow> u32" where
  "mbuf_get_ui32 b = le_val (take 4 (mdata b))"

definition mbuf_get_ui64 :: "mbuf \<Rightarrow> u64" where
  "mbuf_get_ui64 b = le_val (take 8 (mdata b))"

text \<open>\<^theory_text>\<open>rand\<close> is the sequence of rand() modulo 256 after srand with the time.\<close>

definition mbuf_rand :: "(u32 \<Rightarrow> nat \<Rightarrow> byte) \<Rightarrow> u32 \<Rightarrow> u32 \<Rightarrow> mbuf option" where
  "mbuf_rand rand time s =
     (if unat s \<le> 800 then Some \<lparr>mdata = map (rand time) [0..<unat s] @ replicate (800 - unat s) 0, msize = s\<rparr> else None)"

text \<open>The result is an uninitialised array, \<^theory_text>\<open>junk\<close> is what it holds.\<close>

definition mbuf_xor :: "byte list \<Rightarrow> mbuf \<Rightarrow> mbuf \<Rightarrow> mbuf option" where
  "mbuf_xor junk a b = (let n = unat (msize a) in
     if n \<le> 800 then Some \<lparr>mdata = map2 (XOR) (take n (mdata a)) (take n (mdata b)) @ drop n junk, msize = msize a\<rparr> else None)"

section \<open>Buffers as lists\<close>

definition mkj :: "byte list \<Rightarrow> byte list \<Rightarrow> mbuf" where
  "mkj bs js = \<lparr>mdata = bs @ js, msize = of_nat (length bs)\<rparr>"

definition mk :: "byte list \<Rightarrow> mbuf" where
  "mk bs = mkj bs (replicate (800 - length bs) 0)"

text \<open>The bytes a buffer holds.\<close>

definition mbytes :: "mbuf \<Rightarrow> byte list" where
  "mbytes b = take (unat (msize b)) (mdata b)"

lemma mbytes_mkj [mtx_simps]: "length bs \<le> 800 \<Longrightarrow> mbytes (mkj bs js) = bs"
  by (simp add: mbytes_def mkj_def)

lemma mbytes_mk [mtx_simps]: "length bs \<le> 800 \<Longrightarrow> mbytes (mk bs) = bs"
  by (simp add: mk_def mbytes_mkj)

lemma msize_mk [mtx_simps]: "msize (mk bs) = of_nat (length bs)" "msize (mkj bs js) = of_nat (length bs)"
  by (simp_all add: mk_def mkj_def)

lemma mdata_mk [mtx_simps]: "mdata (mk bs) = bs @ replicate (800 - length bs) 0" "mdata (mkj bs js) = bs @ js"
  by (simp_all add: mk_def mkj_def)

lemma zero_mk [mtx_simps]: "zero_mbuf = mk []"
  by (simp add: zero_mbuf_def mk_def mkj_def)

lemma zeros_mk: "n \<le> 800 \<Longrightarrow> zero_mbuf\<lparr>msize := of_nat n\<rparr> = mk (replicate n 0)"
  by (simp add: zero_mbuf_def mk_def mkj_def replicate_add [symmetric])

lemma mbuf_add_data:
  assumes "k + unat n \<le> length src" "unat n \<le> 800"
  shows "mbuf_add src k n = Some (mk (take (unat n) (drop k src)))"
  using assms by (simp add: mbuf_add_def mk_def mkj_def)

lemma mbuf_add_mk [mtx_simps]:
  assumes "k + unat n \<le> length bs" "length bs \<le> 800"
  shows "mbuf_add (mdata (mk bs)) k n = Some (mk (take (unat n) (drop k bs)))"
    and "mbuf_add (mdata (mkj bs js)) k n = Some (mk (take (unat n) (drop k bs)))"
proof -
  have "mbuf_add (bs @ js) k n = Some (mk (take (unat n) (drop k bs)))" for js
    using assms mbuf_add_data [of k n "bs @ js"] by simp
  then show "mbuf_add (mdata (mk bs)) k n = Some (mk (take (unat n) (drop k bs)))"
    and "mbuf_add (mdata (mkj bs js)) k n = Some (mk (take (unat n) (drop k bs)))"
    by (simp_all add: mdata_mk)
qed

text \<open>The rest of a buffer, \<^theory_text>\<open>buf_add_(b.data + k, b.size - k)\<close>.\<close>

definition rest_of :: "nat \<Rightarrow> mbuf \<Rightarrow> mbuf option" where
  "rest_of k b = mbuf_add (mdata b) k (msize b - of_nat k)"

lemma unat_diff_of_nat: "k \<le> n \<Longrightarrow> n \<le> 800 \<Longrightarrow> unat ((of_nat n :: u32) - of_nat k) = n - k"
  by (simp add: of_nat_diff [symmetric] del: of_nat_diff)

lemma rest_of_mk [mtx_simps]:
  assumes "k \<le> length bs" "length bs \<le> 800"
  shows "rest_of k (mk bs) = Some (mk (drop k bs))" and "rest_of k (mkj bs js) = Some (mk (drop k bs))"
  using assms by (simp_all add: rest_of_def msize_mk mbuf_add_mk unat_diff_of_nat del: of_nat_diff)

lemma mbuf_cat_mkj:
  assumes "length a + length b \<le> 800"
  shows "mbuf_cat (mkj a js) (mkj b ks) = Some (mkj (a @ b) (drop (length b) js))"
  using assms by (auto simp: mbuf_cat_def mkj_def Let_def)

lemma mbuf_cat_mk [mtx_simps]:
  assumes "length a + length b \<le> 800"
  shows "mbuf_cat (mk a) (mk b) = Some (mk (a @ b))" and "mbuf_cat (mk a) (mkj b js) = Some (mk (a @ b))"
  using assms mbuf_cat_mkj [OF assms] by (simp_all add: mk_def)

lemma mbuf_dump_mk [mtx_simps]: "length bs \<le> 800 \<Longrightarrow> mbuf_dump (mk bs) = Some ()"
  "length bs \<le> 800 \<Longrightarrow> mbuf_dump (mkj bs js) = Some ()"
  by (simp_all add: mbuf_dump_def msize_mk)

lemma mbuf_swap_mk [mtx_simps]: "length bs \<le> 800 \<Longrightarrow> mbuf_swap (mk bs) = Some (mk (rev bs))"
  by (simp add: mbuf_swap_def mk_def mkj_def Let_def)

lemma mbuf_cmp_defined: "unat (msize a) \<le> 800 \<Longrightarrow> \<exists>r. mbuf_cmp a b = Some r"
  by (simp add: mbuf_cmp_def Let_def)

lemma mbuf_add_ui_mk [mtx_simps]: "mbuf_add_ui32 v = Some (mk (le_bytes 4 v))" "mbuf_add_ui64 w = Some (mk (le_bytes 8 w))"
  using mbuf_add_data [of 0 4 "le_bytes 4 v"] mbuf_add_data [of 0 8 "le_bytes 8 w"]
  by (simp_all add: mbuf_add_ui32_def mbuf_add_ui64_def)

lemma mbuf_get_ui_mk [mtx_simps]:
  "4 \<le> length bs \<Longrightarrow> mbuf_get_ui32 (mk bs) = le_val (take 4 bs)"
  "8 \<le> length bs \<Longrightarrow> mbuf_get_ui64 (mk bs) = le_val (take 8 bs)"
  by (simp_all add: mbuf_get_ui32_def mbuf_get_ui64_def mdata_mk)

lemma mbuf_rand_mk [mtx_simps]: "unat n \<le> 800 \<Longrightarrow> mbuf_rand r t n = Some (mk (map (r t) [0..<unat n]))"
  by (simp add: mbuf_rand_def mk_def mkj_def)

lemma mbuf_xor_mk [mtx_simps]:
  "length a = length b \<Longrightarrow> length a \<le> 800 \<Longrightarrow> mbuf_xor junk (mk a) (mk b) = Some (mkj (map2 (XOR) a b) (drop (length a) junk))"
  by (simp add: mbuf_xor_def mk_def mkj_def Let_def)

end
