(* ===== verification/MtxTypes.thy ===== *)
theory MtxTypes
  imports MtxBuf Encrypt Sha1
begin

text \<open>
  The types of mtx (mtx/include/tgt.h, types.h, enl.h): parameters with a type tag, the structures
  of the calls and answers of the key exchange, the type system that holds one of each, the shared
  state and what lies outside the code.  The fields type__, which are set and never read, are left
  out, and so are the tags no function mentions.
\<close>

datatype msg_t = API | RFC | CTER

datatype stk_mode = SEND | SEND_RECEIVE

datatype tl_type = TYPE_QX | TYPE_BOOL | TYPE_MESSAGE | TYPE_VECTOR_MESSAGE | TYPE_VECTOR_LONG | TYPE_INT |
  TYPE_INT128 | TYPE_INT256 | TYPE_LONG | TYPE_STRING | TYPE_ID

record param_t =
  p_id :: u32
  p_value :: mbuf
  p_type :: tl_type

text \<open>A parameter as the static templates have it, and as deserialization leaves it.\<close>

definition param0 :: "tl_type \<Rightarrow> param_t" where
  "param0 ty = \<lparr>p_id = 0, p_value = zero_mbuf, p_type = ty\<rparr>"

text \<open>The size of an abstract object is the length of its list.\<close>

record abstract_t =
  a_params :: "param_t list"
  a_type :: msg_t
  a_mode :: stk_mode

section \<open>Calls and answers\<close>

record ctor_ResPQ_t =
  rp_id :: u32
  rp_nonce :: param_t
  rp_server_nonce :: param_t
  rp_pq :: param_t
  rp_fingerprints :: param_t

record method_req_pq_t =
  rq_id :: u32
  rq_nonce :: param_t
  rq_ResPQ :: ctor_ResPQ_t

record ctor_P_Q_inner_data_t =
  pi_id :: u32
  pi_pq :: param_t
  pi_p :: param_t
  pi_q :: param_t
  pi_nonce :: param_t
  pi_server_nonce :: param_t
  pi_new_nonce :: param_t

record ctor_Server_DH_Params_ok_t =
  dp_id :: u32
  dp_nonce :: param_t
  dp_server_nonce :: param_t
  dp_encrypted_answer :: param_t

record method_req_DH_params_t =
  rd_id :: u32
  rd_nonce :: param_t
  rd_server_nonce :: param_t
  rd_p :: param_t
  rd_q :: param_t
  rd_fingerprint :: param_t
  rd_encrypted_data :: param_t
  rd_Server_DH_Params_ok :: ctor_Server_DH_Params_ok_t
  rd_P_Q_inner_data :: ctor_P_Q_inner_data_t

record ctor_Server_DH_inner_data_t =
  si_id :: u32
  si_nonce :: param_t
  si_server_nonce :: param_t
  si_g :: param_t
  si_dh_prime :: param_t
  si_g_a :: param_t
  si_server_time :: param_t
  si_answer :: mbuf
  si_tmp_aes_key :: mbuf
  si_tmp_aes_iv :: mbuf

record ctor_Client_DH_Inner_Data_t =
  ci_id :: u32
  ci_nonce :: param_t
  ci_server_nonce :: param_t
  ci_retry_id :: param_t
  ci_g_b :: param_t
  ci_b :: mbuf

record ctor_Set_client_DH_params_answer_ok_t =
  ao_id :: u32
  ao_nonce :: param_t
  ao_server_nonce :: param_t
  ao_new_nonce_hash1 :: param_t

record method_set_client_DH_params_t =
  sc_id :: u32
  sc_nonce :: param_t
  sc_server_nonce :: param_t
  sc_encrypted_data :: param_t
  sc_answer_ok :: ctor_Set_client_DH_params_answer_ok_t
  sc_Server_DH_inner_data :: ctor_Server_DH_inner_data_t
  sc_Client_DH_Inner_Data :: ctor_Client_DH_Inner_Data_t
  sc_salt :: mbuf

record ctor_Pong_t =
  po_id :: u32
  po_msg_id :: param_t
  po_ping_id :: param_t

record method_ping_t =
  pg_id :: u32
  pg_ping_id :: param_t
  pg_Pong :: ctor_Pong_t

record method_auth_sendCode_t =
  as_id :: u32
  as_phone_number :: param_t
  as_sms_type :: param_t
  as_api_id :: param_t
  as_api_hash :: param_t
  as_lang_code :: param_t

record ctor_NewSession_t =
  ns_id :: u32
  ns_first_msg_id :: param_t
  ns_unique_id :: param_t
  ns_server_salt :: param_t

record method_msgs_ack_t =
  ma_id :: u32
  ma_msg_ids :: param_t

record tg_api_type_system_t =
  t_req_pq :: method_req_pq_t
  t_req_DH_params :: method_req_DH_params_t
  t_set_client_DH_params :: method_set_client_DH_params_t
  t_ping :: method_ping_t
  t_auth_sendCode :: method_auth_sendCode_t
  t_msgs_ack :: method_msgs_ack_t
  t_ResPQ :: ctor_ResPQ_t
  t_Server_DH_Params_ok :: ctor_Server_DH_Params_ok_t
  t_P_Q_inner_data :: ctor_P_Q_inner_data_t
  t_Server_DH_inner_data :: ctor_Server_DH_inner_data_t
  t_Client_DH_Inner_Data :: ctor_Client_DH_Inner_Data_t
  t_answer_ok :: ctor_Set_client_DH_params_answer_ok_t
  t_Pong :: ctor_Pong_t
  t_NewSession :: ctor_NewSession_t

section \<open>Static templates\<close>

definition ctor_ResPQ :: ctor_ResPQ_t where
  "ctor_ResPQ = \<lparr>rp_id = 0x05162463, rp_nonce = param0 TYPE_INT128, rp_server_nonce = param0 TYPE_INT128,
     rp_pq = param0 TYPE_STRING, rp_fingerprints = param0 TYPE_VECTOR_LONG\<rparr>"

text \<open>A structure initialised with {}: the tag with the value 0 is TYPE_QX.\<close>

definition zero_ResPQ :: ctor_ResPQ_t where
  "zero_ResPQ = \<lparr>rp_id = 0, rp_nonce = param0 TYPE_QX, rp_server_nonce = param0 TYPE_QX, rp_pq = param0 TYPE_QX,
     rp_fingerprints = param0 TYPE_QX\<rparr>"

definition zero_P_Q :: ctor_P_Q_inner_data_t where
  "zero_P_Q = \<lparr>pi_id = 0, pi_pq = param0 TYPE_QX, pi_p = param0 TYPE_QX, pi_q = param0 TYPE_QX, pi_nonce = param0 TYPE_QX,
     pi_server_nonce = param0 TYPE_QX, pi_new_nonce = param0 TYPE_QX\<rparr>"

definition zero_DH_ok :: ctor_Server_DH_Params_ok_t where
  "zero_DH_ok = \<lparr>dp_id = 0, dp_nonce = param0 TYPE_QX, dp_server_nonce = param0 TYPE_QX, dp_encrypted_answer = param0 TYPE_QX\<rparr>"

definition zero_inner :: ctor_Server_DH_inner_data_t where
  "zero_inner = \<lparr>si_id = 0, si_nonce = param0 TYPE_QX, si_server_nonce = param0 TYPE_QX, si_g = param0 TYPE_QX,
     si_dh_prime = param0 TYPE_QX, si_g_a = param0 TYPE_QX, si_server_time = param0 TYPE_QX,
     si_answer = zero_mbuf, si_tmp_aes_key = zero_mbuf, si_tmp_aes_iv = zero_mbuf\<rparr>"

definition zero_client :: ctor_Client_DH_Inner_Data_t where
  "zero_client = \<lparr>ci_id = 0, ci_nonce = param0 TYPE_QX, ci_server_nonce = param0 TYPE_QX, ci_retry_id = param0 TYPE_QX,
     ci_g_b = param0 TYPE_QX, ci_b = zero_mbuf\<rparr>"

definition zero_answer :: ctor_Set_client_DH_params_answer_ok_t where
  "zero_answer = \<lparr>ao_id = 0, ao_nonce = param0 TYPE_QX, ao_server_nonce = param0 TYPE_QX, ao_new_nonce_hash1 = param0 TYPE_QX\<rparr>"

definition zero_Pong :: ctor_Pong_t where
  "zero_Pong = \<lparr>po_id = 0, po_msg_id = param0 TYPE_QX, po_ping_id = param0 TYPE_QX\<rparr>"

definition req_pq :: method_req_pq_t where
  "req_pq = \<lparr>rq_id = 0x60469778, rq_nonce = param0 TYPE_INT128, rq_ResPQ = zero_ResPQ\<rparr>"

definition ctor_P_Q_inner_data :: ctor_P_Q_inner_data_t where
  "ctor_P_Q_inner_data = \<lparr>pi_id = 0x83c95aec, pi_pq = param0 TYPE_STRING, pi_p = param0 TYPE_STRING, pi_q = param0 TYPE_STRING,
     pi_nonce = param0 TYPE_INT128, pi_server_nonce = param0 TYPE_INT128, pi_new_nonce = param0 TYPE_INT256\<rparr>"

definition method_req_DH_params :: method_req_DH_params_t where
  "method_req_DH_params = \<lparr>rd_id = 0xd712e4be, rd_nonce = param0 TYPE_INT128, rd_server_nonce = param0 TYPE_INT128,
     rd_p = param0 TYPE_STRING, rd_q = param0 TYPE_STRING, rd_fingerprint = param0 TYPE_LONG,
     rd_encrypted_data = param0 TYPE_STRING, rd_Server_DH_Params_ok = zero_DH_ok, rd_P_Q_inner_data = zero_P_Q\<rparr>"

definition ctor_Client_DH_Inner_Data :: ctor_Client_DH_Inner_Data_t where
  "ctor_Client_DH_Inner_Data = \<lparr>ci_id = 0x6643b654, ci_nonce = param0 TYPE_INT128, ci_server_nonce = param0 TYPE_INT128,
     ci_retry_id = param0 TYPE_LONG, ci_g_b = param0 TYPE_STRING, ci_b = zero_mbuf\<rparr>"

definition method_set_client_DH_params :: method_set_client_DH_params_t where
  "method_set_client_DH_params = \<lparr>sc_id = 0xf5045f1f, sc_nonce = param0 TYPE_INT128, sc_server_nonce = param0 TYPE_INT128,
     sc_encrypted_data = param0 TYPE_STRING, sc_answer_ok = zero_answer, sc_Server_DH_inner_data = zero_inner,
     sc_Client_DH_Inner_Data = zero_client, sc_salt = zero_mbuf\<rparr>"

definition method_ping :: method_ping_t where
  "method_ping = \<lparr>pg_id = 0x7abe77ec, pg_ping_id = param0 TYPE_LONG, pg_Pong = zero_Pong\<rparr>"

definition method_auth_sendCode :: method_auth_sendCode_t where
  "method_auth_sendCode = \<lparr>as_id = 0x768d5f4d, as_phone_number = param0 TYPE_STRING, as_sms_type = param0 TYPE_INT,
     as_api_id = param0 TYPE_INT, as_api_hash = param0 TYPE_STRING, as_lang_code = param0 TYPE_STRING\<rparr>"

definition method_msgs_ack :: method_msgs_ack_t where
  "method_msgs_ack = \<lparr>ma_id = 0x62d6b459, ma_msg_ids = param0 TYPE_VECTOR_LONG\<rparr>"

definition zero_tsys :: tg_api_type_system_t where
  "zero_tsys = \<lparr>
     t_req_pq = \<lparr>rq_id = 0, rq_nonce = param0 TYPE_QX, rq_ResPQ = zero_ResPQ\<rparr>,
     t_req_DH_params = \<lparr>rd_id = 0, rd_nonce = param0 TYPE_QX, rd_server_nonce = param0 TYPE_QX, rd_p = param0 TYPE_QX,
       rd_q = param0 TYPE_QX, rd_fingerprint = param0 TYPE_QX, rd_encrypted_data = param0 TYPE_QX,
       rd_Server_DH_Params_ok = zero_DH_ok, rd_P_Q_inner_data = zero_P_Q\<rparr>,
     t_set_client_DH_params = \<lparr>sc_id = 0, sc_nonce = param0 TYPE_QX, sc_server_nonce = param0 TYPE_QX,
       sc_encrypted_data = param0 TYPE_QX, sc_answer_ok = zero_answer, sc_Server_DH_inner_data = zero_inner,
       sc_Client_DH_Inner_Data = zero_client, sc_salt = zero_mbuf\<rparr>,
     t_ping = \<lparr>pg_id = 0, pg_ping_id = param0 TYPE_QX, pg_Pong = zero_Pong\<rparr>,
     t_auth_sendCode = \<lparr>as_id = 0, as_phone_number = param0 TYPE_QX, as_sms_type = param0 TYPE_QX, as_api_id = param0 TYPE_QX,
       as_api_hash = param0 TYPE_QX, as_lang_code = param0 TYPE_QX\<rparr>,
     t_msgs_ack = \<lparr>ma_id = 0, ma_msg_ids = param0 TYPE_QX\<rparr>,
     t_ResPQ = zero_ResPQ, t_Server_DH_Params_ok = zero_DH_ok, t_P_Q_inner_data = zero_P_Q,
     t_Server_DH_inner_data = zero_inner, t_Client_DH_Inner_Data = zero_client, t_answer_ok = zero_answer,
     t_Pong = zero_Pong,
     t_NewSession = \<lparr>ns_id = 0, ns_first_msg_id = param0 TYPE_QX, ns_unique_id = param0 TYPE_QX, ns_server_salt = param0 TYPE_QX\<rparr>\<rparr>"

section \<open>State and environment\<close>

text \<open>shared_rc, the static type system of sil.c with its flag, the bytes sent and the chunks that
  recv will return (\<^theory_text>\<open>None\<close> an error), and how often the clocks were read.  The socket
  is left out: there is one.\<close>

record mtx =
  x_key :: mbuf
  x_salt :: mbuf
  x_ssid :: mbuf
  x_seqn :: int
  x_seqnh :: u32
  x_last_msg_id :: mbuf
  x_t :: tg_api_type_system_t
  x_flag :: u32
  x_inbox :: "byte list option list"
  x_sent :: "byte list list"
  x_times :: nat
  x_nows :: nat

text \<open>Outside the code: OpenSSL's AES-IGE (in \<^theory_text>\<open>m_crypto\<close>) and its BN_mod_exp between byte
  strings (\<^theory_text>\<open>None\<close> when it fails, which aborts), the public key of the file, the
  factorisation of fact.cpp, rand() modulo 256 after srand, the two clocks, and what uninitialised
  memory holds: a SHA-1 structure, a buffer and the bytes of an array.\<close>

record menv =
  m_crypto :: crypto
  m_modexp :: "byte list \<Rightarrow> byte list \<Rightarrow> byte list \<Rightarrow> byte list option"
  m_rsa_n :: "byte list"
  m_rsa_e :: "byte list"
  m_factor :: "u64 \<Rightarrow> u32 \<times> u32"
  m_rand :: "u32 \<Rightarrow> nat \<Rightarrow> byte"
  m_time :: "nat \<Rightarrow> u32"
  m_now :: "nat \<Rightarrow> u64"
  m_sha :: sha1nfo
  m_any :: mbuf
  m_junk :: "byte list"

definition reset_shared_rc :: "mtx \<Rightarrow> mtx" where
  "reset_shared_rc s = s\<lparr>x_key := (x_key s)\<lparr>msize := 0\<rparr>, x_salt := (x_salt s)\<lparr>msize := 0\<rparr>, x_ssid := (x_ssid s)\<lparr>msize := 0\<rparr>,
     x_seqn := - 1, x_seqnh := 0\<rparr>"

definition shared_rc_get_seqnh :: "mtx \<Rightarrow> u32 \<times> mtx" where
  "shared_rc_get_seqnh s = (x_seqnh s + 1, s\<lparr>x_seqnh := x_seqnh s + 1\<rparr>)"

definition api_rand :: "menv \<Rightarrow> u32 \<Rightarrow> mtx \<Rightarrow> (mbuf \<times> mtx) option" where
  "api_rand E n s = do {
     b \<leftarrow> mbuf_rand (m_rand E) (m_time E (x_times s)) n;
     Some (b, s\<lparr>x_times := x_times s + 1\<rparr>)
   }"

text \<open>get_current_time: the clock in units of 2 to the minus 32 seconds; the low two bits are
  cleared.\<close>

definition mtx_current_time :: "menv \<Rightarrow> mtx \<Rightarrow> u64 \<times> mtx" where
  "mtx_current_time E s = (m_now E (x_nows s) AND - 4, s\<lparr>x_nows := x_nows s + 1\<rparr>)"

end
