(* ===== verification/MtxLayers.thy ===== *)
theory MtxLayers
  imports MtxTypes
begin

text \<open>
  The layers of mtx: serialization of parameters (sel.c), message headers (hdl.c), MTProto 1.0
  encryption (enl.c over hsh.c, cry.c), the transport (trl.c), the socket (net.c) and their stack
  (stk.c).  A mismatch of a length, an identifier or a key is only printed.
\<close>

section \<open>Serialization (sel.c)\<close>

definition serialize_string1 :: "mbuf \<Rightarrow> mbuf option" where
  "serialize_string1 b = (let size = msize b in
     if size \<le> 253
     then do {
       s \<leftarrow> mbuf_add (le_bytes 4 size) 0 1;
       s \<leftarrow> mbuf_cat s b;
       mbuf_cat s (zero_mbuf\<lparr>msize := (4 - msize s mod 4) mod 4\<rparr>)
     }
     else do {
       s \<leftarrow> mbuf_add [0xfe] 0 1;
       len \<leftarrow> mbuf_add (le_bytes 4 size) 0 3;
       s \<leftarrow> mbuf_cat s len;
       s \<leftarrow> mbuf_cat s b;
       (let pad = (4 - msize s mod 4) mod 4 in
        if pad \<noteq> 0 then mbuf_cat s (zero_mbuf\<lparr>msize := pad\<rparr>) else Some s)
     })"

text \<open>An unknown type leaves the result uninitialised.\<close>

definition serialize_param :: "menv \<Rightarrow> param_t \<Rightarrow> mbuf option" where
  "serialize_param E p = (let v = p_value p in case p_type p of
     TYPE_INT \<Rightarrow> mbuf_add (mdata v) 0 4
   | TYPE_INT128 \<Rightarrow> mbuf_add (mdata v) 0 16
   | TYPE_INT256 \<Rightarrow> mbuf_add (mdata v) 0 32
   | TYPE_LONG \<Rightarrow> mbuf_add (mdata v) 0 8
   | TYPE_VECTOR_LONG \<Rightarrow> mbuf_add (mdata v) 0 (msize v)
   | TYPE_STRING \<Rightarrow> serialize_string1 v
   | TYPE_ID \<Rightarrow> mbuf_add (mdata v) 0 4
   | TYPE_QX \<Rightarrow> mbuf_add (mdata v) 0 (msize v)
   | _ \<Rightarrow> Some (m_any E))"

fun serialize_params :: "menv \<Rightarrow> param_t list \<Rightarrow> mbuf \<Rightarrow> mbuf option" where
  "serialize_params E [] s = Some s"
| "serialize_params E (p # ps) s = do { b \<leftarrow> serialize_param E p; s \<leftarrow> mbuf_cat s b; serialize_params E ps s }"

definition sel_serialize :: "menv \<Rightarrow> abstract_t \<Rightarrow> mbuf option" where
  "sel_serialize E a = serialize_params E (a_params a) zero_mbuf"

definition deserialize_string1 :: "mbuf \<Rightarrow> mbuf option" where
  "deserialize_string1 b = do {
     byte \<leftarrow> mbuf_add (mdata b) 0 4;
     (if mdata byte ! 0 \<le> 253 then mbuf_add (mdata b) 1 (ucast (mdata byte ! 0))
      else do {
        s1 \<leftarrow> mbuf_add [0xfe] 0 1;
        s2 \<leftarrow> mbuf_add (mdata b) 0 1;
        mbuf_cmp s1 s2;
        len3 \<leftarrow> mbuf_add (mdata b) 1 3;
        b \<leftarrow> rest_of 4 b;
        mbuf_add (mdata b) 0 (mbuf_get_ui32 (len3\<lparr>msize := 4\<rparr>))
      })
   }"

text \<open>The parameters of a vector: every turn reads the same bytes; the twelve places of the array
  may be overrun.\<close>

fun vector_loop :: "u32 \<Rightarrow> mbuf \<Rightarrow> nat \<Rightarrow> nat \<Rightarrow> mbuf \<Rightarrow> mbuf option" where
  "vector_loop pid b i 0 d = Some d"
| "vector_loop pid b i (Suc n) d =
     (if pid = 0x05162463
      then if i < 12 then do { d \<leftarrow> mbuf_add (mdata b) 0 8; vector_loop pid b (i + 1) n d } else None
      else if pid = 0x73f1f8dc
      then if i < 12 then do { d \<leftarrow> mbuf_add (mdata b) 0 (msize b); vector_loop pid b (i + 1) n d } else None
      else vector_loop pid b (i + 1) n d)"

definition deserialize_vector :: "menv \<Rightarrow> param_t \<Rightarrow> mbuf option" where
  "deserialize_vector E p = do {
     b \<leftarrow> rest_of 4 (p_value p);
     (let q = mbuf_get_ui32 b in
      if q = 0 then Some zero_mbuf
      else do { b \<leftarrow> rest_of 4 b; vector_loop (p_id p) b 0 (unat q) (m_any E) })
   }"

definition deserialize_param :: "menv \<Rightarrow> param_t \<Rightarrow> param_t option" where
  "deserialize_param E p = do {
     s \<leftarrow> (let v = p_value p in case p_type p of
         TYPE_INT \<Rightarrow> mbuf_add (mdata v) 0 4
       | TYPE_INT128 \<Rightarrow> mbuf_add (mdata v) 0 16
       | TYPE_INT256 \<Rightarrow> mbuf_add (mdata v) 0 32
       | TYPE_LONG \<Rightarrow> mbuf_add (mdata v) 0 8
       | TYPE_VECTOR_LONG \<Rightarrow> deserialize_vector E p
       | TYPE_VECTOR_MESSAGE \<Rightarrow> deserialize_vector E p
       | TYPE_STRING \<Rightarrow> deserialize_string1 v
       | TYPE_ID \<Rightarrow> mbuf_add (mdata v) 0 4
       | TYPE_MESSAGE \<Rightarrow> mbuf_add (mdata v) 0 (msize v)
       | _ \<Rightarrow> Some (m_any E));
     Some \<lparr>p_id = p_id p, p_value = s, p_type = p_type p\<rparr>
   }"

text \<open>The identifier and what follows it; the size, the type and the mode of the result stay
  unset and are not read.\<close>

definition sel_deserialize :: "mbuf \<Rightarrow> abstract_t option" where
  "sel_deserialize b = do {
     i \<leftarrow> mbuf_add_ui32 (mbuf_get_ui32 b);
     b \<leftarrow> rest_of 4 b;
     Some \<lparr>a_params = [\<lparr>p_id = 0, p_value = i, p_type = TYPE_ID\<rparr>, \<lparr>p_id = 0, p_value = b, p_type = TYPE_QX\<rparr>],
       a_type = API, a_mode = SEND\<rparr>
   }"

section \<open>Headers (hdl.c)\<close>

definition hdl_header :: "menv \<Rightarrow> mbuf \<Rightarrow> msg_t \<Rightarrow> mtx \<Rightarrow> (mbuf \<times> mtx) option" where
  "hdl_header E b t x = (case t of
     RFC \<Rightarrow> (let (i, x) = mtx_current_time E x in do {
       msg_id \<leftarrow> mbuf_add (le_bytes 8 i) 0 8;
       s \<leftarrow> mbuf_cat zero_mbuf msg_id;
       len \<leftarrow> mbuf_add (le_bytes 4 (msize b)) 0 4;
       s \<leftarrow> mbuf_cat s len;
       s \<leftarrow> mbuf_cat s b;
       Some (s, x)
     })
   | API \<Rightarrow> do {
       s \<leftarrow> mbuf_cat zero_mbuf (x_salt x);
       s \<leftarrow> mbuf_cat s (x_ssid x);
       (i, x) \<leftarrow> Some (mtx_current_time E x);
       msg_id \<leftarrow> mbuf_add (le_bytes 8 i) 0 8;
       s \<leftarrow> mbuf_cat s msg_id;
       (seqnh, x) \<leftarrow> Some (shared_rc_get_seqnh x);
       seq_no \<leftarrow> mbuf_add_ui32 seqnh;
       s \<leftarrow> mbuf_cat s seq_no;
       len \<leftarrow> mbuf_add (le_bytes 4 (msize b)) 0 4;
       s \<leftarrow> mbuf_cat s len;
       s \<leftarrow> mbuf_cat s b;
       Some (s, x)
     }
   | CTER \<Rightarrow> Some (zero_mbuf, x))"

definition hdl_deheader :: "mbuf \<Rightarrow> msg_t \<Rightarrow> mtx \<Rightarrow> (mbuf \<times> mtx) option" where
  "hdl_deheader b t x = (case t of
     RFC \<Rightarrow> do { d \<leftarrow> rest_of 8 b; d \<leftarrow> rest_of 4 d; Some (d, x) }
   | API \<Rightarrow> do {
       d \<leftarrow> rest_of 8 b;
       d \<leftarrow> rest_of 8 d;
       i \<leftarrow> mbuf_add (mdata d) 0 8;
       d \<leftarrow> rest_of 8 d;
       d \<leftarrow> rest_of 4 d;
       d \<leftarrow> rest_of 4 d;
       Some (d, x\<lparr>x_last_msg_id := i\<rparr>)
     }
   | CTER \<Rightarrow> do {
       d \<leftarrow> rest_of 8 b;
       d \<leftarrow> rest_of 4 d;
       d \<leftarrow> mbuf_add (mdata d) 4 (mbuf_get_ui32 d);
       Some (d, x)
     })"

section \<open>Encryption (enl.c, hsh.c, cry.c)\<close>

definition hsh_sha1 :: "menv \<Rightarrow> mbuf \<Rightarrow> mbuf option" where
  "hsh_sha1 E b = (if unat (msize b) \<le> 800
     then do { h \<leftarrow> sha1 (m_sha E) (take (unat (msize b)) (mdata b)); Some \<lparr>mdata = h @ drop 20 (m_junk E), msize = 20\<rparr> }
     else None)"

text \<open>The result is written at the start of the zeroed array; OpenSSL aborts unless the length is a
  multiple of the block size.\<close>

definition cry_aes :: "(byte list \<Rightarrow> byte list \<Rightarrow> byte list \<Rightarrow> byte list) \<Rightarrow> mbuf \<Rightarrow> mbuf \<Rightarrow> mbuf \<Rightarrow> mbuf option" where
  "cry_aes f b key iv = (let n = unat (msize b) in
     if n \<le> 800 \<and> n mod 16 = 0
     then (let r = f (take 32 (mdata key)) (take 32 (mdata iv)) (take n (mdata b)) in
       Some \<lparr>mdata = r @ replicate (800 - length r) 0, msize = msize b\<rparr>)
     else None)"

definition cry_aes_e :: "menv \<Rightarrow> mbuf \<Rightarrow> mbuf \<Rightarrow> mbuf \<Rightarrow> mbuf option" where
  "cry_aes_e E b key iv = cry_aes (c_ige_e (m_crypto E)) b key iv"

definition cry_aes_d :: "menv \<Rightarrow> mbuf \<Rightarrow> mbuf \<Rightarrow> mbuf \<Rightarrow> mbuf option" where
  "cry_aes_d E b key iv = cry_aes (c_ige_d (m_crypto E)) b key iv"

text \<open>rsax: the number, without leading zeros, at the start of 256 zeroed bytes.\<close>

definition cry_rsa_e :: "menv \<Rightarrow> mbuf \<Rightarrow> mbuf option" where
  "cry_rsa_e E b = (if unat (msize b) \<le> 800
     then do {
       y \<leftarrow> m_modexp E (take (unat (msize b)) (mdata b)) (m_rsa_e E) (m_rsa_n E);
       (if length y \<le> 800 then Some \<lparr>mdata = y @ replicate (800 - length y) 0, msize = 256\<rparr> else None)
     }
     else None)"

text \<open>pow_mod: the number, without leading zeros, at the start of as many zeros as the modulus has
  bytes; the rest of the result is uninitialised.\<close>

definition cmn_pow_mod :: "menv \<Rightarrow> mbuf \<Rightarrow> mbuf \<Rightarrow> mbuf \<Rightarrow> mbuf option" where
  "cmn_pow_mod E g e m = (let gn = unat (msize g); en = unat (msize e); mn = unat (msize m) in
     if gn \<le> 800 \<and> en \<le> 800 \<and> mn \<le> 800
     then do {
       y \<leftarrow> m_modexp E (take gn (mdata g)) (take en (mdata e)) (take mn (mdata m));
       (if length y \<le> 800
        then Some \<lparr>mdata = y @ replicate (mn - length y) 0 @ drop (max mn (length y)) (m_junk E), msize = of_nat (length y)\<rparr>
        else None)
     }
     else None)"

definition enl_get_params :: "menv \<Rightarrow> mbuf \<Rightarrow> mbuf \<Rightarrow> nat \<Rightarrow> (mbuf \<times> mbuf) option" where
  "enl_get_params E auth_key msg_key x = do {
     tmp \<leftarrow> mbuf_add (mdata msg_key) 0 16;
     k \<leftarrow> mbuf_add (mdata auth_key) x 32;
     tmp \<leftarrow> mbuf_cat tmp k;
     hash \<leftarrow> hsh_sha1 E tmp;
     h \<leftarrow> mbuf_add (mdata hash) 0 8;
     aes_key \<leftarrow> mbuf_cat zero_mbuf h;
     h \<leftarrow> mbuf_add (mdata hash) 8 12;
     aes_iv \<leftarrow> mbuf_cat zero_mbuf h;
     tmp \<leftarrow> mbuf_add (mdata auth_key) (32 + x) 16;
     k \<leftarrow> mbuf_add (mdata msg_key) 0 16;
     tmp \<leftarrow> mbuf_cat tmp k;
     k \<leftarrow> mbuf_add (mdata auth_key) (48 + x) 16;
     tmp \<leftarrow> mbuf_cat tmp k;
     hash \<leftarrow> hsh_sha1 E tmp;
     h \<leftarrow> mbuf_add (mdata hash) 8 12;
     aes_key \<leftarrow> mbuf_cat aes_key h;
     h \<leftarrow> mbuf_add (mdata hash) 0 8;
     aes_iv \<leftarrow> mbuf_cat aes_iv h;
     tmp \<leftarrow> mbuf_add (mdata auth_key) (64 + x) 32;
     k \<leftarrow> mbuf_add (mdata msg_key) 0 16;
     tmp \<leftarrow> mbuf_cat tmp k;
     hash \<leftarrow> hsh_sha1 E tmp;
     h \<leftarrow> mbuf_add (mdata hash) 4 12;
     aes_key \<leftarrow> mbuf_cat aes_key h;
     h \<leftarrow> mbuf_add (mdata hash) 16 4;
     aes_iv \<leftarrow> mbuf_cat aes_iv h;
     tmp \<leftarrow> mbuf_add (mdata msg_key) 0 16;
     k \<leftarrow> mbuf_add (mdata auth_key) (96 + x) 32;
     tmp \<leftarrow> mbuf_cat tmp k;
     hash \<leftarrow> hsh_sha1 E tmp;
     h \<leftarrow> mbuf_add (mdata hash) 0 8;
     aes_iv \<leftarrow> mbuf_cat aes_iv h;
     Some (aes_key, aes_iv)
   }"

definition enl_encrypt :: "menv \<Rightarrow> mbuf \<Rightarrow> msg_t \<Rightarrow> mtx \<Rightarrow> mbuf option" where
  "enl_encrypt E b t x = (case t of
     API \<Rightarrow> do {
       key_hash \<leftarrow> hsh_sha1 E (x_key x);
       auth_key_id \<leftarrow> mbuf_add (mdata key_hash) 12 8;
       e \<leftarrow> mbuf_cat zero_mbuf auth_key_id;
       data_hash \<leftarrow> hsh_sha1 E b;
       msg_key \<leftarrow> mbuf_add (mdata data_hash) 4 16;
       e \<leftarrow> mbuf_cat e msg_key;
       (let pad = (16 - msize b mod 16) mod 16 in do {
          b \<leftarrow> (if pad \<noteq> 0 then mbuf_cat b (zero_mbuf\<lparr>msize := pad\<rparr>) else Some b);
          (k, v) \<leftarrow> enl_get_params E (x_key x) msg_key 0;
          enc \<leftarrow> cry_aes_e E b k v;
          mbuf_cat e enc
        })
     }
   | RFC \<Rightarrow> do {
       e \<leftarrow> mbuf_add (mdata zero_mbuf) 0 8;
       mbuf_cat e b
     }
   | CTER \<Rightarrow> Some zero_mbuf)"

text \<open>The comparisons are made for their messages only.\<close>

definition enl_decrypt :: "menv \<Rightarrow> mbuf \<Rightarrow> msg_t \<Rightarrow> mtx \<Rightarrow> mbuf option" where
  "enl_decrypt E m t x = (case t of
     API \<Rightarrow> do {
       key_hash \<leftarrow> hsh_sha1 E (x_key x);
       auth_key_id \<leftarrow> mbuf_add (mdata key_hash) 12 8;
       auth_key_id' \<leftarrow> mbuf_add (mdata m) 0 8;
       mbuf_cmp auth_key_id auth_key_id';
       m \<leftarrow> rest_of 8 m;
       msg_key \<leftarrow> mbuf_add (mdata m) 0 16;
       m \<leftarrow> rest_of 16 m;
       (k, v) \<leftarrow> enl_get_params E (x_key x) msg_key 8;
       d \<leftarrow> cry_aes_d E m k v;
       l' \<leftarrow> mbuf_add (mdata d) 28 4;
       (let pad = (16 - mbuf_get_ui32 l' mod 16) mod 16 in do {
          d \<leftarrow> (if pad \<noteq> 0 then mbuf_add (mdata d) 0 (msize d - pad) else Some d);
          data_hash \<leftarrow> hsh_sha1 E d;
          msg_key' \<leftarrow> mbuf_add (mdata data_hash) 4 16;
          mbuf_cmp msg_key' msg_key;
          Some d
        })
     }
   | RFC \<Rightarrow> do {
       d_key \<leftarrow> mbuf_add (mdata m) 0 8;
       mbuf_cmp (zero_mbuf\<lparr>msize := 8\<rparr>) d_key;
       rest_of 8 m
     }
   | CTER \<Rightarrow> Some (m_any E))"

section \<open>Transport and socket (trl.c, net.c)\<close>

definition trl_transport :: "mbuf \<Rightarrow> mbuf option" where
  "trl_transport b = do { l \<leftarrow> mbuf_add_ui32 (msize b); mbuf_cat l b }"

text \<open>The length is compared, for the message, with the size of the whole packet, from which it
  always differs by four.\<close>

definition trl_detransport :: "mbuf \<Rightarrow> mbuf option" where
  "trl_detransport a = do {
     a_len \<leftarrow> mbuf_add (mdata a) 0 4;
     a_len' \<leftarrow> mbuf_add (le_bytes 4 (msize a)) 0 4;
     mbuf_cmp a_len a_len';
     rest_of 4 a
   }"

definition net_send1 :: "mbuf \<Rightarrow> mtx \<Rightarrow> mtx option" where
  "net_send1 b x = (if unat (msize b) \<le> 800 then Some (x\<lparr>x_sent := x_sent x @ [mbytes b]\<rparr>) else None)"

text \<open>One recv of at most 800 bytes; what is left of a chunk stays in the socket.\<close>

definition net_receive1 :: "menv \<Rightarrow> mtx \<Rightarrow> mbuf \<times> mtx" where
  "net_receive1 E x = (case x_inbox x of
     [] \<Rightarrow> (\<lparr>mdata = m_junk E, msize = 0\<rparr>, x)
   | None # cs \<Rightarrow> (\<lparr>mdata = m_junk E, msize = - 1\<rparr>, x\<lparr>x_inbox := cs\<rparr>)
   | Some c # cs \<Rightarrow> (mkj (take 800 c) (drop (length (take 800 c)) (m_junk E)),
       x\<lparr>x_inbox := (if 800 < length c then Some (drop 800 c) # cs else cs)\<rparr>))"

definition net_drive1 :: "menv \<Rightarrow> mbuf \<Rightarrow> stk_mode \<Rightarrow> mtx \<Rightarrow> (mbuf \<times> mtx) option" where
  "net_drive1 E b m x = do {
     x \<leftarrow> net_send1 b x;
     (case m of SEND_RECEIVE \<Rightarrow> Some (net_receive1 E x) | SEND \<Rightarrow> Some (zero_mbuf, x))
   }"

section \<open>The stack (stk.c)\<close>

definition stk_drive :: "menv \<Rightarrow> abstract_t \<Rightarrow> mtx \<Rightarrow> (abstract_t \<times> mtx) option" where
  "stk_drive E a x = do {
     s \<leftarrow> sel_serialize E a;
     mbuf_dump s;
     (s1, x) \<leftarrow> hdl_header E s (a_type a) x;
     mbuf_dump s1;
     e \<leftarrow> enl_encrypt E s1 (a_type a) x;
     mbuf_dump e;
     t \<leftarrow> trl_transport e;
     mbuf_dump t;
     (nr, x) \<leftarrow> net_drive1 E t (a_mode a) x;
     mbuf_dump nr;
     (case a_mode a of
        SEND_RECEIVE \<Rightarrow> do {
          tr \<leftarrow> trl_detransport nr;
          d \<leftarrow> enl_decrypt E tr (a_type a) x;
          (s1r, x) \<leftarrow> hdl_deheader d (a_type a) x;
          ar \<leftarrow> sel_deserialize s1r;
          Some (ar, x)
        }
      | SEND \<Rightarrow> Some (\<lparr>a_params = replicate 24 (param0 TYPE_QX), a_type = API, a_mode = SEND\<rparr>, x))
   }"

end
