(* ===== verification/Handshake.thy ===== *)
theory Handshake
  imports MtxLayers
begin

text \<open>
  The key exchange of mtx: the calls as lists of parameters and the answers taken apart (sil.c),
  the three calls of the exchange with what they compute (tgt.c), and the order they run in
  (srl.c, scl.c, app.c).  This is the handshake that tg_send of tg/queue.c and tg/send_query.c
  start with api.app.open.
\<close>

section \<open>Calls as parameters (sil.c)\<close>

definition id_param :: "u32 \<Rightarrow> param_t option" where
  "id_param i = do { b \<leftarrow> mbuf_add_ui32 i; Some \<lparr>p_id = 0, p_value = b, p_type = TYPE_ID\<rparr> }"

definition abstract_of :: "msg_t \<Rightarrow> u32 \<Rightarrow> param_t list \<Rightarrow> abstract_t option" where
  "abstract_of t i ps = do { p \<leftarrow> id_param i; Some \<lparr>a_params = p # ps, a_type = t, a_mode = SEND\<rparr> }"

text \<open>The mode is set by the caller.  An object with no identifier is left uninitialised.\<close>

definition sil_abstract :: "tg_api_type_system_t \<Rightarrow> abstract_t option" where
  "sil_abstract t =
     (if rq_id (t_req_pq t) \<noteq> 0 then
        (let m = t_req_pq t in abstract_of RFC (rq_id m) [rq_nonce m])
      else if pi_id (t_P_Q_inner_data t) \<noteq> 0 then
        (let m = t_P_Q_inner_data t in
         abstract_of RFC (pi_id m) [pi_pq m, pi_p m, pi_q m, pi_nonce m, pi_server_nonce m, pi_new_nonce m])
      else if rd_id (t_req_DH_params t) \<noteq> 0 then
        (let m = t_req_DH_params t in
         abstract_of RFC (rd_id m) [rd_nonce m, rd_server_nonce m, rd_p m, rd_q m, rd_fingerprint m, rd_encrypted_data m])
      else if ci_id (t_Client_DH_Inner_Data t) \<noteq> 0 then
        (let m = t_Client_DH_Inner_Data t in
         abstract_of RFC (ci_id m) [ci_nonce m, ci_server_nonce m, ci_retry_id m, ci_g_b m])
      else if sc_id (t_set_client_DH_params t) \<noteq> 0 then
        (let m = t_set_client_DH_params t in
         abstract_of RFC (sc_id m) [sc_nonce m, sc_server_nonce m, sc_encrypted_data m])
      else if pg_id (t_ping t) \<noteq> 0 then
        (let m = t_ping t in abstract_of API (pg_id m) [pg_ping_id m])
      else if as_id (t_auth_sendCode t) \<noteq> 0 then
        (let m = t_auth_sendCode t in
         abstract_of API (as_id m) [as_phone_number m, as_sms_type m, as_api_id m, as_api_hash m, as_lang_code m])
      else if ma_id (t_msgs_ack t) \<noteq> 0 then
        (let m = t_msgs_ack t in abstract_of API (ma_id m) [ma_msg_ids m])
      else None)"

section \<open>Answers (sil.c)\<close>

definition field1 :: "menv \<Rightarrow> u32 \<Rightarrow> tl_type \<Rightarrow> mbuf \<Rightarrow> param_t option" where
  "field1 E i ty s = deserialize_param E \<lparr>p_id = i, p_value = s, p_type = ty\<rparr>"

text \<open>The distance to the next field after a string: its length and four, whatever its padding.\<close>

definition after_string :: "param_t \<Rightarrow> mbuf \<Rightarrow> mbuf option" where
  "after_string p s = (let l = msize (p_value p) + 4 in mbuf_add (mdata s) (unat l) (msize s - l))"

definition concrete_ResPQ :: "menv \<Rightarrow> u32 \<Rightarrow> mbuf \<Rightarrow> ctor_ResPQ_t option" where
  "concrete_ResPQ E i s = do {
     nonce \<leftarrow> field1 E i TYPE_INT128 s;
     s \<leftarrow> rest_of 16 s;
     server_nonce \<leftarrow> field1 E i TYPE_INT128 s;
     s \<leftarrow> rest_of 16 s;
     pq \<leftarrow> field1 E i TYPE_STRING s;
     s \<leftarrow> after_string pq s;
     fp \<leftarrow> field1 E i TYPE_VECTOR_LONG s;
     Some \<lparr>rp_id = i, rp_nonce = nonce, rp_server_nonce = server_nonce, rp_pq = pq, rp_fingerprints = fp\<rparr>
   }"

definition concrete_DH_ok :: "menv \<Rightarrow> u32 \<Rightarrow> mbuf \<Rightarrow> ctor_Server_DH_Params_ok_t option" where
  "concrete_DH_ok E i s = do {
     nonce \<leftarrow> field1 E i TYPE_INT128 s;
     s \<leftarrow> rest_of 16 s;
     server_nonce \<leftarrow> field1 E i TYPE_INT128 s;
     s \<leftarrow> rest_of 16 s;
     answer \<leftarrow> field1 E i TYPE_STRING s;
     Some \<lparr>dp_id = i, dp_nonce = nonce, dp_server_nonce = server_nonce, dp_encrypted_answer = answer\<rparr>
   }"

definition concrete_inner :: "menv \<Rightarrow> u32 \<Rightarrow> mbuf \<Rightarrow> ctor_Server_DH_inner_data_t option" where
  "concrete_inner E i s = do {
     nonce \<leftarrow> field1 E i TYPE_INT128 s;
     s \<leftarrow> rest_of 16 s;
     server_nonce \<leftarrow> field1 E i TYPE_INT128 s;
     s \<leftarrow> rest_of 16 s;
     g \<leftarrow> field1 E i TYPE_INT s;
     s \<leftarrow> rest_of 4 s;
     dh_prime \<leftarrow> field1 E i TYPE_STRING s;
     s \<leftarrow> after_string dh_prime s;
     g_a \<leftarrow> field1 E i TYPE_STRING s;
     s \<leftarrow> after_string g_a s;
     server_time \<leftarrow> field1 E i TYPE_INT s;
     Some \<lparr>si_id = i, si_nonce = nonce, si_server_nonce = server_nonce, si_g = g, si_dh_prime = dh_prime, si_g_a = g_a,
       si_server_time = server_time, si_answer = m_any E, si_tmp_aes_key = m_any E, si_tmp_aes_iv = m_any E\<rparr>
   }"

definition concrete_answer :: "menv \<Rightarrow> u32 \<Rightarrow> mbuf \<Rightarrow> ctor_Set_client_DH_params_answer_ok_t option" where
  "concrete_answer E i s = do {
     nonce \<leftarrow> field1 E i TYPE_INT128 s;
     s \<leftarrow> rest_of 16 s;
     server_nonce \<leftarrow> field1 E i TYPE_INT128 s;
     s \<leftarrow> rest_of 16 s;
     hash1 \<leftarrow> field1 E i TYPE_INT128 s;
     Some \<lparr>ao_id = i, ao_nonce = nonce, ao_server_nonce = server_nonce, ao_new_nonce_hash1 = hash1\<rparr>
   }"

definition concrete_NewSession :: "menv \<Rightarrow> u32 \<Rightarrow> mbuf \<Rightarrow> ctor_NewSession_t option" where
  "concrete_NewSession E i s = do {
     first \<leftarrow> field1 E i TYPE_LONG s;
     s \<leftarrow> rest_of 8 s;
     unique \<leftarrow> field1 E i TYPE_LONG s;
     s \<leftarrow> rest_of 8 s;
     salt \<leftarrow> field1 E i TYPE_LONG s;
     Some \<lparr>ns_id = i, ns_first_msg_id = first, ns_unique_id = unique, ns_server_salt = salt\<rparr>
   }"

definition concrete_Pong :: "menv \<Rightarrow> u32 \<Rightarrow> mbuf \<Rightarrow> ctor_Pong_t option" where
  "concrete_Pong E i s = do {
     msg_id \<leftarrow> field1 E i TYPE_LONG s;
     s \<leftarrow> rest_of 8 s;
     ping_id \<leftarrow> field1 E i TYPE_LONG s;
     Some \<lparr>po_id = i, po_msg_id = msg_id, po_ping_id = ping_id\<rparr>
   }"

text \<open>Every answer but a container, into the static type system; an unknown identifier is printed.\<close>

definition concrete_plain :: "menv \<Rightarrow> u32 \<Rightarrow> mbuf \<Rightarrow> tg_api_type_system_t \<Rightarrow> tg_api_type_system_t option" where
  "concrete_plain E i s t =
     (if i = 0x05162463 then do { c \<leftarrow> concrete_ResPQ E i s; Some (t\<lparr>t_ResPQ := c\<rparr>) }
      else if i = 0xd0e8075c then do { c \<leftarrow> concrete_DH_ok E i s; Some (t\<lparr>t_Server_DH_Params_ok := c\<rparr>) }
      else if i = 0xb5890dba then do { c \<leftarrow> concrete_inner E i s; Some (t\<lparr>t_Server_DH_inner_data := c\<rparr>) }
      else if i = 0x3bcbf734 then do { c \<leftarrow> concrete_answer E i s; Some (t\<lparr>t_answer_ok := c\<rparr>) }
      else if i = 0x9ec20908 then do { c \<leftarrow> concrete_NewSession E i s; Some (t\<lparr>t_NewSession := c\<rparr>) }
      else if i = 0x347773c5 then do { c \<leftarrow> concrete_Pong E i s; Some (t\<lparr>t_Pong := c\<rparr>) }
      else Some t)"

text \<open>The static type system is emptied at the first use.  A container is taken to hold two
  messages, each of which may be a container again; a recursion without end is undefined.\<close>

definition fresh_tsys :: "mtx \<Rightarrow> mtx" where
  "fresh_tsys x = (if x_flag x = 0 then x\<lparr>x_t := zero_tsys, x_flag := x_flag x + 1\<rparr> else x)"

partial_function (option) sil_concrete :: "menv \<Rightarrow> abstract_t \<Rightarrow> mtx \<Rightarrow> mtx option" where
  "sil_concrete E a x =
     (let x = fresh_tsys x; i = mbuf_get_ui32 (p_value (a_params a ! 0)); s = p_value (a_params a ! 1) in
      if i = 0x73f1f8dc
      then do {
        content \<leftarrow> mbuf_add (mdata s) 0 (msize s);
        v \<leftarrow> mbuf_add_ui32 0x1cb5c415;
        v \<leftarrow> mbuf_cat v content;
        p \<leftarrow> field1 E i TYPE_VECTOR_MESSAGE v;
        d \<leftarrow> hdl_deheader (p_value p) CTER x;
        a1 \<leftarrow> sel_deserialize (fst d);
        x \<leftarrow> sil_concrete E a1 (snd d);
        v \<leftarrow> mbuf_add (mdata (p_value p)) (unat (msize (fst d) + 16)) (msize (p_value p) - (msize (fst d) + 16));
        d \<leftarrow> hdl_deheader v CTER x;
        a2 \<leftarrow> sel_deserialize (fst d);
        x \<leftarrow> sil_concrete E a2 (snd d);
        v \<leftarrow> mbuf_add (mdata v) (unat (msize (fst d) + 16)) (msize v - (msize (fst d) + 16));
        Some x
      }
      else do { t \<leftarrow> concrete_plain E i s (x_t x); Some (x\<lparr>x_t := t\<rparr>) })"

section \<open>The calls (tgt.c)\<close>

definition set_value :: "mbuf \<Rightarrow> param_t \<Rightarrow> param_t" where
  "set_value b p = p\<lparr>p_value := b\<rparr>"

definition method_req_pq_init :: "menv \<Rightarrow> mtx \<Rightarrow> (method_req_pq_t \<times> mtx) option" where
  "method_req_pq_init E x = do {
     (b, x) \<leftarrow> api_rand E 16 x;
     Some (req_pq\<lparr>rq_nonce := set_value b (rq_nonce req_pq)\<rparr>, x)
   }"

definition drive1 :: "menv \<Rightarrow> tg_api_type_system_t \<Rightarrow> mtx \<Rightarrow> mtx option" where
  "drive1 E t x = do {
     a \<leftarrow> sil_abstract t;
     (a, x) \<leftarrow> stk_drive E (a\<lparr>a_mode := SEND_RECEIVE\<rparr>) x;
     sil_concrete E a x
   }"

definition method_req_pq_drive :: "menv \<Rightarrow> method_req_pq_t \<Rightarrow> mtx \<Rightarrow> (method_req_pq_t \<times> mtx) option" where
  "method_req_pq_drive E m x = do {
     x \<leftarrow> drive1 E (zero_tsys\<lparr>t_req_pq := m\<rparr>) x;
     Some (m\<lparr>rq_ResPQ := t_ResPQ (x_t x)\<rparr>, x)
   }"

text \<open>The new nonce is 32 zeros.\<close>

definition ctor_P_Q_inner_data_init :: "method_req_pq_t \<Rightarrow> method_req_DH_params_t \<Rightarrow> ctor_P_Q_inner_data_t" where
  "ctor_P_Q_inner_data_init m1 m2 = ctor_P_Q_inner_data\<lparr>
     pi_pq := rp_pq (rq_ResPQ m1), pi_p := rd_p m2, pi_q := rd_q m2, pi_nonce := rq_nonce m1,
     pi_server_nonce := rp_server_nonce (rq_ResPQ m1),
     pi_new_nonce := \<lparr>p_id = 0, p_value = zero_mbuf\<lparr>msize := 32\<rparr>, p_type = TYPE_INT256\<rparr>\<rparr>"

definition ctor_P_Q_inner_data_drive :: "menv \<Rightarrow> ctor_P_Q_inner_data_t \<Rightarrow> mbuf option" where
  "ctor_P_Q_inner_data_drive E c = do {
     a \<leftarrow> sil_abstract (zero_tsys\<lparr>t_P_Q_inner_data := c\<rparr>);
     s \<leftarrow> sel_serialize E a;
     mbuf_dump s;
     Some s
   }"

text \<open>The buffer for the hash and the data is declared without a value.\<close>

definition method_req_DH_params_init :: "menv \<Rightarrow> method_req_pq_t \<Rightarrow> method_req_DH_params_t option" where
  "method_req_DH_params_init E m1 = do {
     m \<leftarrow> Some (method_req_DH_params\<lparr>rd_nonce := rq_nonce m1, rd_server_nonce := rp_server_nonce (rq_ResPQ m1)\<rparr>);
     b \<leftarrow> mbuf_swap (p_value (rp_pq (rq_ResPQ m1)));
     (p, q) \<leftarrow> Some (m_factor E (mbuf_get_ui64 b));
     (p, q) \<leftarrow> Some (if \<not> p < q then (q, p) else (p, q));
     b \<leftarrow> mbuf_add_ui32 p;
     pb \<leftarrow> mbuf_swap b;
     b \<leftarrow> mbuf_add_ui32 q;
     qb \<leftarrow> mbuf_swap b;
     m \<leftarrow> Some (m\<lparr>rd_p := set_value pb (rd_p m), rd_q := set_value qb (rd_q m),
            rd_fingerprint := rp_fingerprints (rq_ResPQ m1)\<rparr>);
     c \<leftarrow> Some (ctor_P_Q_inner_data_init m1 m);
     d \<leftarrow> ctor_P_Q_inner_data_drive E c;
     h \<leftarrow> hsh_sha1 E d;
     dwh \<leftarrow> mbuf_cat (m_any E) h;
     dwh \<leftarrow> mbuf_cat dwh d;
     dwh \<leftarrow> mbuf_cat dwh (zero_mbuf\<lparr>msize := 255 - msize dwh\<rparr>);
     e \<leftarrow> cry_rsa_e E dwh;
     Some (m\<lparr>rd_encrypted_data := \<lparr>p_id = 0, p_value = e, p_type = TYPE_STRING\<rparr>, rd_P_Q_inner_data := c\<rparr>)
   }"

definition method_req_DH_params_drive :: "menv \<Rightarrow> method_req_DH_params_t \<Rightarrow> mtx \<Rightarrow> (method_req_DH_params_t \<times> mtx) option" where
  "method_req_DH_params_drive E m x = do {
     x \<leftarrow> drive1 E (zero_tsys\<lparr>t_req_DH_params := m\<rparr>) x;
     Some (m\<lparr>rd_Server_DH_Params_ok := t_Server_DH_Params_ok (x_t x)\<rparr>, x)
   }"

text \<open>The temporary key and vector, and the answer without its hash and the last eight bytes.\<close>

definition ctor_Server_DH_inner_data_init ::
    "menv \<Rightarrow> method_req_pq_t \<Rightarrow> method_req_DH_params_t \<Rightarrow> ctor_Server_DH_inner_data_t option" where
  "ctor_Server_DH_inner_data_init E m1 m2 = do {
     new_nonce \<leftarrow> Some (p_value (pi_new_nonce (ctor_P_Q_inner_data_init m1 m2)));
     server_nonce \<leftarrow> Some (p_value (rp_server_nonce (rq_ResPQ m1)));
     b \<leftarrow> mbuf_cat zero_mbuf new_nonce;
     b \<leftarrow> mbuf_cat b server_nonce;
     ns_hash \<leftarrow> hsh_sha1 E b;
     b \<leftarrow> mbuf_cat zero_mbuf server_nonce;
     b \<leftarrow> mbuf_cat b new_nonce;
     sn_hash \<leftarrow> hsh_sha1 E b;
     sn12 \<leftarrow> mbuf_add (mdata sn_hash) 0 12;
     key \<leftarrow> mbuf_cat zero_mbuf ns_hash;
     key \<leftarrow> mbuf_cat key sn12;
     sn8 \<leftarrow> mbuf_add (mdata sn_hash) 12 8;
     b \<leftarrow> mbuf_cat zero_mbuf new_nonce;
     b \<leftarrow> mbuf_cat b new_nonce;
     nn_hash \<leftarrow> hsh_sha1 E b;
     n4 \<leftarrow> mbuf_add (mdata new_nonce) 0 4;
     iv \<leftarrow> mbuf_cat zero_mbuf sn8;
     iv \<leftarrow> mbuf_cat iv nn_hash;
     iv \<leftarrow> mbuf_cat iv n4;
     answer \<leftarrow> cry_aes_d E (p_value (dp_encrypted_answer (rd_Server_DH_Params_ok m2))) key iv;
     answer \<leftarrow> rest_of 20 answer;
     answer \<leftarrow> Some (answer\<lparr>msize := msize answer - 8\<rparr>);
     (let p = \<lparr>p_id = 0, p_value = m_any E, p_type = TYPE_QX\<rparr> in
      Some \<lparr>si_id = 0, si_nonce = p, si_server_nonce = p, si_g = p, si_dh_prime = p, si_g_a = p, si_server_time = p,
        si_answer = answer, si_tmp_aes_key = key, si_tmp_aes_iv = iv\<rparr>)
   }"

definition ctor_Server_DH_inner_data_drive :: "menv \<Rightarrow> mbuf \<Rightarrow> mtx \<Rightarrow> (ctor_Server_DH_inner_data_t \<times> mtx) option" where
  "ctor_Server_DH_inner_data_drive E b x = do {
     a \<leftarrow> sel_deserialize b;
     x \<leftarrow> sil_concrete E a x;
     Some (t_Server_DH_inner_data (x_t x), x)
   }"

definition ctor_Client_DH_Inner_Data_init ::
    "menv \<Rightarrow> ctor_Server_DH_inner_data_t \<Rightarrow> mtx \<Rightarrow> (ctor_Client_DH_Inner_Data_t \<times> mtx) option" where
  "ctor_Client_DH_Inner_Data_init E c1 x = do {
     r \<leftarrow> mbuf_add_ui32 0;
     g \<leftarrow> mbuf_swap (p_value (si_g c1));
     (b, x) \<leftarrow> api_rand E 256 x;
     gb \<leftarrow> cmn_pow_mod E g b (p_value (si_dh_prime c1));
     Some (ctor_Client_DH_Inner_Data\<lparr>ci_nonce := si_nonce c1, ci_server_nonce := si_server_nonce c1,
       ci_retry_id := \<lparr>p_id = 0, p_value = r, p_type = TYPE_LONG\<rparr>,
       ci_g_b := \<lparr>p_id = 0, p_value = gb, p_type = TYPE_STRING\<rparr>, ci_b := b\<rparr>, x)
   }"

definition ctor_Client_DH_Inner_Data_drive :: "menv \<Rightarrow> ctor_Client_DH_Inner_Data_t \<Rightarrow> mbuf option" where
  "ctor_Client_DH_Inner_Data_drive E c1 = do {
     a \<leftarrow> sil_abstract (zero_tsys\<lparr>t_Client_DH_Inner_Data := c1\<rparr>);
     sel_serialize E a
   }"

definition method_set_client_DH_params_init ::
    "menv \<Rightarrow> method_req_pq_t \<Rightarrow> method_req_DH_params_t \<Rightarrow> mtx \<Rightarrow> (method_set_client_DH_params_t \<times> mtx) option" where
  "method_set_client_DH_params_init E m1 m2 x = do {
     c \<leftarrow> ctor_Server_DH_inner_data_init E m1 m2;
     (c1, x) \<leftarrow> ctor_Server_DH_inner_data_drive E (si_answer c) x;
     (c2, x) \<leftarrow> ctor_Client_DH_Inner_Data_init E c1 x;
     data \<leftarrow> ctor_Client_DH_Inner_Data_drive E c2;
     hash \<leftarrow> hsh_sha1 E data;
     (rand, x) \<leftarrow> api_rand E ((16 - (msize hash + msize data) mod 16) mod 16) x;
     d \<leftarrow> mbuf_cat zero_mbuf hash;
     d \<leftarrow> mbuf_cat d data;
     d \<leftarrow> mbuf_cat d rand;
     e \<leftarrow> cry_aes_e E d (si_tmp_aes_key c) (si_tmp_aes_iv c);
     n8 \<leftarrow> mbuf_add (mdata (p_value (pi_new_nonce (rd_P_Q_inner_data m2)))) 0 8;
     s8 \<leftarrow> mbuf_add (mdata (p_value (rp_server_nonce (rq_ResPQ m1)))) 0 8;
     salt \<leftarrow> mbuf_xor (m_junk E) n8 s8;
     Some (method_set_client_DH_params\<lparr>sc_nonce := rq_nonce m1, sc_server_nonce := rp_server_nonce (rq_ResPQ m1),
       sc_encrypted_data := \<lparr>p_id = 0, p_value = e, p_type = TYPE_STRING\<rparr>,
       sc_Server_DH_inner_data := c1, sc_Client_DH_Inner_Data := c2, sc_salt := salt\<rparr>, x)
   }"

text \<open>The nonces of the last answer are compared for a message; its hash is not looked at.\<close>

definition method_set_client_DH_params_drive ::
    "menv \<Rightarrow> method_set_client_DH_params_t \<Rightarrow> mtx \<Rightarrow> (method_set_client_DH_params_t \<times> mtx) option" where
  "method_set_client_DH_params_drive E m x = do {
     x \<leftarrow> drive1 E (zero_tsys\<lparr>t_set_client_DH_params := m\<rparr>) x;
     m \<leftarrow> Some (m\<lparr>sc_answer_ok := t_answer_ok (x_t x)\<rparr>);
     mbuf_cmp (p_value (ao_nonce (sc_answer_ok m))) (p_value (si_nonce (sc_Server_DH_inner_data m)));
     mbuf_cmp (p_value (ao_server_nonce (sc_answer_ok m))) (p_value (si_server_nonce (sc_Server_DH_inner_data m)));
     Some (m, x)
   }"

definition method_ping_init :: "method_ping_t option" where
  "method_ping_init = do {
     b \<leftarrow> mbuf_add_ui64 0;
     Some (method_ping\<lparr>pg_ping_id := \<lparr>p_id = 0, p_value = b, p_type = TYPE_LONG\<rparr>\<rparr>)
   }"

definition method_ping_drive :: "menv \<Rightarrow> method_ping_t \<Rightarrow> mtx \<Rightarrow> (method_ping_t \<times> mtx) option" where
  "method_ping_drive E m x = do {
     x \<leftarrow> drive1 E (zero_tsys\<lparr>t_ping := m\<rparr>) x;
     m \<leftarrow> Some (m\<lparr>pg_Pong := t_Pong (x_t x)\<rparr>);
     mbuf_cmp (p_value (pg_ping_id m)) (p_value (po_ping_id (pg_Pong m)));
     Some (m, x\<lparr>x_flag := 0\<rparr>)
   }"

text \<open>The hash of the application is read as 32 bytes of an empty string.\<close>

definition method_auth_sendCode_init :: "method_auth_sendCode_t option" where
  "method_auth_sendCode_init = do {
     phone \<leftarrow> mbuf_add [0x2b, 0x37, 0x58, 0x58, 0x58, 0x58, 0x58, 0x58, 0x58, 0x58, 0x58, 0x58, 0] 0 12;
     sms \<leftarrow> mbuf_add_ui32 0;
     api_id \<leftarrow> mbuf_add_ui32 0;
     api_hash \<leftarrow> mbuf_add [0] 0 32;
     lang \<leftarrow> mbuf_add [0x72, 0x75, 0] 0 2;
     (let m = method_auth_sendCode in
      Some (m\<lparr>as_phone_number := set_value phone (as_phone_number m), as_sms_type := set_value sms (as_sms_type m),
        as_api_id := set_value api_id (as_api_id m), as_api_hash := set_value api_hash (as_api_hash m),
        as_lang_code := set_value lang (as_lang_code m)\<rparr>))
   }"

definition method_msgs_ack_init :: "mbuf \<Rightarrow> method_msgs_ack_t" where
  "method_msgs_ack_init msg_id = method_msgs_ack\<lparr>ma_msg_ids := set_value msg_id (ma_msg_ids method_msgs_ack)\<rparr>"

definition method_msgs_ack_drive :: "menv \<Rightarrow> method_msgs_ack_t \<Rightarrow> mtx \<Rightarrow> (method_msgs_ack_t \<times> mtx) option" where
  "method_msgs_ack_drive E m x = do {
     a \<leftarrow> sil_abstract (zero_tsys\<lparr>t_msgs_ack := m\<rparr>);
     (a, x) \<leftarrow> stk_drive E (a\<lparr>a_mode := SEND\<rparr>) x;
     Some (m, x)
   }"

section \<open>The exchange (srl.c, scl.c, app.c)\<close>

definition srl_auth :: "menv \<Rightarrow> mtx \<Rightarrow> mtx option" where
  "srl_auth E x = do {
     (m, x) \<leftarrow> method_req_pq_init E x;
     (m, x) \<leftarrow> method_req_pq_drive E m x;
     m1 \<leftarrow> method_req_DH_params_init E m;
     (m1, x) \<leftarrow> method_req_DH_params_drive E m1 x;
     (m2, x) \<leftarrow> method_set_client_DH_params_init E m m1 x;
     (m2, x) \<leftarrow> method_set_client_DH_params_drive E m2 x;
     key \<leftarrow> cmn_pow_mod E (p_value (si_g_a (sc_Server_DH_inner_data m2))) (ci_b (sc_Client_DH_Inner_Data m2))
              (p_value (si_dh_prime (sc_Server_DH_inner_data m2)));
     Some (x\<lparr>x_key := key, x_salt := sc_salt m2\<rparr>)
   }"

definition srl_ping :: "menv \<Rightarrow> mtx \<Rightarrow> (mbuf \<times> mtx) option" where
  "srl_ping E x = do {
     m \<leftarrow> method_ping_init;
     (m, x) \<leftarrow> method_ping_drive E m x;
     Some (zero_mbuf, x)
   }"

text \<open>net_open: an error to connect is printed; the tag of the intermediate transport is sent.\<close>

definition net_open1 :: "mtx \<Rightarrow> mtx" where
  "net_open1 x = x\<lparr>x_sent := x_sent x @ [[0xee, 0xee, 0xee, 0xee]]\<rparr>"

definition scl_open :: "menv \<Rightarrow> mtx \<Rightarrow> mtx option" where
  "scl_open E x = srl_auth E (net_open1 x)"

definition app_open :: "menv \<Rightarrow> mtx \<Rightarrow> mtx option" where
  "app_open E x = scl_open E (reset_shared_rc x)"

end
