(* ===== verification/HandshakeSpec.thy ===== *)
theory HandshakeSpec
  imports Handshake Sha1Spec
begin

text \<open>
  The key exchange run on the messages of a server: what each layer does with lists of bytes, and
  the calls one after the other.
\<close>

section \<open>What is outside\<close>

text \<open>Big-endian numbers.  OpenSSL's BN_mod_exp, between BN_bin2bn and BN_bn2bin, is the power modulo
  the modulus, written without leading zeros.\<close>

definition be_nat :: "byte list \<Rightarrow> nat" where
  "be_nat bs = foldl (\<lambda>v b. 256 * v + unat b) 0 bs"

definition bn_ok :: "menv \<Rightarrow> bool" where
  "bn_ok E \<longleftrightarrow> (\<forall>g e m. 0 < be_nat m \<longrightarrow>
     (\<exists>y. m_modexp E g e m = Some y \<and> be_nat y = be_nat g ^ be_nat e mod be_nat m \<and> (y = [] \<or> hd y \<noteq> 0)))"

text \<open>The uninitialised buffer happens to be empty.\<close>

definition menv_ok :: "menv \<Rightarrow> bool" where
  "menv_ok E \<longleftrightarrow> crypto_ok (m_crypto E) \<and> bn_ok E \<and> length (m_rsa_n E) = 256 \<and> 0 < be_nat (m_rsa_n E) \<and>
     length (buf1 (m_sha E)) = 64 \<and> length (m_junk E) = 800 \<and> msize (m_any E) = 0 \<and> length (mdata (m_any E)) = 800"

lemma be_nat_snoc: "be_nat (bs @ [b]) = 256 * be_nat bs + unat b"
  by (simp add: be_nat_def)

lemma be_nat_Nil [simp]: "be_nat [] = 0"
  by (simp add: be_nat_def)

lemma be_nat_append: "be_nat (as @ bs) = be_nat as * 256 ^ length bs + be_nat bs"
proof (induction bs rule: rev_induct)
  case (snoc b bs)
  have "be_nat (as @ bs @ [b]) = 256 * be_nat (as @ bs) + unat b"
    using be_nat_snoc [of "as @ bs" b] by simp
  also have "\<dots> = be_nat as * 256 ^ length (bs @ [b]) + be_nat (bs @ [b])"
    by (simp add: snoc.IH be_nat_snoc algebra_simps)
  finally show ?case .
qed simp

lemma be_nat_less: "be_nat bs < 256 ^ length bs"
proof (induction bs rule: rev_induct)
  case (snoc b bs)
  have "unat b < 256"
    using unsigned_less [where 'a = nat, of b] by simp
  with snoc show ?case
    by (simp add: be_nat_snoc)
qed simp

text \<open>The number without leading zeros is no longer than one that is larger.\<close>

lemma be_nat_length:
  assumes "be_nat y < be_nat m" "y = [] \<or> hd y \<noteq> 0"
  shows "length y \<le> length m"
proof (rule ccontr)
  assume l: "\<not> length y \<le> length m"
  then obtain b ys where y: "y = b # ys"
    by (cases y) simp_all
  have "0 < unat b"
    using assms(2) y unat_gt_0 [of b] by simp
  then have "1 * 256 ^ length ys \<le> unat b * 256 ^ length ys"
    by (intro mult_right_mono) simp_all
  moreover have "be_nat y = unat b * 256 ^ length ys + be_nat ys"
    using be_nat_append [of "[b]" ys] y by (simp add: be_nat_def)
  ultimately have "256 ^ length ys \<le> be_nat y"
    by linarith
  moreover have "(256 :: nat) ^ length m \<le> 256 ^ length ys"
    using l y by (intro power_increasing) auto
  ultimately show False
    using assms(1) be_nat_less [of m] by simp
qed

lemma bn_modexp:
  assumes "bn_ok E" "0 < be_nat m"
  obtains y where "m_modexp E g e m = Some y" "be_nat y = be_nat g ^ be_nat e mod be_nat m" "length y \<le> length m"
    "y = [] \<or> hd y \<noteq> 0"
proof -
  obtain y where y: "m_modexp E g e m = Some y" "be_nat y = be_nat g ^ be_nat e mod be_nat m" "y = [] \<or> hd y \<noteq> 0"
    using assms unfolding bn_ok_def by blast
  have "be_nat y < be_nat m"
    using y(2) assms(2) by simp
  with that y be_nat_length show thesis
    by blast
qed

section \<open>Strings\<close>

lemma unat_size: "n \<le> 800 \<Longrightarrow> unat (of_nat n :: u32) = n"
  by simp

lemma pad_word: "n \<le> 800 \<Longrightarrow> (4 - (of_nat n :: u32) mod 4) mod 4 = of_nat (padn n)"
  using unat_pad_of [of "of_nat n"] padn_less [of n]
  by (intro unsigned_word_eqI [where 'a = nat]) (simp add: pad_of_def)

lemma of_nat_padn_0: "of_nat (padn n) = (0 :: u32) \<longleftrightarrow> padn n = 0"
proof
  assume "of_nat (padn n) = (0 :: u32)"
  then have "unat (of_nat (padn n) :: u32) = 0"
    by simp
  then show "padn n = 0"
    using padn_less [of n] by (simp add: unat_size)
qed simp

lemma serialize_string1_mkj:
  assumes l: "length bs + 8 \<le> 800"
  shows "serialize_string1 (mkj bs js) = Some (mk (tl_string bs))"
proof -
  let ?w = "of_nat (length bs) :: u32"
  have small: "?w \<le> 253 \<longleftrightarrow> length bs \<le> 253"
    using l by (simp add: word_le_nat_alt)
  note heads = tl_head_bytes [of ?w "length bs"]
  have pad: "mbuf_cat (mk xs) (zero_mbuf\<lparr>msize := of_nat (padn (length xs))\<rparr>) = Some (mk (xs @ replicate (padn (length xs)) 0))"
    if "length xs + 4 \<le> 800" for xs
    using that padn_less [of "length xs"] by (simp add: zeros_mk mbuf_cat_mk)
  have cat: "mbuf_cat (mk xs) (mkj bs js) = Some (mk (xs @ bs))" if "length xs + length bs \<le> 800" for xs
    using that by (rule mbuf_cat_mk)
  show ?thesis
  proof (cases "length bs \<le> 253")
    case True
    have h: "mbuf_add (le_bytes 4 ?w) 0 1 = Some (mk (tl_head (length bs)))"
      using True l heads(1) mbuf_add_data [of 0 1 "le_bytes 4 ?w"] by (simp add: take_le_bytes)
    have t: "length (tl_head (length bs)) = 1"
      using True by (simp add: length_tl_head)
    show ?thesis
      using True l t cat [of "tl_head (length bs)"] pad [of "tl_head (length bs) @ bs"]
      by (simp add: serialize_string1_def small h tl_string_def msize_mk pad_word Let_def del: of_nat_add of_nat_Suc)
  next
    case False
    have h: "mbuf_add (le_bytes 4 ?w) 0 3 = Some (mk (le_bytes 3 ?w))"
      using mbuf_add_data [of 0 3 "le_bytes 4 ?w"] by (simp add: take_le_bytes)
    have f: "mbuf_add [0xfe] 0 1 = Some (mk [0xfe])"
      using mbuf_add_data [of 0 1 "[0xfe]"] by simp
    have c: "mbuf_cat (mk [0xfe]) (mk (le_bytes 3 ?w)) = Some (mk (tl_head (length bs)))"
      using False l heads(2) mbuf_cat_mk [of "[0xfe]" "le_bytes 3 ?w"] by simp
    have t: "length (tl_head (length bs)) = 4"
      using False by (simp add: length_tl_head)
    show ?thesis
      using False l t cat [of "tl_head (length bs)"] pad [of "tl_head (length bs) @ bs"]
      by (simp add: serialize_string1_def small h f c tl_string_def msize_mk pad_word of_nat_padn_0 Let_def del: of_nat_add of_nat_Suc)
  qed
qed

lemma serialize_string1_mk: "length bs + 8 \<le> 800 \<Longrightarrow> serialize_string1 (mk bs) = Some (mk (tl_string bs))"
  by (simp add: mk_def [of bs] serialize_string1_mkj)

lemma deserialize_string1_mk:
  assumes l: "length (tl_string bs @ rest) \<le> 800"
  shows "deserialize_string1 (mk (tl_string bs @ rest)) = Some (mk bs)"
proof -
  let ?h = "tl_head (length bs)" and ?p = "replicate (padn (length (tl_head (length bs)) + length bs)) 0 :: byte list"
  have eq: "tl_string bs @ rest = ?h @ bs @ ?p @ rest"
    by (simp add: tl_string_def Let_def)
  have l: "length (?h @ bs @ ?p @ rest) \<le> 800"
    using l unfolding eq .
  have four: "4 \<le> length (?h @ bs @ ?p @ rest)"
    using tl_string_ge_4 [of bs] unfolding eq [symmetric] by simp
  show ?thesis
  proof (cases "length bs \<le> 253")
    case True
    then have h: "?h = [of_nat (length bs)]"
      by (simp add: tl_head_def)
    have u: "unat (of_nat (length bs) :: byte) = length bs"
      using True by (simp add: unat_of_nat)
    then have "(of_nat (length bs) :: byte) \<le> 253"
      using True by (simp add: word_le_nat_alt)
    moreover have "mbuf_add (mdata (mk (?h @ bs @ ?p @ rest))) 0 4 = Some (mk (take 4 (?h @ bs @ ?p @ rest)))"
      using mbuf_add_mk [of 0 4 "?h @ bs @ ?p @ rest"] four l by simp
    moreover have "mbuf_add (mdata (mk (?h @ bs @ ?p @ rest))) 1 (ucast (of_nat (length bs) :: byte)) = Some (mk bs)"
    proof -
      have "unat (ucast (of_nat (length bs) :: byte) :: u32) = length bs"
        using u True by (simp add: unsigned_ucast_eq take_bit_nat_eq_self)
      then show ?thesis
        using mbuf_add_mk(1) [of 1 "ucast (of_nat (length bs) :: byte)" "?h @ bs @ ?p @ rest"] l h by simp
    qed
    ultimately show ?thesis
      unfolding eq by (simp add: deserialize_string1_def h mdata_mk)
  next
    case False
    let ?w = "of_nat (length bs) :: u32" and ?m = "mk (?h @ bs @ ?p @ rest)"
    have h: "?h = 0xfe # le_bytes 3 ?w"
      using False by (simp add: tl_head_def)
    have t: "length ?h = 4"
      using False by (simp add: length_tl_head)
    have a: "mbuf_add (mdata ?m) 0 4 = Some (mk ?h)" "mbuf_add (mdata ?m) 0 1 = Some (mk [0xfe])"
      "mbuf_add (mdata ?m) 1 3 = Some (mk (le_bytes 3 ?w))" "rest_of 4 ?m = Some (mk (bs @ ?p @ rest))"
      using mbuf_add_mk(1) [of 0 4 "?h @ bs @ ?p @ rest"] mbuf_add_mk(1) [of 0 1 "?h @ bs @ ?p @ rest"]
        mbuf_add_mk(1) [of 1 3 "?h @ bs @ ?p @ rest"] rest_of_mk(1) [of 4 "?h @ bs @ ?p @ rest"] four l t h by simp_all
    have len: "mbuf_get_ui32 (mk (le_bytes 3 ?w)\<lparr>msize := 4\<rparr>) = ?w"
    proof -
      have "(le_val (le_bytes 3 ?w @ replicate 1 0) :: u32) = ucast ?w"
        using l by (intro le_val_pad) simp_all
      then show ?thesis
        by (simp add: mbuf_get_ui32_def mk_def mkj_def)
    qed
    have b: "mbuf_add (mdata (mk (bs @ ?p @ rest))) 0 ?w = Some (mk bs)"
      using mbuf_add_mk(1) [of 0 ?w "bs @ ?p @ rest"] l t by simp
    obtain r where r: "mbuf_cmp (mk [0xfe]) (mk [0xfe]) = Some r"
      using mbuf_cmp_defined [of "mk [0xfe]" "mk [0xfe]"] by (auto simp: msize_mk)
    have s1: "mbuf_add [0xfe] 0 1 = Some (mk [0xfe])"
      using mbuf_add_data [of 0 1 "[0xfe]"] by simp
    have "mdata (mk ?h) ! 0 = 0xfe"
      by (simp add: h mdata_mk)
    then show ?thesis
      unfolding eq by (simp add: deserialize_string1_def a s1 r len b del: One_nat_def)
  qed
qed

section \<open>Hashes and powers\<close>

lemma hsh_sha1_mk:
  assumes "menv_ok E" "length bs \<le> 800"
  shows "hsh_sha1 E (mk bs) = Some (mkj (fips_sha1 bs) (drop 20 (m_junk E)))"
proof -
  have "sha1 (m_sha E) bs = Some (fips_sha1 bs)"
    using assms by (intro sha1_fips) (simp_all add: menv_ok_def)
  then show ?thesis
    using assms(2) by (simp add: hsh_sha1_def msize_mk mdata_mk mkj_def)
qed

lemma cry_aes_mk:
  assumes "length bs \<le> 800" "length bs mod 16 = 0" "length k = 32" "length v = 32" "length (f k v bs) = length bs"
  shows "cry_aes f (mk bs) (mk k) (mk v) = Some (mk (f k v bs))"
  using assms by (simp add: cry_aes_def mk_def mkj_def Let_def)

lemma cmn_pow_mod_mk:
  assumes E: "menv_ok E" and l: "length g \<le> 800" "length e \<le> 800" "length m \<le> 800" and y: "m_modexp E g e m = Some y" "length y \<le> length m"
  shows "\<exists>js. length y + length js = 800 \<and> cmn_pow_mod E (mk g) (mk e) (mk m) = Some (mkj y js)"
  using l y E by (intro exI [of _ "replicate (length m - length y) 0 @ drop (length m) (m_junk E)"])
    (simp add: cmn_pow_mod_def msize_mk mdata_mk max_def Let_def menv_ok_def mkj_def)

section \<open>The stack\<close>

text \<open>A plain packet: length, key identifier 0, message identifier, length, body.\<close>

definition msgid_of :: "menv \<Rightarrow> nat \<Rightarrow> u64" where
  "msgid_of E n = m_now E n AND - 4"

definition rfc_message :: "u64 \<Rightarrow> byte list \<Rightarrow> byte list" where
  "rfc_message i body = le_bytes 8 i @ le_bytes 4 (of_nat (length body) :: u32) @ body"

definition rfc_packet :: "u64 \<Rightarrow> byte list \<Rightarrow> byte list" where
  "rfc_packet i body = le_bytes 4 (of_nat (length body + 20) :: u32) @ replicate 8 0 @ rfc_message i body"

lemma mbuf_add_le: "n \<le> 4 \<Longrightarrow> mbuf_add (le_bytes 4 (w :: u32)) 0 (of_nat n) = Some (mk (le_bytes n w))"
  "mbuf_add (le_bytes 8 (v :: u64)) 0 8 = Some (mk (le_bytes 8 v))"
  using mbuf_add_data [of 0 "of_nat n" "le_bytes 4 w"] mbuf_add_data [of 0 8 "le_bytes 8 v"] by (simp_all add: take_le_bytes)

lemma hdl_header_rfc:
  assumes "length body + 12 \<le> 800"
  shows "hdl_header E (mk body) RFC x = Some (mk (rfc_message (msgid_of E (x_nows x)) body), x\<lparr>x_nows := x_nows x + 1\<rparr>)"
  using assms mbuf_add_le(1) [of 4 "of_nat (length body)"]
  by (simp add: hdl_header_def mtx_current_time_def msgid_of_def mbuf_add_le(2) zero_mk msize_mk mbuf_cat_mk rfc_message_def)

lemma enl_encrypt_rfc:
  assumes "length m + 8 \<le> 800"
  shows "enl_encrypt E (mk m) RFC x = Some (mk (replicate 8 0 @ m))"
proof -
  have "mbuf_add (mdata zero_mbuf) 0 8 = Some (mk (replicate 8 0))"
    using mbuf_add_data [of 0 8 "replicate 800 0"] by (simp add: zero_mbuf_def)
  with assms show ?thesis
    by (simp add: enl_encrypt_def mbuf_cat_mk)
qed

lemma trl_transport_mk:
  "length b + 4 \<le> 800 \<Longrightarrow> trl_transport (mk b) = Some (mk (le_bytes 4 (of_nat (length b) :: u32) @ b))"
  by (simp add: trl_transport_def mbuf_add_ui_mk msize_mk mbuf_cat_mk)

lemma net_drive1_mk:
  assumes "length b \<le> 800" "x_inbox x = Some c # cs" "length c \<le> 800"
  shows "net_drive1 E (mk b) SEND_RECEIVE x =
    Some (mkj c (drop (length c) (m_junk E)), x\<lparr>x_sent := x_sent x @ [b], x_inbox := cs\<rparr>)"
  using assms by (simp add: net_drive1_def net_send1_def net_receive1_def msize_mk mbytes_mk)

lemma trl_detransport_mk:
  assumes "4 \<le> length b" "length b \<le> 800"
  shows "trl_detransport (mkj b js) = Some (mk (drop 4 b))"
proof -
  have "mbuf_add (mdata (mkj b js)) 0 4 = Some (mk (take 4 b))"
    using mbuf_add_mk(2) [of 0 4 b js] assms by simp
  moreover obtain r where "mbuf_cmp (mk (take 4 b)) (mk (le_bytes 4 (msize (mkj b js)))) = Some r"
    using mbuf_cmp_defined [of "mk (take 4 b)"] assms by (auto simp: msize_mk)
  ultimately show ?thesis
    using assms mbuf_add_le(1) [of 4 "msize (mkj b js)"] by (simp add: trl_detransport_def rest_of_mk)
qed

lemma enl_decrypt_rfc:
  assumes "8 \<le> length b" "length b \<le> 800"
  shows "enl_decrypt E (mk b) RFC x = Some (mk (drop 8 b))"
proof -
  have "mbuf_add (mdata (mk b)) 0 8 = Some (mk (take 8 b))"
    using mbuf_add_mk(1) [of 0 8 b] assms by simp
  moreover obtain r where "mbuf_cmp (zero_mbuf\<lparr>msize := 8\<rparr>) (mk (take 8 b)) = Some r"
    using mbuf_cmp_defined [of "zero_mbuf\<lparr>msize := 8\<rparr>"] by auto
  ultimately show ?thesis
    using assms by (simp add: enl_decrypt_def rest_of_mk)
qed

lemma hdl_deheader_rfc:
  assumes "12 \<le> length b" "length b \<le> 800"
  shows "hdl_deheader (mk b) RFC x = Some (mk (drop 12 b), x)"
  using assms by (simp add: hdl_deheader_def rest_of_mk)

definition taken_apart :: "byte list \<Rightarrow> abstract_t" where
  "taken_apart b = \<lparr>a_params = [\<lparr>p_id = 0, p_value = mk (take 4 b), p_type = TYPE_ID\<rparr>,
     \<lparr>p_id = 0, p_value = mk (drop 4 b), p_type = TYPE_QX\<rparr>], a_type = API, a_mode = SEND\<rparr>"

lemma sel_deserialize_mk:
  assumes "4 \<le> length b" "length b \<le> 800"
  shows "sel_deserialize (mk b) = Some (taken_apart b)"
  using assms by (simp add: sel_deserialize_def mbuf_get_ui_mk mbuf_add_ui_mk le_bytes_le_val rest_of_mk taken_apart_def)

text \<open>A call of the exchange: the packet goes out, the answer is what follows 24 bytes of the next
  packet, whatever these bytes are.\<close>

definition sent_to :: "byte list \<Rightarrow> byte list option list \<Rightarrow> menv \<Rightarrow> mtx \<Rightarrow> mtx" where
  "sent_to body cs E x = x\<lparr>x_nows := x_nows x + 1, x_sent := x_sent x @ [rfc_packet (msgid_of E (x_nows x)) body], x_inbox := cs\<rparr>"

lemma stk_drive_rfc:
  assumes a: "sel_serialize E a = Some (mk body)" "a_type a = RFC" "a_mode a = SEND_RECEIVE" "length body + 24 \<le> 800"
    and i: "x_inbox x = Some (h @ resp) # cs" "length h = 24" "4 \<le> length resp" "length resp + 24 \<le> 800"
  shows "stk_drive E a x = Some (taken_apart resp, sent_to body cs E x)"
proof -
  let ?m = "rfc_message (msgid_of E (x_nows x)) body"
  have l: "length ?m = 12 + length body"
    by (simp add: rfc_message_def)
  have n: "net_drive1 E (mk (rfc_packet (msgid_of E (x_nows x)) body)) SEND_RECEIVE (x\<lparr>x_nows := x_nows x + 1\<rparr>) =
      Some (mkj (h @ resp) (drop (length (h @ resp)) (m_junk E)), sent_to body cs E x)"
    using a(4) i l net_drive1_mk [of "rfc_packet (msgid_of E (x_nows x)) body" "x\<lparr>x_nows := x_nows x + 1\<rparr>" "h @ resp" cs]
    by (simp add: rfc_packet_def sent_to_def del: of_nat_add)
  have t: "trl_transport (mk (replicate 8 0 @ ?m)) = Some (mk (rfc_packet (msgid_of E (x_nows x)) body))"
    using a(4) l trl_transport_mk [of "replicate 8 0 @ ?m"] by (simp add: rfc_packet_def add.commute del: of_nat_add)
  have lp: "length (rfc_packet (msgid_of E (x_nows x)) body) \<le> 800"
    using a(4) l by (simp add: rfc_packet_def)
  show ?thesis
    using a i l lp unfolding stk_drive_def
    by (simp add: mbuf_dump_mk hdl_header_rfc enl_encrypt_rfc t n trl_detransport_mk enl_decrypt_rfc hdl_deheader_rfc
        sel_deserialize_mk del: One_nat_def add_Suc_right)
qed

section \<open>Answers\<close>

definition par :: "u32 \<Rightarrow> byte list \<Rightarrow> tl_type \<Rightarrow> param_t" where
  "par i b ty = \<lparr>p_id = i, p_value = mk b, p_type = ty\<rparr>"

lemma par_sel [simp]: "p_value (par i b ty) = mk b" "p_type (par i b ty) = ty" "p_id (par i b ty) = i"
  by (simp_all add: par_def)

lemma field1_mk:
  assumes "length s \<le> 800"
  shows "16 \<le> length s \<Longrightarrow> field1 E i TYPE_INT128 (mk s) = Some (par i (take 16 s) TYPE_INT128)"
    and "4 \<le> length s \<Longrightarrow> field1 E i TYPE_INT (mk s) = Some (par i (take 4 s) TYPE_INT)"
    and "8 \<le> length s \<Longrightarrow> field1 E i TYPE_LONG (mk s) = Some (par i (take 8 s) TYPE_LONG)"
  using assms by (simp_all add: field1_def deserialize_param_def mbuf_add_mk par_def)

lemma field1_string:
  assumes "length (tl_string bs @ rest) \<le> 800"
  shows "field1 E i TYPE_STRING (mk (tl_string bs @ rest)) = Some (par i bs TYPE_STRING)"
  using assms by (simp add: field1_def deserialize_param_def deserialize_string1_mk par_def)

lemma length_tl_string4: "length bs mod 4 = 0 \<Longrightarrow> length (tl_string bs) = length bs + 4"
proof -
  assume "length bs mod 4 = 0"
  then have "padn (1 + length bs) = 3" "padn (4 + length bs) = 0"
    by (simp_all add: padn_def mod_Suc)
  then show ?thesis
    by (auto simp: tl_string_def Let_def length_tl_head)
qed

lemma after_string_mk:
  assumes "length (tl_string bs @ rest) \<le> 800" "length bs mod 4 = 0"
  shows "after_string (par i bs TYPE_STRING) (mk (tl_string bs @ rest)) = Some (mk rest)"
proof -
  have l: "length (tl_string bs) = length bs + 4"
    by (rule length_tl_string4 [OF assms(2)])
  have u: "(of_nat (length bs) :: u32) + 4 = of_nat (length (tl_string bs))"
    by (simp add: l)
  show ?thesis
    using assms(1) rest_of_mk(1) [of "length (tl_string bs)" "tl_string bs @ rest"]
    by (simp add: after_string_def msize_mk u rest_of_def Let_def del: of_nat_add)
qed

lemma vector_loop_ResPQ:
  assumes "8 \<le> length b" "length b \<le> 800"
  shows "i + n \<le> 12 \<Longrightarrow> 0 < n \<Longrightarrow> vector_loop 0x05162463 (mk b) i n d = Some (mk (take 8 b))"
proof (induction n arbitrary: i d)
  case (Suc n)
  have "mbuf_add (mdata (mk b)) 0 8 = Some (mk (take 8 b))"
    using assms mbuf_add_mk(1) [of 0 8 b] by simp
  with Suc show ?case
    by (cases n) simp_all
qed simp

text \<open>The messages of a server.\<close>

definition res_pq :: "byte list \<Rightarrow> byte list \<Rightarrow> byte list \<Rightarrow> u64 list \<Rightarrow> byte list" where
  "res_pq n sn pq fps = le_bytes 4 (0x05162463 :: u32) @ n @ sn @ tl_string pq @ le_bytes 4 (0x1cb5c415 :: u32) @
     le_bytes 4 (of_nat (length fps) :: u32) @ concat (map (le_bytes 8) fps)"

definition dh_ok :: "byte list \<Rightarrow> byte list \<Rightarrow> byte list \<Rightarrow> byte list" where
  "dh_ok n sn e = le_bytes 4 (0xd0e8075c :: u32) @ n @ sn @ tl_string e"

definition dh_inner :: "byte list \<Rightarrow> byte list \<Rightarrow> u32 \<Rightarrow> byte list \<Rightarrow> byte list \<Rightarrow> u32 \<Rightarrow> byte list" where
  "dh_inner n sn g p ga t = le_bytes 4 (0xb5890dba :: u32) @ n @ sn @ le_bytes 4 g @ tl_string p @ tl_string ga @ le_bytes 4 t"

definition gen_ok :: "byte list \<Rightarrow> byte list \<Rightarrow> byte list \<Rightarrow> byte list" where
  "gen_ok n sn h = le_bytes 4 (0x3bcbf734 :: u32) @ n @ sn @ h"

lemma concrete_ResPQ_mk:
  assumes l: "length n = 16" "length sn = 16" "length pq mod 4 = 0" "0 < length fps" "length fps \<le> 12"
    and s: "length (res_pq n sn pq fps) \<le> 800"
  shows "concrete_ResPQ E 0x05162463 (mk (drop 4 (res_pq n sn pq fps))) = Some \<lparr>rp_id = 0x05162463,
    rp_nonce = par 0x05162463 n TYPE_INT128, rp_server_nonce = par 0x05162463 sn TYPE_INT128,
    rp_pq = par 0x05162463 pq TYPE_STRING, rp_fingerprints = par 0x05162463 (le_bytes 8 (hd fps)) TYPE_VECTOR_LONG\<rparr>"
proof -
  let ?f = "concat (map (le_bytes 8) fps)"
  let ?v = "le_bytes 4 (0x1cb5c415 :: u32) @ le_bytes 4 (of_nat (length fps) :: u32) @ ?f"
  obtain f fs where f: "fps = f # fs"
    using l(4) by (cases fps) simp_all
  have lf: "8 \<le> length ?f" "take 8 ?f = le_bytes 8 (hd fps)"
    by (simp_all add: f)
  have q: "vector_loop 0x05162463 (mk ?f) 0 (length fps) (m_any E) = Some (mk (le_bytes 8 (hd fps)))"
    using l s lf vector_loop_ResPQ [of ?f 0 "length fps"] by (simp add: res_pq_def)
  have u: "unat (of_nat (length fps) :: u32) = length fps"
    using l(5) by (simp add: unat_of_nat)
  then have nz: "(of_nat (length fps) :: u32) \<noteq> 0" "unat (of_nat (length fps) :: u32) = length fps"
    using l(4) by (metis length_greater_0_conv less_irrefl unat_0, simp)
  have d: "mbuf_get_ui32 (mk (le_bytes 4 (of_nat (length fps) :: u32) @ ?f)) = of_nat (length fps)"
    using s by (subst mbuf_get_ui_mk) (simp_all add: le_val_le_bytes)
  have v: "field1 E 0x05162463 TYPE_VECTOR_LONG (mk ?v) = Some (par 0x05162463 (le_bytes 8 (hd fps)) TYPE_VECTOR_LONG)"
    using s q nz d by (simp add: field1_def deserialize_param_def deserialize_vector_def rest_of_mk res_pq_def Let_def par_def)
  show ?thesis
    using s l(1-3) field1_string [of pq ?v] after_string_mk [of pq ?v] v
    by (simp add: concrete_ResPQ_def res_pq_def field1_mk rest_of_mk)
qed

lemma concrete_DH_ok_mk:
  assumes "length n = 16" "length sn = 16" "length (dh_ok n sn e) \<le> 800"
  shows "concrete_DH_ok E 0xd0e8075c (mk (drop 4 (dh_ok n sn e))) = Some \<lparr>dp_id = 0xd0e8075c,
    dp_nonce = par 0xd0e8075c n TYPE_INT128, dp_server_nonce = par 0xd0e8075c sn TYPE_INT128,
    dp_encrypted_answer = par 0xd0e8075c e TYPE_STRING\<rparr>"
  using assms field1_string [of e "[]"] by (simp add: concrete_DH_ok_def dh_ok_def field1_mk rest_of_mk)

lemma concrete_inner_mk:
  assumes "length n = 16" "length sn = 16" "length p mod 4 = 0" "length ga mod 4 = 0"
    and s: "length (dh_inner n sn g p ga t @ rest) \<le> 800"
  shows "concrete_inner E 0xb5890dba (mk (drop 4 (dh_inner n sn g p ga t @ rest))) = Some \<lparr>si_id = 0xb5890dba,
    si_nonce = par 0xb5890dba n TYPE_INT128, si_server_nonce = par 0xb5890dba sn TYPE_INT128,
    si_g = par 0xb5890dba (le_bytes 4 g) TYPE_INT, si_dh_prime = par 0xb5890dba p TYPE_STRING, si_g_a = par 0xb5890dba ga TYPE_STRING,
    si_server_time = par 0xb5890dba (le_bytes 4 t) TYPE_INT,
    si_answer = m_any E, si_tmp_aes_key = m_any E, si_tmp_aes_iv = m_any E\<rparr>"
  using assms field1_string [of p "tl_string ga @ le_bytes 4 t @ rest"] after_string_mk [of p "tl_string ga @ le_bytes 4 t @ rest"]
    field1_string [of ga "le_bytes 4 t @ rest"] after_string_mk [of ga "le_bytes 4 t @ rest"]
  by (simp add: concrete_inner_def dh_inner_def field1_mk rest_of_mk)

lemma concrete_answer_mk:
  assumes "48 \<le> length s" "length s \<le> 796"
  shows "concrete_answer E 0x3bcbf734 (mk s) = Some \<lparr>ao_id = 0x3bcbf734,
    ao_nonce = par 0x3bcbf734 (take 16 s) TYPE_INT128, ao_server_nonce = par 0x3bcbf734 (take 16 (drop 16 s)) TYPE_INT128,
    ao_new_nonce_hash1 = par 0x3bcbf734 (take 16 (drop 32 s)) TYPE_INT128\<rparr>"
  using assms by (simp add: concrete_answer_def field1_mk rest_of_mk)

lemma sil_concrete_plain:
  assumes "i \<noteq> 0x73f1f8dc" "length s \<le> 796" "concrete_plain E i (mk s) (x_t (fresh_tsys x)) = Some t"
  shows "sil_concrete E (taken_apart (le_bytes 4 i @ s)) x = Some ((fresh_tsys x)\<lparr>x_t := t\<rparr>)"
proof -
  have "mbuf_get_ui32 (mk (le_bytes 4 i)) = i"
    by (simp add: mbuf_get_ui_mk le_val_le_bytes)
  then show ?thesis
    using assms by (subst sil_concrete.simps) (simp add: taken_apart_def Let_def)
qed

text \<open>A call: its body is \<^theory_text>\<open>body\<close>, the answer starts with \<^theory_text>\<open>i\<close>.\<close>

definition after_call :: "byte list \<Rightarrow> byte list option list \<Rightarrow> menv \<Rightarrow> mtx \<Rightarrow> tg_api_type_system_t \<Rightarrow> mtx" where
  "after_call body cs E x t = (fresh_tsys (sent_to body cs E x))\<lparr>x_t := t\<rparr>"

lemma after_call_sel [simp]:
  "x_sent (after_call body cs E x t) = x_sent x @ [rfc_packet (msgid_of E (x_nows x)) body]"
  "x_inbox (after_call body cs E x t) = cs" "x_times (after_call body cs E x t) = x_times x"
  "x_nows (after_call body cs E x t) = x_nows x + 1" "x_t (after_call body cs E x t) = t"
  "x_key (after_call body cs E x t) = x_key x" "x_salt (after_call body cs E x t) = x_salt x"
  "x_flag (after_call body cs E x t) \<noteq> 0"
  by (auto simp: after_call_def fresh_tsys_def sent_to_def)

lemma fresh_sent: "x_t (fresh_tsys (sent_to b cs E x)) = x_t (fresh_tsys x)"
  by (simp add: fresh_tsys_def sent_to_def)

lemma fresh_settled [simp]: "x_flag x \<noteq> 0 \<Longrightarrow> fresh_tsys x = x"
  by (simp add: fresh_tsys_def)

lemma drive1_mk:
  assumes "sil_abstract t = Some a" "a_type a = RFC" "sel_serialize E (a\<lparr>a_mode := SEND_RECEIVE\<rparr>) = Some (mk body)"
    and "length body + 24 \<le> 800" and "x_inbox x = Some (h @ le_bytes 4 i @ s) # cs" "length h = 24" "length s + 28 \<le> 800"
    and "i \<noteq> 0x73f1f8dc" "concrete_plain E i (mk s) (x_t (fresh_tsys (sent_to body cs E x))) = Some t'"
  shows "drive1 E t x = Some (after_call body cs E x t')"
proof -
  have "stk_drive E (a\<lparr>a_mode := SEND_RECEIVE\<rparr>) x = Some (taken_apart (le_bytes 4 i @ s), sent_to body cs E x)"
    using assms by (intro stk_drive_rfc) simp_all
  moreover have "sil_concrete E (taken_apart (le_bytes 4 i @ s)) (sent_to body cs E x) = Some (after_call body cs E x t')"
    unfolding after_call_def using assms by (intro sil_concrete_plain) simp_all
  ultimately show ?thesis
    using assms(1) by (simp add: drive1_def)
qed

section \<open>Calls\<close>

lemma serialize_param_mk:
  assumes "length b \<le> 792"
  shows "length b = 4 \<Longrightarrow> serialize_param E (par i b TYPE_ID) = Some (mk b)"
    and "length b = 4 \<Longrightarrow> serialize_param E (par i b TYPE_INT) = Some (mk b)"
    and "length b = 16 \<Longrightarrow> serialize_param E (par i b TYPE_INT128) = Some (mk b)"
    and "length b = 32 \<Longrightarrow> serialize_param E (par i b TYPE_INT256) = Some (mk b)"
    and "serialize_param E (par i b TYPE_VECTOR_LONG) = Some (mk b)"
    and "serialize_param E (par i b TYPE_STRING) = Some (mk (tl_string b))"
    and "serialize_param E \<lparr>p_id = i, p_value = mkj b js, p_type = TYPE_STRING\<rparr> = Some (mk (tl_string b))"
  using assms by (simp_all add: serialize_param_def mbuf_add_mk msize_mk unat_size serialize_string1_mk serialize_string1_mkj)

lemma serialize_retry: "serialize_param E (par i (le_bytes 4 (0 :: u32)) TYPE_LONG) = Some (mk (replicate 8 0))"
proof -
  have z: "le_bytes 4 (0 :: u32) = replicate 4 0"
    by (rule nth_equalityI) (simp_all add: nth_le_bytes)
  have "mbuf_add (replicate 800 0) 0 8 = Some (mk (replicate 8 0))"
    using mbuf_add_data [of 0 8 "replicate 800 0"] by simp
  then show ?thesis
    by (simp add: serialize_param_def mdata_mk z replicate_add [symmetric])
qed

lemma serialize_params_step:
  assumes "serialize_param E p = Some (mk b)" "length s + length b \<le> 800"
  shows "serialize_params E (p # ps) (mk s) = serialize_params E ps (mk (s @ b))"
  using assms by (simp add: mbuf_cat_mk)

lemma abstract_of_mk: "abstract_of t i ps = Some \<lparr>a_params = par 0 (le_bytes 4 i) TYPE_ID # ps, a_type = t, a_mode = SEND\<rparr>"
  by (simp add: abstract_of_def id_param_def mbuf_add_ui_mk par_def)

definition img_req_pq :: "byte list \<Rightarrow> byte list" where
  "img_req_pq nonce = le_bytes 4 (0x60469778 :: u32) @ nonce"

lemma method_req_pq_drive_mk:
  assumes m: "rq_id m = 0x60469778" "rq_nonce m = par 0 nonce TYPE_INT128" "length nonce = 16"
    and i: "x_inbox x = Some (h @ res_pq n sn pq fps) # cs" "length h = 24" "length (h @ res_pq n sn pq fps) \<le> 800"
    and l: "length n = 16" "length sn = 16" "length pq mod 4 = 0" "0 < length fps" "length fps \<le> 12"
  shows "\<exists>t. t_answer_ok t = t_answer_ok (x_t (fresh_tsys x)) \<and> method_req_pq_drive E m x = Some (m\<lparr>rq_ResPQ := \<lparr>rp_id = 0x05162463,
      rp_nonce = par 0x05162463 n TYPE_INT128, rp_server_nonce = par 0x05162463 sn TYPE_INT128,
      rp_pq = par 0x05162463 pq TYPE_STRING, rp_fingerprints = par 0x05162463 (le_bytes 8 (hd fps)) TYPE_VECTOR_LONG\<rparr>\<rparr>,
    after_call (img_req_pq nonce) cs E x t)"
proof -
  let ?c = "\<lparr>rp_id = 0x05162463, rp_nonce = par 0x05162463 n TYPE_INT128, rp_server_nonce = par 0x05162463 sn TYPE_INT128,
      rp_pq = par 0x05162463 pq TYPE_STRING, rp_fingerprints = par 0x05162463 (le_bytes 8 (hd fps)) TYPE_VECTOR_LONG\<rparr>"
  let ?T = "x_t (fresh_tsys (sent_to (img_req_pq nonce) cs E x))"
  define s where "s = drop 4 (res_pq n sn pq fps)"
  have r: "res_pq n sn pq fps = le_bytes 4 (0x05162463 :: u32) @ s"
    by (simp add: res_pq_def s_def)
  have "sel_serialize E \<lparr>a_params = [par 0 (le_bytes 4 (0x60469778 :: u32)) TYPE_ID, par 0 nonce TYPE_INT128],
      a_type = RFC, a_mode = SEND_RECEIVE\<rparr> = Some (mk (img_req_pq nonce))"
    using m by (simp add: sel_serialize_def zero_mk serialize_param_mk mbuf_cat_mk img_req_pq_def)
  moreover have "concrete_plain E 0x05162463 (mk s) ?T = Some (?T\<lparr>t_ResPQ := ?c\<rparr>)"
    using concrete_ResPQ_mk [OF l, of E] i(3) by (simp add: concrete_plain_def s_def)
  ultimately have "drive1 E (zero_tsys\<lparr>t_req_pq := m\<rparr>) x = Some (after_call (img_req_pq nonce) cs E x (?T\<lparr>t_ResPQ := ?c\<rparr>))"
    using m i(1,2) i(3)[unfolded r] r
    by (intro drive1_mk [where a = "\<lparr>a_params = [par 0 (le_bytes 4 (0x60469778 :: u32)) TYPE_ID, par 0 nonce TYPE_INT128], a_type = RFC, a_mode = SEND\<rparr>"])
      (simp_all add: sil_abstract_def abstract_of_mk img_req_pq_def)
  then show ?thesis
    by (intro exI [of _ "?T\<lparr>t_ResPQ := ?c\<rparr>"]) (simp add: method_req_pq_drive_def fresh_sent)
qed

definition img_pq_inner :: "byte list \<Rightarrow> u32 \<Rightarrow> u32 \<Rightarrow> byte list \<Rightarrow> byte list \<Rightarrow> byte list" where
  "img_pq_inner pq p q nonce sn = le_bytes 4 (0x83c95aec :: u32) @ tl_string pq @ tl_string (rev (le_bytes 4 p)) @
     tl_string (rev (le_bytes 4 q)) @ nonce @ sn @ replicate 32 0"

text \<open>The block that goes through RSA, and the number it gives in 256 bytes, at their start.\<close>

definition rsa_block :: "byte list \<Rightarrow> byte list" where
  "rsa_block d = fips_sha1 d @ d @ replicate (235 - length d) 0"

definition left_aligned :: "byte list \<Rightarrow> byte list" where
  "left_aligned y = y @ replicate (256 - length y) 0"

definition img_req_DH :: "byte list \<Rightarrow> byte list \<Rightarrow> u32 \<Rightarrow> u32 \<Rightarrow> u64 \<Rightarrow> byte list \<Rightarrow> byte list" where
  "img_req_DH nonce sn p q fp e = le_bytes 4 (0xd712e4be :: u32) @ nonce @ sn @ tl_string (rev (le_bytes 4 p)) @
     tl_string (rev (le_bytes 4 q)) @ le_bytes 8 fp @ tl_string e"

definition ordered :: "u32 \<times> u32 \<Rightarrow> u32 \<times> u32" where
  "ordered pq = (if \<not> fst pq < snd pq then (snd pq, fst pq) else pq)"

lemma any_mkj: "menv_ok E \<Longrightarrow> m_any E = mkj [] (mdata (m_any E))"
  by (cases "m_any E") (simp add: menv_ok_def mkj_def)

lemma cry_rsa_e_mkj:
  assumes E: "menv_ok E" and b: "length b \<le> 800"
  obtains y where "m_modexp E b (m_rsa_e E) (m_rsa_n E) = Some y" "length y \<le> 256" "cry_rsa_e E (mkj b js) = Some (mk (left_aligned y))"
proof -
  obtain y where y: "m_modexp E b (m_rsa_e E) (m_rsa_n E) = Some y" "length y \<le> length (m_rsa_n E)"
    using E bn_modexp [of E "m_rsa_n E" b "m_rsa_e E"] by (auto simp: menv_ok_def)
  then have l: "length y \<le> 256"
    using E by (simp add: menv_ok_def)
  have "cry_rsa_e E (mkj b js) = Some (mk (left_aligned y))"
    using y l b by (simp add: cry_rsa_e_def msize_mk mdata_mk unat_size) (simp add: mk_def mkj_def left_aligned_def replicate_add [symmetric])
  with y l that show thesis
    by blast
qed

lemma req_DH_params_init_mk:
  assumes E: "menv_ok E"
    and m: "rq_nonce m1 = par 0 nonce TYPE_INT128" "rp_server_nonce (rq_ResPQ m1) = par i sn TYPE_INT128"
      "rp_pq (rq_ResPQ m1) = par i pq TYPE_STRING" "rp_fingerprints (rq_ResPQ m1) = par i (le_bytes 8 fp) TYPE_VECTOR_LONG"
    and l: "length nonce = 16" "length sn = 16" "length pq = 8"
    and f: "ordered (m_factor E (le_val (rev pq))) = (p, q)"
  obtains y where "m_modexp E (rsa_block (img_pq_inner pq p q nonce sn)) (m_rsa_e E) (m_rsa_n E) = Some y" "length y \<le> 256"
    "method_req_DH_params_init E m1 = Some (method_req_DH_params\<lparr>rd_nonce := par 0 nonce TYPE_INT128,
       rd_server_nonce := par i sn TYPE_INT128, rd_p := par 0 (rev (le_bytes 4 p)) TYPE_STRING, rd_q := par 0 (rev (le_bytes 4 q)) TYPE_STRING,
       rd_fingerprint := par i (le_bytes 8 fp) TYPE_VECTOR_LONG, rd_encrypted_data := par 0 (left_aligned y) TYPE_STRING,
       rd_P_Q_inner_data := ctor_P_Q_inner_data\<lparr>pi_pq := par i pq TYPE_STRING, pi_p := par 0 (rev (le_bytes 4 p)) TYPE_STRING,
         pi_q := par 0 (rev (le_bytes 4 q)) TYPE_STRING, pi_nonce := par 0 nonce TYPE_INT128, pi_server_nonce := par i sn TYPE_INT128,
         pi_new_nonce := par 0 (replicate 32 0) TYPE_INT256\<rparr>\<rparr>)"
proof -
  let ?d = "img_pq_inner pq p q nonce sn"
  let ?m = "method_req_DH_params\<lparr>rd_nonce := par 0 nonce TYPE_INT128,
       rd_server_nonce := par i sn TYPE_INT128, rd_p := par 0 (rev (le_bytes 4 p)) TYPE_STRING, rd_q := par 0 (rev (le_bytes 4 q)) TYPE_STRING,
       rd_fingerprint := par i (le_bytes 8 fp) TYPE_VECTOR_LONG\<rparr>"
  let ?c = "ctor_P_Q_inner_data\<lparr>pi_pq := par i pq TYPE_STRING, pi_p := par 0 (rev (le_bytes 4 p)) TYPE_STRING,
         pi_q := par 0 (rev (le_bytes 4 q)) TYPE_STRING, pi_nonce := par 0 nonce TYPE_INT128, pi_server_nonce := par i sn TYPE_INT128,
         pi_new_nonce := par 0 (replicate 32 0) TYPE_INT256\<rparr>"
  have t: "length (tl_string pq) = 12" "length (tl_string (rev (le_bytes 4 w))) = 8" for w :: u32
    using l(3) by (simp_all add: length_tl_string4)
  have ld: "length ?d = 96"
    using l by (simp add: img_pq_inner_def t)
  have c: "ctor_P_Q_inner_data_init m1 ?m = ?c"
    using m zeros_mk [of 32] by (simp add: ctor_P_Q_inner_data_init_def par_def)
  have d: "ctor_P_Q_inner_data_drive E ?c = Some (mk ?d)"
    using l ld by (simp add: ctor_P_Q_inner_data_drive_def sil_abstract_def abstract_of_mk sel_serialize_def zero_mk zero_tsys_def
        ctor_P_Q_inner_data_def serialize_param_mk mbuf_cat_mk t mbuf_dump_mk img_pq_inner_def)
  let ?js = "drop (length (rsa_block ?d)) (mdata (m_any E))"
  have h: "hsh_sha1 E (mk ?d) = Some (mkj (fips_sha1 ?d) (drop 20 (m_junk E)))"
    using ld by (intro hsh_sha1_mk [OF E]) simp
  have d1: "mbuf_cat (m_any E) (mkj (fips_sha1 ?d) (drop 20 (m_junk E))) = Some (mkj (fips_sha1 ?d) (drop 20 (mdata (m_any E))))"
    using mbuf_cat_mkj [of "[]" "fips_sha1 ?d" "mdata (m_any E)" "drop 20 (m_junk E)"] any_mkj [OF E] by simp
  have d2: "mbuf_cat (mkj (fips_sha1 ?d) (drop 20 (mdata (m_any E)))) (mk ?d) = Some (mkj (fips_sha1 ?d @ ?d) (drop 116 (mdata (m_any E))))"
    using mbuf_cat_mkj [of "fips_sha1 ?d" ?d] ld by (simp add: mk_def)
  have d3: "mbuf_cat (mkj (fips_sha1 ?d @ ?d) (drop 116 (mdata (m_any E)))) (zero_mbuf\<lparr>msize := 255 - of_nat (length (fips_sha1 ?d @ ?d))\<rparr>) =
      Some (mkj (rsa_block ?d) ?js)"
    using mbuf_cat_mkj [of "fips_sha1 ?d @ ?d" "replicate 139 0"] ld zeros_mk [of 139] by (simp add: mk_def rsa_block_def)
  obtain y where y: "m_modexp E (rsa_block ?d) (m_rsa_e E) (m_rsa_n E) = Some y" "length y \<le> 256"
    "cry_rsa_e E (mkj (rsa_block ?d) ?js) = Some (mk (left_aligned y))"
    using cry_rsa_e_mkj [OF E, of "rsa_block ?d" ?js thesis] ld by (auto simp: rsa_block_def)
  have sw: "mbuf_swap (mk pq) = Some (mk (rev pq))" "mbuf_get_ui64 (mk (rev pq)) = le_val (rev pq)"
    using l(3) by (simp_all add: mbuf_swap_mk mbuf_get_ui_mk)
  have "method_req_DH_params_init E m1 = Some (?m\<lparr>rd_encrypted_data := par 0 (left_aligned y) TYPE_STRING, rd_P_Q_inner_data := ?c\<rparr>)"
  proof -
    obtain a b where ab: "m_factor E (le_val (rev pq)) = (a, b)" "(if \<not> a < b then (b, a) else (a, b)) = (p, q)"
      using f by (cases "m_factor E (le_val (rev pq))") (simp add: ordered_def split: if_splits)
    have swap: "mbuf_swap (mk (le_bytes 4 w)) = Some (mk (rev (le_bytes 4 w)))" for w :: u32
      by (simp add: mbuf_swap_mk)
    have e: "method_req_DH_params\<lparr>rd_nonce := par 0 nonce TYPE_INT128, rd_server_nonce := par i sn TYPE_INT128\<rparr>
      \<lparr>rd_p := set_value (mk (rev (le_bytes 4 p))) (rd_p method_req_DH_params), rd_q := set_value (mk (rev (le_bytes 4 q))) (rd_q method_req_DH_params),
       rd_fingerprint := par i (le_bytes 8 fp) TYPE_VECTOR_LONG\<rparr> = ?m"
      by (simp add: method_req_DH_params_def set_value_def param0_def par_def)
    show ?thesis
      unfolding method_req_DH_params_init_def
      using e c d h d1 d2 d3 y(3) ab sw m
      by (simp add: mbuf_add_ui_mk swap msize_mk par_def [of 0 "left_aligned y"] del: of_nat_add split del: if_split)
  qed
  then show thesis
    using that y by simp
qed

lemma method_req_DH_params_drive_mk:
  assumes m: "rd_id m = 0xd712e4be" "rd_nonce m = par 0 nonce TYPE_INT128" "rd_server_nonce m = par i sn TYPE_INT128"
      "rd_p m = par 0 (rev (le_bytes 4 p)) TYPE_STRING" "rd_q m = par 0 (rev (le_bytes 4 q)) TYPE_STRING"
      "rd_fingerprint m = par i (le_bytes 8 fp) TYPE_VECTOR_LONG" "rd_encrypted_data m = par 0 e TYPE_STRING"
    and l: "length nonce = 16" "length sn = 16" "length e = 256" "length n' = 16" "length sn' = 16"
    and i: "x_inbox x = Some (h @ dh_ok n' sn' a) # cs" "length h = 24" "length (h @ dh_ok n' sn' a) \<le> 800"
  shows "\<exists>t. t_answer_ok t = t_answer_ok (x_t (fresh_tsys x)) \<and> method_req_DH_params_drive E m x = Some (m\<lparr>rd_Server_DH_Params_ok := \<lparr>dp_id = 0xd0e8075c,
      dp_nonce = par 0xd0e8075c n' TYPE_INT128, dp_server_nonce = par 0xd0e8075c sn' TYPE_INT128,
      dp_encrypted_answer = par 0xd0e8075c a TYPE_STRING\<rparr>\<rparr>,
    after_call (img_req_DH nonce sn p q fp e) cs E x t)"
proof -
  let ?b = "img_req_DH nonce sn p q fp e"
  let ?c = "\<lparr>dp_id = 0xd0e8075c, dp_nonce = par 0xd0e8075c n' TYPE_INT128, dp_server_nonce = par 0xd0e8075c sn' TYPE_INT128,
      dp_encrypted_answer = par 0xd0e8075c a TYPE_STRING\<rparr>"
  let ?T = "x_t (fresh_tsys (sent_to ?b cs E x))"
  let ?a = "\<lambda>d. \<lparr>a_params = [par 0 (le_bytes 4 (0xd712e4be :: u32)) TYPE_ID, par 0 nonce TYPE_INT128, par i sn TYPE_INT128,
      par 0 (rev (le_bytes 4 p)) TYPE_STRING, par 0 (rev (le_bytes 4 q)) TYPE_STRING, par i (le_bytes 8 fp) TYPE_VECTOR_LONG,
      par 0 e TYPE_STRING], a_type = RFC, a_mode = d\<rparr>"
  define s where "s = drop 4 (dh_ok n' sn' a)"
  have r: "dh_ok n' sn' a = le_bytes 4 (0xd0e8075c :: u32) @ s"
    by (simp add: dh_ok_def s_def)
  have t: "length (tl_string (rev (le_bytes 4 w))) = 8" "length (tl_string e) = 260" for w :: u32
    using l by (simp_all add: length_tl_string4)
  have b: "length ?b = 320"
    using l t by (simp add: img_req_DH_def)
  have "sel_serialize E (?a SEND_RECEIVE) = Some (mk ?b)"
    using l t by (simp add: sel_serialize_def zero_mk serialize_param_mk mbuf_cat_mk img_req_DH_def)
  moreover have "concrete_plain E 0xd0e8075c (mk s) ?T = Some (?T\<lparr>t_Server_DH_Params_ok := ?c\<rparr>)"
    using concrete_DH_ok_mk [OF l(4,5), of a E] i(3) by (simp add: concrete_plain_def s_def)
  ultimately have "drive1 E (zero_tsys\<lparr>t_req_DH_params := m\<rparr>) x = Some (after_call ?b cs E x (?T\<lparr>t_Server_DH_Params_ok := ?c\<rparr>))"
    using m b i(1,2) i(3)[unfolded r] r
    by (intro drive1_mk [where a = "?a SEND"]) (simp_all add: sil_abstract_def abstract_of_mk zero_tsys_def zero_P_Q_def)
  then show ?thesis
    by (intro exI [of _ "?T\<lparr>t_Server_DH_Params_ok := ?c\<rparr>"]) (simp add: method_req_DH_params_drive_def fresh_sent)
qed

text \<open>The key and the vector of the second half: with a new nonce of zeros they are functions of the
  server nonce.\<close>

definition tmp_key :: "byte list \<Rightarrow> byte list" where
  "tmp_key sn = fips_sha1 (replicate 32 0 @ sn) @ take 12 (fips_sha1 (sn @ replicate 32 0))"

definition tmp_iv :: "byte list \<Rightarrow> byte list" where
  "tmp_iv sn = drop 12 (fips_sha1 (sn @ replicate 32 0)) @ fips_sha1 (replicate 64 0) @ replicate 4 0"

lemma length_tmp [simp]: "length (tmp_key sn) = 32" "length (tmp_iv sn) = 32"
  by (simp_all add: tmp_key_def tmp_iv_def)

lemma inner_data_init_mk:
  assumes E: "menv_ok E" and m: "rp_server_nonce (rq_ResPQ m1) = par i sn TYPE_INT128" "length sn = 16"
    and e: "dp_encrypted_answer (rd_Server_DH_Params_ok m2) = par j (c_ige_e (m_crypto E) (tmp_key sn) (tmp_iv sn) (h @ d @ r)) TYPE_STRING"
    and l: "length h = 20" "length r = 8" "length (h @ d @ r) \<le> 800" "length (h @ d @ r) mod 16 = 0"
  shows "\<exists>c js. ctor_Server_DH_inner_data_init E m1 m2 = Some c \<and> si_answer c = mkj d js \<and>
    si_tmp_aes_key c = mk (tmp_key sn) \<and> si_tmp_aes_iv c = mk (tmp_iv sn)"
proof -
  let ?z = "replicate 32 0 :: byte list" and ?js = "drop 20 (m_junk E)"
  let ?ns = "fips_sha1 (?z @ sn)" and ?sn = "fips_sha1 (sn @ ?z)" and ?nn = "fips_sha1 (replicate 64 0)"
  have n: "p_value (pi_new_nonce (ctor_P_Q_inner_data_init m1 m2)) = mk ?z"
    using zeros_mk [of 32] by (simp add: ctor_P_Q_inner_data_init_def)
  have hs: "hsh_sha1 E (mk (?z @ sn)) = Some (mkj ?ns ?js)" "hsh_sha1 E (mk (sn @ ?z)) = Some (mkj ?sn ?js)"
    "hsh_sha1 E (mk (?z @ ?z)) = Some (mkj ?nn ?js)"
    using m(2) hsh_sha1_mk [OF E] by (simp_all add: replicate_add [symmetric])
  have s: "mbuf_add (mdata (mkj ?sn ?js)) 0 12 = Some (mk (take 12 ?sn))" "mbuf_add (mdata (mkj ?sn ?js)) 12 8 = Some (mk (drop 12 ?sn))"
    "mbuf_add (mdata (mk ?z)) 0 4 = Some (mk (replicate 4 0))"
    using mbuf_add_mk(2) [of 0 12 ?sn ?js] mbuf_add_mk(2) [of 12 8 ?sn ?js] mbuf_add_mk(1) [of 0 4 ?z] by simp_all
  have c: "crypto_ok (m_crypto E)"
    using E by (simp add: menv_ok_def)
  let ?p = "h @ d @ r"
  have a: "cry_aes_d E (mk (c_ige_e (m_crypto E) (tmp_key sn) (tmp_iv sn) ?p)) (mk (tmp_key sn)) (mk (tmp_iv sn)) = Some (mk ?p)"
    using c l unfolding cry_aes_d_def by (subst cry_aes_mk) (simp_all add: crypto_ok_def)
  have d: "rest_of 20 (mk ?p) = Some (mk (d @ r))"
    using l by (simp add: rest_of_mk)
  have "unat ((of_nat (length (d @ r)) :: u32) - of_nat 8) = length d"
    using l(2,3) unat_diff_of_nat [of 8 "length (d @ r)"] by simp
  then have sz: "(of_nat (length (d @ r)) :: u32) - 8 = of_nat (length d)"
    using l(3) by (intro unsigned_word_eqI [where 'a = nat]) (simp add: unat_size)
  have q: "(mk (d @ r))\<lparr>msize := msize (mk (d @ r)) - 8\<rparr> = mkj d (r @ replicate (800 - length (d @ r)) 0)"
    using sz by (simp add: mk_def mkj_def)
  show ?thesis
    unfolding ctor_Server_DH_inner_data_init_def
    using m n hs s e a d q
    by (simp add: zero_mk mbuf_cat_mk tmp_key_def [symmetric] tmp_iv_def [symmetric] Let_def) (rule exI, rule refl)
qed

lemma sel_deserialize_mkj:
  assumes "4 \<le> length b" "length b \<le> 800"
  shows "sel_deserialize (mkj b js) = Some (taken_apart b)"
  using assms by (simp add: sel_deserialize_def mbuf_get_ui32_def mdata_mk mbuf_add_ui_mk le_bytes_le_val rest_of_mk taken_apart_def)

definition inner_of :: "menv \<Rightarrow> byte list \<Rightarrow> byte list \<Rightarrow> u32 \<Rightarrow> byte list \<Rightarrow> byte list \<Rightarrow> u32 \<Rightarrow> ctor_Server_DH_inner_data_t" where
  "inner_of E n sn g p ga t = \<lparr>si_id = 0xb5890dba,
    si_nonce = par 0xb5890dba n TYPE_INT128, si_server_nonce = par 0xb5890dba sn TYPE_INT128,
    si_g = par 0xb5890dba (le_bytes 4 g) TYPE_INT, si_dh_prime = par 0xb5890dba p TYPE_STRING, si_g_a = par 0xb5890dba ga TYPE_STRING,
    si_server_time = par 0xb5890dba (le_bytes 4 t) TYPE_INT,
    si_answer = m_any E, si_tmp_aes_key = m_any E, si_tmp_aes_iv = m_any E\<rparr>"

lemma inner_data_drive_mk:
  assumes "length n = 16" "length sn = 16" "length p mod 4 = 0" "length ga mod 4 = 0" "length (dh_inner n sn g p ga t) \<le> 800"
    and x: "x_flag x \<noteq> 0"
  shows "\<exists>T. t_answer_ok T = t_answer_ok (x_t x) \<and> ctor_Server_DH_inner_data_drive E (mkj (dh_inner n sn g p ga t) js) x = Some (inner_of E n sn g p ga t, x\<lparr>x_t := T\<rparr>)"
proof -
  define s where "s = drop 4 (dh_inner n sn g p ga t)"
  have r: "dh_inner n sn g p ga t = le_bytes 4 (0xb5890dba :: u32) @ s"
    by (simp add: dh_inner_def s_def)
  have "concrete_plain E 0xb5890dba (mk s) (x_t x) = Some ((x_t x)\<lparr>t_Server_DH_inner_data := inner_of E n sn g p ga t\<rparr>)"
    using concrete_inner_mk [OF assms(1-4), of g t "[]" E] assms(5) by (simp add: concrete_plain_def s_def inner_of_def)
  then have "sil_concrete E (taken_apart (le_bytes 4 (0xb5890dba :: u32) @ s)) x = Some (x\<lparr>x_t := (x_t x)\<lparr>t_Server_DH_inner_data := inner_of E n sn g p ga t\<rparr>\<rparr>)"
    using assms(5)[unfolded r] x by (subst sil_concrete_plain) simp_all
  moreover have "sel_deserialize (mkj (le_bytes 4 (0xb5890dba :: u32) @ s) js) = Some (taken_apart (le_bytes 4 (0xb5890dba :: u32) @ s))"
    using assms(5)[unfolded r] by (intro sel_deserialize_mkj) simp_all
  ultimately show ?thesis
    by (intro exI [of _ "(x_t x)\<lparr>t_Server_DH_inner_data := inner_of E n sn g p ga t\<rparr>"])
      (simp add: ctor_Server_DH_inner_data_drive_def r)
qed

text \<open>The secret exponent: 256 values of rand() after srand with the time of the n-th call.\<close>

definition drawn :: "menv \<Rightarrow> nat \<Rightarrow> nat \<Rightarrow> byte list" where
  "drawn E n k = map (m_rand E (m_time E n)) [0..<k]"

lemma length_drawn [simp]: "length (drawn E n k) = k"
  by (simp add: drawn_def)

lemma api_rand_mk: "unat k \<le> 800 \<Longrightarrow> api_rand E k x = Some (mk (drawn E (x_times x) (unat k)), x\<lparr>x_times := x_times x + 1\<rparr>)"
  by (simp add: api_rand_def mbuf_rand_mk drawn_def)

definition img_client :: "byte list \<Rightarrow> byte list \<Rightarrow> byte list \<Rightarrow> byte list" where
  "img_client n sn gb = le_bytes 4 (0x6643b654 :: u32) @ n @ sn @ replicate 8 0 @ tl_string gb"

lemma client_data_mk:
  assumes E: "menv_ok E" and l: "length n = 16" "length sn = 16" "length p \<le> 256" "0 < be_nat p"
  obtains gb js where "m_modexp E (rev (le_bytes 4 g)) (drawn E (x_times x) 256) p = Some gb" "length gb \<le> length p"
    "ctor_Client_DH_Inner_Data_init E (inner_of E n sn g p ga t) x = Some (ctor_Client_DH_Inner_Data\<lparr>
       ci_nonce := par 0xb5890dba n TYPE_INT128, ci_server_nonce := par 0xb5890dba sn TYPE_INT128,
       ci_retry_id := par 0 (le_bytes 4 (0 :: u32)) TYPE_LONG, ci_g_b := \<lparr>p_id = 0, p_value = mkj gb js, p_type = TYPE_STRING\<rparr>,
       ci_b := mk (drawn E (x_times x) 256)\<rparr>, x\<lparr>x_times := x_times x + 1\<rparr>)"
    "ctor_Client_DH_Inner_Data_drive E (ctor_Client_DH_Inner_Data\<lparr>
       ci_nonce := par 0xb5890dba n TYPE_INT128, ci_server_nonce := par 0xb5890dba sn TYPE_INT128,
       ci_retry_id := par 0 (le_bytes 4 (0 :: u32)) TYPE_LONG, ci_g_b := \<lparr>p_id = 0, p_value = mkj gb js, p_type = TYPE_STRING\<rparr>,
       ci_b := mk (drawn E (x_times x) 256)\<rparr>) = Some (mk (img_client n sn gb))"
proof -
  let ?b = "drawn E (x_times x) 256"
  obtain gb where gb: "m_modexp E (rev (le_bytes 4 g)) ?b p = Some gb" "length gb \<le> length p"
    using E bn_modexp [of E p "rev (le_bytes 4 g)" ?b] l(4) by (auto simp: menv_ok_def)
  then obtain js where js: "cmn_pow_mod E (mk (rev (le_bytes 4 g))) (mk ?b) (mk p) = Some (mkj gb js)"
    using cmn_pow_mod_mk [OF E, of "rev (le_bytes 4 g)" ?b p gb] l(3) by auto
  let ?c = "ctor_Client_DH_Inner_Data\<lparr>
       ci_nonce := par 0xb5890dba n TYPE_INT128, ci_server_nonce := par 0xb5890dba sn TYPE_INT128,
       ci_retry_id := par 0 (le_bytes 4 (0 :: u32)) TYPE_LONG, ci_g_b := \<lparr>p_id = 0, p_value = mkj gb js, p_type = TYPE_STRING\<rparr>,
       ci_b := mk ?b\<rparr>"
  have "ctor_Client_DH_Inner_Data_init E (inner_of E n sn g p ga t) x = Some (?c, x\<lparr>x_times := x_times x + 1\<rparr>)"
    using js by (simp add: ctor_Client_DH_Inner_Data_init_def inner_of_def mbuf_add_ui_mk mbuf_swap_mk api_rand_mk par_def)
  moreover have "ctor_Client_DH_Inner_Data_drive E ?c = Some (mk (img_client n sn gb))"
    using l gb length_tl_string_le [of gb]
    by (simp add: ctor_Client_DH_Inner_Data_drive_def sil_abstract_def abstract_of_mk sel_serialize_def zero_mk zero_tsys_def zero_P_Q_def
        ctor_Client_DH_Inner_Data_def serialize_param_mk serialize_retry mbuf_cat_mk img_client_def)
  ultimately show thesis
    using gb that by blast
qed

definition pad16 :: "nat \<Rightarrow> nat" where
  "pad16 n = (16 - n mod 16) mod 16"

lemma pad16_less: "pad16 n < 16"
  by (simp add: pad16_def)

lemma pad16_aligned: "(n + pad16 n) mod 16 = 0"
proof (cases "n mod 16 = 0")
  case False
  then have p: "pad16 n = 16 - n mod 16"
    by (simp add: pad16_def)
  have "n + (16 - n mod 16) = 16 * (n div 16) + 16"
    using mult_div_mod_eq [of 16 n] mod_less_divisor [of 16 n] by linarith
  then show ?thesis
    by (simp add: p)
qed (simp add: pad16_def)

lemma pad16_word: "a + b \<le> 800 \<Longrightarrow> unat ((16 - ((of_nat a :: u32) + of_nat b) mod 16) mod 16) = pad16 (a + b)"
proof -
  assume l: "a + b \<le> 800"
  have m: "unat (((of_nat a :: u32) + of_nat b) mod 16) = (a + b) mod 16"
    using l unat_size [of "a + b"] by (simp add: unat_mod_distrib)
  then have "unat (16 - ((of_nat a :: u32) + of_nat b) mod 16) = 16 - (a + b) mod 16"
    by (subst unat_sub) (simp_all add: word_le_nat_alt)
  then show ?thesis
    by (simp add: unat_mod_distrib pad16_def)
qed

definition img_set_client :: "byte list \<Rightarrow> byte list \<Rightarrow> byte list \<Rightarrow> byte list" where
  "img_set_client nonce sn e = le_bytes 4 (0xf5045f1f :: u32) @ nonce @ sn @ tl_string e"

text \<open>What the client encrypts for the third call, \<^theory_text>\<open>k\<close> being the number of times drawn
  before.\<close>

definition client_block :: "menv \<Rightarrow> nat \<Rightarrow> byte list \<Rightarrow> byte list" where
  "client_block E k d = fips_sha1 d @ d @ drawn E k (pad16 (20 + length d))"

lemma set_client_init_mk:
  assumes E: "menv_ok E" and m: "rq_nonce m1 = par 0 nonce TYPE_INT128" "rp_server_nonce (rq_ResPQ m1) = par i sn TYPE_INT128"
      "length nonce = 16" "length sn = 16"
    and e: "dp_encrypted_answer (rd_Server_DH_Params_ok m2) =
      par j (c_ige_e (m_crypto E) (tmp_key sn) (tmp_iv sn) (h @ dh_inner n2 sn2 g p ga t @ r)) TYPE_STRING"
    and nn: "pi_new_nonce (rd_P_Q_inner_data m2) = par 0 (replicate 32 0) TYPE_INT256"
    and l: "length h = 20" "length r = 8" "length n2 = 16" "length sn2 = 16" "length p = 256" "length ga = 256" "0 < be_nat p"
    and x: "x_flag x \<noteq> 0"
  obtains gb m T where "m_modexp E (rev (le_bytes 4 g)) (drawn E (x_times x) 256) p = Some gb"
    "method_set_client_DH_params_init E m1 m2 x = Some (m, x\<lparr>x_t := T, x_times := x_times x + 2\<rparr>)"
    "t_answer_ok T = t_answer_ok (x_t x)"
    "sc_id m = 0xf5045f1f" "sc_nonce m = par 0 nonce TYPE_INT128" "sc_server_nonce m = par i sn TYPE_INT128"
    "sc_encrypted_data m = par 0 (c_ige_e (m_crypto E) (tmp_key sn) (tmp_iv sn)
       (client_block E (x_times x + 1) (img_client n2 sn2 gb))) TYPE_STRING" "length gb \<le> 256"
    "sc_Server_DH_inner_data m = inner_of E n2 sn2 g p ga t" "ci_b (sc_Client_DH_Inner_Data m) = mk (drawn E (x_times x) 256)"
    "mbytes (sc_salt m) = take 8 sn"
proof -
  let ?d = "dh_inner n2 sn2 g p ga t"
  have ts: "length (tl_string p) = 260" "length (tl_string ga) = 260"
    using l by (simp_all add: length_tl_string4)
  have ld: "length ?d = 564"
    using l ts by (simp add: dh_inner_def)
  obtain c js where c: "ctor_Server_DH_inner_data_init E m1 m2 = Some c" "si_answer c = mkj ?d js"
    "si_tmp_aes_key c = mk (tmp_key sn)" "si_tmp_aes_iv c = mk (tmp_iv sn)"
    using inner_data_init_mk [OF E m(2,4) e l(1,2)] ld l by auto
  obtain T where T: "t_answer_ok T = t_answer_ok (x_t x)"
    "ctor_Server_DH_inner_data_drive E (mkj ?d js) x = Some (inner_of E n2 sn2 g p ga t, x\<lparr>x_t := T\<rparr>)"
    using inner_data_drive_mk [of n2 sn2 p ga g t x E js] l ld x by auto
  obtain gb ks where gb: "m_modexp E (rev (le_bytes 4 g)) (drawn E (x_times x) 256) p = Some gb" "length gb \<le> length p"
    "ctor_Client_DH_Inner_Data_init E (inner_of E n2 sn2 g p ga t) (x\<lparr>x_t := T\<rparr>) = Some (ctor_Client_DH_Inner_Data\<lparr>
       ci_nonce := par 0xb5890dba n2 TYPE_INT128, ci_server_nonce := par 0xb5890dba sn2 TYPE_INT128,
       ci_retry_id := par 0 (le_bytes 4 (0 :: u32)) TYPE_LONG, ci_g_b := \<lparr>p_id = 0, p_value = mkj gb ks, p_type = TYPE_STRING\<rparr>,
       ci_b := mk (drawn E (x_times x) 256)\<rparr>, x\<lparr>x_t := T, x_times := x_times x + 1\<rparr>)"
    "ctor_Client_DH_Inner_Data_drive E (ctor_Client_DH_Inner_Data\<lparr>
       ci_nonce := par 0xb5890dba n2 TYPE_INT128, ci_server_nonce := par 0xb5890dba sn2 TYPE_INT128,
       ci_retry_id := par 0 (le_bytes 4 (0 :: u32)) TYPE_LONG, ci_g_b := \<lparr>p_id = 0, p_value = mkj gb ks, p_type = TYPE_STRING\<rparr>,
       ci_b := mk (drawn E (x_times x) 256)\<rparr>) = Some (mk (img_client n2 sn2 gb))"
    using client_data_mk [OF E l(3,4) _ l(7), where g = g and x = "x\<lparr>x_t := T\<rparr>" and t = t and thesis = thesis] l(5) by auto
  let ?data = "img_client n2 sn2 gb"
  have lc: "length ?data \<le> 307"
    using gb(2) l length_tl_string_le [of gb] by (simp add: img_client_def)
  have h: "hsh_sha1 E (mk ?data) = Some (mkj (fips_sha1 ?data) (drop 20 (m_junk E)))"
    using lc by (intro hsh_sha1_mk [OF E]) simp
  let ?k = "pad16 (20 + length ?data)"
  have pd: "unat ((16 - ((20 :: u32) + of_nat (length ?data)) mod 16) mod 16) = ?k"
    using pad16_word [of 20 "length ?data"] lc by simp
  have rand: "api_rand E ((16 - ((20 :: u32) + of_nat (length ?data)) mod 16) mod 16) (x\<lparr>x_t := T, x_times := x_times x + 1\<rparr>) =
      Some (mk (drawn E (x_times x + 1) ?k), x\<lparr>x_t := T, x_times := x_times x + 2\<rparr>)"
    using pd pad16_less [of "20 + length ?data"] by (simp add: api_rand_mk)
  have lb: "length (client_block E (x_times x + 1) ?data) \<le> 800" "length (client_block E (x_times x + 1) ?data) mod 16 = 0"
    using lc pad16_less [of "20 + length ?data"] pad16_aligned [of "20 + length ?data"] by (simp_all add: client_block_def add.assoc)
  have aes: "cry_aes_e E (mk (client_block E (x_times x + 1) ?data)) (mk (tmp_key sn)) (mk (tmp_iv sn)) =
      Some (mk (c_ige_e (m_crypto E) (tmp_key sn) (tmp_iv sn) (client_block E (x_times x + 1) ?data)))"
    using E lb unfolding cry_aes_e_def by (subst cry_aes_mk) (simp_all add: menv_ok_def crypto_ok_def)
  have salt: "mbuf_add (mdata (mk (replicate 32 0))) 0 8 = Some (mk (replicate 8 0))" "mbuf_add (mdata (mk sn)) 0 8 = Some (mk (take 8 sn))"
    using mbuf_add_mk(1) [of 0 8 "replicate 32 0"] mbuf_add_mk(1) [of 0 8 sn] m(4) by simp_all
  let ?m = "method_set_client_DH_params\<lparr>sc_nonce := par 0 nonce TYPE_INT128, sc_server_nonce := par i sn TYPE_INT128,
       sc_encrypted_data := par 0 (c_ige_e (m_crypto E) (tmp_key sn) (tmp_iv sn) (client_block E (x_times x + 1) ?data)) TYPE_STRING,
       sc_Server_DH_inner_data := inner_of E n2 sn2 g p ga t, sc_Client_DH_Inner_Data := ctor_Client_DH_Inner_Data\<lparr>
       ci_nonce := par 0xb5890dba n2 TYPE_INT128, ci_server_nonce := par 0xb5890dba sn2 TYPE_INT128,
       ci_retry_id := par 0 (le_bytes 4 (0 :: u32)) TYPE_LONG, ci_g_b := \<lparr>p_id = 0, p_value = mkj gb ks, p_type = TYPE_STRING\<rparr>,
       ci_b := mk (drawn E (x_times x) 256)\<rparr>, sc_salt := mkj (map2 (XOR) (replicate 8 0) (take 8 sn)) (drop 8 (m_junk E))\<rparr>"
  have cat: "mbuf_cat zero_mbuf (mkj (fips_sha1 ?data) (drop 20 (m_junk E))) = Some (mk (fips_sha1 ?data))"
    "mbuf_cat (mk (fips_sha1 ?data)) (mk ?data) = Some (mk (fips_sha1 ?data @ ?data))"
    "mbuf_cat (mk (fips_sha1 ?data @ ?data)) (mk (drawn E (x_times x + 1) ?k)) = Some (mk (client_block E (x_times x + 1) ?data))"
    using lc lb(1) by (simp_all add: zero_mk mbuf_cat_mk client_block_def)
  have xor: "mbuf_xor (m_junk E) (mk (replicate 8 0)) (mk (take 8 sn)) =
      Some (mkj (map2 (XOR) (replicate 8 0) (take 8 sn)) (drop 8 (m_junk E)))"
    using mbuf_xor_mk [of "replicate 8 0" "take 8 sn"] m(4) by simp
  have init: "method_set_client_DH_params_init E m1 m2 x = Some (?m, x\<lparr>x_t := T, x_times := x_times x + 2\<rparr>)"
    unfolding method_set_client_DH_params_init_def
    by (simp add: m(1,2) c T(2) gb(3,4) h rand cat aes salt xor nn msize_mk par_def [of 0 "c_ige_e _ _ _ _"]
        del: One_nat_def add_2_eq_Suc')
  have x8: "map2 (XOR) (replicate 8 0) (take 8 sn) = take 8 sn"
    using m(4) by (intro nth_equalityI) simp_all
  show thesis
    by (rule that [OF gb(1) init T(1)])
      (use gb(2) l(5) m(4) x8 in \<open>simp_all add: method_set_client_DH_params_def mbytes_mkj\<close>)
qed

end
