(* ===== verification/HandshakeRun.thy ===== *)
theory HandshakeRun
  imports HandshakeSpec
begin

text \<open>
  The whole key exchange: the last call, and the three calls in a row against the messages of a
  server of which only lengths are assumed.
\<close>

section \<open>The last call\<close>

text \<open>The last answer: a dh_gen_ok with any contents, or an identifier the code does not know.\<close>

definition small_answer :: "ctor_Set_client_DH_params_answer_ok_t \<Rightarrow> bool" where
  "small_answer c \<longleftrightarrow> unat (msize (p_value (ao_nonce c))) \<le> 800 \<and> unat (msize (p_value (ao_server_nonce c))) \<le> 800"

definition last_ok :: "u32 \<Rightarrow> byte list \<Rightarrow> bool" where
  "last_ok i s \<longleftrightarrow> length s + 28 \<le> 800 \<and> (if i = 0x3bcbf734 then 48 \<le> length s
     else i \<notin> {0x73f1f8dc, 0x05162463, 0xd0e8075c, 0xb5890dba, 0x9ec20908, 0x347773c5})"

lemma concrete_last:
  assumes "last_ok i s" "small_answer (t_answer_ok T)"
  shows "\<exists>t. concrete_plain E i (mk s) T = Some t \<and> small_answer (t_answer_ok t) \<and> i \<noteq> 0x73f1f8dc"
proof (cases "i = 0x3bcbf734")
  case True
  with assms(1) concrete_answer_mk [of s E] show ?thesis
    by (simp add: last_ok_def concrete_plain_def small_answer_def msize_mk)
next
  case False
  with assms show ?thesis
    by (simp add: last_ok_def concrete_plain_def)
qed

lemma set_client_drive_mk:
  assumes m: "sc_id m = 0xf5045f1f" "sc_nonce m = par 0 nonce TYPE_INT128" "sc_server_nonce m = par i sn TYPE_INT128"
      "sc_encrypted_data m = par 0 e TYPE_STRING" "sc_Server_DH_inner_data m = inner_of E n2 sn2 g p ga t"
    and l: "length nonce = 16" "length sn = 16" "length e \<le> 700"
    and x: "x_inbox x = Some (h @ le_bytes 4 (j :: u32) @ s) # cs" "length h = 24" "last_ok j s"
      "small_answer (t_answer_ok (x_t (fresh_tsys x)))"
  shows "\<exists>T. method_set_client_DH_params_drive E m x =
    Some (m\<lparr>sc_answer_ok := t_answer_ok T\<rparr>, after_call (img_set_client nonce sn e) cs E x T)"
proof -
  let ?b = "img_set_client nonce sn e"
  let ?a = "\<lambda>d. \<lparr>a_params = [par 0 (le_bytes 4 (0xf5045f1f :: u32)) TYPE_ID, par 0 nonce TYPE_INT128, par i sn TYPE_INT128,
      par 0 e TYPE_STRING], a_type = RFC, a_mode = d\<rparr>"
  obtain T where T: "concrete_plain E j (mk s) (x_t (fresh_tsys (sent_to ?b cs E x))) = Some T"
    "small_answer (t_answer_ok T)" "j \<noteq> 0x73f1f8dc"
    using concrete_last [OF x(3), of "x_t (fresh_tsys (sent_to ?b cs E x))" E] x(4) by (auto simp: fresh_sent)
  have b: "length ?b \<le> 743"
    using l length_tl_string_le [of e] by (simp add: img_set_client_def)
  have "sel_serialize E (?a SEND_RECEIVE) = Some (mk ?b)"
    using l length_tl_string_le [of e] by (simp add: sel_serialize_def zero_mk serialize_param_mk mbuf_cat_mk img_set_client_def)
  then have d: "drive1 E (zero_tsys\<lparr>t_set_client_DH_params := m\<rparr>) x = Some (after_call ?b cs E x T)"
    using m b x T(1,3)
    by (intro drive1_mk [where a = "?a SEND"])
      (simp_all add: sil_abstract_def abstract_of_mk zero_tsys_def zero_P_Q_def zero_client_def last_ok_def)
  obtain r1 r2 where "mbuf_cmp (p_value (ao_nonce (t_answer_ok T))) (mk n2) = Some r1"
    "mbuf_cmp (p_value (ao_server_nonce (t_answer_ok T))) (mk sn2) = Some r2"
    using T(2) mbuf_cmp_defined unfolding small_answer_def by metis
  then show ?thesis
    using m(5) by (intro exI [of _ T]) (simp add: method_set_client_DH_params_drive_def d inner_of_def)
qed

section \<open>The whole exchange\<close>

text \<open>What the server sends: the first 24 bytes of its packets, the nonces it repeats, its own nonce,
  the product, the fingerprints, the group, its public value, the time, the hash and the padding
  around the inner data, and the identifier and the bytes of the last answer.\<close>

record exchange =
  k_h1 :: "byte list"
  k_h2 :: "byte list"
  k_h3 :: "byte list"
  k_n1 :: "byte list"
  k_n2 :: "byte list"
  k_sn2 :: "byte list"
  k_n3 :: "byte list"
  k_sn3 :: "byte list"
  k_sn :: "byte list"
  k_pq :: "byte list"
  k_fps :: "u64 list"
  k_g :: u32
  k_p :: "byte list"
  k_ga :: "byte list"
  k_time :: u32
  k_hash :: "byte list"
  k_pad :: "byte list"
  k_id :: u32
  k_last :: "byte list"

text \<open>Only lengths, and a modulus that is not zero.\<close>

definition wf_exchange :: "exchange \<Rightarrow> bool" where
  "wf_exchange k \<longleftrightarrow> length (k_h1 k) = 24 \<and> length (k_h2 k) = 24 \<and> length (k_h3 k) = 24 \<and>
     list_all (\<lambda>n. length n = 16) [k_n1 k, k_n2 k, k_sn2 k, k_n3 k, k_sn3 k, k_sn k] \<and>
     length (k_pq k) = 8 \<and> 0 < length (k_fps k) \<and> length (k_fps k) \<le> 12 \<and>
     length (k_p k) = 256 \<and> length (k_ga k) = 256 \<and> 0 < be_nat (k_p k) \<and>
     length (k_hash k) = 20 \<and> length (k_pad k) = 8 \<and> last_ok (k_id k) (k_last k)"

definition inner_block :: "exchange \<Rightarrow> byte list" where
  "inner_block k = k_hash k @ dh_inner (k_n3 k) (k_sn3 k) (k_g k) (k_p k) (k_ga k) (k_time k) @ k_pad k"

definition answers :: "menv \<Rightarrow> exchange \<Rightarrow> byte list option list" where
  "answers E k = [Some (k_h1 k @ res_pq (k_n1 k) (k_sn k) (k_pq k) (k_fps k)),
     Some (k_h2 k @ dh_ok (k_n2 k) (k_sn2 k) (c_ige_e (m_crypto E) (tmp_key (k_sn k)) (tmp_iv (k_sn k)) (inner_block k))),
     Some (k_h3 k @ le_bytes 4 (k_id k) @ k_last k)]"

text \<open>The bodies of the three calls.\<close>

definition call1 :: "menv \<Rightarrow> nat \<Rightarrow> byte list" where
  "call1 E n = img_req_pq (drawn E n 16)"

definition call2 :: "menv \<Rightarrow> nat \<Rightarrow> exchange \<Rightarrow> byte list \<Rightarrow> byte list" where
  "call2 E n k y = (let (p, q) = ordered (m_factor E (le_val (rev (k_pq k)))) in
     img_req_DH (drawn E n 16) (k_sn k) p q (hd (k_fps k)) (left_aligned y))"

definition rsa_plain :: "menv \<Rightarrow> nat \<Rightarrow> exchange \<Rightarrow> byte list" where
  "rsa_plain E n k = (let (p, q) = ordered (m_factor E (le_val (rev (k_pq k)))) in
     rsa_block (img_pq_inner (k_pq k) p q (drawn E n 16) (k_sn k)))"

definition call3 :: "menv \<Rightarrow> nat \<Rightarrow> exchange \<Rightarrow> byte list \<Rightarrow> byte list" where
  "call3 E n k gb = img_set_client (drawn E n 16) (k_sn k)
     (c_ige_e (m_crypto E) (tmp_key (k_sn k)) (tmp_iv (k_sn k)) (client_block E (n + 2) (img_client (k_n3 k) (k_sn3 k) gb)))"

lemma length_fps: "length (concat (map (le_bytes 8) (fps :: u64 list))) = 8 * length fps"
  by (induction fps) simp_all

lemma exchange_lengths:
  assumes "menv_ok E" "wf_exchange k"
  shows "length (k_h1 k @ res_pq (k_n1 k) (k_sn k) (k_pq k) (k_fps k)) \<le> 800"
    and "length (inner_block k) = 592"
    and "length (k_h2 k @ dh_ok (k_n2 k) (k_sn2 k) (c_ige_e (m_crypto E) (tmp_key (k_sn k)) (tmp_iv (k_sn k)) (inner_block k))) \<le> 800"
proof -
  have "length (tl_string (k_pq k)) = 12" "length (tl_string (k_p k)) = 260" "length (tl_string (k_ga k)) = 260"
    using assms(2) by (simp_all add: wf_exchange_def length_tl_string4)
  with assms(2) show "length (k_h1 k @ res_pq (k_n1 k) (k_sn k) (k_pq k) (k_fps k)) \<le> 800"
    and i: "length (inner_block k) = 592"
    by (simp_all add: wf_exchange_def res_pq_def length_fps inner_block_def dh_inner_def)
  have "length (c_ige_e (m_crypto E) (tmp_key (k_sn k)) (tmp_iv (k_sn k)) (inner_block k)) = 592"
    using assms(1) i by (simp add: menv_ok_def crypto_ok_def)
  with assms(2) show "length (k_h2 k @ dh_ok (k_n2 k) (k_sn2 k) (c_ige_e (m_crypto E) (tmp_key (k_sn k)) (tmp_iv (k_sn k)) (inner_block k))) \<le> 800"
    by (simp add: wf_exchange_def dh_ok_def length_tl_string4)
qed

lemma srl_auth_run:
  assumes E: "menv_ok E" and k: "wf_exchange k" and x: "x_inbox x = answers E k @ cs"
    and s: "small_answer (t_answer_ok (x_t (fresh_tsys x)))"
  obtains y gb key x' where
    "m_modexp E (rsa_plain E (x_times x) k) (m_rsa_e E) (m_rsa_n E) = Some y"
    "m_modexp E (rev (le_bytes 4 (k_g k))) (drawn E (x_times x + 1) 256) (k_p k) = Some gb"
    "m_modexp E (k_ga k) (drawn E (x_times x + 1) 256) (k_p k) = Some key"
    "srl_auth E x = Some x'" "mbytes (x_key x') = key" "mbytes (x_salt x') = take 8 (k_sn k)" "x_inbox x' = cs"
    "x_sent x' = x_sent x @ [rfc_packet (msgid_of E (x_nows x)) (call1 E (x_times x)),
       rfc_packet (msgid_of E (x_nows x + 1)) (call2 E (x_times x) k y),
       rfc_packet (msgid_of E (x_nows x + 2)) (call3 E (x_times x) k gb)]"
proof -
  let ?n = "x_times x" and ?sn = "k_sn k" and ?e = "c_ige_e (m_crypto E) (tmp_key (k_sn k)) (tmp_iv (k_sn k)) (inner_block k)"
  let ?nonce = "drawn E ?n 16" and ?x0 = "x\<lparr>x_times := x_times x + 1\<rparr>"
  let ?c2 = "Some (k_h2 k @ dh_ok (k_n2 k) (k_sn2 k) ?e)" and ?c3 = "Some (k_h3 k @ le_bytes 4 (k_id k) @ k_last k)"
  note L = exchange_lengths [OF E k]
  have l: "length (k_n1 k) = 16" "length ?sn = 16" "length (k_pq k) = 8" "0 < length (k_fps k)" "length (k_fps k) \<le> 12"
    "length (k_n2 k) = 16" "length (k_sn2 k) = 16" "length (k_h1 k) = 24" "length (k_h2 k) = 24" "length (k_h3 k) = 24"
    "length (k_hash k) = 20" "length (k_pad k) = 8" "length (k_n3 k) = 16" "length (k_sn3 k) = 16" "length (k_p k) = 256"
    "length (k_ga k) = 256" "0 < be_nat (k_p k)" "last_ok (k_id k) (k_last k)"
    using k by (simp_all add: wf_exchange_def)
  obtain p q where pq: "ordered (m_factor E (le_val (rev (k_pq k)))) = (p, q)"
    by (cases "ordered (m_factor E (le_val (rev (k_pq k))))")
  let ?m0 = "req_pq\<lparr>rq_nonce := par 0 ?nonce TYPE_INT128\<rparr>"
  have m0: "method_req_pq_init E x = Some (?m0, ?x0)"
    by (simp add: method_req_pq_init_def api_rand_mk req_pq_def set_value_def param0_def par_def)
  obtain t1 m1 where 1: "t_answer_ok t1 = t_answer_ok (x_t (fresh_tsys ?x0))"
    "method_req_pq_drive E ?m0 ?x0 = Some (m1, after_call (call1 E ?n) (?c2 # ?c3 # cs) E ?x0 t1)"
    "rq_nonce m1 = par 0 ?nonce TYPE_INT128" "rp_server_nonce (rq_ResPQ m1) = par 0x05162463 ?sn TYPE_INT128"
    "rp_pq (rq_ResPQ m1) = par 0x05162463 (k_pq k) TYPE_STRING"
    "rp_fingerprints (rq_ResPQ m1) = par 0x05162463 (le_bytes 8 (hd (k_fps k))) TYPE_VECTOR_LONG"
    using method_req_pq_drive_mk [of ?m0 ?nonce ?x0 "k_h1 k" "k_n1 k" ?sn "k_pq k" "k_fps k" "?c2 # ?c3 # cs" E] l L(1) x
    by (auto simp: req_pq_def answers_def call1_def)
  let ?x1 = "after_call (call1 E ?n) (?c2 # ?c3 # cs) E ?x0 t1"
  obtain y m2 where 2: "m_modexp E (rsa_plain E ?n k) (m_rsa_e E) (m_rsa_n E) = Some y" "length y \<le> 256"
    "method_req_DH_params_init E m1 = Some m2"
    "rd_id m2 = 0xd712e4be" "rd_nonce m2 = par 0 ?nonce TYPE_INT128" "rd_server_nonce m2 = par 0x05162463 ?sn TYPE_INT128"
      "rd_p m2 = par 0 (rev (le_bytes 4 p)) TYPE_STRING" "rd_q m2 = par 0 (rev (le_bytes 4 q)) TYPE_STRING"
      "rd_fingerprint m2 = par 0x05162463 (le_bytes 8 (hd (k_fps k))) TYPE_VECTOR_LONG"
      "rd_encrypted_data m2 = par 0 (left_aligned y) TYPE_STRING"
    "pi_new_nonce (rd_P_Q_inner_data m2) = par 0 (replicate 32 0) TYPE_INT256"
    by (rule req_DH_params_init_mk [OF E 1(3-6) _ l(2,3) pq]) (simp_all add: rsa_plain_def pq method_req_DH_params_def)
  obtain t2 m3 where 3: "t_answer_ok t2 = t_answer_ok t1"
    "method_req_DH_params_drive E m2 ?x1 = Some (m3, after_call (call2 E ?n k y) (?c3 # cs) E ?x1 t2)"
    "dp_encrypted_answer (rd_Server_DH_Params_ok m3) = par 0xd0e8075c ?e TYPE_STRING" "rd_P_Q_inner_data m3 = rd_P_Q_inner_data m2"
  proof -
    have "length (left_aligned y) = 256"
      using 2(2) by (simp add: left_aligned_def)
    moreover have "x_inbox ?x1 = ?c2 # ?c3 # cs"
      by simp
    ultimately obtain t where "t_answer_ok t = t_answer_ok (x_t (fresh_tsys ?x1))"
      "method_req_DH_params_drive E m2 ?x1 = Some (m2\<lparr>rd_Server_DH_Params_ok := \<lparr>dp_id = 0xd0e8075c,
          dp_nonce = par 0xd0e8075c (k_n2 k) TYPE_INT128, dp_server_nonce = par 0xd0e8075c (k_sn2 k) TYPE_INT128,
          dp_encrypted_answer = par 0xd0e8075c ?e TYPE_STRING\<rparr>\<rparr>, after_call (call2 E ?n k y) (?c3 # cs) E ?x1 t)"
      using method_req_DH_params_drive_mk [OF 2(4-10) length_drawn l(2) _ l(6,7) _ l(9) L(3), of ?x1 "?c3 # cs" E]
      unfolding call2_def pq by auto
    then show thesis
      by (intro that [of t "m2\<lparr>rd_Server_DH_Params_ok := \<lparr>dp_id = 0xd0e8075c,
          dp_nonce = par 0xd0e8075c (k_n2 k) TYPE_INT128, dp_server_nonce = par 0xd0e8075c (k_sn2 k) TYPE_INT128,
          dp_encrypted_answer = par 0xd0e8075c ?e TYPE_STRING\<rparr>\<rparr>"]) simp_all
  qed
  let ?x2 = "after_call (call2 E ?n k y) (?c3 # cs) E ?x1 t2"
  have e: "dp_encrypted_answer (rd_Server_DH_Params_ok m3) = par 0xd0e8075c (c_ige_e (m_crypto E) (tmp_key ?sn) (tmp_iv ?sn)
      (k_hash k @ dh_inner (k_n3 k) (k_sn3 k) (k_g k) (k_p k) (k_ga k) (k_time k) @ k_pad k)) TYPE_STRING"
    using 3(3) by (simp add: inner_block_def)
  have nn: "pi_new_nonce (rd_P_Q_inner_data m3) = par 0 (replicate 32 0) TYPE_INT256"
    using 3(4) 2(11) by simp
  have tx: "x_times ?x2 = ?n + 1"
    by simp
  obtain gb m4 T where 4: "m_modexp E (rev (le_bytes 4 (k_g k))) (drawn E (?n + 1) 256) (k_p k) = Some gb"
    "method_set_client_DH_params_init E m1 m3 ?x2 = Some (m4, ?x2\<lparr>x_t := T, x_times := ?n + 1 + 2\<rparr>)"
    "t_answer_ok T = t_answer_ok (x_t ?x2)"
    "sc_id m4 = 0xf5045f1f" "sc_nonce m4 = par 0 ?nonce TYPE_INT128" "sc_server_nonce m4 = par 0x05162463 ?sn TYPE_INT128"
    "sc_encrypted_data m4 = par 0 (c_ige_e (m_crypto E) (tmp_key ?sn) (tmp_iv ?sn)
       (client_block E (?n + 1 + 1) (img_client (k_n3 k) (k_sn3 k) gb))) TYPE_STRING" "length gb \<le> 256"
    "sc_Server_DH_inner_data m4 = inner_of E (k_n3 k) (k_sn3 k) (k_g k) (k_p k) (k_ga k) (k_time k)"
    "ci_b (sc_Client_DH_Inner_Data m4) = mk (drawn E (?n + 1) 256)"
    "mbytes (sc_salt m4) = take 8 ?sn"
    by (rule set_client_init_mk [OF E 1(3,4) length_drawn l(2) e nn l(11-17), where x = ?x2, unfolded tx, OF after_call_sel(8)])
  let ?x3 = "?x2\<lparr>x_t := T, x_times := ?n + 1 + 2\<rparr>" and ?gb = "img_client (k_n3 k) (k_sn3 k) gb"
  let ?e3 = "c_ige_e (m_crypto E) (tmp_key ?sn) (tmp_iv ?sn) (client_block E (?n + 1 + 1) ?gb)"
  have "length ?gb \<le> 307"
    using l 4(8) length_tl_string_le [of gb] by (simp add: img_client_def)
  then have le: "length ?e3 \<le> 700"
    using E pad16_less [of "20 + length ?gb"] by (simp add: menv_ok_def crypto_ok_def client_block_def)
  have st: "x_flag ?x3 \<noteq> 0" "x_inbox ?x3 = ?c3 # cs"
    using after_call_sel(8) by simp_all
  have "t_answer_ok T = t_answer_ok (x_t (fresh_tsys x))"
    using 4(3) 3(1) 1(1) by (simp add: fresh_tsys_def)
  then have sm: "small_answer (t_answer_ok (x_t (fresh_tsys ?x3)))"
    using s st(1) by simp
  obtain T' where 5: "method_set_client_DH_params_drive E m4 ?x3 =
      Some (m4\<lparr>sc_answer_ok := t_answer_ok T'\<rparr>, after_call (img_set_client ?nonce ?sn ?e3) cs E ?x3 T')"
    using set_client_drive_mk [OF 4(4-7,9) length_drawn l(2) le st(2) l(10,18) sm] by blast
  obtain key where key: "m_modexp E (k_ga k) (drawn E (?n + 1) 256) (k_p k) = Some key" "length key \<le> length (k_p k)"
    using bn_modexp [of E "k_p k" "k_ga k" "drawn E (?n + 1) 256"] E l(17) by (auto simp: menv_ok_def)
  obtain js where js: "cmn_pow_mod E (mk (k_ga k)) (mk (drawn E (?n + 1) 256)) (mk (k_p k)) = Some (mkj key js)"
    using cmn_pow_mod_mk [OF E _ _ _ key] l by auto
  let ?x4 = "after_call (img_set_client ?nonce ?sn ?e3) cs E ?x3 T'"
  have run: "srl_auth E x = Some (?x4\<lparr>x_key := mkj key js, x_salt := sc_salt m4\<rparr>)"
    unfolding srl_auth_def by (simp only: m0 1(2) 2(3) 3(2) 4(2) 5 Option.bind.bind_lunit prod.case) (simp add: 4(9,10) inner_of_def js del: One_nat_def)
  show thesis
    by (rule that [OF 2(1) 4(1) key(1) run]) (use key(2) l(15) 4(11) in \<open>simp_all add: mbytes_mkj call3_def\<close>)
qed

end
