(* ===== verification/HandshakeProps.thy ===== *)
theory HandshakeProps
  imports HandshakeRun SessionProps
begin

text \<open>
  The properties of the key exchange that api.app.open runs: what it sends and computes, that the
  server computes the same number, and what its missing checks and its choice of random numbers
  amount to.
\<close>

section \<open>Numbers as bytes\<close>

lemma be_nat_inj:
  "length xs = length ys \<Longrightarrow> be_nat xs = be_nat ys \<Longrightarrow> xs = ys"
proof (induction xs arbitrary: ys rule: rev_induct)
  case (snoc x xs)
  then obtain y zs where y: "ys = zs @ [y]"
    by (cases ys rule: rev_cases) auto
  have b: "unat x < 256" "unat y < 256"
    using unsigned_less [where 'a = nat, of x] unsigned_less [where 'a = nat, of y] by simp_all
  have e: "256 * be_nat xs + unat x = 256 * be_nat zs + unat y"
    using snoc.prems(2) by (simp add: y be_nat_snoc)
  then have "(256 * be_nat xs + unat x) div 256 = (256 * be_nat zs + unat y) div 256"
    by simp
  then have "be_nat xs = be_nat zs"
    using b by simp
  moreover from this e have "x = y"
    by (simp add: unsigned_word_eqI [where 'a = nat])
  ultimately show ?case
    using snoc y by simp
qed simp

text \<open>A number in a fixed number of bytes, as the server keeps its key.\<close>

fun be_bytes :: "nat \<Rightarrow> nat \<Rightarrow> byte list" where
  "be_bytes 0 v = []"
| "be_bytes (Suc n) v = be_bytes n (v div 256) @ [of_nat (v mod 256)]"

lemma length_be_bytes [simp]: "length (be_bytes n v) = n"
  by (induction n arbitrary: v) simp_all

lemma be_nat_be_bytes: "v < 256 ^ n \<Longrightarrow> be_nat (be_bytes n v) = v"
proof (induction n arbitrary: v)
  case (Suc n)
  then have "v div 256 < 256 ^ n"
    by (simp add: less_mult_imp_div_less mult.commute)
  with Suc.IH show ?case
    by (simp add: be_nat_snoc unat_of_nat)
qed simp

text \<open>The shortest string for a number.\<close>

fun be_min :: "nat \<Rightarrow> byte list" where
  "be_min v = (if v = 0 then [] else be_min (v div 256) @ [of_nat (v mod 256)])"

declare be_min.simps [simp del]

lemma be_min_ok: "be_nat (be_min v) = v \<and> (be_min v = [] \<or> hd (be_min v) \<noteq> 0) \<and> (be_min v = [] \<longleftrightarrow> v = 0)"
proof (induction v rule: be_min.induct)
  case (1 v)
  show ?case
  proof (cases "v < 256")
    case True
    have "be_min 0 = []"
      by (simp add: be_min.simps)
    then have "be_min v = (if v = 0 then [] else [of_nat v])"
      using True by (simp add: be_min.simps [of v])
    moreover have "unat (of_nat v :: byte) = v"
      using True by (simp add: unat_of_nat)
    moreover from this have "v \<noteq> 0 \<Longrightarrow> (of_nat v :: byte) \<noteq> 0"
      by (metis unat_0)
    ultimately show ?thesis
      by (simp add: be_nat_def)
  next
    case False
    then have "v \<noteq> 0" "v div 256 \<noteq> 0"
      by (simp_all add: div_eq_0_iff)
    with 1 show ?thesis
      by (auto simp: be_min.simps [of v] be_nat_snoc unat_of_nat)
  qed
qed

text \<open>A string without a leading zero has 256 bytes just for the numbers that need them.\<close>

lemma full_length:
  assumes "length y \<le> 256" "y = [] \<or> hd y \<noteq> 0"
  shows "length y = 256 \<longleftrightarrow> 256 ^ 255 \<le> be_nat y"
proof
  assume l: "length y = 256"
  then obtain b ys where y: "y = b # ys" "length ys = 255"
    by (cases y) simp_all
  have "0 < unat b"
    using assms(2) y unat_gt_0 [of b] by simp
  then have "1 * 256 ^ length ys \<le> unat b * 256 ^ length ys"
    by (intro mult_right_mono) simp_all
  moreover have "be_nat y = unat b * 256 ^ length ys + be_nat ys"
    using be_nat_append [of "[b]" ys] y by (simp add: be_nat_def)
  ultimately have "256 ^ length ys \<le> be_nat y"
    by linarith
  then show "256 ^ 255 \<le> be_nat y"
    by (simp only: y(2))
next
  assume h: "256 ^ 255 \<le> be_nat y"
  show "length y = 256"
  proof (rule ccontr)
    assume "length y \<noteq> 256"
    with assms(1) have "(256 :: nat) ^ length y \<le> 256 ^ 255"
      by (intro power_increasing) simp_all
    with h be_nat_less [of y] show False
      by (meson le_less_trans less_le_trans less_irrefl)
  qed
qed

section \<open>Runs of app_open\<close>

text \<open>What has to hold before: the environment, the messages in the socket, and a last answer of an
  earlier exchange, if there was one, of a possible size.\<close>

definition ready :: "menv \<Rightarrow> exchange \<Rightarrow> byte list option list \<Rightarrow> mtx \<Rightarrow> bool" where
  "ready E k cs x \<longleftrightarrow> menv_ok E \<and> wf_exchange k \<and> x_inbox x = answers E k @ cs \<and>
     small_answer (t_answer_ok (x_t (fresh_tsys x)))"

text \<open>The secret exponent.\<close>

definition exponent :: "menv \<Rightarrow> mtx \<Rightarrow> byte list" where
  "exponent E x = drawn E (x_times x + 1) 256"

lemma app_open_run:
  assumes "ready E k cs x"
  obtains y gb key x' where
    "m_modexp E (rsa_plain E (x_times x) k) (m_rsa_e E) (m_rsa_n E) = Some y"
    "m_modexp E (rev (le_bytes 4 (k_g k))) (exponent E x) (k_p k) = Some gb"
    "m_modexp E (k_ga k) (exponent E x) (k_p k) = Some key"
    "app_open E x = Some x'" "mbytes (x_key x') = key" "mbytes (x_salt x') = take 8 (k_sn k)" "x_inbox x' = cs"
    "x_sent x' = x_sent x @ [replicate 4 0xee, rfc_packet (msgid_of E (x_nows x)) (call1 E (x_times x)),
       rfc_packet (msgid_of E (x_nows x + 1)) (call2 E (x_times x) k y),
       rfc_packet (msgid_of E (x_nows x + 2)) (call3 E (x_times x) k gb)]"
proof -
  let ?x = "net_open1 (reset_shared_rc x)"
  have r: "menv_ok E" "wf_exchange k" "x_inbox ?x = answers E k @ cs" "small_answer (t_answer_ok (x_t (fresh_tsys ?x)))"
    "x_times ?x = x_times x" "x_nows ?x = x_nows x" "x_sent ?x = x_sent x @ [replicate 4 0xee]"
    using assms by (auto simp: ready_def net_open1_def reset_shared_rc_def fresh_tsys_def eval_nat_numeral)
  show thesis
    by (rule srl_auth_run [OF r(1-4)], rule that) (simp_all add: r(5-7) app_open_def scl_open_def exponent_def)
qed

lemma ready_key:
  assumes "ready E k cs x" "m_modexp E (k_ga k) (exponent E x) (k_p k) = Some key"
  shows "be_nat key = be_nat (k_ga k) ^ be_nat (exponent E x) mod be_nat (k_p k)" and "length key \<le> 256"
    and "key = [] \<or> hd key \<noteq> 0"
proof -
  have r: "bn_ok E" "0 < be_nat (k_p k)" "length (k_p k) = 256"
    using assms(1) by (simp_all add: ready_def menv_ok_def wf_exchange_def)
  obtain y where "m_modexp E (k_ga k) (exponent E x) (k_p k) = Some y"
    "be_nat y = be_nat (k_ga k) ^ be_nat (exponent E x) mod be_nat (k_p k)" "length y \<le> length (k_p k)" "y = [] \<or> hd y \<noteq> 0"
    by (rule bn_modexp [OF r(1,2)])
  with assms(2) r(3) show "be_nat key = be_nat (k_ga k) ^ be_nat (exponent E x) mod be_nat (k_p k)" "length key \<le> 256"
    "key = [] \<or> hd key \<noteq> 0"
    by simp_all
qed

section \<open>What the exchange does\<close>


text \<open>C26. The two sides agree. When the server's public value is the power of the generator with its
  secret, the key the client keeps is the number the server computes from the client's public
  value, the power of that value with the server's secret. It is the server's 256 bytes exactly when the
  number has no leading zero byte: the client drops leading zeros, so one exchange in 256 ends with
  keys that differ.\<close>

theorem handshake_agrees:
  assumes "ready E k cs x" and "be_nat (k_ga k) = be_nat (rev (le_bytes 4 (k_g k))) ^ a mod be_nat (k_p k)"
  shows "\<exists>gb x'. m_modexp E (rev (le_bytes 4 (k_g k))) (exponent E x) (k_p k) = Some gb \<and> app_open E x = Some x' \<and>
    be_nat (mbytes (x_key x')) = be_nat gb ^ a mod be_nat (k_p k) \<and>
    (mbytes (x_key x') = be_bytes 256 (be_nat gb ^ a mod be_nat (k_p k)) \<longleftrightarrow> 256 ^ 255 \<le> be_nat gb ^ a mod be_nat (k_p k))"
proof (rule app_open_run [OF assms(1)])
  fix y gb key x'
  assume h: "m_modexp E (rev (le_bytes 4 (k_g k))) (exponent E x) (k_p k) = Some gb"
    "m_modexp E (k_ga k) (exponent E x) (k_p k) = Some key" "app_open E x = Some x'" "mbytes (x_key x') = key"
  let ?g = "be_nat (rev (le_bytes 4 (k_g k)))" and ?b = "be_nat (exponent E x)" and ?p = "be_nat (k_p k)"
  have r: "bn_ok E" "0 < ?p" "length (k_p k) = 256"
    using assms(1) by (simp_all add: ready_def menv_ok_def wf_exchange_def)
  have gb: "be_nat gb = ?g ^ ?b mod ?p"
    by (rule bn_modexp [OF r(1,2), of "rev (le_bytes 4 (k_g k))" "exponent E x"]) (simp add: h(1))
  note key = ready_key [OF assms(1) h(2)]
  have eq: "be_nat key = be_nat gb ^ a mod ?p"
    by (simp add: key(1) gb assms(2) power_mod power_mult [symmetric] mult.commute)
  have "be_nat gb ^ a mod ?p < 256 ^ 256"
    using r(2) be_nat_less [of "k_p k"] r(3) by (metis less_trans mod_less_divisor)
  then have "key = be_bytes 256 (be_nat gb ^ a mod ?p) \<longleftrightarrow> length key = 256"
    by (metis be_nat_be_bytes be_nat_inj eq length_be_bytes)
  then have "key = be_bytes 256 (be_nat gb ^ a mod ?p) \<longleftrightarrow> 256 ^ 255 \<le> be_nat gb ^ a mod ?p"
    using full_length [OF key(2,3)] eq by simp
  with h eq show ?thesis
    by blast
qed

text \<open>C27. The server is not authenticated. Two servers that send the same group, public value and
  server nonce give the same key and salt, whatever else they send: the nonces they repeat, the
  fingerprints, the hash of the inner data and the last answer, which may even be a refusal, are not
  checked, an error message at most is printed.\<close>

theorem handshake_unauthenticated:
  assumes "ready E k cs x" and "ready E k' cs' x'" and "k_p k' = k_p k" "k_ga k' = k_ga k" "k_sn k' = k_sn k"
    and "exponent E x' = exponent E x"
  shows "\<exists>z z'. app_open E x = Some z \<and> app_open E x' = Some z' \<and>
    mbytes (x_key z') = mbytes (x_key z) \<and> mbytes (x_salt z') = mbytes (x_salt z)"
proof (rule app_open_run [OF assms(1)], rule app_open_run [OF assms(2)])
  fix key key' z z'
  assume "m_modexp E (k_ga k) (exponent E x) (k_p k) = Some key" "app_open E x = Some z" "mbytes (x_key z) = key"
    "mbytes (x_salt z) = take 8 (k_sn k)"
    "m_modexp E (k_ga k') (exponent E x') (k_p k') = Some key'" "app_open E x' = Some z'" "mbytes (x_key z') = key'"
    "mbytes (x_salt z') = take 8 (k_sn k')"
  with assms(3-6) show ?thesis
    by simp
qed

text \<open>What somebody who sees the packets and knows the second of the clock can compute: the server
  nonce from the first answer, with it the temporary key and the inner data of the second, and from
  the second of the clock the exponent.\<close>

definition spy_key :: "menv \<Rightarrow> byte list \<Rightarrow> byte list \<Rightarrow> u32 \<Rightarrow> byte list option" where
  "spy_key E r1 r2 time = (let sn = take 16 (drop 44 r1);
     d = c_ige_d (m_crypto E) (tmp_key sn) (tmp_iv sn) (take 592 (drop 64 r2)) in
     m_modexp E (take 256 (drop 324 d)) (map (m_rand E time) [0..<256]) (take 256 (drop 64 d)))"

lemma tl_string_256: "length bs = 256 \<Longrightarrow> \<exists>h. tl_string bs = h @ bs \<and> length h = 4"
  by (intro exI [of _ "tl_head (length bs)"]) (simp add: tl_string_def Let_def tl_head_def padn_def)

lemma tl_string_592: "length bs = 592 \<Longrightarrow> \<exists>h. tl_string bs = h @ bs \<and> length h = 4"
  by (intro exI [of _ "tl_head (length bs)"]) (simp add: tl_string_def Let_def tl_head_def padn_def)

lemma spy_reads:
  assumes "ready E k cs x" and "answers E k = [Some r1, Some r2, r3]"
  shows "spy_key E r1 r2 (m_time E (x_times x + 1)) = m_modexp E (k_ga k) (exponent E x) (k_p k)"
proof -
  have k: "wf_exchange k" "menv_ok E"
    using assms(1) by (simp_all add: ready_def)
  then have l: "length (k_h1 k) = 24" "length (k_h2 k) = 24" "length (k_n1 k) = 16" "length (k_sn k) = 16" "length (k_n2 k) = 16"
    "length (k_sn2 k) = 16" "length (k_n3 k) = 16" "length (k_sn3 k) = 16" "length (k_hash k) = 20" "length (k_p k) = 256" "length (k_ga k) = 256"
    by (simp_all add: wf_exchange_def)
  let ?e = "c_ige_e (m_crypto E) (tmp_key (k_sn k)) (tmp_iv (k_sn k)) (inner_block k)"
  have i: "length (inner_block k) = 592"
    by (rule exchange_lengths(2) [OF k(2,1)])
  then have e: "length ?e = 592" "c_ige_d (m_crypto E) (tmp_key (k_sn k)) (tmp_iv (k_sn k)) ?e = inner_block k"
    using k(2) by (simp_all add: menv_ok_def crypto_ok_def)
  obtain h1 h2 h3 where h: "tl_string ?e = h1 @ ?e" "length h1 = 4" "tl_string (k_p k) = h2 @ k_p k" "length h2 = 4"
    "tl_string (k_ga k) = h3 @ k_ga k" "length h3 = 4"
    using tl_string_592 [OF e(1)] tl_string_256 [OF l(10)] tl_string_256 [OF l(11)] by blast
  have r: "r1 = k_h1 k @ res_pq (k_n1 k) (k_sn k) (k_pq k) (k_fps k)" "r2 = k_h2 k @ dh_ok (k_n2 k) (k_sn2 k) ?e"
    using assms(2) by (simp_all add: answers_def)
  have "take 16 (drop 44 r1) = k_sn k" "take 592 (drop 64 r2) = ?e"
    using l h(1,2) e(1) by (simp_all add: r res_pq_def dh_ok_def)
  moreover have "take 256 (drop 64 (inner_block k)) = k_p k" "take 256 (drop 324 (inner_block k)) = k_ga k"
    using l h(3-6) by (simp_all add: inner_block_def dh_inner_def)
  ultimately show ?thesis
    using e(2) by (simp add: spy_key_def exponent_def drawn_def)
qed

text \<open>C28. The key is no secret. Since the new nonce is zeros and the exponent is drawn with rand()
  from the clock in seconds, two of the packets the server sends and one value of the clock determine
  the key of every run.\<close>

theorem handshake_key_public:
  assumes "ready E k cs x" and "answers E k = [Some r1, Some r2, r3]"
  shows "\<exists>x'. app_open E x = Some x' \<and> spy_key E r1 r2 (m_time E (x_times x + 1)) = Some (mbytes (x_key x'))"
  by (rule app_open_run [OF assms(1)]) (use spy_reads [OF assms] in auto)

text \<open>When the nonce and the exponent are drawn within the same second, the first packet carries the
  first sixteen bytes of the exponent: the nonce, sent in the clear, is their prefix.\<close>

theorem handshake_nonce_is_exponent:
  assumes "ready E k cs x" and "m_time E (x_times x + 1) = m_time E (x_times x)"
  shows "\<exists>x'. app_open E x = Some x' \<and>
    x_sent x' ! (length (x_sent x) + 1) = rfc_packet (msgid_of E (x_nows x)) (img_req_pq (take 16 (exponent E x))) \<and>
    m_modexp E (k_ga k) (exponent E x) (k_p k) = Some (mbytes (x_key x'))"
proof (rule app_open_run [OF assms(1)])
  fix y gb key x'
  assume h: "m_modexp E (k_ga k) (exponent E x) (k_p k) = Some key" "app_open E x = Some x'" "mbytes (x_key x') = key"
    and s: "x_sent x' = x_sent x @ [replicate 4 0xee, rfc_packet (msgid_of E (x_nows x)) (call1 E (x_times x)),
       rfc_packet (msgid_of E (x_nows x + 1)) (call2 E (x_times x) k y),
       rfc_packet (msgid_of E (x_nows x + 2)) (call3 E (x_times x) k gb)]"
  have "take 16 (exponent E x) = drawn E (x_times x) 16"
    using assms(2) by (simp add: exponent_def drawn_def take_map)
  moreover have "x_sent x' ! (length (x_sent x) + 1) = rfc_packet (msgid_of E (x_nows x)) (call1 E (x_times x))"
    unfolding s by (simp only: nth_append_length_plus nth_Cons_Suc nth_Cons_0 One_nat_def)
  ultimately show ?thesis
    using h by (simp add: call1_def)
qed

text \<open>C30. Degenerate values are accepted. With the public value 1 the key is the single byte 1 whatever
  the exponent, and with 0 it is empty: neither the size of the key nor the range of the public value is
  checked.\<close>

theorem handshake_degenerate:
  assumes "ready E k cs x" and "1 < be_nat (k_p k)" and "be_nat (k_ga k) \<le> 1" and "0 < be_nat (exponent E x)"
  shows "\<exists>x'. app_open E x = Some x' \<and> mbytes (x_key x') = (if be_nat (k_ga k) = 1 then [1] else [])"
proof (rule app_open_run [OF assms(1)])
  fix y gb key x'
  assume h: "m_modexp E (k_ga k) (exponent E x) (k_p k) = Some key" "app_open E x = Some x'" "mbytes (x_key x') = key"
  note r = ready_key [OF assms(1) h(1)]
  have "be_nat (k_ga k) = 0 \<or> be_nat (k_ga k) = 1"
    using assms(3) by linarith
  then have v: "be_nat key = be_nat (k_ga k)"
    using r(1) assms(2,4) by (elim disjE) (simp_all add: power_0_left)
  have "key = (if be_nat (k_ga k) = 1 then [1] else [])"
  proof (cases key)
    case Nil
    with v show ?thesis
      by simp
  next
    case (Cons b ys)
    then have "0 < unat b"
      using r(3) unat_gt_0 [of b] by simp
    then have p: "1 * 256 ^ length ys \<le> unat b * 256 ^ length ys"
      by (intro mult_right_mono) simp_all
    have n: "be_nat key = unat b * 256 ^ length ys + be_nat ys"
      using be_nat_append [of "[b]" ys] Cons by (simp add: be_nat_def)
    with p v assms(3) have small: "(256 :: nat) ^ length ys \<le> 1"
      by linarith
    have "ys = []"
    proof (rule ccontr)
      assume "ys \<noteq> []"
      then have "(256 :: nat) ^ 1 \<le> 256 ^ length ys"
        by (intro power_increasing) (simp_all add: Suc_le_eq)
      with small show False
        by simp
    qed
    with n p v assms(3) have "unat b = 1" "be_nat (k_ga k) = 1"
      by (simp_all add: be_nat_def)
    then have "b = 1"
      by (simp add: unsigned_word_eqI [where 'a = nat])
    with \<open>ys = []\<close> Cons \<open>be_nat (k_ga k) = 1\<close> show ?thesis
      by simp
  qed
  with h show ?thesis
    by blast
qed

section \<open>A run\<close>

text \<open>A server with generator 3, secret 5 and the modulus 256 to the 255; a cipher and clocks that
  satisfy the hypotheses.\<close>

definition demo_modexp :: "byte list \<Rightarrow> byte list \<Rightarrow> byte list \<Rightarrow> byte list option" where
  "demo_modexp g e m = (if be_nat m = 0 then None else Some (be_min (be_nat g ^ be_nat e mod be_nat m)))"

definition demo_menv :: menv where
  "demo_menv = \<lparr>m_crypto = demo_crypto, m_modexp = demo_modexp, m_rsa_n = 1 # replicate 255 0, m_rsa_e = [3],
     m_factor = (\<lambda>_. (5, 3)), m_rand = (\<lambda>s i. of_nat (unat s + i + 1)), m_time = (\<lambda>_. 7), m_now = (\<lambda>i. of_nat (4096 + 8 * i)),
     m_sha = \<lparr>buf1 = replicate 64 0, bufferOffset = 0, st1 = [], byteCount = 0, keyBuffer = [], innerHash = []\<rparr>,
     m_any = \<lparr>mdata = replicate 800 0xaa, msize = 0\<rparr>, m_junk = replicate 800 0xbb\<rparr>"

definition demo_exchange :: exchange where
  "demo_exchange = \<lparr>k_h1 = replicate 24 1, k_h2 = replicate 24 2, k_h3 = replicate 24 3,
     k_n1 = replicate 16 4, k_n2 = replicate 16 5, k_sn2 = replicate 16 6, k_n3 = replicate 16 7, k_sn3 = replicate 16 8,
     k_sn = replicate 16 9, k_pq = replicate 7 0 @ [15], k_fps = [1, 2], k_g = 3, k_p = 1 # replicate 255 0,
     k_ga = replicate 255 0 @ [243], k_time = 100, k_hash = replicate 20 10, k_pad = replicate 8 11,
     k_id = 0x3bcbf734, k_last = replicate 48 12\<rparr>"

text \<open>The same server with other nonces, another hash and a refusal at the end.\<close>

definition demo_refusal :: exchange where
  "demo_refusal = demo_exchange\<lparr>k_n2 := replicate 16 50, k_sn2 := replicate 16 60, k_n3 := replicate 16 70,
     k_hash := replicate 20 0, k_fps := [7], k_id := 0xa69dae02, k_last := []\<rparr>"

definition demo_mtx :: "exchange \<Rightarrow> mtx" where
  "demo_mtx k = \<lparr>x_key = zero_mbuf, x_salt = zero_mbuf, x_ssid = zero_mbuf, x_seqn = 0, x_seqnh = 0, x_last_msg_id = zero_mbuf,
     x_t = zero_tsys, x_flag = 0, x_inbox = answers demo_menv k, x_sent = [], x_times = 0, x_nows = 0\<rparr>"

lemma be_nat_zeros [simp]: "be_nat (replicate n 0) = 0"
proof (induction n)
  case (Suc n)
  then show ?case
    using be_nat_snoc [of "replicate n 0" 0] by (simp add: replicate_append_same)
qed simp

lemma be_nat_demo_p: "be_nat (1 # replicate 255 0) = 256 ^ 255"
  using be_nat_append [of "[1]" "replicate 255 0"] by (simp add: be_nat_def [of "[1]"])

lemma demo_menv_ok: "menv_ok demo_menv"
proof -
  have "bn_ok demo_menv"
    using be_min_ok unfolding bn_ok_def demo_menv_def demo_modexp_def menv.simps by (metis less_irrefl)
  moreover have "0 < be_nat (m_rsa_n demo_menv)"
    unfolding demo_menv_def menv.simps be_nat_demo_p by simp
  ultimately show ?thesis
    using demo_crypto_ok by (simp add: menv_ok_def demo_menv_def)
qed

lemma demo_exchange_wf: "wf_exchange demo_exchange" "wf_exchange demo_refusal"
proof -
  have "0 < be_nat (1 # replicate 255 0)"
    unfolding be_nat_demo_p by simp
  then show "wf_exchange demo_exchange" "wf_exchange demo_refusal"
    by (simp_all add: wf_exchange_def demo_exchange_def demo_refusal_def last_ok_def)
qed

lemma demo_mtx_ready: "ready demo_menv demo_exchange [] (demo_mtx demo_exchange)" "ready demo_menv demo_refusal [] (demo_mtx demo_refusal)"
  using demo_menv_ok demo_exchange_wf
  by (simp_all add: ready_def demo_mtx_def fresh_tsys_def zero_tsys_def zero_answer_def small_answer_def param0_def zero_mbuf_def)


lemma demo_generator: "be_nat (rev (le_bytes 4 (k_g demo_exchange))) = 3" "be_nat (k_ga demo_exchange) = 243"
  "be_nat (k_p demo_exchange) = 256 ^ 255"
proof -
  have "rev (le_bytes 4 (3 :: u32)) = [0, 0, 0, 3]"
    by (simp add: le_bytes_def upt_rec)
  then show "be_nat (rev (le_bytes 4 (k_g demo_exchange))) = 3"
    by (simp add: demo_exchange_def be_nat_def)
  show "be_nat (k_ga demo_exchange) = 243"
    by (simp add: demo_exchange_def be_nat_snoc)
  show "be_nat (k_p demo_exchange) = 256 ^ 255"
    unfolding demo_exchange_def exchange.simps by (rule be_nat_demo_p)
qed

lemma less_demo_p: "n < 256 \<Longrightarrow> n < (256 :: nat) ^ 255"
  using power_increasing [of 1 255 "256 :: nat"] by simp

theorem handshake_agrees_witness:
  "\<exists>gb x'. m_modexp demo_menv (rev (le_bytes 4 (k_g demo_exchange))) (exponent demo_menv (demo_mtx demo_exchange)) (k_p demo_exchange) = Some gb \<and>
    app_open demo_menv (demo_mtx demo_exchange) = Some x' \<and>
    be_nat (mbytes (x_key x')) = be_nat gb ^ 5 mod be_nat (k_p demo_exchange) \<and>
    (mbytes (x_key x') = be_bytes 256 (be_nat gb ^ 5 mod be_nat (k_p demo_exchange)) \<longleftrightarrow>
      256 ^ 255 \<le> be_nat gb ^ 5 mod be_nat (k_p demo_exchange))"
proof (rule handshake_agrees [OF demo_mtx_ready(1)])
  have "(243 :: nat) < 256 ^ 255"
    by (rule less_demo_p) simp
  then have "(243 :: nat) mod 256 ^ 255 = 243"
    by (rule mod_less)
  moreover have "(3 :: nat) ^ 5 = 243"
    by simp
  ultimately show "be_nat (k_ga demo_exchange) = be_nat (rev (le_bytes 4 (k_g demo_exchange))) ^ 5 mod be_nat (k_p demo_exchange)"
    unfolding demo_generator by (simp only:)
qed

theorem handshake_unauthenticated_witness:
  "\<exists>z z'. app_open demo_menv (demo_mtx demo_exchange) = Some z \<and> app_open demo_menv (demo_mtx demo_refusal) = Some z' \<and>
    mbytes (x_key z') = mbytes (x_key z) \<and> mbytes (x_salt z') = mbytes (x_salt z)"
  by (rule handshake_unauthenticated [OF demo_mtx_ready])
    (simp_all add: demo_refusal_def demo_exchange_def exponent_def demo_mtx_def)

theorem handshake_key_public_witness:
  "\<exists>r1 r2 x'. answers demo_menv demo_exchange = [Some r1, Some r2, Some (replicate 24 3 @ le_bytes 4 (0x3bcbf734 :: u32) @ replicate 48 12)] \<and>
    app_open demo_menv (demo_mtx demo_exchange) = Some x' \<and> spy_key demo_menv r1 r2 7 = Some (mbytes (x_key x'))"
proof -
  obtain r1 r2 where r: "answers demo_menv demo_exchange =
      [Some r1, Some r2, Some (replicate 24 3 @ le_bytes 4 (0x3bcbf734 :: u32) @ replicate 48 12)]"
    by (simp add: answers_def demo_exchange_def)
  have "m_time demo_menv (x_times (demo_mtx demo_exchange) + 1) = 7"
    by (simp add: demo_menv_def)
  with handshake_key_public [OF demo_mtx_ready(1) r] r show ?thesis
    by metis
qed

theorem handshake_nonce_is_exponent_witness:
  "\<exists>x'. app_open demo_menv (demo_mtx demo_exchange) = Some x' \<and>
    x_sent x' ! (length (x_sent (demo_mtx demo_exchange)) + 1) =
      rfc_packet (msgid_of demo_menv (x_nows (demo_mtx demo_exchange))) (img_req_pq (take 16 (exponent demo_menv (demo_mtx demo_exchange)))) \<and>
    m_modexp demo_menv (k_ga demo_exchange) (exponent demo_menv (demo_mtx demo_exchange)) (k_p demo_exchange) = Some (mbytes (x_key x'))"
  by (rule handshake_nonce_is_exponent [OF demo_mtx_ready(1)]) (simp add: demo_menv_def)

definition demo_degenerate :: exchange where
  "demo_degenerate = demo_exchange\<lparr>k_ga := replicate 255 0 @ [1]\<rparr>"

theorem handshake_degenerate_witness:
  "\<exists>x'. app_open demo_menv (demo_mtx demo_degenerate) = Some x' \<and> mbytes (x_key x') = [1]"
proof -
  have v: "be_nat (k_ga demo_degenerate) = 1" "k_p demo_degenerate = k_p demo_exchange"
    by (simp_all add: demo_degenerate_def demo_exchange_def be_nat_snoc)
  have "wf_exchange demo_degenerate"
    using demo_exchange_wf(1) by (simp add: wf_exchange_def demo_degenerate_def)
  then have r: "ready demo_menv demo_degenerate [] (demo_mtx demo_degenerate)"
    using demo_menv_ok by (simp add: ready_def demo_mtx_def fresh_tsys_def zero_tsys_def zero_answer_def small_answer_def param0_def zero_mbuf_def)
  have "exponent demo_menv (demo_mtx demo_degenerate) = 8 # map (m_rand demo_menv 7) [1..<256]"
    unfolding exponent_def drawn_def by (subst upt_conv_Cons) (simp_all add: demo_menv_def)
  then have "0 < be_nat (exponent demo_menv (demo_mtx demo_degenerate))"
    using be_nat_append [of "[8]" "map (m_rand demo_menv 7) [1..<256]"] by (simp add: be_nat_def [of "[8]"])
  moreover have "1 < be_nat (k_p demo_degenerate)"
    unfolding v(2) demo_generator(3) by (rule less_demo_p) simp
  ultimately show ?thesis
    using handshake_degenerate [OF r] v(1) by simp
qed

end
