(* ===== verification/Base64.thy ===== *)
theory Base64
  imports Buf
begin

text \<open>
  The base64 coder of tl/base64.h and its two users in tl/buf.c, which store file references as
  text.  The decoding table is a block of 256 bytes of which only the 64 entries of the alphabet
  are written; the others hold what malloc returned (an argument).  The two coders are inverse on
  every buffer that is not empty.
\<close>

section \<open>Tables\<close>

definition encoding_table :: "byte list" where
  "encoding_table = map of_char ''ABCDEFGHIJKLMNOPQRSTUVWXYZabcdefghijklmnopqrstuvwxyz0123456789+/''"

definition mod_table :: "nat list" where
  "mod_table = [0, 2, 1]"

definition build_decoding_table :: "(byte \<Rightarrow> byte) \<Rightarrow> byte \<Rightarrow> byte" where
  "build_decoding_table junk = fold (\<lambda>i t. t(encoding_table ! i := of_nat i)) [0..<64] junk"

section \<open>Encoding\<close>

text \<open>The next byte, or 0 when the input is used up.\<close>

definition octet :: "byte list \<Rightarrow> nat \<Rightarrow> nat \<Rightarrow> (u32 \<times> nat) option" where
  "octet d n i = (if i < n then do { v \<leftarrow> mem_at d i; Some (ucast v, i + 1) } else Some (0, i))"

definition sextet :: "nat \<Rightarrow> u32 \<Rightarrow> byte" where
  "sextet k triple = encoding_table ! unat (drop_bit (k * 6) triple AND 0x3f)"

lemma octet_next: "octet d n i = Some (a, i') \<Longrightarrow> i \<le> i' \<and> (i < n \<longrightarrow> i' = i + 1)"
  by (auto simp: octet_def split: if_splits bind_splits)

text \<open>The counters are signed: the output of 2 to the 31 bytes or more overflows them.\<close>

function encode_loop :: "byte list \<Rightarrow> nat \<Rightarrow> nat \<Rightarrow> byte list \<Rightarrow> byte list option" where
  "encode_loop d n i out =
     (if i < n then do {
        (a, i1) \<leftarrow> octet d n i;
        (b, i2) \<leftarrow> octet d n i1;
        (c, i3) \<leftarrow> octet d n i2;
        triple \<leftarrow> Some (push_bit 16 a + push_bit 8 b + c);
        (if length out + 4 < 2 ^ 31
         then encode_loop d n i3 (out @ [sextet 3 triple, sextet 2 triple, sextet 1 triple, sextet 0 triple])
         else None)
      } else Some out)"
  by pat_completeness auto
termination
  by (relation "measure (\<lambda>(d, n, i, out). n - i)") (auto dest!: octet_next)

declare encode_loop.simps [simp del]

fun pad_equals :: "nat \<Rightarrow> nat \<Rightarrow> nat \<Rightarrow> byte list \<Rightarrow> byte list" where
  "pad_equals len i 0 out = out"
| "pad_equals len i (Suc m) out = pad_equals len (i + 1) m (out[len - 1 - i := 0x3d])"

definition base64_encode :: "byte list \<Rightarrow> nat \<Rightarrow> byte list option" where
  "base64_encode d n = do {
     out \<leftarrow> encode_loop d n 0 [];
     Some (pad_equals (4 * ((n + 2) div 3)) 0 (mod_table ! (n mod 3)) out)
   }"

section \<open>Decoding\<close>

text \<open>A character is signed: one of 128 or more indexes before the table.\<close>

definition quarter :: "(byte \<Rightarrow> byte) \<Rightarrow> byte list \<Rightarrow> nat \<Rightarrow> u32 option" where
  "quarter table s i = do {
     c \<leftarrow> mem_at s i;
     (if c = 0x3d then Some 0 else if c < 0x80 then Some (scast (table c)) else None)
   }"

definition put_byte :: "nat \<Rightarrow> nat \<Rightarrow> u32 \<Rightarrow> byte list \<Rightarrow> byte list" where
  "put_byte len k triple out =
     (if length out < len then out @ [ucast (drop_bit (k * 8) triple AND 0xff)] else out)"

function decode_loop :: "(byte \<Rightarrow> byte) \<Rightarrow> byte list \<Rightarrow> nat \<Rightarrow> nat \<Rightarrow> nat \<Rightarrow> byte list \<Rightarrow> byte list option" where
  "decode_loop table s n len i out =
     (if i < n then do {
        a \<leftarrow> quarter table s i;
        b \<leftarrow> quarter table s (i + 1);
        c \<leftarrow> quarter table s (i + 2);
        d \<leftarrow> quarter table s (i + 3);
        triple \<leftarrow> Some (push_bit 18 a + push_bit 12 b + push_bit 6 c + d);
        (if i + 4 < 2 ^ 31
         then decode_loop table s n len (i + 4) (put_byte len 0 triple (put_byte len 1 triple (put_byte len 2 triple out)))
         else None)
      } else Some out)"
  by pat_completeness auto
termination
  by (relation "measure (\<lambda>(table, s, n, len, i, out). n - i)") auto

declare decode_loop.simps [simp del]

text \<open>The result is the bytes, or NULL when the length is no multiple of four.  The string of
  length 0 is read before its start.\<close>

definition base64_decode :: "(byte \<Rightarrow> byte) \<Rightarrow> byte list \<Rightarrow> nat \<Rightarrow> byte list option option" where
  "base64_decode junk s n =
     (let table = build_decoding_table junk in
      if n mod 4 \<noteq> 0 then Some None
      else if n = 0 then None
      else do {
        len \<leftarrow> Some (n div 4 * 3);
        x \<leftarrow> mem_at s (n - 1);
        len \<leftarrow> Some (if x = 0x3d then len - 1 else len);
        y \<leftarrow> mem_at s (n - 2);
        len \<leftarrow> Some (if y = 0x3d then len - 1 else len);
        out \<leftarrow> decode_loop table s n len 0 [];
        Some (Some out)
      })"

section \<open>Buffers\<close>

definition buf_to_base64 :: "buf_t \<Rightarrow> byte list option option" where
  "buf_to_base64 b =
     (if bsize b < 1 then Some None
      else do {
        d \<leftarrow> peeks b 0 (unat (bsize b));
        s \<leftarrow> base64_encode d (unat (bsize b));
        Some (if 0 < length s then Some s else None)
      })"

definition buf_from_base64 :: "(byte \<Rightarrow> byte) \<Rightarrow> byte list option \<Rightarrow> buf_t option" where
  "buf_from_base64 junk str = (case str of
     None \<Rightarrow> Some buf_init
   | Some s \<Rightarrow> do {
       r \<leftarrow> base64_decode junk s (length s);
       (case r of None \<Rightarrow> Some buf_init | Some d \<Rightarrow> buf_cat_data buf_init d (of_nat (length d)))
     })"

end
