(* ===== verification/Base64Props.thy ===== *)
theory Base64Props
  imports Base64
begin

text \<open>
  base64 against RFC 4648: the coder of tl/base64.h writes the text \<^theory_text>\<open>b64\<close> of its input,
  whose characters are of the alphabet, and decoding gives the input back.
\<close>

section \<open>The text of RFC 4648\<close>

definition triple_of :: "byte \<Rightarrow> byte \<Rightarrow> byte \<Rightarrow> u32" where
  "triple_of a b c = push_bit 16 (ucast a) + push_bit 8 (ucast b) + ucast c"

definition quad :: "byte \<Rightarrow> byte \<Rightarrow> byte \<Rightarrow> byte list" where
  "quad a b c = (let t = triple_of a b c in [sextet 3 t, sextet 2 t, sextet 1 t, sextet 0 t])"

fun b64 :: "byte list \<Rightarrow> byte list" where
  "b64 [] = []"
| "b64 [a] = take 2 (quad a 0 0) @ [0x3d, 0x3d]"
| "b64 [a, b] = take 3 (quad a b 0) @ [0x3d]"
| "b64 (a # b # c # xs) = quad a b c @ b64 xs"

fun quads :: "byte list \<Rightarrow> byte list" where
  "quads [] = []"
| "quads [a] = quad a 0 0"
| "quads [a, b] = quad a b 0"
| "quads (a # b # c # xs) = quad a b c @ quads xs"

lemma length_quad [simp]: "length (quad a b c) = 4"
  by (simp add: quad_def Let_def)

definition text_length :: "nat \<Rightarrow> nat" where
  "text_length n = 4 * ((n + 2) div 3)"

lemma text_length_simps [simp]:
  "text_length 0 = 0" "text_length (Suc 0) = 4" "text_length (Suc (Suc 0)) = 4"
  "text_length (Suc (Suc (Suc n))) = text_length n + 4"
proof -
  have "Suc (Suc (Suc n)) + 2 = (n + 2) + 3"
    by simp
  then have "(Suc (Suc (Suc n)) + 2) div 3 = (n + 2) div 3 + 1"
    by (metis div_add_self2 zero_neq_numeral)
  then show "text_length (Suc (Suc (Suc n))) = text_length n + 4"
    unfolding text_length_def by (simp only: distrib_left)
qed (simp_all add: text_length_def)

lemma length_quads [simp]: "length (quads xs) = text_length (length xs)"
  by (induction xs rule: quads.induct) auto

lemma length_b64 [simp]: "length (b64 xs) = text_length (length xs)"
  by (induction xs rule: b64.induct) auto

section \<open>Encoding\<close>

lemma drop_ConsD: "drop i d = x # xs \<Longrightarrow> i < length d \<and> d ! i = x \<and> drop (Suc i) d = xs"
  by (metis Cons_nth_drop_Suc drop_all list.inject list.distinct(1) not_le)

lemma octet_in: "i < length d \<Longrightarrow> octet d (length d) i = Some (ucast (d ! i), Suc i)"
  by (simp add: octet_def mem_at_def)

lemma octet_end: "octet d (length d) (length d) = Some (0, length d)"
  by (simp add: octet_def)

lemma encode_loop_ok:
  assumes "drop i d = xs" and "i \<le> length d" and "length out + text_length (length xs) < 2 ^ 31"
  shows "encode_loop d (length d) i out = Some (out @ quads xs)"
  using assms
proof (induction xs arbitrary: i out rule: quads.induct)
  case 1
  then show ?case
    by (subst encode_loop.simps) simp
next
  case (2 a)
  from drop_ConsD [OF 2(1)] have "i < length d" "d ! i = a" "Suc i = length d"
    using 2(2) by auto
  with 2(3) show ?case
    by (subst encode_loop.simps)
      (simp add: octet_in octet_end quad_def triple_of_def Let_def encode_loop.simps [of d "length d" "length d"])
next
  case (3 a b)
  from drop_ConsD [OF 3(1)] drop_ConsD [of "Suc i" d b "[]"]
  have "i < length d" "d ! i = a" "Suc i < length d" "d ! Suc i = b" "Suc (Suc i) = length d"
    using 3(2) by auto
  with 3(3) show ?case
    by (subst encode_loop.simps)
      (simp add: octet_in octet_end quad_def triple_of_def Let_def encode_loop.simps [of d "length d" "length d"])
next
  case (4 a b c xs)
  from drop_ConsD [OF 4(2)] drop_ConsD [of "Suc i" d b "c # xs"] drop_ConsD [of "Suc (Suc i)" d c xs]
  have d: "i < length d" "d ! i = a" "Suc i < length d" "d ! Suc i = b" "Suc (Suc i) < length d" "d ! Suc (Suc i) = c"
    "drop (Suc (Suc (Suc i))) d = xs"
    by auto
  then have "encode_loop d (length d) (Suc (Suc (Suc i))) (out @ quad a b c) = Some ((out @ quad a b c) @ quads xs)"
    using 4(4) by (intro 4(1)) auto
  moreover have "length d - i = Suc (Suc (Suc (length xs)))"
    using 4(2) by (metis length_drop length_Cons)
  ultimately show ?case
    using d 4(4) by (subst encode_loop.simps) (simp add: octet_in quad_def triple_of_def Let_def)
qed

lemma pad_equals_append:
  "i + m \<le> length ys \<Longrightarrow> pad_equals (length xs + length ys) i m (xs @ ys) = xs @ pad_equals (length ys) i m ys"
proof (induction m arbitrary: i ys)
  case (Suc m)
  then have "length xs + length ys - 1 - i = length xs + (length ys - 1 - i)"
    by simp
  then have "(xs @ ys)[length xs + length ys - 1 - i := 0x3d] = xs @ ys[length ys - 1 - i := 0x3d]"
    by (simp add: list_update_append)
  with Suc.IH [of "i + 1" "ys[length ys - 1 - i := 0x3d]"] Suc.prems show ?case
    by simp
qed simp

lemma pads: "mod_table ! (Suc (Suc (Suc n)) mod 3) = mod_table ! (n mod 3)"
proof -
  have "Suc (Suc (Suc n)) mod 3 = n mod 3"
    by (metis Suc_eq_plus1 add_Suc_right mod_add_self2 numeral_3_eq_3 add_0_right)
  then show ?thesis
    by simp
qed

lemma pads_le: "mod_table ! (length xs mod 3) \<le> text_length (length (xs :: byte list))"
  by (induction xs rule: b64.induct) (simp_all add: pads mod_table_def)

lemma pad_four: "pad_equals 4 0 1 [w, x, y, z] = [w, x, y, 0x3d]" "pad_equals 4 0 2 [w, x, y, z] = [w, x, 0x3d, 0x3d]"
  by (simp_all add: numeral_2_eq_2 numeral_3_eq_3)

lemma pad_quads: "pad_equals (text_length (length xs)) 0 (mod_table ! (length xs mod 3)) (quads xs) = b64 xs"
proof (induction xs rule: b64.induct)
  case (4 a b c xs)
  then show ?case
    using pad_equals_append [of 0 "mod_table ! (length xs mod 3)" "quads xs" "quad a b c"] pads_le [of xs]
    by (simp add: pads add.commute)
next
  case (2 a)
  then show ?case
    by (simp add: mod_table_def quad_def Let_def pad_four)
next
  case (3 a b)
  have "mod_table ! (length [a, b] mod 3) = 1"
    by (simp add: mod_table_def)
  moreover have "take 3 [w, x, y, z] = [w, x, y]" for w x y z :: byte
    by (simp add: numeral_3_eq_3)
  ultimately show ?case
    by (simp only: quad_def Let_def b64.simps quads.simps list.size text_length_simps add_0 plus_nat.simps pad_four append.simps)
qed (simp add: mod_table_def)

lemma base64_encode_ok: "text_length (length xs) < 2 ^ 31 \<Longrightarrow> base64_encode xs (length xs) = Some (b64 xs)"
  using encode_loop_ok [of 0 xs xs "[]"] pad_quads [of xs] by (simp add: base64_encode_def text_length_def)

section \<open>The alphabet\<close>

lemma table_length [simp]: "length encoding_table = 64"
  by (simp add: encoding_table_def)

lemma table_distinct: "distinct encoding_table"
  by code_simp

lemma table_range: "\<forall>x \<in> set encoding_table. x < 0x80 \<and> x \<noteq> 0x3d"
  by code_simp

lemma fold_upd_nth:
  assumes "distinct xs" and "k < n" and "n \<le> length xs"
  shows "fold (\<lambda>i t. t(xs ! i := f i)) [0..<n] t (xs ! k) = f k"
  using assms
proof (induction n)
  case (Suc n)
  then show ?case
    by (cases "k = n") (simp_all add: nth_eq_iff_index_eq)
qed simp

lemma decoding_table_nth: "k < 64 \<Longrightarrow> build_decoding_table junk (encoding_table ! k) = of_nat k"
  unfolding build_decoding_table_def by (rule fold_upd_nth) (simp_all add: table_distinct)

lemma six_bits: "unat (w AND 0x3f :: u32) < 64"
proof -
  have "w AND 0x3f = take_bit 6 w"
    by (simp add: take_bit_eq_mask mask_eq_exp_minus_1)
  moreover have "unat (take_bit 6 w) < 2 ^ 6"
    unfolding unsigned_take_bit_eq by (rule take_bit_nat_less_exp)
  ultimately show ?thesis
    by simp
qed

lemma sextet_char: "sextet k t \<in> set encoding_table"
  unfolding sextet_def by (rule nth_mem) (simp add: six_bits)

lemma scast_small: "n < 64 \<Longrightarrow> scast (of_nat n :: byte) = (of_nat n :: u32)"
proof -
  assume n: "n < 64"
  then have "sint (of_nat n :: byte) = int n"
    by (simp add: sint_uint signed_take_bit_int_eq_self unsigned_of_nat take_bit_nat_eq_self)
  then show ?thesis
    by (simp add: scast_eq)
qed

lemma quarter_sextet:
  assumes "i < length s" and "s ! i = sextet k t"
  shows "quarter (build_decoding_table junk) s i = Some (drop_bit (k * 6) t AND 0x3f)"
proof -
  define n where "n = unat (drop_bit (k * 6) t AND 0x3f)"
  have n: "n < 64"
    unfolding n_def by (rule six_bits)
  have "of_nat n = drop_bit (k * 6) t AND 0x3f"
    by (simp add: n_def)
  moreover have "s ! i = encoding_table ! n"
    using assms(2) by (simp add: sextet_def n_def)
  ultimately show ?thesis
    using assms(1) n table_range nth_mem [of n encoding_table]
    by (simp add: quarter_def mem_at_def decoding_table_nth scast_small)
qed

lemma quarter_equals: "i < length s \<Longrightarrow> s ! i = 0x3d \<Longrightarrow> quarter table s i = Some 0"
  by (simp add: quarter_def mem_at_def)

section \<open>Bits\<close>

lemma unat_triple: "unat (triple_of a b c) = unat a * 65536 + unat b * 256 + unat c"
proof -
  have l: "unat a < 256" "unat b < 256" "unat c < 256"
    using unsigned_less [where 'a = nat, of a] unsigned_less [where 'a = nat, of b] unsigned_less [where 'a = nat, of c] by simp_all
  then show ?thesis
    by (simp add: triple_of_def unat_word_ariths push_bit_eq_mult unsigned_ucast_eq take_bit_nat_eq_self)
qed

lemma unat_field: "unat (take_bit m (drop_bit k t) :: u32) = unat t div 2 ^ k mod 2 ^ m"
proof -
  have "unat (take_bit m (drop_bit k t)) = take_bit m (unat (drop_bit k t))"
    by (rule unsigned_take_bit_eq)
  also have "unat (drop_bit k t) = drop_bit k (unat t)"
    by (simp add: unsigned_drop_bit_eq take_bit_nat_eq_self)
  finally show ?thesis
    by (simp only: take_bit_eq_mod drop_bit_eq_div)
qed

lemma field_masks:
  "drop_bit k t AND 0x3f = (take_bit 6 (drop_bit k t) :: u32)" "drop_bit k t AND 0xff = (take_bit 8 (drop_bit k t) :: u32)"
  by (simp_all only: take_bit_eq_mask) (simp_all add: mask_eq_exp_minus_1)

lemma unat_sextet: "unat (drop_bit k t AND 0x3f :: u32) = unat t div 2 ^ k mod 64"
  unfolding field_masks unat_field by simp

lemma rejoin_nat: "(t :: nat) < 16777216 \<Longrightarrow> t div 262144 mod 64 * 262144 + t div 4096 mod 64 * 4096 + t div 64 mod 64 * 64 + t mod 64 = t"
proof -
  assume t: "t < 16777216"
  define x y z where "x = t div 64" and "y = x div 64" and "z = y div 64"
  have "t = x * 64 + t mod 64" "x = y * 64 + x mod 64" "y = z * 64 + y mod 64"
    by (simp_all add: x_def y_def z_def)
  moreover have "y = t div 4096" "z = t div 262144" "z < 64"
    using t by (simp_all add: x_def y_def z_def div_mult2_eq [symmetric] less_mult_imp_div_less)
  ultimately show ?thesis
    by (simp only: x_def [symmetric]) simp
qed

lemma rejoin:
  assumes "unat t < 2 ^ 24"
  shows "push_bit 18 (drop_bit 18 t AND 0x3f) + push_bit 12 (drop_bit 12 t AND 0x3f) +
    push_bit 6 (drop_bit 6 t AND 0x3f) + (t AND 0x3f) = (t :: u32)"
proof (rule unsigned_word_eqI [where 'a = nat])
  have "unat (t AND 0x3f) = unat t mod 64"
    using unat_sextet [of 0 t] by simp
  then show "unat (push_bit 18 (drop_bit 18 t AND 0x3f) + push_bit 12 (drop_bit 12 t AND 0x3f) +
    push_bit 6 (drop_bit 6 t AND 0x3f) + (t AND 0x3f)) = unat t"
    using rejoin_nat [of "unat t"] assms by (simp add: push_bit_eq_mult unat_word_ariths unat_sextet)
qed

lemma triple_small: "unat (triple_of a b c) < 2 ^ 24"
proof -
  have "unat a < 256" "unat b < 256" "unat c < 256"
    using unsigned_less [where 'a = nat, of a] unsigned_less [where 'a = nat, of b] unsigned_less [where 'a = nat, of c] by simp_all
  then show ?thesis
    unfolding unat_triple by simp
qed

lemma digits:
  assumes "(b :: nat) < 256" and "c < 256"
  shows "(a * 65536 + b * 256 + c) div 256 mod 256 = b" "(a * 65536 + b * 256 + c) mod 256 = c"
proof -
  have "a * 65536 + b * 256 + c = c + (b + a * 256) * 256"
    by simp
  then show "(a * 65536 + b * 256 + c) div 256 mod 256 = b" "(a * 65536 + b * 256 + c) mod 256 = c"
    using assms by (simp_all only: div_mult_self1 mod_mult_self1) simp_all
qed

lemma triple_bytes:
  "ucast (drop_bit 16 (triple_of a b c) AND 0xff) = a"
  "ucast (drop_bit 8 (triple_of a b c) AND 0xff) = b"
  "ucast (drop_bit 0 (triple_of a b c) AND 0xff) = c"
proof -
  have l: "unat a < 256" "unat b < 256" "unat c < 256"
    using unsigned_less [where 'a = nat, of a] unsigned_less [where 'a = nat, of b] unsigned_less [where 'a = nat, of c] by simp_all
  have m: "unat (drop_bit k t AND 0xff :: u32) = unat t div 2 ^ k mod 256" for k t
    unfolding field_masks unat_field by simp
  show "ucast (drop_bit 16 (triple_of a b c) AND 0xff) = a"
    "ucast (drop_bit 8 (triple_of a b c) AND 0xff) = b"
    "ucast (drop_bit 0 (triple_of a b c) AND 0xff) = c"
    by (simp_all only: word_unat_eq_iff [of "ucast _"] unsigned_ucast_eq m take_bit_eq_mod unat_triple)
      (use l in \<open>simp_all add: digits\<close>)
qed

lemma low_sextets:
  "triple_of a b 0 AND 0x3f = 0" "drop_bit 6 (triple_of a 0 0) AND 0x3f = 0"
proof -
  have "unat (triple_of a b 0 AND 0x3f) = 0"
    using unat_sextet [of 0 "triple_of a b 0"] by (simp add: unat_triple mod_eq_0_iff_dvd)
  then show "triple_of a b 0 AND 0x3f = 0"
    by (simp only: unat_eq_0)
  have "unat (drop_bit 6 (triple_of a 0 0) AND 0x3f) = 0"
    unfolding unat_sextet unat_triple by simp
  then show "drop_bit 6 (triple_of a 0 0) AND 0x3f = 0"
    by (simp only: unat_eq_0)
qed

section \<open>Decoding\<close>

lemma decode_round:
  assumes "i < n" and "i + 4 < 2 ^ 31" and "unat t < 2 ^ 24"
    and "quarter table s i = Some (drop_bit (3 * 6) t AND 0x3f)"
    and "quarter table s (i + 1) = Some (drop_bit (2 * 6) t AND 0x3f)"
    and "quarter table s (i + 2) = Some (drop_bit (1 * 6) t AND 0x3f)"
    and "quarter table s (i + 3) = Some (drop_bit (0 * 6) t AND 0x3f)"
  shows "decode_loop table s n len i out =
    decode_loop table s n len (i + 4) (put_byte len 0 t (put_byte len 1 t (put_byte len 2 t out)))"
  using assms rejoin [OF assms(3)] by (subst decode_loop.simps) (simp add: numeral_eq_Suc [of "num.One"])

lemma put_bytes:
  "length out + 3 \<le> len \<Longrightarrow> put_byte len 0 (triple_of a b c) (put_byte len 1 (triple_of a b c)
     (put_byte len 2 (triple_of a b c) out)) = out @ [a, b, c]"
  "length out + 2 = len \<Longrightarrow> put_byte len 0 (triple_of a b c) (put_byte len 1 (triple_of a b c)
     (put_byte len 2 (triple_of a b c) out)) = out @ [a, b]"
  "length out + 1 = len \<Longrightarrow> put_byte len 0 (triple_of a b c) (put_byte len 1 (triple_of a b c)
     (put_byte len 2 (triple_of a b c) out)) = out @ [a]"
  using triple_bytes [of a b c] by (auto simp: put_byte_def)

lemma decode_end: "decode_loop table s n len n out = Some out"
  by (subst decode_loop.simps) simp

lemma quad_nth:
  "quad a b c ! 0 = sextet 3 (triple_of a b c)" "quad a b c ! 1 = sextet 2 (triple_of a b c)"
  "quad a b c ! 2 = sextet 1 (triple_of a b c)" "quad a b c ! 3 = sextet 0 (triple_of a b c)"
  by (simp_all add: quad_def Let_def numeral_2_eq_2 numeral_3_eq_3)

lemma decode_loop_ok:
  assumes "s = pre @ b64 xs" and "length s < 2 ^ 31" and "len = length out + length xs"
  shows "decode_loop (build_decoding_table junk) s (length s) len (length pre) out = Some (out @ xs)"
  using assms
proof (induction xs arbitrary: pre out rule: b64.induct)
  case 1
  then show ?case
    by (simp add: decode_end)
next
  case (2 a)
  let ?t = "triple_of a 0 0"
  have s: "s = pre @ [sextet 3 ?t, sextet 2 ?t, 0x3d, 0x3d]"
    using 2 by (simp add: quad_def Let_def)
  have "length out + 1 = len"
    using 2 by simp
  have "decode_loop (build_decoding_table junk) s (length s) len (length pre) out =
      decode_loop (build_decoding_table junk) s (length s) len (length pre + 4) (out @ [a])"
    unfolding put_bytes(3) [of out len a 0 0, symmetric, OF \<open>length out + 1 = len\<close>]
    by (rule decode_round)
      (use s 2(2) in \<open>simp_all add: triple_small [simplified] quarter_sextet quarter_equals low_sextets nth_append\<close>)
  moreover have "length pre + 4 = length s"
    using s by simp
  ultimately show ?case
    by (simp only: decode_end)
next
  case (3 a b)
  let ?t = "triple_of a b 0"
  have s: "s = pre @ [sextet 3 ?t, sextet 2 ?t, sextet 1 ?t, 0x3d]"
    using 3 by (simp add: quad_def Let_def numeral_3_eq_3)
  have "length out + 2 = len"
    using 3 by simp
  have "decode_loop (build_decoding_table junk) s (length s) len (length pre) out =
      decode_loop (build_decoding_table junk) s (length s) len (length pre + 4) (out @ [a, b])"
    unfolding put_bytes(2) [of out len a b 0, symmetric, OF \<open>length out + 2 = len\<close>]
    by (rule decode_round)
      (use s 3(2) in \<open>simp_all add: triple_small [simplified] quarter_sextet quarter_equals low_sextets nth_append\<close>)
  moreover have "length pre + 4 = length s"
    using s by simp
  ultimately show ?case
    by (simp only: decode_end)
next
  case (4 a b c xs)
  let ?t = "triple_of a b c"
  have s: "s = pre @ [sextet 3 ?t, sextet 2 ?t, sextet 1 ?t, sextet 0 ?t] @ b64 xs"
    using 4 by (simp add: quad_def Let_def)
  have l: "length out + 3 \<le> len"
    using 4 by simp
  have "decode_loop (build_decoding_table junk) s (length s) len (length pre) out =
      decode_loop (build_decoding_table junk) s (length s) len (length pre + 4) (out @ [a, b, c])"
    unfolding put_bytes(1) [of out len a b c, symmetric, OF l]
    by (rule decode_round) (use s 4(3) in \<open>simp_all add: triple_small [simplified] quarter_sextet nth_append\<close>)
  also have "\<dots> = Some ((out @ [a, b, c]) @ xs)"
    using 4(1) [of "pre @ quad a b c" "out @ [a, b, c]"] 4(2-4) by simp
  finally show ?case
    by simp
qed

lemma sextet_no_equals: "sextet k t \<noteq> 0x3d"
  using table_range sextet_char by blast

lemma text_length_4: "n \<noteq> 0 \<Longrightarrow> 4 \<le> text_length n"
  unfolding text_length_def by (cases n) auto

lemma b64_tail:
  assumes "xs \<noteq> []"
  shows "(b64 xs ! (text_length (length xs) - 1) = 0x3d \<longleftrightarrow> length xs mod 3 \<noteq> 0) \<and>
    (b64 xs ! (text_length (length xs) - 2) = 0x3d \<longleftrightarrow> length xs mod 3 = 1)"
  using assms
proof (induction xs rule: b64.induct)
  case (4 a b c xs)
  have m: "Suc (Suc (Suc (length xs))) mod 3 = length xs mod 3"
    by (metis Suc_eq_plus1 add_Suc_right mod_add_self2 numeral_3_eq_3 add_0_right)
  show ?case
  proof (cases "xs = []")
    case True
    then show ?thesis
      by (simp add: quad_nth sextet_no_equals)
  next
    case False
    then have "4 \<le> text_length (length xs)"
      by (simp add: text_length_4)
    with 4(1) [OF False] m show ?thesis
      by (simp add: nth_append)
  qed
next
  case (2 a)
  have "b64 [a] = [sextet 3 (triple_of a 0 0), sextet 2 (triple_of a 0 0), 0x3d, 0x3d]"
    by (simp add: quad_def Let_def)
  then show ?case
    by (simp only: list.size text_length_simps plus_nat.simps) simp
next
  case (3 a b)
  have "b64 [a, b] = [sextet 3 (triple_of a b 0), sextet 2 (triple_of a b 0), sextet 1 (triple_of a b 0), 0x3d]"
    by (simp add: quad_def Let_def numeral_3_eq_3)
  then show ?case
    by (simp only: list.size text_length_simps plus_nat.simps) (simp add: sextet_no_equals)
qed simp

lemma decoded_length:
  assumes "n \<noteq> 0"
  shows "text_length n div 4 * 3 - (if n mod 3 \<noteq> 0 then 1 else 0) - (if n mod 3 = 1 then 1 else 0) = n"
proof -
  define q r where "q = n div 3" and "r = n mod 3"
  have n: "n = q * 3 + r" and "r = 0 \<or> r = 1 \<or> r = 2"
    unfolding q_def r_def by auto
  moreover have "text_length n div 4 = (n + 2) div 3"
    by (simp add: text_length_def)
  ultimately show ?thesis
    by (elim disjE) (simp_all add: mod_Suc)
qed

lemma base64_decode_ok:
  assumes "xs \<noteq> []" and "text_length (length xs) < 2 ^ 31"
  shows "base64_decode junk (b64 xs) (text_length (length xs)) = Some (Some xs)"
proof -
  let ?n = "text_length (length xs)"
  have n: "?n mod 4 = 0" "4 \<le> ?n"
    using assms(1) by (simp_all add: text_length_4) (simp add: text_length_def)
  then have ends: "mem_at (b64 xs) (?n - 1) = Some (b64 xs ! (?n - 1))" "mem_at (b64 xs) (?n - 2) = Some (b64 xs ! (?n - 2))"
    by (simp_all add: mem_at_def)
  have "decode_loop (build_decoding_table junk) (b64 xs) ?n (length xs) 0 [] = Some xs"
    using decode_loop_ok [of "b64 xs" "[]" xs "length xs" "[]" junk] assms(2) by simp
  with n ends b64_tail [OF assms(1)] decoded_length [of "length xs"] assms(1) show ?thesis
    by (auto simp: base64_decode_def split: if_splits)
qed

lemma buf_to_base64_ok:
  assumes "views b xs" and "xs \<noteq> []" and "text_length (length xs) < 2 ^ 31"
  shows "buf_to_base64 b = Some (Some (b64 xs))"
proof -
  have "unat (bsize b) = length xs" "\<not> bsize b < 1"
    using assms(2) views_length [OF assms(1)] by (auto simp: word_less_nat_alt)
  moreover have "b64 xs \<noteq> []"
    using text_length_4 [of "length xs"] assms(2) length_b64 [of xs] by fastforce
  ultimately show ?thesis
    using base64_encode_ok [OF assms(3)] views_peeks [OF assms(1), of 0 "length xs"]
    by (simp add: buf_to_base64_def)
qed

lemma buf_from_base64_ok:
  assumes "xs \<noteq> []" and "text_length (length xs) < 2 ^ 31" and "length xs + 1 < 2 ^ 32"
  shows "ok (buf_from_base64 junk (Some (b64 xs))) (\<lambda>c. owns c xs)"
proof -
  have "ok (buf_cat_data buf_init xs (of_nat (length xs))) (\<lambda>c. owns c ([] @ take (unat (of_nat (length xs) :: u32)) xs))"
    using assms(3) by (intro buf_cat_data_ok) simp_all
  then show ?thesis
    using assms(3) base64_decode_ok [OF assms(1,2)] by (simp add: buf_from_base64_def)
qed

lemma b64_chars: "set (b64 xs) \<subseteq> set encoding_table \<union> {0x3d}"
  by (induction xs rule: b64.induct) (auto simp: quad_def Let_def sextet_char dest!: in_set_takeD)

section \<open>Properties\<close>

text \<open>C31. A buffer of at least one byte whose text fits a signed length is written as its text of
  RFC 4648, and the text is read back as the same bytes, whatever the unwritten entries of the decoding
  table hold.\<close>

theorem base64_roundtrip:
  assumes "views b xs" and "xs \<noteq> []" and "text_length (length xs) < 2 ^ 31"
  shows "buf_to_base64 b = Some (Some (b64 xs)) \<and> ok (buf_from_base64 junk (Some (b64 xs))) (\<lambda>c. owns c xs)"
  using assms views_small [OF assms(1)] by (intro conjI buf_to_base64_ok buf_from_base64_ok) auto

text \<open>What the encoder returns is text: every character is of the alphabet or the sign of
  padding, and the length is the least multiple of four that holds the bits.\<close>

theorem base64_text:
  assumes "views b xs" and "xs \<noteq> []" and "text_length (length xs) < 2 ^ 31"
  shows "\<exists>s. buf_to_base64 b = Some (Some s) \<and> set s \<subseteq> set encoding_table \<union> {0x3d} \<and>
    length s = 4 * ((length xs + 2) div 3)"
  using buf_to_base64_ok [OF assms] b64_chars [of xs] by (simp add: text_length_def)

text \<open>A text whose length is no multiple of four, and no text, give the empty buffer; the empty
  text is read before its start.\<close>

lemma base64_errors:
  "(length s mod 4 \<noteq> 0 \<longrightarrow> buf_from_base64 junk (Some s) = Some buf_init) \<and>
   buf_from_base64 junk None = Some buf_init \<and> buf_from_base64 junk (Some []) = None"
  by (simp add: buf_from_base64_def base64_decode_def)

section \<open>Instances\<close>

theorem base64_roundtrip_witness:
  "buf_to_base64 (buf_of [0x4d, 0x61]) = Some (Some (b64 [0x4d, 0x61])) \<and>
   ok (buf_from_base64 (\<lambda>_. 7) (Some (b64 [0x4d, 0x61]))) (\<lambda>c. owns c [0x4d, 0x61])"
  by (rule base64_roundtrip) (simp_all add: owns_views buf_of_owns text_length_def)

theorem base64_text_witness:
  "\<exists>s. buf_to_base64 (buf_of [0x4d]) = Some (Some s) \<and> set s \<subseteq> set encoding_table \<union> {0x3d} \<and>
    length s = 4 * ((length [0x4d :: byte] + 2) div 3)"
  by (rule base64_text) (simp_all add: owns_views buf_of_owns)

end
