(* ===== verification/TLParser.thy ===== *)
theory TLParser
  imports Schema
begin

text \<open>
  The parser of schema files (tl_generator/tl_parser.c): lines are split with strtok at = and #,
  identifiers and flag positions are read with sscanf, and each declaration is handed to a
  callback.  strtok keeps its place in a string that the model passes along.  A number that is
  negative or does not fit an int, and the use of a null pointer, are undefined here.
\<close>

section \<open>The C library\<close>

text \<open>strtok: the next token, if there is one, and the place after the character that ends it.\<close>

definition strtok :: "string \<Rightarrow> string \<Rightarrow> string option \<times> string" where
  "strtok ds s = (let t = dropWhile (\<lambda>c. c \<in> set ds) s in
     if t = [] then (None, [])
     else (Some (takeWhile (\<lambda>c. c \<notin> set ds) t), drop 1 (dropWhile (\<lambda>c. c \<notin> set ds) t)))"

lemma strtok_shorter:
  assumes "strtok ds s = (Some t, r)"
  shows "length r < length s"
proof -
  define u where "u = dropWhile (\<lambda>c. c \<in> set ds) s"
  have "u \<noteq> []" and "r = drop 1 (dropWhile (\<lambda>c. c \<notin> set ds) u)"
    using assms by (auto simp: strtok_def Let_def u_def split: if_splits)
  moreover have "length u \<le> length s" "length (dropWhile (\<lambda>c. c \<notin> set ds) u) \<le> length u"
    by (simp_all add: u_def length_dropWhile_le)
  ultimately show ?thesis
    by (cases u) auto
qed

text \<open>The tokens that strtok_foreach goes through (strtok_foreach.h).\<close>

function tokens :: "string \<Rightarrow> string \<Rightarrow> string list" where
  "tokens ds s = (case strtok ds s of (None, r) \<Rightarrow> [] | (Some t, r) \<Rightarrow> t # tokens ds r)"
  by pat_completeness auto
termination
  by (relation "measure (\<lambda>(ds, s). length s)") (auto dest: strtok_shorter [OF sym])

declare tokens.simps [simp del]

definition isspace :: "char \<Rightarrow> bool" where
  "isspace c \<longleftrightarrow> c = CHR '' '' \<or> (9 \<le> (of_char c :: nat) \<and> (of_char c :: nat) \<le> 13)"

definition digit_val :: "char \<Rightarrow> nat" where
  "digit_val c = (let n = of_char c in
     if 48 \<le> n \<and> n \<le> 57 then n - 48
     else if 97 \<le> n \<and> n \<le> 102 then n - 87
     else if 65 \<le> n \<and> n \<le> 70 then n - 55
     else 16)"

definition number :: "int \<Rightarrow> string \<Rightarrow> int" where
  "number base ds = foldl (\<lambda>a c. base * a + int (digit_val c)) 0 ds"

definition sign :: "string \<Rightarrow> bool \<times> string" where
  "sign s = (case s of c # r \<Rightarrow> if c = CHR ''-'' then (True, r) else if c = CHR ''+'' then (False, r) else (False, s)
     | [] \<Rightarrow> (False, s))"

definition hex_prefix :: "string \<Rightarrow> string" where
  "hex_prefix s = (if is_prefix_of ''0x'' s \<or> is_prefix_of ''0X'' s then drop 2 s else s)"

text \<open>sscanf with %x: the value is cut to 32 bits, one that does not fit 64 bits is the greatest.\<close>

definition scan_x :: "string \<Rightarrow> u32 option" where
  "scan_x s = (let (neg, r) = sign (dropWhile isspace s); ds = takeWhile (\<lambda>c. digit_val c < 16) (hex_prefix r) in
     if ds = [] then None
     else (let v = of_int (min (number 16 ds) (2 ^ 64 - 1)) in Some (if neg then - v else v)))"

text \<open>%d: the value and the rest, or nothing when there is no digit; undefined when negative or too
  great.\<close>

definition scan_d :: "string \<Rightarrow> (nat \<times> string) option option" where
  "scan_d s = (let (neg, r) = sign (dropWhile isspace s); ds = takeWhile (\<lambda>c. digit_val c < 10) r in
     if ds = [] then Some None
     else if neg \<or> 2 ^ 31 \<le> number 10 ds then None
     else Some (Some (nat (number 10 ds), drop (length ds) r)))"

definition literal :: "string \<Rightarrow> string \<Rightarrow> string option" where
  "literal p s = (if is_prefix_of p s then Some (drop (length p) s) else None)"

text \<open>fgets with room for \<^theory_text>\<open>n\<close> bytes, and the C string it leaves.\<close>

definition fgets :: "nat \<Rightarrow> string \<Rightarrow> (string \<times> string) option" where
  "fgets n s = (if s = [] then None
     else (let k = min (n - 1) (length (takeWhile (\<lambda>c. c \<noteq> CHR ''\<newline>'') s) + 1) in
       Some (takeWhile (\<lambda>c. c \<noteq> CHR 0x00) (take k s), drop k s)))"

section \<open>Arguments (parse_method_args)\<close>

text \<open>The flag of an optional argument: its flags word, 1 unless it is numbered, and its bit.\<close>

definition scan_flag :: "string \<Rightarrow> (nat \<times> nat) option" where
  "scan_flag flag = do {
     x \<leftarrow> (case literal ''flags.'' flag of None \<Rightarrow> Some None | Some r \<Rightarrow> scan_d r);
     (case x of
        Some (b, r) \<Rightarrow> Some (1, b)
      | None \<Rightarrow> (case literal ''flags'' flag of
          None \<Rightarrow> Some (1, 0)
        | Some r \<Rightarrow> do {
            y \<leftarrow> scan_d r;
            (case y of
               None \<Rightarrow> Some (1, 0)
             | Some (n, r) \<Rightarrow> (case literal ''.'' r of
                 None \<Rightarrow> Some (n, 0)
               | Some r \<Rightarrow> do {
                   z \<leftarrow> scan_d r;
                   (case z of None \<Rightarrow> Some (n, 0) | Some (b, r) \<Rightarrow> Some (n, b))
                 }))
          }))
   }"

text \<open>strtok has cut the type at its first question mark.\<close>

definition arg_of :: "string \<Rightarrow> string option \<Rightarrow> arg_t option" where
  "arg_of name ftype = (case ftype of
     None \<Rightarrow> Some \<lparr>arg_name = name, arg_type = None, flagn = 0, flagb = 0\<rparr>
   | Some f \<Rightarrow> (case strtok ''?'' f of
       (None, r) \<Rightarrow> Some \<lparr>arg_name = name, arg_type = Some f, flagn = 0, flagb = 0\<rparr>
     | (Some flag, r) \<Rightarrow> (case strtok ''?'' r of
         (None, r) \<Rightarrow> Some \<lparr>arg_name = name, arg_type = Some (takeWhile (\<lambda>c. c = CHR ''?'') f @ flag), flagn = 0, flagb = 0\<rparr>
       | (Some ty, r) \<Rightarrow> do {
           (n, b) \<leftarrow> scan_flag flag;
           Some \<lparr>arg_name = name, arg_type = Some ty, flagn = n, flagb = b\<rparr>
         })))"

definition parse_method_args :: "method_t \<Rightarrow> string \<Rightarrow> method_t option" where
  "parse_method_args m buf =
     (if 64 \<le> length (m_args m) then None
      else (case strtok '':'' buf of
        (None, r) \<Rightarrow> None
      | (Some name, r) \<Rightarrow> do {
          a \<leftarrow> arg_of name (fst (strtok '':'' r));
          Some (m\<lparr>m_args := m_args m @ [a],
            m_nflags := (if strstr name ''flags'' \<noteq> None \<and> length name < 7 then m_nflags m + 1 else m_nflags m)\<rparr>)
        }))"

section \<open>Declarations (parse_method)\<close>

fun parse_method_id_and_args :: "method_t \<Rightarrow> nat \<Rightarrow> string list \<Rightarrow> method_t option" where
  "parse_method_id_and_args m idx [] = Some m"
| "parse_method_id_and_args m idx (arg # as) =
     (if idx = 1
      then parse_method_id_and_args (case scan_x arg of None \<Rightarrow> m | Some v \<Rightarrow> m\<lparr>m_id := v\<rparr>) (idx + 1) as
      else if arg = ''{X:Type}'' then parse_method_id_and_args m idx as
      else do { m \<leftarrow> parse_method_args m arg; parse_method_id_and_args m idx as })"

text \<open>The pieces between the # signs: the name, then the identifier and arguments.  The declaration
  of a vector ends the function.\<close>

fun parse_pieces :: "method_t \<Rightarrow> nat \<Rightarrow> string list \<Rightarrow> method_t option" where
  "parse_pieces m idx [] = Some m"
| "parse_pieces m idx (str # ss) =
     (if idx = 0
      then if str ! 0 = CHR ''/''
           then if length str < 2 then None else parse_pieces (m\<lparr>m_name := drop 2 str\<rparr>) (idx + 1) ss
           else parse_pieces (m\<lparr>m_name := str\<rparr>) (idx + 1) ss
      else if strstr str ''{t:Type}'' \<noteq> None
      then (case strtok '' '' str of
          (None, r) \<Rightarrow> None
        | (Some arg, r) \<Rightarrow>
            Some ((case scan_x arg of None \<Rightarrow> m | Some v \<Rightarrow> m\<lparr>m_id := v\<rparr>)\<lparr>m_ret := fst (strtok ''{t:}'' r)\<rparr>))
      else do { m \<leftarrow> parse_method_id_and_args m idx (tokens '' '' str); parse_pieces m (idx + 1) ss })"

definition parse_method :: "method_t \<Rightarrow> string \<Rightarrow> method_t option" where
  "parse_method m buf = parse_pieces m 0 (tokens ''#'' buf)"

definition parse_method_return :: "method_t \<Rightarrow> string \<Rightarrow> method_t" where
  "parse_method_return m buf = (case strtok '' ;'' buf of (None, r) \<Rightarrow> m | (Some ret, r) \<Rightarrow> m\<lparr>m_ret := Some ret\<rparr>)"

section \<open>The file (parse_schema, tl_parse)\<close>

datatype line = LSkip | LDecl method_t | LStop

definition no_method :: method_t where
  "no_method = \<lparr>m_name = [], m_id = 0, m_ret = None, m_args = [], m_nflags = 0\<rparr>"

text \<open>One line: nothing, a declaration, or the end of the parse.  A line with no name before its =
  leaves the name a null pointer.\<close>

definition parse_line :: "string \<Rightarrow> line option" where
  "parse_line buf =
     (if buf = [] \<or> buf ! 0 = CHR '' '' \<or> buf ! 0 = CHR ''\<newline>'' then Some LSkip
      else (case strtok ''='' buf of
        (None, r) \<Rightarrow> Some LStop
      | (Some method, r) \<Rightarrow> (case strtok ''='' r of
          (None, r) \<Rightarrow> Some LSkip
        | (Some ret, r) \<Rightarrow>
            if tokens ''#'' method = [] then None
            else do {
              m \<leftarrow> parse_method (parse_method_return no_method ret) method;
              Some (if CHR ''?'' \<in> set (m_name m) then LSkip
                else if m_id m = 0 then LSkip
                else LDecl m)
            })))"

text \<open>The callback takes the caller's state and says whether to stop; the result is the line number
  of a line without a token, or 0.\<close>

function parse_schema :: "('s \<Rightarrow> method_t \<Rightarrow> bool \<times> 's) \<Rightarrow> nat \<Rightarrow> string \<Rightarrow> 's \<Rightarrow> (nat \<times> 's) option" where
  "parse_schema cb i file u = (case fgets (8192 * 2) file of
     None \<Rightarrow> Some (0, u)
   | Some (buf, file) \<Rightarrow> do {
       l \<leftarrow> parse_line buf;
       (case l of
          LSkip \<Rightarrow> parse_schema cb (i + 1) file u
        | LStop \<Rightarrow> Some (i, u)
        | LDecl m \<Rightarrow> (case cb u m of
            (True, u) \<Rightarrow> Some (0, u)
          | (False, u) \<Rightarrow> parse_schema cb (i + 1) file u))
     })"
  by pat_completeness auto
termination
  by (relation "measure (\<lambda>(cb, i, file, u). length file)") (auto simp: fgets_def Let_def split: if_splits)

declare parse_schema.simps [simp del]

text \<open>tl_parse: a file that cannot be opened is reported through the callback.\<close>

definition tl_parse :: "('s \<Rightarrow> method_t \<Rightarrow> bool \<times> 's) \<Rightarrow> ('s \<Rightarrow> 's) \<Rightarrow> string option \<Rightarrow> 's \<Rightarrow> (nat \<times> 's) option" where
  "tl_parse cb failed file u = (case file of None \<Rightarrow> Some (1, failed u) | Some s \<Rightarrow> parse_schema cb 1 s u)"

end
