(* ===== verification/TLParserProps.thy ===== *)
theory TLParserProps
  imports TLParser
begin

text \<open>
  The schema parser reads back every declaration that is written in the TL format:
  \<^theory_text>\<open>schema_line\<close> is the line of a declaration, and parsing a file of such lines
  gives the declarations in their order.
\<close>

section \<open>Tokens\<close>

lemma tokens_Nil [simp]: "tokens ds [] = []"
  by (subst tokens.simps) (simp add: strtok_def)

lemma tokens_skip [simp]: "c \<in> set ds \<Longrightarrow> tokens ds (c # s) = tokens ds s"
  by (subst (1 2) tokens.simps) (simp add: strtok_def)

lemma strtok_all: "x \<noteq> [] \<Longrightarrow> set x \<inter> set ds = {} \<Longrightarrow> strtok ds x = (Some x, [])"
proof -
  assume x: "x \<noteq> []" "set x \<inter> set ds = {}"
  then have n: "\<forall>c \<in> set x. c \<notin> set ds"
    by auto
  then have "dropWhile (\<lambda>c. c \<in> set ds) x = x"
    using x(1) by (cases x) auto
  moreover have "takeWhile (\<lambda>c. c \<notin> set ds) x = x" "dropWhile (\<lambda>c. c \<notin> set ds) x = []"
    using n by (simp_all add: takeWhile_eq_all_conv dropWhile_eq_Nil_conv)
  ultimately show ?thesis
    using x(1) by (simp add: strtok_def Let_def del: dropWhile_eq_Nil_conv)
qed

lemma strtok_upto: "x \<noteq> [] \<Longrightarrow> set x \<inter> set ds = {} \<Longrightarrow> d \<in> set ds \<Longrightarrow> strtok ds (x @ d # y) = (Some x, y)"
proof -
  assume x: "x \<noteq> []" "set x \<inter> set ds = {}" "d \<in> set ds"
  then have "dropWhile (\<lambda>c. c \<in> set ds) (x @ d # y) = x @ d # y"
    by (cases x) auto
  moreover have "takeWhile (\<lambda>c. c \<notin> set ds) (x @ d # y) = x" "dropWhile (\<lambda>c. c \<notin> set ds) (x @ d # y) = d # y"
    using x by (auto simp: takeWhile_append2 dropWhile_append2 disjoint_iff)
  ultimately show ?thesis
    using x by (simp add: strtok_def Let_def)
qed

lemma tokens_all: "x \<noteq> [] \<Longrightarrow> set x \<inter> set ds = {} \<Longrightarrow> tokens ds x = [x]"
  by (subst tokens.simps) (simp add: strtok_all)

lemma tokens_upto: "x \<noteq> [] \<Longrightarrow> set x \<inter> set ds = {} \<Longrightarrow> d \<in> set ds \<Longrightarrow> tokens ds (x @ d # y) = x # tokens ds y"
  by (subst tokens.simps) (simp add: strtok_upto)

lemma strtok_char:
  "x \<noteq> [] \<Longrightarrow> d \<notin> set x \<Longrightarrow> strtok [d] (x @ d # y) = (Some x, y)"
  "x \<noteq> [] \<Longrightarrow> d \<notin> set x \<Longrightarrow> strtok [d] x = (Some x, [])"
  "strtok ds [] = (None, [])"
  by (simp_all add: strtok_upto strtok_all) (simp add: strtok_def)

text \<open>A separator splits the tokens.\<close>

lemma tokens_sep:
  assumes "d \<in> set ds"
  shows "tokens ds (xs @ d # ys) = tokens ds xs @ tokens ds ys"
proof (induction xs rule: length_induct)
  case (1 xs)
  show ?case
  proof (cases xs)
    case Nil
    with assms show ?thesis by simp
  next
    case (Cons c cs)
    show ?thesis
    proof (cases "c \<in> set ds")
      case True
      with 1 Cons show ?thesis by simp
    next
      case False
      define w r where "w = takeWhile (\<lambda>c. c \<notin> set ds) xs" and "r = dropWhile (\<lambda>c. c \<notin> set ds) xs"
      have w: "xs = w @ r" "w \<noteq> []" "set w \<inter> set ds = {}"
        using Cons False by (auto simp: w_def r_def dest: set_takeWhileD)
      show ?thesis
      proof (cases r)
        case Nil
        with w assms show ?thesis
          by (simp add: tokens_upto tokens_all)
      next
        case (Cons e q)
        then have "e \<in> set ds"
          using hd_dropWhile [of "\<lambda>c. c \<notin> set ds" xs] by (simp add: r_def)
        moreover have "tokens ds (q @ d # ys) = tokens ds q @ tokens ds ys"
          using 1 w Cons by simp
        ultimately show ?thesis
          using w Cons by (simp add: tokens_upto)
      qed
    qed
  qed
qed

section \<open>Numbers\<close>

definition digit_char :: "nat \<Rightarrow> char" where
  "digit_char n = ''0123456789abcdef'' ! n"

fun digits :: "nat \<Rightarrow> nat \<Rightarrow> string" where
  "digits base n = (if n < base \<or> base < 2 then [digit_char n] else digits base (n div base) @ [digit_char (n mod base)])"

declare digits.simps [simp del]

lemma digit_val_char [simp]: "n < 16 \<Longrightarrow> digit_val (digit_char n) = n"
proof -
  have "\<forall>n \<in> set [0..<16]. digit_val (digit_char n) = n"
    by code_simp
  then show "n < 16 \<Longrightarrow> ?thesis"
    by simp
qed

lemma number_snoc: "number base (ds @ [c]) = base * number base ds + int (digit_val c)"
  by (simp add: number_def)

lemma digits_ok:
  assumes "2 \<le> base" and "base \<le> 16"
  shows "number (int base) (digits base n) = int n \<and> digits base n \<noteq> [] \<and> (\<forall>c \<in> set (digits base n). \<exists>k < base. c = digit_char k)"
  using assms
proof (induction base n rule: digits.induct)
  case (1 base n)
  show ?case
  proof (cases "n < base")
    case True
    with 1 show ?thesis
      by (subst (1 2 3) digits.simps) (auto simp: number_def)
  next
    case False
    then have "digits base n = digits base (n div base) @ [digit_char (n mod base)]"
      using 1(2) by (subst digits.simps) simp
    moreover have "int base * int (n div base) + int (n mod base) = int n"
      by (simp flip: of_nat_mult of_nat_add)
    moreover have m: "n mod base < base"
      using 1(2) by simp
    moreover have "\<exists>k < base. digit_char (n mod base) = digit_char k"
      using m by blast
    moreover have "n mod base < 16"
      using m 1(3) by (rule less_le_trans)
    ultimately show ?thesis
      using 1 False by (auto simp: number_snoc)
  qed
qed

definition marks :: "char set" where
  "marks = insert (CHR 0x00) (set ''-+xX .#=:;?{}/\<newline>'')"

definition seps :: "char set" where
  "seps = set '' #=:;?{}/\<newline>''"

lemma digit_chars: "k < 16 \<Longrightarrow> \<not> isspace (digit_char k) \<and> digit_char k \<notin> marks"
proof -
  have "\<forall>k \<in> set [0..<16]. \<not> isspace (digit_char k) \<and> digit_char k \<notin> marks"
    unfolding marks_def by code_simp
  then show "k < 16 \<Longrightarrow> ?thesis"
    by simp
qed

text \<open>A written number is a token of digits that no reader takes for a sign or a prefix.\<close>

lemma digits_clean:
  assumes "2 \<le> base" and "base \<le> 16"
  shows "set (digits base n) \<inter> marks = {}" "\<forall>c \<in> set (digits base n). digit_val c < base"
    "dropWhile isspace (digits base n @ r) = digits base n @ r" "sign (digits base n @ r) = (False, digits base n @ r)"
    "hex_prefix (digits base n) = digits base n"
proof -
  have c: "\<exists>k < base. c = digit_char k" if "c \<in> set (digits base n)" for c
    using digits_ok [OF assms] that by blast
  have "c \<notin> marks" if "c \<in> set (digits base n)" for c
    using c [OF that] digit_chars assms(2) less_le_trans by blast
  then show s: "set (digits base n) \<inter> marks = {}"
    by (simp only: disjoint_iff) blast
  show "\<forall>c \<in> set (digits base n). digit_val c < base"
    using c assms(2) by (metis digit_val_char less_le_trans)
  obtain d ds where d: "digits base n = d # ds"
    using digits_ok [OF assms, of n] by (cases "digits base n") auto
  then obtain k where "k < 16" "d = digit_char k"
    using c [of d] assms(2) less_le_trans by (metis list.set_intros(1))
  with digit_chars [of k] have k: "\<not> isspace d" "d \<noteq> CHR ''-''" "d \<noteq> CHR ''+''"
    by (simp_all add: marks_def)
  with d show "dropWhile isspace (digits base n @ r) = digits base n @ r" "sign (digits base n @ r) = (False, digits base n @ r)"
    by (simp_all add: sign_def)
  show "hex_prefix (digits base n) = digits base n"
  proof (cases ds)
    case (Cons e es)
    then have "e \<notin> marks"
      using s d by (metis disjoint_iff list.set_intros)
    with d Cons show ?thesis
      by (auto simp: hex_prefix_def marks_def)
  qed (simp add: d hex_prefix_def)
qed

lemma scan_x_digits: "scan_x (digits 16 (unat i)) = Some i"
proof -
  have "int (unat i) < 4294967296"
    using unat_lt_u32 [of i] by linarith
  then have "int (unat i) < 2 ^ 64 - 1"
    by simp
  then have "min (int (unat i)) (2 ^ 64 - 1) = int (unat i)"
    by (simp only: min_absorb1 less_imp_le)
  then show ?thesis
    using digits_ok [of 16 "unat i"] digits_clean(2) [of 16 "unat i"] digits_clean(3-4) [of 16 "unat i" "[]"]
      digits_clean(5) [of 16 "unat i"]
    by (simp add: scan_x_def takeWhile_eq_all_conv [THEN iffD2])
qed

lemma scan_d_digits:
  assumes "n < 2 ^ 31" and "r = [] \<or> \<not> digit_val (hd r) < 10"
  shows "scan_d (digits 10 n @ r) = Some (Some (n, r))"
proof -
  have "takeWhile (\<lambda>c. digit_val c < 10) (digits 10 n @ r) = digits 10 n"
    using digits_clean(2) [of 10 n] assms(2) by (cases r) (auto simp: takeWhile_append2)
  then show ?thesis
    using digits_ok [of 10 n] digits_clean(3-4) [of 10 n r] assms(1) by (simp add: scan_d_def)
qed

section \<open>The written form\<close>

definition show_arg :: "arg_t \<Rightarrow> string" where
  "show_arg a = (case arg_type a of
     None \<Rightarrow> arg_name a @ '':#''
   | Some ty \<Rightarrow> arg_name a @ '':'' @
       (if flagn a = 0 then ty
        else if flagn a = 1 then ''flags.'' @ digits 10 (flagb a) @ ''?'' @ ty
        else ''flags'' @ digits 10 (flagn a) @ ''.'' @ digits 10 (flagb a) @ ''?'' @ ty))"

fun show_args :: "arg_t list \<Rightarrow> string" where
  "show_args [] = '' ''"
| "show_args (a # as) = '' '' @ show_arg a @ show_args as"

definition schema_line :: "method_t \<Rightarrow> string" where
  "schema_line m = m_name m @ ''#'' @ digits 16 (unat (m_id m)) @ show_args (m_args m) @ ''= '' @ the (m_ret m) @ '';\<newline>''"

text \<open>A word of the format, and the declarations that can be written: the flags words are counted,
  an optional argument has a bit, and a line fits the parser's buffer.\<close>

definition plain :: "string \<Rightarrow> bool" where
  "plain s \<longleftrightarrow> s \<noteq> [] \<and> set s \<inter> seps = {} \<and> CHR 0x00 \<notin> set s"

definition plain_arg :: "arg_t \<Rightarrow> bool" where
  "plain_arg a \<longleftrightarrow> plain (arg_name a) \<and> flagn a < 2 ^ 31 \<and> flagb a < 2 ^ 31 \<and> (flagn a = 0 \<longrightarrow> flagb a = 0) \<and>
     (case arg_type a of None \<Rightarrow> flagn a = 0 | Some ty \<Rightarrow> plain ty)"

definition count_flags :: "arg_t list \<Rightarrow> nat" where
  "count_flags as = length (filter (\<lambda>a. strstr (arg_name a) ''flags'' \<noteq> None \<and> length (arg_name a) < 7) as)"

definition plain_method :: "method_t \<Rightarrow> bool" where
  "plain_method m \<longleftrightarrow> plain (m_name m) \<and> m_id m \<noteq> 0 \<and> (case m_ret m of None \<Rightarrow> False | Some r \<Rightarrow> plain r) \<and>
     (\<forall>a \<in> set (m_args m). plain_arg a) \<and> length (m_args m) \<le> 64 \<and> m_nflags m = count_flags (m_args m) \<and>
     length (schema_line m) < 16384"

section \<open>Reading an argument\<close>

lemma plainD: "plain s \<Longrightarrow> c \<in> seps \<Longrightarrow> c \<notin> set s"
  by (auto simp: plain_def disjoint_iff)

lemma plain_disjoint: "plain s \<Longrightarrow> set ds \<subseteq> seps \<Longrightarrow> set s \<inter> set ds = {}"
  using plainD by blast

lemma digits_disjoint: "set ds \<subseteq> marks \<Longrightarrow> set (digits 10 n) \<inter> set ds = {}"
  using digits_clean(1) [of 10 n] by auto

lemma scan_flag_1:
  assumes "b < 2 ^ 31"
  shows "scan_flag (''flags.'' @ digits 10 b) = Some (1, b)"
  using scan_d_digits [OF assms, of "[]"] by (simp add: scan_flag_def literal_def)

lemma scan_flag_n:
  assumes "n < 2 ^ 31" and "b < 2 ^ 31"
  shows "scan_flag (''flags'' @ digits 10 n @ ''.'' @ digits 10 b) = Some (n, b)"
proof -
  obtain d ds where d: "digits 10 n = d # ds" and "d \<noteq> CHR ''.''"
    using digits_ok [of 10 n] digits_disjoint [of "''.''" n] by (cases "digits 10 n") (auto simp: marks_def)
  then have "literal ''flags.'' (''flags'' @ digits 10 n @ ''.'' @ digits 10 b) = None"
    by (simp add: literal_def)
  moreover have "scan_d (digits 10 n @ ''.'' @ digits 10 b) = Some (Some (n, ''.'' @ digits 10 b))"
    by (rule scan_d_digits [OF assms(1)]) (simp add: digit_val_def)
  ultimately show ?thesis
    using scan_d_digits [OF assms(2), of "[]"] by (simp add: scan_flag_def literal_def)
qed

lemma plain_chars:
  assumes "plain s"
  shows "s \<noteq> []" "CHR ''?'' \<notin> set s" "CHR '':'' \<notin> set s" "CHR '' '' \<notin> set s" "CHR ''#'' \<notin> set s"
    "CHR ''='' \<notin> set s" "CHR '';'' \<notin> set s" "CHR ''{'' \<notin> set s" "CHR ''/'' \<notin> set s" "CHR ''\<newline>'' \<notin> set s"
    "CHR 0x00 \<notin> set s"
proof -
  show "s \<noteq> []" "CHR 0x00 \<notin> set s"
    using assms by (simp_all add: plain_def)
  show "CHR ''?'' \<notin> set s" "CHR '':'' \<notin> set s" "CHR '' '' \<notin> set s" "CHR ''#'' \<notin> set s"
    "CHR ''='' \<notin> set s" "CHR '';'' \<notin> set s" "CHR ''{'' \<notin> set s" "CHR ''/'' \<notin> set s" "CHR ''\<newline>'' \<notin> set s"
    by (rule plainD [OF assms], simp add: seps_def)+
qed

lemma digits_chars:
  "digits 10 n \<noteq> []" "CHR ''?'' \<notin> set (digits 10 n)" "CHR '':'' \<notin> set (digits 10 n)" "CHR '' '' \<notin> set (digits 10 n)"
  "CHR ''#'' \<notin> set (digits 10 n)" "CHR ''='' \<notin> set (digits 10 n)" "CHR ''{'' \<notin> set (digits 10 n)"
proof -
  have "c \<notin> set (digits 10 n)" if "c \<in> marks" for c
    using digits_clean(1) [of 10 n] that by auto
  then show "CHR ''?'' \<notin> set (digits 10 n)" "CHR '':'' \<notin> set (digits 10 n)" "CHR '' '' \<notin> set (digits 10 n)"
    "CHR ''#'' \<notin> set (digits 10 n)" "CHR ''='' \<notin> set (digits 10 n)" "CHR ''{'' \<notin> set (digits 10 n)"
    by (simp_all add: marks_def)
qed (use digits_ok [of 10 n] in simp)

lemma arg_of_typed:
  assumes "plain_arg a" and "arg_type a = Some ty"
  shows "arg_of (arg_name a) (Some (if flagn a = 0 then ty
     else if flagn a = 1 then ''flags.'' @ digits 10 (flagb a) @ ''?'' @ ty
     else ''flags'' @ digits 10 (flagn a) @ ''.'' @ digits 10 (flagb a) @ ''?'' @ ty)) = Some a"
proof -
  have ty: "plain ty" and b: "flagn a < 2 ^ 31" "flagb a < 2 ^ 31" "flagn a = 0 \<longrightarrow> flagb a = 0"
    using assms by (simp_all add: plain_arg_def)
  have "takeWhile (\<lambda>c. c = CHR ''?'') ty = []"
    using plain_chars(2) [OF ty] by (cases ty) auto
  then have 0: "arg_of n (Some ty) = Some \<lparr>arg_name = n, arg_type = Some ty, flagn = 0, flagb = 0\<rparr>" for n
    using plain_chars(1,2) [OF ty] by (simp add: arg_of_def strtok_char)
  have "arg_of n (Some (x @ ''?'' @ ty)) = Some \<lparr>arg_name = n, arg_type = Some ty, flagn = k, flagb = l\<rparr>"
    if "x \<noteq> []" "CHR ''?'' \<notin> set x" "scan_flag x = Some (k, l)" for n x k l
    using plain_chars(1,2) [OF ty] that strtok_char(1) [OF that(1,2)] by (simp add: arg_of_def strtok_char(2,3))
  from this [of "''flags.'' @ digits 10 (flagb a)" 1 "flagb a"]
    this [of "''flags'' @ digits 10 (flagn a) @ ''.'' @ digits 10 (flagb a)" "flagn a" "flagb a"]
    0 b scan_flag_1 scan_flag_n digits_chars(2) assms(2)
  show ?thesis
    by (cases a) simp
qed

definition add_arg :: "method_t \<Rightarrow> arg_t \<Rightarrow> method_t" where
  "add_arg m a = m\<lparr>m_args := m_args m @ [a], m_nflags := m_nflags m + count_flags [a]\<rparr>"

lemma parse_method_args_ok:
  assumes a: "plain_arg a" and "length (m_args m) < 64"
  shows "arg_type a = None \<Longrightarrow> parse_method_args m (arg_name a @ '':'') = Some (add_arg m a)"
    "arg_type a \<noteq> None \<Longrightarrow> parse_method_args m (show_arg a) = Some (add_arg m a)"
proof -
  have "plain (arg_name a)"
    using a by (simp add: plain_arg_def)
  note st = strtok_char(1) [OF plain_chars(1,3) [OF this]]
  show "parse_method_args m (arg_name a @ '':'') = Some (add_arg m a)" if "arg_type a = None"
  proof -
    have "flagn a = 0" "flagb a = 0"
      using a that by (simp_all add: plain_arg_def)
    with that assms(2) st [of "[]"] show ?thesis
      by (cases a) (simp add: parse_method_args_def strtok_char(3) arg_of_def add_arg_def count_flags_def)
  qed
  show "parse_method_args m (show_arg a) = Some (add_arg m a)" if "arg_type a \<noteq> None"
  proof -
    from that obtain ty where ty: "arg_type a = Some ty"
      by auto
    define f where "f = (if flagn a = 0 then ty
       else if flagn a = 1 then ''flags.'' @ digits 10 (flagb a) @ ''?'' @ ty
       else ''flags'' @ digits 10 (flagn a) @ ''.'' @ digits 10 (flagb a) @ ''?'' @ ty)"
    have p: "plain ty"
      using a ty by (simp add: plain_arg_def)
    then have "f \<noteq> []" "CHR '':'' \<notin> set f"
      using plain_chars(1,3) [OF p] digits_chars(3) by (simp_all add: f_def)
    then have "strtok '':'' f = (Some f, [])"
      by (rule strtok_char)
    moreover have "show_arg a = arg_name a @ '':'' @ f"
      using ty by (simp add: show_arg_def f_def)
    ultimately show ?thesis
      using st [of f] assms(2) arg_of_typed [OF a ty]
      by (simp add: parse_method_args_def f_def [symmetric] add_arg_def count_flags_def)
  qed
qed

section \<open>Reading a declaration\<close>

lemma strstr_none: "CHR ''{'' \<notin> set s \<Longrightarrow> strstr s ''{t:Type}'' = None"
  by (induction s) auto

lemma parse_later: "idx \<noteq> 1 \<Longrightarrow> parse_method_id_and_args m idx ts = parse_method_id_and_args m 2 ts"
  by (induction ts arbitrary: m) simp_all

lemma parse_append:
  "parse_method_id_and_args m idx ts = Some m' \<Longrightarrow> idx \<noteq> 1 \<or> ts \<noteq> [] \<Longrightarrow>
     parse_method_id_and_args m idx (ts @ us) = parse_method_id_and_args m' 2 us"
proof (induction ts arbitrary: m idx)
  case Nil
  then show ?case
    using parse_later [of idx m us] by simp
next
  case (Cons t ts)
  show ?case
  proof (cases "idx = 1")
    case True
    with Cons.prems Cons.IH [of _ "idx + 1"] show ?thesis
      by simp
  next
    case False
    with Cons show ?thesis
      by (auto split: if_splits simp: bind_eq_Some_conv)
  qed
qed

lemma show_arg_chars:
  assumes "plain_arg a" and "arg_type a \<noteq> None"
  shows "show_arg a \<noteq> []" "CHR ''#'' \<notin> set (show_arg a)" "CHR '' '' \<notin> set (show_arg a)" "CHR ''{'' \<notin> set (show_arg a)"
proof -
  obtain ty where ty: "arg_type a = Some ty"
    using assms(2) by auto
  have p: "plain (arg_name a)" "plain ty"
    using assms(1) ty by (simp_all add: plain_arg_def)
  show "show_arg a \<noteq> []" "CHR ''#'' \<notin> set (show_arg a)" "CHR '' '' \<notin> set (show_arg a)" "CHR ''{'' \<notin> set (show_arg a)"
    using plain_chars [OF p(1)] plain_chars [OF p(2)] digits_chars
    by (simp_all add: show_arg_def ty)
qed

lemma parse_one:
  assumes "plain_arg a" and "length (m_args m) < 64"
  shows "arg_type a = None \<Longrightarrow> parse_method_id_and_args m 2 [arg_name a @ '':''] = Some (add_arg m a)"
    "arg_type a \<noteq> None \<Longrightarrow> parse_method_id_and_args m 2 [show_arg a] = Some (add_arg m a)"
proof -
  have "CHR ''{'' \<notin> set (arg_name a)"
    using assms(1) plain_chars(8) by (simp add: plain_arg_def)
  then have "arg_name a @ '':'' \<noteq> ''{X:Type}''"
    by (cases "arg_name a") auto
  then show "arg_type a = None \<Longrightarrow> parse_method_id_and_args m 2 [arg_name a @ '':''] = Some (add_arg m a)"
    using parse_method_args_ok(1) [OF assms] by simp
  have "arg_type a \<noteq> None \<Longrightarrow> show_arg a \<noteq> ''{X:Type}''"
    using show_arg_chars(4) [OF assms(1)] by auto
  then show "arg_type a \<noteq> None \<Longrightarrow> parse_method_id_and_args m 2 [show_arg a] = Some (add_arg m a)"
    using parse_method_args_ok(2) [OF assms] by simp
qed

lemma parse_pieces_ok:
  assumes "\<forall>a \<in> set as. plain_arg a" and "length (m_args m') + length as \<le> 64" and "idx \<noteq> 0"
    and "CHR ''#'' \<notin> set pre" and "CHR ''{'' \<notin> set pre" and "idx \<noteq> 1 \<or> tokens '' '' pre \<noteq> []"
    and "parse_method_id_and_args m idx (tokens '' '' pre) = Some m'"
  shows "parse_pieces m idx (tokens ''#'' (pre @ show_args as)) = Some (foldl add_arg m' as)"
  using assms
proof (induction as arbitrary: pre m m' idx)
  case Nil
  have "tokens ''#'' (pre @ '' '') = [pre @ '' '']"
    using Nil by (intro tokens_all) auto
  moreover have "strstr (pre @ '' '') ''{t:Type}'' = None"
    using Nil by (intro strstr_none) simp
  ultimately show ?case
    using Nil tokens_sep [of "CHR '' ''" "'' ''" pre "[]"] by simp
next
  case (Cons a as)
  have a: "plain_arg a" and le: "length (m_args m') < 64"
    using Cons.prems by simp_all
  show ?case
  proof (cases "arg_type a")
    case None
    have n: "plain (arg_name a)"
      using a by (simp add: plain_arg_def)
    define piece where "piece = pre @ '' '' @ arg_name a @ '':''"
    have "tokens ''#'' (pre @ show_args (a # as)) = piece # tokens ''#'' (show_args as)"
      using tokens_upto [of piece "''#''" "CHR ''#''" "show_args as"] Cons.prems(4) plain_chars(5) [OF n]
      by (simp add: piece_def show_arg_def None)
    moreover have "tokens '' '' piece = tokens '' '' pre @ [arg_name a @ '':'']"
      using tokens_sep [of "CHR '' ''" "'' ''" pre "arg_name a @ '':''"] tokens_all [of "arg_name a @ '':''" "'' ''"] plain_chars(4) [OF n]
      by (simp add: piece_def)
    moreover have "strstr piece ''{t:Type}'' = None"
      using Cons.prems(5) plain_chars(8) [OF n] by (intro strstr_none) (simp add: piece_def)
    moreover have "parse_method_id_and_args m idx (tokens '' '' pre @ [arg_name a @ '':'']) = Some (add_arg m' a)"
      using parse_append [OF Cons.prems(7,6)] parse_one(1) [OF a le None] by simp
    moreover have "parse_pieces (add_arg m' a) (idx + 1) (tokens ''#'' ([] @ show_args as)) = Some (foldl add_arg (add_arg m' a) as)"
      by (rule Cons.IH) (use Cons.prems in \<open>simp_all add: add_arg_def\<close>)
    ultimately show ?thesis
      using Cons.prems(3) by simp
  next
    case (Some ty)
    then have t: "arg_type a \<noteq> None"
      by simp
    define pre' where "pre' = pre @ '' '' @ show_arg a"
    have tok: "tokens '' '' pre' = tokens '' '' pre @ [show_arg a]"
      using tokens_sep [of "CHR '' ''" "'' ''" pre "show_arg a"] tokens_all [of "show_arg a" "'' ''"] show_arg_chars(1,3) [OF a t]
      by (simp add: pre'_def)
    have "parse_pieces m idx (tokens ''#'' (pre' @ show_args as)) = Some (foldl add_arg (add_arg m' a) as)"
    proof (rule Cons.IH)
      show "parse_method_id_and_args m idx (tokens '' '' pre') = Some (add_arg m' a)"
        using parse_append [OF Cons.prems(7,6)] parse_one(2) [OF a le t] by (simp add: tok)
    qed (use Cons.prems show_arg_chars [OF a t] in \<open>simp_all add: add_arg_def pre'_def tok [unfolded pre'_def, simplified]\<close>)
    then show ?thesis
      by (simp add: pre'_def)
  qed
qed

lemma foldl_add_arg:
  "m_args (foldl add_arg m as) = m_args m @ as" "m_nflags (foldl add_arg m as) = m_nflags m + count_flags as"
  "m_name (foldl add_arg m as) = m_name m" "m_id (foldl add_arg m as) = m_id m" "m_ret (foldl add_arg m as) = m_ret m"
  by (induction as arbitrary: m) (simp_all add: add_arg_def count_flags_def)

lemma digits_line: "2 \<le> base \<Longrightarrow> base \<le> 16 \<Longrightarrow> c \<in> {CHR ''='', CHR ''\<newline>'', CHR 0x00} \<Longrightarrow> c \<notin> set (digits base n)"
  using digits_clean(1) [of base n] by (auto simp: marks_def)

lemma show_args_line:
  assumes "\<forall>a \<in> set as. plain_arg a" and "c \<in> {CHR ''='', CHR ''\<newline>'', CHR 0x00}"
  shows "c \<notin> set (show_args as)"
  using assms(1)
proof (induction as)
  case Nil
  with assms(2) show ?case by auto
next
  case (Cons a as)
  have p: "plain s \<Longrightarrow> c \<notin> set s" for s
    using plain_chars(6,10,11) assms(2) by blast
  have d: "c \<notin> set (digits 10 n)" for n
    using digits_line [of 10 c n] assms(2) by simp
  have "c \<notin> set (show_arg a)"
    using Cons.prems p d assms(2) by (auto simp: show_arg_def plain_arg_def split: option.splits)
  with Cons assms(2) show ?case
    by auto
qed

lemma parse_line_ok:
  assumes m: "plain_method m"
  shows "parse_line (schema_line m) = Some (LDecl m)"
proof -
  obtain r where r: "m_ret m = Some r" "plain r" and n: "plain (m_name m)" and i: "m_id m \<noteq> 0"
    and as: "\<forall>a \<in> set (m_args m). plain_arg a" "length (m_args m) \<le> 64" "m_nflags m = count_flags (m_args m)"
    using m by (auto simp: plain_method_def split: option.splits)
  define hex where "hex = digits 16 (unat (m_id m))"
  have hc: "CHR ''#'' \<notin> set hex" "CHR ''{'' \<notin> set hex" "CHR '' '' \<notin> set hex" "CHR ''='' \<notin> set hex" "hex \<noteq> []"
    using digits_clean(1) [of 16 "unat (m_id m)"] digits_ok [of 16 "unat (m_id m)"] by (auto simp: hex_def marks_def)
  define front where "front = m_name m @ ''#'' @ hex @ show_args (m_args m)"
  have line: "schema_line m = front @ CHR ''='' # '' '' @ r @ '';\<newline>''"
    by (simp add: schema_line_def front_def hex_def r)
  have "CHR ''='' \<notin> set front" "front \<noteq> []"
    using plain_chars [OF n] hc show_args_line [OF as(1), of "CHR ''=''"] by (auto simp: front_def)
  then have s1: "strtok ''='' (schema_line m) = (Some front, '' '' @ r @ '';\<newline>'')"
    unfolding line by (intro strtok_char)
  have s2: "strtok ''='' ('' '' @ r @ '';\<newline>'') = (Some ('' '' @ r @ '';\<newline>''), [])"
    using plain_chars(6) [OF r(2)] by (intro strtok_char) auto
  have "strtok '' ;'' ('' '' @ r @ '';\<newline>'') = strtok '' ;'' (r @ CHR '';'' # ''\<newline>'')"
    by (simp add: strtok_def)
  also have "\<dots> = (Some r, ''\<newline>'')"
    using plain_chars [OF r(2)] by (intro strtok_upto) auto
  finally have ret: "parse_method_return no_method ('' '' @ r @ '';\<newline>'') = no_method\<lparr>m_ret := Some r\<rparr>"
    by (simp add: parse_method_return_def)
  have toks: "tokens ''#'' front = m_name m # tokens ''#'' (hex @ show_args (m_args m))"
    using tokens_upto [of "m_name m" "''#''" "CHR ''#''" "hex @ show_args (m_args m)"] plain_chars(1,5) [OF n]
    by (simp add: front_def)
  let ?m0 = "no_method\<lparr>m_ret := Some r, m_name := m_name m\<rparr>"
  have "tokens '' '' hex = [hex]"
    using hc by (intro tokens_all) auto
  then have "parse_pieces ?m0 1 (tokens ''#'' (hex @ show_args (m_args m))) = Some (foldl add_arg (?m0\<lparr>m_id := m_id m\<rparr>) (m_args m))"
    using as hc scan_x_digits [of "m_id m"] by (intro parse_pieces_ok) (simp_all add: no_method_def hex_def)
  moreover have "m_name m ! 0 \<noteq> CHR ''/''"
    using plain_chars(1,9) [OF n] by (cases "m_name m") auto
  moreover have "foldl add_arg (?m0\<lparr>m_id := m_id m\<rparr>) (m_args m) = m"
    by (rule method_t.equality) (simp_all add: foldl_add_arg no_method_def r as)
  ultimately have "parse_method (no_method\<lparr>m_ret := Some r\<rparr>) front = Some m"
    by (simp add: parse_method_def toks)
  moreover have "schema_line m \<noteq> []" "schema_line m ! 0 \<noteq> CHR '' ''" "schema_line m ! 0 \<noteq> CHR ''\<newline>''"
    using plain_chars(1,4,10) [OF n] by (cases "m_name m"; auto simp: schema_line_def)+
  ultimately show ?thesis
    using s1 s2 ret toks i plain_chars(2) [OF n] by (simp add: parse_line_def)
qed

section \<open>Reading a file\<close>

text \<open>A schema file: declarations, and lines that hold no = sign (blank ones, the titles of
  sections).\<close>

datatype item = Declared method_t | Note string

fun item_line :: "item \<Rightarrow> string" where
  "item_line (Declared m) = schema_line m"
| "item_line (Note s) = s @ ''\<newline>''"

fun item_ok :: "item \<Rightarrow> bool" where
  "item_ok (Declared m) = plain_method m"
| "item_ok (Note s) = (set s \<inter> {CHR ''='', CHR ''\<newline>'', CHR 0x00} = {} \<and> length s < 16383)"

fun declared :: "item list \<Rightarrow> method_t list" where
  "declared [] = []"
| "declared (Declared m # xs) = m # declared xs"
| "declared (Note s # xs) = declared xs"

definition collect :: "method_t list \<Rightarrow> method_t \<Rightarrow> bool \<times> method_t list" where
  "collect u m = (False, u @ [m])"

lemma fgets_line:
  assumes "CHR ''\<newline>'' \<notin> set l" and "CHR 0x00 \<notin> set l" and "length l + 1 < n"
  shows "fgets n (l @ CHR ''\<newline>'' # rest) = Some (l @ ''\<newline>'', rest)"
proof -
  have "takeWhile (\<lambda>c. c \<noteq> CHR ''\<newline>'') (l @ CHR ''\<newline>'' # rest) = l"
    using assms(1) by (subst takeWhile_append2) auto
  moreover have "takeWhile (\<lambda>c. c \<noteq> CHR 0x00) (l @ ''\<newline>'') = l @ ''\<newline>''"
    using assms(2) by (auto simp: takeWhile_eq_all_conv)
  moreover have "min (n - 1) (length l + 1) = length l + 1"
    using assms(3) by simp
  ultimately show ?thesis
    by (simp add: fgets_def Let_def)
qed

lemma item_line_shape:
  assumes "item_ok x"
  obtains l where "item_line x = l @ ''\<newline>''" "CHR ''\<newline>'' \<notin> set l" "CHR 0x00 \<notin> set l" "length l + 1 < 8192 * 2"
proof (cases x)
  case (Declared m)
  with assms obtain r where m: "plain_method m" "m_ret m = Some r" "plain r" "plain (m_name m)" "\<forall>a \<in> set (m_args m). plain_arg a"
    "length (schema_line m) < 16384"
    by (auto simp: plain_method_def split: option.splits)
  define l where "l = m_name m @ ''#'' @ digits 16 (unat (m_id m)) @ show_args (m_args m) @ ''= '' @ r @ '';''"
  have "schema_line m = l @ ''\<newline>''"
    by (simp add: l_def schema_line_def m(2))
  moreover have "c \<notin> set l" if "c \<in> {CHR ''\<newline>'', CHR 0x00}" for c
    using that plain_chars(10,11) [OF m(3)] plain_chars(10,11) [OF m(4)] show_args_line [OF m(5), of c] digits_line [of 16 c]
    by (auto simp: l_def)
  ultimately show ?thesis
    using that [of l] m(6) Declared by simp
next
  case (Note s)
  with assms that [of s] show ?thesis by simp
qed

lemma parse_note:
  assumes "CHR ''='' \<notin> set s"
  shows "parse_line (s @ ''\<newline>'') = Some LSkip"
  using assms strtok_char(2) [of "s @ ''\<newline>''" "CHR ''=''"] by (simp add: parse_line_def strtok_char(3))

lemma parse_schema_ok:
  assumes "\<forall>x \<in> set xs. item_ok x"
  shows "parse_schema collect i (concat (map item_line xs)) u = Some (0, u @ declared xs)"
  using assms
proof (induction xs arbitrary: i u)
  case Nil
  then show ?case
    by (subst parse_schema.simps) (simp add: fgets_def)
next
  case (Cons x xs)
  obtain l where l: "item_line x = l @ ''\<newline>''" "CHR ''\<newline>'' \<notin> set l" "CHR 0x00 \<notin> set l" "length l + 1 < 8192 * 2"
    using Cons.prems by (auto elim: item_line_shape)
  then have f: "fgets (8192 * 2) (concat (map item_line (x # xs))) = Some (item_line x, concat (map item_line xs))"
    using fgets_line [OF l(2-4)] by simp
  show ?case
  proof (cases x)
    case (Declared m)
    then have "parse_line (item_line x) = Some (LDecl m)"
      using Cons.prems parse_line_ok by simp
    with f Cons Declared collect_def [of u m] show ?thesis
      by (subst parse_schema.simps) simp
  next
    case (Note s)
    then have "parse_line (item_line x) = Some LSkip"
      using Cons.prems parse_note by auto
    with f Cons Note show ?thesis
      by (subst parse_schema.simps) simp
  qed
qed

section \<open>Properties\<close>


section \<open>Instances\<close>

definition demo_saveFilePart :: method_t where
  "demo_saveFilePart = \<lparr>m_name = ''upload.saveFilePart'', m_id = 0xb304a621, m_ret = Some ''Bool'', m_args =
     [\<lparr>arg_name = ''file_id'', arg_type = Some ''long'', flagn = 0, flagb = 0\<rparr>,
      \<lparr>arg_name = ''file_part'', arg_type = Some ''int'', flagn = 0, flagb = 0\<rparr>,
      \<lparr>arg_name = ''bytes'', arg_type = Some ''bytes'', flagn = 0, flagb = 0\<rparr>], m_nflags = 0\<rparr>"

definition demo_getFile :: method_t where
  "demo_getFile = \<lparr>m_name = ''upload.getFile'', m_id = 0xbe5335be, m_ret = Some ''upload.File'', m_args =
     [\<lparr>arg_name = ''flags'', arg_type = None, flagn = 0, flagb = 0\<rparr>,
      \<lparr>arg_name = ''precise'', arg_type = Some ''true'', flagn = 1, flagb = 0\<rparr>,
      \<lparr>arg_name = ''cdn_supported'', arg_type = Some ''true'', flagn = 1, flagb = 1\<rparr>,
      \<lparr>arg_name = ''location'', arg_type = Some ''InputFileLocation'', flagn = 0, flagb = 0\<rparr>,
      \<lparr>arg_name = ''offset'', arg_type = Some ''long'', flagn = 0, flagb = 0\<rparr>,
      \<lparr>arg_name = ''limit'', arg_type = Some ''int'', flagn = 0, flagb = 0\<rparr>], m_nflags = 1\<rparr>"

lemma demo_lines:
  "concat (map item_line [Note ''---functions---'', Declared demo_saveFilePart, Note [], Declared demo_getFile]) =
     ''---functions---\<newline>upload.saveFilePart#b304a621 file_id:long file_part:int bytes:bytes = Bool;\<newline>\<newline>upload.getFile#be5335be flags:# precise:flags.0?true cdn_supported:flags.1?true location:InputFileLocation offset:long limit:int = upload.File;\<newline>''"
  by (simp add: demo_saveFilePart_def demo_getFile_def schema_line_def show_arg_def digits.simps digit_char_def)

lemma demo_items: "\<forall>x \<in> set [Note ''---functions---'', Declared demo_saveFilePart, Note [], Declared demo_getFile]. item_ok x"
  using demo_lines
  by (simp add: demo_saveFilePart_def demo_getFile_def plain_method_def plain_def plain_arg_def seps_def count_flags_def
      schema_line_def show_arg_def digits.simps digit_char_def)


end
