(* ===== verification/ApiSchema.thy ===== *)
theory ApiSchema
  imports TLParser GenSer GenDes Client
begin

text \<open>
  The declarations that the client's own calls use, as the schema parser reads them from the lines
  of tl_generator/telegram_api.tl, and the synchronous call the API is written over.
\<close>

definition decl :: "string \<Rightarrow> method_t" where
  "decl s = (case parse_line s of Some (LDecl m) \<Rightarrow> m | _ \<Rightarrow> no_method)"

section \<open>Peers\<close>

definition d_inputPeerChat :: method_t where
  "d_inputPeerChat = decl ''inputPeerChat#35a95cb9 chat_id:long = InputPeer;''"

definition d_inputPeerUser :: method_t where
  "d_inputPeerUser = decl ''inputPeerUser#dde8a54c user_id:long access_hash:long = InputPeer;''"

definition d_inputPeerChannel :: method_t where
  "d_inputPeerChannel = decl ''inputPeerChannel#27bcbbfc channel_id:long access_hash:long = InputPeer;''"

definition d_peerUser :: method_t where
  "d_peerUser = decl ''peerUser#59511722 user_id:long = Peer;''"

definition d_peerChat :: method_t where
  "d_peerChat = decl ''peerChat#36c6019a chat_id:long = Peer;''"

definition d_peerChannel :: method_t where
  "d_peerChannel = decl ''peerChannel#a2a5371e channel_id:long = Peer;''"

definition d_resolvePhone :: method_t where
  "d_resolvePhone = decl ''contacts.resolvePhone#8af94344 phone:string = contacts.ResolvedPeer;''"

definition d_getPeerColors :: method_t where
  "d_getPeerColors = decl ''help.getPeerColors#da80f42f hash:int = help.PeerColors;''"

definition d_getPeerProfileColors :: method_t where
  "d_getPeerProfileColors = decl ''help.getPeerProfileColors#abcfa9fd hash:int = help.PeerColors;''"

section \<open>Files\<close>

definition d_getFile :: method_t where
  "d_getFile = decl ''upload.getFile#be5335be flags:# precise:flags.0?true cdn_supported:flags.1?true location:InputFileLocation offset:long limit:int = upload.File;''"

definition d_saveFilePart :: method_t where
  "d_saveFilePart = decl ''upload.saveFilePart#b304a621 file_id:long file_part:int bytes:bytes = Bool;''"

definition d_saveBigFilePart :: method_t where
  "d_saveBigFilePart = decl ''upload.saveBigFilePart#de7b673d file_id:long file_part:int file_total_parts:int bytes:bytes = Bool;''"

definition d_inputFile :: method_t where
  "d_inputFile = decl ''inputFile#f52ff27f id:long parts:int name:string md5_checksum:string = InputFile;''"

definition d_inputFileBig :: method_t where
  "d_inputFileBig = decl ''inputFileBig#fa4f0bb5 id:long parts:int name:string = InputFile;''"

definition d_getFileHashes :: method_t where
  "d_getFileHashes = decl ''upload.getFileHashes#9156982a location:InputFileLocation offset:long = Vector<FileHash>;''"

definition d_inputMediaContact :: method_t where
  "d_inputMediaContact = decl ''inputMediaContact#f8ab7dfb phone_number:string first_name:string last_name:string vcard:string = InputMedia;''"

definition d_inputMediaGeoPoint :: method_t where
  "d_inputMediaGeoPoint = decl ''inputMediaGeoPoint#f9c44144 geo_point:InputGeoPoint = InputMedia;''"

definition d_inputGeoPoint :: method_t where
  "d_inputGeoPoint = decl ''inputGeoPoint#48222faf flags:# lat:double long:double accuracy_radius:flags.0?int = InputGeoPoint;''"

definition d_inputDocumentFileLocation :: method_t where
  "d_inputDocumentFileLocation = decl ''inputDocumentFileLocation#bad07584 id:long access_hash:long file_reference:bytes thumb_size:string = InputFileLocation;''"

definition d_inputPhotoFileLocation :: method_t where
  "d_inputPhotoFileLocation = decl ''inputPhotoFileLocation#40181ffe id:long access_hash:long file_reference:bytes thumb_size:string = InputFileLocation;''"

definition d_inputPeerPhotoFileLocation :: method_t where
  "d_inputPeerPhotoFileLocation = decl ''inputPeerPhotoFileLocation#37257e99 flags:# big:flags.0?true peer:InputPeer photo_id:long = InputFileLocation;''"

definition d_inputMediaUploadedPhoto :: method_t where
  "d_inputMediaUploadedPhoto = decl ''inputMediaUploadedPhoto#1e287d04 flags:# spoiler:flags.2?true file:InputFile stickers:flags.0?Vector<InputDocument> ttl_seconds:flags.1?int = InputMedia;''"

definition d_inputMediaUploadedDocument :: method_t where
  "d_inputMediaUploadedDocument = decl ''inputMediaUploadedDocument#5b38c6c1 flags:# nosound_video:flags.3?true force_file:flags.4?true spoiler:flags.5?true file:InputFile thumb:flags.2?InputFile mime_type:string attributes:Vector<DocumentAttribute> stickers:flags.0?Vector<InputDocument> ttl_seconds:flags.1?int = InputMedia;''"

definition d_attributeFilename :: method_t where
  "d_attributeFilename = decl ''documentAttributeFilename#15590068 file_name:string = DocumentAttribute;''"

definition d_attributeHasStickers :: method_t where
  "d_attributeHasStickers = decl ''documentAttributeHasStickers#9801d2f7 = DocumentAttribute;''"

definition d_attributeImageSize :: method_t where
  "d_attributeImageSize = decl ''documentAttributeImageSize#6c37c15c w:int h:int = DocumentAttribute;''"

definition d_attributeVideo :: method_t where
  "d_attributeVideo = decl ''documentAttributeVideo#17399fad flags:# round_message:flags.0?true supports_streaming:flags.1?true nosound:flags.3?true duration:double w:int h:int preload_prefix_size:flags.2?int video_start_ts:flags.4?double = DocumentAttribute;''"

definition d_attributeAudio :: method_t where
  "d_attributeAudio = decl ''documentAttributeAudio#9852f9c6 flags:# voice:flags.10?true duration:int title:flags.0?string performer:flags.1?string waveform:flags.2?bytes = DocumentAttribute;''"

definition d_sendMedia :: method_t where
  "d_sendMedia = decl ''messages.sendMedia#7852834e flags:# silent:flags.5?true background:flags.6?true clear_draft:flags.7?true noforwards:flags.14?true update_stickersets_order:flags.15?true invert_media:flags.16?true peer:InputPeer reply_to:flags.0?InputReplyTo media:InputMedia message:string random_id:long reply_markup:flags.2?ReplyMarkup entities:flags.3?Vector<MessageEntity> schedule_date:flags.10?int send_as:flags.13?InputPeer quick_reply_shortcut:flags.17?InputQuickReplyShortcut effect:flags.18?long = Updates;''"

definition d_upload_file :: method_t where
  "d_upload_file = decl ''upload.file#96a18d5 type:storage.FileType mtime:int bytes:bytes = upload.File;''"

section \<open>Messages and dialogs\<close>

definition d_getHistory :: method_t where
  "d_getHistory = decl ''messages.getHistory#4423e6c5 peer:InputPeer offset_id:int offset_date:int add_offset:int limit:int max_id:int min_id:int hash:long = messages.Messages;''"

definition d_inputMessageID :: method_t where
  "d_inputMessageID = decl ''inputMessageID#a676a322 id:int = InputMessage;''"

definition d_getMessages :: method_t where
  "d_getMessages = decl ''messages.getMessages#63c66506 id:Vector<InputMessage> = messages.Messages;''"

definition d_getChannelMessages :: method_t where
  "d_getChannelMessages = decl ''channels.getMessages#ad8c9a23 channel:InputChannel id:Vector<InputMessage> = messages.Messages;''"

definition d_inputChannel :: method_t where
  "d_inputChannel = decl ''inputChannel#f35aec28 channel_id:long access_hash:long = InputChannel;''"

definition d_sendMessage :: method_t where
  "d_sendMessage = decl ''messages.sendMessage#983f9745 flags:# no_webpage:flags.1?true silent:flags.5?true background:flags.6?true clear_draft:flags.7?true noforwards:flags.14?true update_stickersets_order:flags.15?true invert_media:flags.16?true peer:InputPeer reply_to:flags.0?InputReplyTo message:string random_id:long reply_markup:flags.2?ReplyMarkup entities:flags.3?Vector<MessageEntity> schedule_date:flags.10?int send_as:flags.13?InputPeer quick_reply_shortcut:flags.17?InputQuickReplyShortcut effect:flags.18?long = Updates;''"

definition d_sendMessageTypingAction :: method_t where
  "d_sendMessageTypingAction = decl ''sendMessageTypingAction#16bf744e = SendMessageAction;''"

definition d_sendMessageCancelAction :: method_t where
  "d_sendMessageCancelAction = decl ''sendMessageCancelAction#fd5ec8f5 = SendMessageAction;''"

definition d_setTyping :: method_t where
  "d_setTyping = decl ''messages.setTyping#58943ee2 flags:# peer:InputPeer top_msg_id:flags.0?int action:SendMessageAction = Bool;''"

definition d_readHistory :: method_t where
  "d_readHistory = decl ''messages.readHistory#e306d3a peer:InputPeer max_id:int = messages.AffectedMessages;''"

definition d_getOutboxReadDate :: method_t where
  "d_getOutboxReadDate = decl ''messages.getOutboxReadDate#8c4bfe5d peer:InputPeer msg_id:int = OutboxReadDate;''"

definition d_searchGlobal :: method_t where
  "d_searchGlobal = decl ''messages.searchGlobal#4bc6589a flags:# broadcasts_only:flags.1?true folder_id:flags.0?int q:string filter:MessagesFilter min_date:int max_date:int offset_rate:int offset_peer:InputPeer offset_id:int limit:int = messages.Messages;''"

definition d_inputPeerEmpty :: method_t where
  "d_inputPeerEmpty = decl ''inputPeerEmpty#7f3b18ea = InputPeer;''"

definition d_inputPeerSelf :: method_t where
  "d_inputPeerSelf = decl ''inputPeerSelf#7da07ec9 = InputPeer;''"

definition d_getDialogs :: method_t where
  "d_getDialogs = decl ''messages.getDialogs#a0f4cb4f flags:# exclude_pinned:flags.0?true folder_id:flags.1?int offset_date:int offset_id:int offset_peer:InputPeer limit:int hash:long = messages.Dialogs;''"

definition d_readChannelHistory :: method_t where
  "d_readChannelHistory = decl ''channels.readHistory#cc104937 channel:InputChannel max_id:int = Bool;''"

section \<open>Accounts\<close>

definition d_initConnection :: method_t where
  "d_initConnection = decl ''initConnection#c1cd5ea9 {X:Type} flags:# api_id:int device_model:string system_version:string app_version:string system_lang_code:string lang_pack:string lang_code:string proxy:flags.0?InputClientProxy params:flags.1?JSONValue query:!X = X;''"

definition d_invokeWithLayer :: method_t where
  "d_invokeWithLayer = decl ''invokeWithLayer#da9b0d0d {X:Type} layer:int query:!X = X;''"

definition d_getConfig :: method_t where
  "d_getConfig = decl ''help.getConfig#c4f9186b = Config;''"

definition d_inputUserSelf :: method_t where
  "d_inputUserSelf = decl ''inputUserSelf#f7c1b13f = InputUser;''"

definition d_getUsers :: method_t where
  "d_getUsers = decl ''users.getUsers#d91a548 id:Vector<InputUser> = Vector<User>;''"

definition d_codeSettings :: method_t where
  "d_codeSettings = decl ''codeSettings#ad253d78 flags:# allow_flashcall:flags.0?true current_number:flags.1?true allow_app_hash:flags.4?true allow_missed_call:flags.5?true allow_firebase:flags.7?true unknown_number:flags.9?true logout_tokens:flags.6?Vector<bytes> token:flags.8?string app_sandbox:flags.8?Bool = CodeSettings;''"

definition d_sendCode :: method_t where
  "d_sendCode = decl ''auth.sendCode#a677244f phone_number:string api_id:int api_hash:string settings:CodeSettings = auth.SentCode;''"

definition d_signIn :: method_t where
  "d_signIn = decl ''auth.signIn#8d52a951 flags:# phone_number:string phone_code_hash:string phone_code:flags.0?string email_verification:flags.1?EmailVerification = auth.Authorization;''"

definition d_registerDevice :: method_t where
  "d_registerDevice = decl ''account.registerDevice#ec86017a flags:# no_muted:flags.0?true token_type:int token:string app_sandbox:Bool secret:bytes other_uids:Vector<long> = Bool;''"

definition d_boolTrue :: method_t where
  "d_boolTrue = decl ''boolTrue#997275b5 = Bool;''"

definition d_boolFalse :: method_t where
  "d_boolFalse = decl ''boolFalse#bc799737 = Bool;''"

end
