(* ===== verification/Peer.thy ===== *)
theory Peer
  imports ApiSchema
begin

text \<open>
  Peers (tg/peer.c): a peer as a TL object for the server, a peer found by a phone number, and the
  colour tables of peers.  The synchronous call, tg_send_query_sync of tg/queue.c, is an argument
  over the client's state; the callback takes the caller's data.
\<close>

type_synonym 's call = "buf_t \<Rightarrow> 's \<Rightarrow> (tl_obj option \<times> 's) option"

text \<open>The type of a peer is the identifier of its TL type, or 0.\<close>

record tg_peer_t =
  peer_type :: u32
  peer_id :: u64
  peer_hash :: u64

record tg_colors_t =
  rgb0 :: u32
  rgb1 :: u32
  rgb2 :: u32

definition id_peerUser :: u32 where "id_peerUser = 0x59511722"
definition id_peerChat :: u32 where "id_peerChat = 0x36c6019a"
definition id_peerChannel :: u32 where "id_peerChannel = 0xa2a5371e"
definition id_resolvedPeer :: u32 where "id_resolvedPeer = 0x7f077ad9"
definition id_user :: u32 where "id_user = 0x83314fca"
definition id_peerColorSet :: u32 where "id_peerColorSet = 0x26219a58"
definition id_peerColorProfileSet :: u32 where "id_peerColorProfileSet = 0x767d61eb"
definition id_peerColorOption :: u32 where "id_peerColorOption = 0xadec6ebe"
definition id_peerColors :: u32 where "id_peerColors = 0x00f8ed08"

definition tg_inputPeer :: "tg_peer_t \<Rightarrow> buf_t option" where
  "tg_inputPeer p =
     (if peer_type p = id_peerChannel
      then tl_method False d_inputPeerChannel [''channel_id'' \<mapsto> ALong (peer_id p), ''access_hash'' \<mapsto> ALong (peer_hash p)]
      else if peer_type p = id_peerChat
      then tl_method False d_inputPeerChat [''chat_id'' \<mapsto> ALong (peer_id p)]
      else if peer_type p = id_peerUser
      then tl_method False d_inputPeerUser [''user_id'' \<mapsto> ALong (peer_id p), ''access_hash'' \<mapsto> ALong (peer_hash p)]
      else Some buf_init)"

definition tg_peer :: "tg_peer_t \<Rightarrow> buf_t option" where
  "tg_peer p =
     (if peer_type p = id_peerChannel then tl_method False d_peerChannel [''channel_id'' \<mapsto> ALong (peer_id p)]
      else if peer_type p = id_peerChat then tl_method False d_peerChat [''chat_id'' \<mapsto> ALong (peer_id p)]
      else if peer_type p = id_peerUser then tl_method False d_peerUser [''user_id'' \<mapsto> ALong (peer_id p)]
      else Some buf_init)"

section \<open>Fields of answers\<close>

definition fld_int :: "tl_obj \<Rightarrow> string \<Rightarrow> u32" where
  "fld_int x n = (case fld x n of Some (FInt v) \<Rightarrow> v | _ \<Rightarrow> 0)"

text \<open>The identifier of any peer is the one field of its object: the code reads every kind of peer
  through the structure of peerUser.\<close>

definition peer_field :: "tl_obj \<Rightarrow> u64" where
  "peer_field x = (if tl_id x = id_peerUser then fld_long x ''user_id''
     else if tl_id x = id_peerChannel then fld_long x ''channel_id''
     else fld_long x ''chat_id'')"

text \<open>A first user that is not a user (userEmpty is shorter) is read outside its structure; a vector
  that was refused has a length but no array.\<close>

definition first_hash :: "tl_obj \<Rightarrow> u64 option" where
  "first_hash x = (if 0 <s fld_int x ''users_len'' then None
     else (case fld_vec x ''users'' of
         FObj (Some u) # r \<Rightarrow> if tl_id u = id_user then Some (fld_long u ''access_hash'') else None
       | _ \<Rightarrow> Some 0))"

definition tg_peer_by_phone :: "'s call \<Rightarrow> byte list \<Rightarrow> 's \<Rightarrow> (tg_peer_t \<times> 's) option" where
  "tg_peer_by_phone call phone s = do {
     query \<leftarrow> tl_method False d_resolvePhone [''phone'' \<mapsto> AMem phone];
     (t, s) \<leftarrow> call query s;
     (case t of
        Some x \<Rightarrow>
          (if tl_id x = id_resolvedPeer
           then (case fld_obj x ''peer'' of
               None \<Rightarrow> Some (\<lparr>peer_type = 0, peer_id = 0, peer_hash = 0\<rparr>, s)
             | Some p \<Rightarrow> do {
                 h \<leftarrow> first_hash x;
                 Some (\<lparr>peer_type = (if tl_id p \<in> {id_peerUser, id_peerChannel, id_peerChat} then tl_id p else 0),
                   peer_id = peer_field p, peer_hash = h\<rparr>, s)
               })
           else Some (\<lparr>peer_type = 0, peer_id = 0, peer_hash = 0\<rparr>, s))
      | None \<Rightarrow> Some (\<lparr>peer_type = 0, peer_id = 0, peer_hash = 0\<rparr>, s))
   }"

section \<open>Colours\<close>

text \<open>The third colour overwrites the second.\<close>

definition set_color :: "nat \<Rightarrow> u32 \<Rightarrow> tg_colors_t \<Rightarrow> tg_colors_t" where
  "set_color i v c = (if i = 0 then c\<lparr>rgb0 := v\<rparr> else if i = 1 then c\<lparr>rgb1 := v\<rparr> else if i = 2 then c\<lparr>rgb1 := v\<rparr> else c)"

fun set_colors :: "nat \<Rightarrow> fval list \<Rightarrow> tg_colors_t \<Rightarrow> tg_colors_t" where
  "set_colors i [] c = c"
| "set_colors i (FInt v # vs) c = set_colors (i + 1) vs (set_color i v c)"
| "set_colors i (_ # vs) c = set_colors (i + 1) vs (set_color i 0 c)"

definition tg_peer_color_set_to_colors :: "tg_colors_t \<Rightarrow> tl_obj \<Rightarrow> tg_colors_t" where
  "tg_peer_color_set_to_colors c t =
     (if tl_id t = id_peerColorSet then set_colors 0 (fld_vec t ''colors'') c
      else if tl_id t = id_peerColorProfileSet then set_colors 0 (fld_vec t ''palette_colors'') c
      else c)"

definition colors_of :: "tl_obj option \<Rightarrow> tg_colors_t" where
  "colors_of t = (case t of None \<Rightarrow> \<lparr>rgb0 = 0, rgb1 = 0, rgb2 = 0\<rparr>
     | Some x \<Rightarrow> tg_peer_color_set_to_colors \<lparr>rgb0 = 0, rgb1 = 0, rgb2 = 0\<rparr> x)"

text \<open>The options go to the callback in order until it asks to stop (a null callback is not modelled).\<close>

fun color_options :: "('u \<Rightarrow> u32 \<Rightarrow> tg_colors_t \<Rightarrow> tg_colors_t \<Rightarrow> bool \<times> 'u) \<Rightarrow> fval list \<Rightarrow> 'u \<Rightarrow> (bool \<times> 'u) option" where
  "color_options cb [] u = Some (False, u)"
| "color_options cb (FObj (Some x) # xs) u =
     (if tl_id x \<noteq> id_peerColorOption then color_options cb xs u
      else (case cb u (fld_int x ''color_id'') (colors_of (fld_obj x ''colors'')) (colors_of (fld_obj x ''dark_colors'')) of
          (True, u) \<Rightarrow> Some (True, u)
        | (False, u) \<Rightarrow> color_options cb xs u))"
| "color_options cb (_ # xs) u = None"

text \<open>Both calls send the hash 0 instead of their argument.  On success the hash is read from the
  answer after it has been freed.\<close>

definition get_colors :: "method_t \<Rightarrow> 's call \<Rightarrow> ('u \<Rightarrow> u32 \<Rightarrow> tg_colors_t \<Rightarrow> tg_colors_t \<Rightarrow> bool \<times> 'u) \<Rightarrow> 'u \<Rightarrow> 's \<Rightarrow>
    (u32 \<times> 'u \<times> 's) option" where
  "get_colors m call cb u s = do {
     query \<leftarrow> tl_method False m [''hash'' \<mapsto> AInt 0];
     (t, s) \<leftarrow> call query s;
     (case t of
        None \<Rightarrow> Some (0, u, s)
      | Some x \<Rightarrow>
          if tl_id x \<noteq> id_peerColors then Some (0, u, s)
          else if fld_vec x ''colors'' = [] then Some (0, u, s)
          else do {
            (stop, u) \<leftarrow> color_options cb (fld_vec x ''colors'') u;
            (if stop then Some (0, u, s) else None)
          })
   }"

definition tg_get_peer_colors :: "'s call \<Rightarrow> u32 \<Rightarrow> ('u \<Rightarrow> u32 \<Rightarrow> tg_colors_t \<Rightarrow> tg_colors_t \<Rightarrow> bool \<times> 'u) \<Rightarrow> 'u \<Rightarrow> 's \<Rightarrow>
    (u32 \<times> 'u \<times> 's) option" where
  "tg_get_peer_colors call hash cb u s = get_colors d_getPeerColors call cb u s"

definition tg_get_peer_profile_colors :: "'s call \<Rightarrow> u32 \<Rightarrow> ('u \<Rightarrow> u32 \<Rightarrow> tg_colors_t \<Rightarrow> tg_colors_t \<Rightarrow> bool \<times> 'u) \<Rightarrow> 'u \<Rightarrow> 's \<Rightarrow>
    (u32 \<times> 'u \<times> 's) option" where
  "tg_get_peer_profile_colors call hash cb u s = get_colors d_getPeerProfileColors call cb u s"

end
