(* ===== verification/Files.thy ===== *)
theory Files
  imports Peer Base64
begin

text \<open>
  Files (tg/files.c): the download of a file in parts of a megabyte and the upload of a document in
  parts of half a megabyte.  The synchronous call is an argument, as in Peer; a loop that does not
  end has no value.
\<close>

section \<open>Downloads\<close>

record tg_file_t =
  file_type :: u32
  file_mtime :: u32
  file_bytes :: "byte list"

definition id_upload_file :: u32 where "id_upload_file = 0x096a18d5"
definition id_boolTrue :: u32 where "id_boolTrue = 0x997275b5"

text \<open>The type is read through its pointer.\<close>

definition tg_file_from_tl :: "tl_obj \<Rightarrow> tg_file_t option" where
  "tg_file_from_tl t = do {
     ty \<leftarrow> fld_obj t ''type'';
     Some \<lparr>file_type = tl_id ty, file_mtime = fld_int t ''mtime'', file_bytes = fld_bytes t ''bytes''\<rparr>
   }"

definition getFile_query :: "buf_t \<Rightarrow> u32 \<Rightarrow> buf_t option" where
  "getFile_query location offset = tl_method False d_getFile
     [''precise'' \<mapsto> ABool False, ''cdn_supported'' \<mapsto> ABool False, ''location'' \<mapsto> ABuf location,
      ''offset'' \<mapsto> ALong (scast offset), ''limit'' \<mapsto> AInt 1048576]"

text \<open>The loop: the message printed at its start divides by the size.  The result is the status
  and the caller's data.\<close>

partial_function (option) get_file_loop ::
    "'s call \<Rightarrow> ('u \<Rightarrow> tg_file_t \<Rightarrow> bool \<times> 'u) option \<Rightarrow> buf_t \<Rightarrow> u32 \<Rightarrow> u32 \<Rightarrow> 'u \<Rightarrow> 's \<Rightarrow> (nat \<times> 'u \<times> 's) option" where
  "get_file_loop call cb location sz offset u s =
     (if 0 <s sz \<and> \<not> offset <s sz then Some (0, u, s)
      else if sz = 0 then None
      else do {
        getFile \<leftarrow> getFile_query location offset;
        r \<leftarrow> call getFile s;
        (case fst r of
           None \<Rightarrow> Some (1, u, snd r)
         | Some t \<Rightarrow>
             if tl_id t \<noteq> id_upload_file then Some (1, u, snd r)
             else do {
               file \<leftarrow> tg_file_from_tl t;
               (case cb of
                  None \<Rightarrow> get_file_loop call cb location sz (offset + of_nat (length (file_bytes file))) u (snd r)
                | Some f \<Rightarrow>
                    if fst (f u file) then Some (0, snd (f u file), snd r)
                    else get_file_loop call cb location sz (offset + of_nat (length (file_bytes file))) (snd (f u file)) (snd r))
             })
      })"

definition tg_get_file_with_progress ::
    "'s call \<Rightarrow> buf_t \<Rightarrow> u32 \<Rightarrow> ('u \<Rightarrow> tg_file_t \<Rightarrow> bool \<times> 'u) option \<Rightarrow> 'u \<Rightarrow> 's \<Rightarrow> (nat \<times> 'u \<times> 's) option" where
  "tg_get_file_with_progress call location sz cb u s = get_file_loop call cb location sz 0 u s"

definition tg_get_file ::
    "'s call \<Rightarrow> buf_t \<Rightarrow> u32 \<Rightarrow> ('u \<Rightarrow> tg_file_t \<Rightarrow> bool \<times> 'u) option \<Rightarrow> 'u \<Rightarrow> 's \<Rightarrow> (nat \<times> 'u \<times> 's) option" where
  "tg_get_file call location sz cb u s = tg_get_file_with_progress call location sz cb u s"

text \<open>The callback of the photo calls keeps the part as base64 and stops; a conversion that is
  undefined leaves no value, so the data is an option of the text.\<close>

definition photo_file_cb :: "byte list option option \<Rightarrow> tg_file_t \<Rightarrow> bool \<times> byte list option option" where
  "photo_file_cb u file = (True, own_buf (file_bytes file) \<bind> buf_to_base64)"

definition photo_location :: "method_t \<Rightarrow> (byte \<Rightarrow> byte) \<Rightarrow> u64 \<Rightarrow> u64 \<Rightarrow> byte list option \<Rightarrow> byte list \<Rightarrow> buf_t option" where
  "photo_location m junk i hash ref thumb = do {
     fr \<leftarrow> buf_from_base64 junk ref;
     tl_method False m [''id'' \<mapsto> ALong i, ''access_hash'' \<mapsto> ALong hash, ''file_reference'' \<mapsto> ABuf fr, ''thumb_size'' \<mapsto> AMem thumb]
   }"

definition tg_get_photo_file :: "'s call \<Rightarrow> (byte \<Rightarrow> byte) \<Rightarrow> u64 \<Rightarrow> u64 \<Rightarrow> byte list option \<Rightarrow> byte list \<Rightarrow> 's \<Rightarrow>
    (byte list option \<times> 's) option" where
  "tg_get_photo_file call junk photo_id hash ref thumb s = do {
     location \<leftarrow> photo_location d_inputPhotoFileLocation junk photo_id hash ref thumb;
     (st, photo, s) \<leftarrow> tg_get_file call location 0 (Some photo_file_cb) (Some None) s;
     photo \<leftarrow> photo;
     Some (photo, s)
   }"

definition tg_get_peer_photo_file :: "'s call \<Rightarrow> tg_peer_t \<Rightarrow> bool \<Rightarrow> u64 \<Rightarrow> 's \<Rightarrow> (byte list option \<times> 's) option" where
  "tg_get_peer_photo_file call peer big photo_id s = do {
     p \<leftarrow> tg_inputPeer peer;
     location \<leftarrow> tl_method False d_inputPeerPhotoFileLocation
       [''big'' \<mapsto> ABool True, ''peer'' \<mapsto> ABuf p, ''photo_id'' \<mapsto> ALong photo_id];
     (st, photo, s) \<leftarrow> tg_get_file call location 0 (Some photo_file_cb) (Some None) s;
     photo \<leftarrow> photo;
     Some (photo, s)
   }"

text \<open>The size of a document is cut to an int.\<close>

definition tg_get_document :: "'s call \<Rightarrow> (byte \<Rightarrow> byte) \<Rightarrow> u64 \<Rightarrow> u64 \<Rightarrow> u64 \<Rightarrow> byte list option \<Rightarrow>
    ('u \<Rightarrow> tg_file_t \<Rightarrow> bool \<times> 'u) option \<Rightarrow> 'u \<Rightarrow> 's \<Rightarrow> (nat \<times> 'u \<times> 's) option" where
  "tg_get_document call junk i sz hash ref cb u s = do {
     location \<leftarrow> photo_location d_inputDocumentFileLocation junk i hash ref [0];
     tg_get_file_with_progress call location (ucast sz) cb u s
   }"

definition tg_get_document_thumb :: "'s call \<Rightarrow> (byte \<Rightarrow> byte) \<Rightarrow> u64 \<Rightarrow> u64 \<Rightarrow> byte list option \<Rightarrow> byte list \<Rightarrow> 's \<Rightarrow>
    (byte list option \<times> 's) option" where
  "tg_get_document_thumb call junk i hash ref thumb s = do {
     location \<leftarrow> photo_location d_inputDocumentFileLocation junk i hash ref thumb;
     (st, photo, s) \<leftarrow> tg_get_file call location 0 (Some photo_file_cb) (Some None) s;
     photo \<leftarrow> photo;
     Some (photo, s)
   }"

text \<open>The hashes are looked for at the address \<^theory_text>\<open>(tl_vector_t *)id\<close>,
  an identifier cast to a pointer.\<close>

definition tg_get_document_hashes :: "'s call \<Rightarrow> (byte \<Rightarrow> byte) \<Rightarrow> u64 \<Rightarrow> u64 \<Rightarrow> byte list option \<Rightarrow> 's \<Rightarrow> (nat \<times> 's) option" where
  "tg_get_document_hashes call junk i hash ref s = do {
     location \<leftarrow> photo_location d_inputDocumentFileLocation junk i hash ref [0];
     getFileHashes \<leftarrow> tl_method False d_getFileHashes [''location'' \<mapsto> ABuf location, ''offset'' \<mapsto> ALong 0];
     (t, s) \<leftarrow> call getFileHashes s;
     (case t of
        None \<Rightarrow> Some (0, s)
      | Some x \<Rightarrow> if tl_id x = id_vector then None else Some (0, s))
   }"

end
