(* ===== verification/Upload.thy ===== *)
theory Upload
  imports Files
begin

text \<open>
  Messages with media (tg/files.c): a document sent in parts of half a megabyte, a contact and a
  place.  The file is its bytes, the MD5 hash an argument; a double is its bits.
\<close>

section \<open>Documents\<close>

datatype DOCUMENT_TYPE = DOCUMENT_TYPE_DEFAUL | DOCUMENT_TYPE_PHOTO | DOCUMENT_TYPE_IMAGE
  | DOCUMENT_TYPE_VIDEO | DOCUMENT_TYPE_AUDIO

text \<open>The fields of a document that the code reads; an array of characters is its memory, a null
  pointer is \<^theory_text>\<open>None\<close>; the duration of an audio is taken after its conversion to an int.\<close>

record tg_document_t =
  doc_type :: DOCUMENT_TYPE
  filepath :: "byte list"
  mime_type :: "byte list"
  force_file :: bool
  spoiler :: bool
  no_sound_video :: bool
  ttl_seconds :: "u32 option"
  image_w :: u32
  image_h :: u32
  video_supports_streaming :: bool
  video_no_sound :: bool
  video_duration :: u64
  video_w :: u32
  video_h :: u32
  video_preload_prefix_size :: "u32 option"
  video_start_ts :: "u64 option"
  audio_voice :: bool
  audio_duration :: u32
  audio_title :: "byte list"
  audio_perfomer :: "byte list"
  audio_waveform :: "buf_t option"
  filename :: "byte list"
  has_stickers :: bool
  stickers :: "buf_t list option"

definition new_document :: tg_document_t where
  "new_document = \<lparr>doc_type = DOCUMENT_TYPE_DEFAUL, filepath = replicate 8192 0, mime_type = replicate 256 0,
     force_file = False, spoiler = False, no_sound_video = False, ttl_seconds = None, image_w = 0, image_h = 0,
     video_supports_streaming = False, video_no_sound = False, video_duration = 0, video_w = 0, video_h = 0,
     video_preload_prefix_size = None, video_start_ts = None, audio_voice = False, audio_duration = 0,
     audio_title = replicate 256 0, audio_perfomer = replicate 256 0, audio_waveform = None,
     filename = replicate 256 0, has_stickers = False, stickers = None\<rparr>"

text \<open>strncpy into an array of zeros, all but the last byte of it.\<close>

definition strncpy_array :: "byte list \<Rightarrow> byte list \<Rightarrow> byte list" where
  "strncpy_array arr src = (let s = take (length arr - 1) (takeWhile (\<lambda>c. c \<noteq> 0) src) in s @ drop (length s) arr)"

definition tg_document :: "byte list \<Rightarrow> byte list \<Rightarrow> byte list \<Rightarrow> tg_document_t" where
  "tg_document path name mime = new_document\<lparr>filepath := strncpy_array (filepath new_document) path,
     mime_type := strncpy_array (mime_type new_document) mime, filename := strncpy_array (filename new_document) name,
     doc_type := DOCUMENT_TYPE_DEFAUL\<rparr>"

definition tg_photo :: "byte list \<Rightarrow> tg_document_t" where
  "tg_photo path = new_document\<lparr>filepath := strncpy_array (filepath new_document) path, doc_type := DOCUMENT_TYPE_PHOTO\<rparr>"

definition ascii :: "string \<Rightarrow> byte list" where
  "ascii = map of_char"

definition tg_voice_message :: "byte list \<Rightarrow> tg_document_t" where
  "tg_voice_message path = new_document\<lparr>mime_type := strncpy_array (mime_type new_document) (ascii ''audio/ogg''),
     filepath := strncpy_array (filepath new_document) path, doc_type := DOCUMENT_TYPE_AUDIO, audio_voice := True\<rparr>"

section \<open>Parts\<close>

definition part_size :: nat where "part_size = 524288"

definition c_empty :: "byte list \<Rightarrow> bool" where
  "c_empty m \<longleftrightarrow> take 1 m = [0]"

text \<open>fread into the block of a buffer.\<close>

definition fread_buf :: "buf_t \<Rightarrow> byte list \<Rightarrow> buf_t" where
  "fread_buf b bs = b\<lparr>aptr := (\<lambda>i. if data b \<le> i \<and> i < data b + length bs then bs ! (i - data b) else aptr b i),
     bsize := of_nat (length bs)\<rparr>"

definition accepted :: "tl_obj option \<Rightarrow> bool" where
  "accepted t \<longleftrightarrow> (case t of Some x \<Rightarrow> tl_id x = id_boolTrue | None \<Rightarrow> False)"

definition saveFilePart_query :: "u64 \<Rightarrow> u32 \<Rightarrow> buf_t \<Rightarrow> buf_t option" where
  "saveFilePart_query i k bytes = tl_method False d_saveFilePart
     [''file_id'' \<mapsto> ALong i, ''file_part'' \<mapsto> AInt k, ''bytes'' \<mapsto> ABuf bytes]"

text \<open>A refused part is sent again, without end: the count of the retries is only reported.\<close>

partial_function (option) send_part :: "'s call \<Rightarrow> u64 \<Rightarrow> u32 \<Rightarrow> buf_t \<Rightarrow> 's \<Rightarrow> 's option" where
  "send_part call i k bytes s = do {
     q \<leftarrow> saveFilePart_query i k bytes;
     r \<leftarrow> call q s;
     (if accepted (fst r) then Some (snd r) else send_part call i k bytes (snd r))
   }"

text \<open>A buffer after buf_free: its block is gone, so that reading it is undefined.\<close>

definition freed :: "buf_t \<Rightarrow> buf_t option" where
  "freed b = None"

partial_function (option) send_big_part :: "'s call \<Rightarrow> u64 \<Rightarrow> u32 \<Rightarrow> u32 \<Rightarrow> buf_t \<Rightarrow> 's \<Rightarrow> 's option" where
  "send_big_part call i k n bytes s = do {
     q \<leftarrow> tl_method False d_saveBigFilePart
       [''file_id'' \<mapsto> ALong i, ''file_part'' \<mapsto> AInt k, ''file_total_parts'' \<mapsto> AInt n, ''bytes'' \<mapsto> ABuf bytes];
     q \<leftarrow> freed q;
     r \<leftarrow> call q s;
     (if accepted (fst r) then Some (snd r) else send_big_part call i k n bytes (snd r))
   }"

type_synonym 'u progress = "'u \<Rightarrow> nat \<Rightarrow> u32 \<Rightarrow> bool \<times> 'u"

definition report :: "'u progress option \<Rightarrow> nat \<Rightarrow> u32 \<Rightarrow> 'u \<Rightarrow> bool \<times> 'u" where
  "report prog n sz u = (case prog of None \<Rightarrow> (False, u) | Some p \<Rightarrow> p u n sz)"

text \<open>The loop of the small files: the result of the progress callback is not read.\<close>

function send_parts :: "'s call \<Rightarrow> 'u progress option \<Rightarrow> u32 \<Rightarrow> u64 \<Rightarrow> u32 \<Rightarrow> byte list \<Rightarrow> buf_t \<Rightarrow> buf_t \<Rightarrow> 'u \<Rightarrow> 's \<Rightarrow>
    (u32 \<times> buf_t \<times> 'u \<times> 's) option" where
  "send_parts call prog sz i k fp bytes buf u s =
     (if fp = [] then Some (k, buf, u, s)
      else let part = take part_size fp; bytes = fread_buf bytes part in do {
        buf \<leftarrow> buf_cat buf bytes;
        s \<leftarrow> send_part call i k bytes s;
        send_parts call prog sz i (k + 1) (drop part_size fp) bytes buf (snd (report prog (length part) sz u)) s
      })"
  by pat_completeness auto
termination by (relation "measure (\<lambda>(call, prog, sz, i, k, fp, _). length fp)") (auto simp: part_size_def)

text \<open>The loop of the big files ends early when the callback asks for it.\<close>

function send_big_parts :: "'s call \<Rightarrow> 'u progress option \<Rightarrow> u32 \<Rightarrow> u64 \<Rightarrow> u32 \<Rightarrow> u32 \<Rightarrow> byte list \<Rightarrow> buf_t \<Rightarrow> buf_t \<Rightarrow> 'u \<Rightarrow> 's \<Rightarrow>
    (bool \<times> u32 \<times> buf_t \<times> 'u \<times> 's) option" where
  "send_big_parts call prog sz i k n fp bytes buf u s =
     (if fp = [] then Some (False, k, buf, u, s)
      else let part = take part_size fp; bytes = fread_buf bytes part in do {
        buf \<leftarrow> buf_cat buf bytes;
        s \<leftarrow> send_big_part call i k n bytes s;
        (let r = report prog (length part) sz u in
         if fst r then Some (True, k, buf, snd r, s)
         else send_big_parts call prog sz i (k + 1) n (drop part_size fp) bytes buf (snd r) s)
      })"
  by pat_completeness auto
termination by (relation "measure (\<lambda>(call, prog, sz, i, k, n, fp, _). length fp)") (auto simp: part_size_def)

section \<open>The media\<close>

definition hex_digit :: "byte \<Rightarrow> byte" where
  "hex_digit x = (if x < 10 then 48 + x else 87 + x)"

text \<open>The loop of sprintf, whose destination is also its argument, as the append that it is meant
  to be; the array is longer than the text.\<close>

definition md5_checksum :: "byte list \<Rightarrow> byte list" where
  "md5_checksum h = concat (map (\<lambda>x. [hex_digit (drop_bit 4 x), hex_digit (x AND 15)]) h) @ [0]"

definition document_attributes :: "tg_document_t \<Rightarrow> buf_t list option" where
  "document_attributes d = do {
     fn \<leftarrow> (if c_empty (filename d) then Some []
           else map_option (\<lambda>b. [b]) (tl_method False d_attributeFilename [''file_name'' \<mapsto> AMem (filename d)]));
     st \<leftarrow> (if has_stickers d then map_option (\<lambda>b. [b]) (tl_method False d_attributeHasStickers Map.empty) else Some []);
     ty \<leftarrow> (case doc_type d of
         DOCUMENT_TYPE_IMAGE \<Rightarrow> map_option (\<lambda>b. [b]) (tl_method False d_attributeImageSize
           [''w'' \<mapsto> AInt (image_w d), ''h'' \<mapsto> AInt (image_h d)])
       | DOCUMENT_TYPE_VIDEO \<Rightarrow> map_option (\<lambda>b. [b]) (tl_method False d_attributeVideo
           ([''round_message'' \<mapsto> ABool False, ''supports_streaming'' \<mapsto> ABool (video_supports_streaming d),
             ''nosound'' \<mapsto> ABool (video_no_sound d), ''duration'' \<mapsto> ADouble (video_duration d),
             ''w'' \<mapsto> AInt (video_w d), ''h'' \<mapsto> AInt (video_h d)]
            (''preload_prefix_size'' := map_option AInt (video_preload_prefix_size d),
             ''video_start_ts'' := map_option ADouble (video_start_ts d))))
       | DOCUMENT_TYPE_AUDIO \<Rightarrow> map_option (\<lambda>b. [b]) (tl_method False d_attributeAudio
           ([''voice'' \<mapsto> ABool (audio_voice d), ''duration'' \<mapsto> AInt (audio_duration d),
             ''title'' \<mapsto> AMem (audio_title d), ''performer'' \<mapsto> AMem (audio_perfomer d)]
            (''waveform'' := map_option ABuf (audio_waveform d))))
       | _ \<Rightarrow> Some []);
     Some (fn @ st @ ty)
   }"

definition document_media :: "tg_document_t \<Rightarrow> buf_t \<Rightarrow> buf_t option" where
  "document_media d inputFile =
     (if doc_type d = DOCUMENT_TYPE_PHOTO
      then tl_method False d_inputMediaUploadedPhoto
        ([''spoiler'' \<mapsto> ABool (spoiler d), ''file'' \<mapsto> ABuf inputFile]
         (''stickers'' := map_option (\<lambda>xs. AVec (map ABuf xs)) (stickers d), ''ttl_seconds'' := map_option AInt (ttl_seconds d)))
      else do {
        attrs \<leftarrow> document_attributes d;
        tl_method False d_inputMediaUploadedDocument
          ([''nosound_video'' \<mapsto> ABool (no_sound_video d), ''force_file'' \<mapsto> ABool (force_file d), ''spoiler'' \<mapsto> ABool (spoiler d),
            ''file'' \<mapsto> ABuf inputFile, ''mime_type'' \<mapsto> AMem (mime_type d), ''attributes'' \<mapsto> AVec (map ABuf attrs)]
           (''stickers'' := map_option (\<lambda>xs. AVec (map ABuf xs)) (stickers d), ''ttl_seconds'' := map_option AInt (ttl_seconds d)))
      })"

definition c_text :: "byte list option \<Rightarrow> byte list" where
  "c_text m = (case m of None \<Rightarrow> [0] | Some m \<Rightarrow> m)"

definition sendMedia_query :: "tg_peer_t \<Rightarrow> buf_t \<Rightarrow> byte list option \<Rightarrow> u64 \<Rightarrow> buf_t option" where
  "sendMedia_query peer media message rid = do {
     p \<leftarrow> tg_inputPeer peer;
     tl_method False d_sendMedia
       [''silent'' \<mapsto> ABool False, ''background'' \<mapsto> ABool False, ''clear_draft'' \<mapsto> ABool False,
        ''noforwards'' \<mapsto> ABool False, ''update_stickersets_order'' \<mapsto> ABool False, ''invert_media'' \<mapsto> ABool False,
        ''peer'' \<mapsto> ABuf p, ''media'' \<mapsto> ABuf media, ''message'' \<mapsto> AMem (c_text message), ''random_id'' \<mapsto> ALong rid]
   }"

definition rand64 :: "(nat \<Rightarrow> byte) \<Rightarrow> u64 option" where
  "rand64 rand = do { b \<leftarrow> buf_rand rand 8; buf_get_ui64 b }"

text \<open>The identifiers of the file and of the message come from two draws, \<^theory_text>\<open>r1\<close> and
  \<^theory_text>\<open>r2\<close>; \<^theory_text>\<open>fp\<close> is the file, if it opens, and \<^theory_text>\<open>upd\<close> is tg_do_updates.\<close>

definition upload_file :: "'s call \<Rightarrow> 'u progress option \<Rightarrow> (byte list \<Rightarrow> byte list) \<Rightarrow> tg_document_t \<Rightarrow> byte list \<Rightarrow> u64 \<Rightarrow> 'u \<Rightarrow> 's \<Rightarrow>
    (buf_t option \<times> 'u \<times> 's) option" where
  "upload_file call prog md5 d fp i u s = (let sz = of_nat (length fp) in
     if 10485760 <s sz
     then (if c_empty (filename d) then Some (None, u, s)
           else do {
             bytes \<leftarrow> buf_realloc buf_new (of_nat part_size);
             (stop, k, buf, u, s) \<leftarrow> send_big_parts call prog sz i 0 (sz div of_nat part_size + (if sz mod of_nat part_size = 0 then 0 else 1))
               fp bytes buf_new u s;
             (if stop then Some (None, u, s)
              else do {
                f \<leftarrow> tl_method False d_inputFileBig [''id'' \<mapsto> ALong i, ''parts'' \<mapsto> AInt k, ''name'' \<mapsto> AMem (filename d)];
                Some (Some f, u, s)
              })
           })
     else do {
       bytes \<leftarrow> buf_realloc buf_new (of_nat part_size);
       (k, buf, u, s) \<leftarrow> send_parts call prog sz i 0 fp bytes buf_new u s;
       bs \<leftarrow> peeks buf 0 (unat (bsize buf));
       f \<leftarrow> tl_method False d_inputFile [''id'' \<mapsto> ALong i, ''parts'' \<mapsto> AInt k, ''name'' \<mapsto> AMem (filename d),
         ''md5_checksum'' \<mapsto> AMem (md5_checksum (md5 bs))];
       Some (Some f, u, s)
     })"

definition tg_document_send :: "'s call \<Rightarrow> (tl_obj \<Rightarrow> 's \<Rightarrow> 's option) \<Rightarrow> 'u progress option \<Rightarrow> (byte list \<Rightarrow> byte list) \<Rightarrow>
    (nat \<Rightarrow> byte) \<Rightarrow> (nat \<Rightarrow> byte) \<Rightarrow> tg_peer_t \<Rightarrow> tg_document_t \<Rightarrow> byte list option \<Rightarrow> byte list option \<Rightarrow> 'u \<Rightarrow> 's \<Rightarrow>
    (nat \<times> 'u \<times> 's) option" where
  "tg_document_send call upd prog md5 r1 r2 peer d fp message u s =
     (if c_empty (filepath d) then None
      else (case fp of
        None \<Rightarrow> Some (1, u, s)
      | Some fp \<Rightarrow> do {
          i \<leftarrow> rand64 r1;
          (f, u, s) \<leftarrow> upload_file call prog md5 d fp i u s;
          (case f of
             None \<Rightarrow> Some (1, u, s)
           | Some inputFile \<Rightarrow> do {
               media \<leftarrow> document_media d inputFile;
               rid \<leftarrow> rand64 r2;
               sendMedia \<leftarrow> sendMedia_query peer media message rid;
               (t, s) \<leftarrow> call sendMedia s;
               (case t of
                  None \<Rightarrow> Some (1, u, s)
                | Some x \<Rightarrow> do { s \<leftarrow> upd x s; Some (0, u, s) })
             })
        }))"

section \<open>A contact and a place\<close>

definition send_media :: "'s call \<Rightarrow> (nat \<Rightarrow> byte) \<Rightarrow> tg_peer_t \<Rightarrow> buf_t \<Rightarrow> byte list option \<Rightarrow> 's \<Rightarrow> (nat \<times> 's) option" where
  "send_media call rand peer media message s = do {
     rid \<leftarrow> rand64 rand;
     sendMedia \<leftarrow> sendMedia_query peer media message rid;
     (t, s) \<leftarrow> call sendMedia s;
     (case t of
        None \<Rightarrow> Some (1, s)
      | Some x \<Rightarrow> Some (if tl_id x = id_rpc_error then 1 else 0, s))
   }"

definition tg_contact_send :: "'s call \<Rightarrow> (nat \<Rightarrow> byte) \<Rightarrow> tg_peer_t \<Rightarrow> byte list \<Rightarrow> byte list \<Rightarrow> byte list \<Rightarrow> byte list \<Rightarrow>
    byte list option \<Rightarrow> 's \<Rightarrow> (nat \<times> 's) option" where
  "tg_contact_send call rand peer phone_number first_name last_name vcard message s = do {
     media \<leftarrow> tl_method False d_inputMediaContact [''phone_number'' \<mapsto> AMem phone_number, ''first_name'' \<mapsto> AMem first_name,
       ''last_name'' \<mapsto> AMem last_name, ''vcard'' \<mapsto> AMem vcard];
     send_media call rand peer media message s
   }"

definition tg_send_geopoint :: "'s call \<Rightarrow> (nat \<Rightarrow> byte) \<Rightarrow> tg_peer_t \<Rightarrow> u64 \<Rightarrow> u64 \<Rightarrow> byte list option \<Rightarrow> 's \<Rightarrow> (nat \<times> 's) option" where
  "tg_send_geopoint call rand peer lat lon message s = do {
     p \<leftarrow> tl_method False d_inputGeoPoint [''lat'' \<mapsto> ADouble lat, ''long'' \<mapsto> ADouble lon];
     media \<leftarrow> tl_method False d_inputMediaGeoPoint [''geo_point'' \<mapsto> ABuf p];
     send_media call rand peer media message s
   }"

end
