(* ===== verification/FilesProps.thy ===== *)
theory FilesProps
  imports Upload Writer "HOL-Library.Sublist"
begin

text \<open>
  Downloads, photos and uploads of files: what the server receives and what the caller gets.
\<close>

section \<open>The request for a part\<close>

definition mand_arg :: "string \<Rightarrow> string \<Rightarrow> arg_t" where
  "mand_arg x ty = \<lparr>arg_name = x, arg_type = Some ty, flagn = 0, flagb = 0\<rparr>"

definition flag_arg :: "string \<Rightarrow> string \<Rightarrow> nat \<Rightarrow> arg_t" where
  "flag_arg x ty bt = \<lparr>arg_name = x, arg_type = Some ty, flagn = 1, flagb = bt\<rparr>"

definition flags_word :: arg_t where
  "flags_word = \<lparr>arg_name = ''flags'', arg_type = None, flagn = 0, flagb = 0\<rparr>"

lemma d_getFile_id: "m_id d_getFile = 0xbe5335be"
  by code_simp

lemma d_getFile_args: "m_args d_getFile = [flags_word, flag_arg ''precise'' ''true'' 0,
    flag_arg ''cdn_supported'' ''true'' 1, mand_arg ''location'' ''InputFileLocation'',
    mand_arg ''offset'' ''long'', mand_arg ''limit'' ''int'']"
  by code_simp

definition getFile_image :: "byte list \<Rightarrow> u64 \<Rightarrow> byte list" where
  "getFile_image l off = le_bytes 4 (0xbe5335be :: u32) @ le_bytes 4 (0 :: u32) @ l @ le_bytes 8 off @ le_bytes 4 (1048576 :: u32)"

lemma getFile_query_ok:
  assumes "views loc l" and "length l \<le> 8000"
  shows "ok (getFile_query loc off) (\<lambda>q. views q (getFile_image l (scast off)))"
proof -
  let ?vs = "[VNone, VNone, VNone, VFix l, VLong (scast off), VInt 1048576]"
  have img: "enc_val (VObj d_getFile ?vs) = getFile_image l (scast off)"
    by (simp add: d_getFile_id d_getFile_args getFile_image_def flags_word_def flag_arg_def mand_arg_def is_flags_def)
  show ?thesis
    unfolding getFile_query_def
  proof (rule ok_mono [OF tl_method_written [of False _ d_getFile ?vs]])
    show "length (enc_val (VObj d_getFile ?vs)) \<le> 8192"
      using assms(2) unfolding img by (simp add: getFile_image_def)
    show "wf_args 0 (m_args d_getFile)"
      by (simp add: d_getFile_args flags_word_def flag_arg_def mand_arg_def is_flags_def)
    show "list_all2 (carries False [''precise'' \<mapsto> ABool False, ''cdn_supported'' \<mapsto> ABool False, ''location'' \<mapsto> ABuf loc,
      ''offset'' \<mapsto> ALong (scast off), ''limit'' \<mapsto> AInt 1048576]) (m_args d_getFile) ?vs"
      using assms(1) by (simp add: d_getFile_args flags_word_def flag_arg_def mand_arg_def carries_def ser_kind_def
        vector_of_def op_passes_def passes_defs as_defs)
  qed (auto simp only: img small_def owns_def)
qed

section \<open>Downloads\<close>

text \<open>A server that answers a request for the bytes from an offset with some of them.\<close>

definition upload_answer :: "byte list \<Rightarrow> tl_obj \<Rightarrow> bool" where
  "upload_answer p t \<longleftrightarrow> tl_id t = id_upload_file \<and> fld_obj t ''type'' \<noteq> None \<and> fld_bytes t ''bytes'' = p"

definition serves :: "'s call \<Rightarrow> byte list \<Rightarrow> byte list \<Rightarrow> bool" where
  "serves call l bs \<longleftrightarrow> (\<forall>off q s. off < length bs \<longrightarrow> views q (getFile_image l (of_nat off)) \<longrightarrow>
     (\<exists>p t s'. call q s = Some (Some t, s') \<and> upload_answer p t \<and> p \<noteq> [] \<and> prefix p (drop off bs)))"

text \<open>The parts as a callback takes them, until it asks to stop.\<close>

fun feed :: "('u \<Rightarrow> byte list \<Rightarrow> bool \<times> 'u) \<Rightarrow> byte list list \<Rightarrow> 'u \<Rightarrow> bool \<times> 'u" where
  "feed f [] u = (False, u)"
| "feed f (p # ps) u = (if fst (f u p) then (True, snd (f u p)) else feed f ps (snd (f u p)))"

definition fed :: "('u \<Rightarrow> byte list \<Rightarrow> bool \<times> 'u) \<Rightarrow> 'u \<Rightarrow> byte list \<Rightarrow> byte list list \<Rightarrow> bool" where
  "fed f u bs ps \<longleftrightarrow> (if fst (feed f ps u) then prefix (concat ps) bs else concat ps = bs)"

lemma fed_Cons: "fed f u (p @ bs) (p # ps) \<longleftrightarrow> fst (f u p) \<and> prefix (concat ps) bs \<or> \<not> fst (f u p) \<and> fed f (snd (f u p)) bs ps"
  by (simp add: fed_def)

lemma signed_of_nat:
  assumes "n < 2 ^ 31"
  shows "sint (of_nat n :: u32) = int n" and "(scast (of_nat n :: u32) :: u64) = of_nat n"
proof -
  show "sint (of_nat n :: u32) = int n"
    using assms by (simp add: signed_of_nat signed_take_bit_int_eq_self)
  then show "(scast (of_nat n :: u32) :: u64) = of_nat n"
    by (metis of_int_of_nat_eq scast_eq)
qed

lemma signed_less_of_nat: "m < 2 ^ 31 \<Longrightarrow> n < 2 ^ 31 \<Longrightarrow> (of_nat m <s (of_nat n :: u32)) = (m < n)"
  by (simp add: word_sless_alt signed_of_nat(1))

lemma get_file_loop_ok:
  assumes loc: "views loc l" "length l \<le> 8000" and len: "length bs < 2 ^ 31" "bs \<noteq> []" and srv: "serves call l bs"
  shows "off \<le> length bs \<Longrightarrow> \<exists>ps s'. get_file_loop call (Some (\<lambda>u t. f u (file_bytes t))) loc (of_nat (length bs)) (of_nat off) u s
    = Some (0, snd (feed f ps u), s') \<and> fed f u (drop off bs) ps"
proof (induction "length bs - off" arbitrary: off u s rule: less_induct)
  case less
  let ?loop = "get_file_loop call (Some (\<lambda>u t. f u (file_bytes t))) loc (of_nat (length bs))"
  have pos: "(0 :: u32) <s of_nat (length bs)"
    using signed_less_of_nat [of 0 "length bs"] len by simp
  then have nz: "(of_nat (length bs) :: u32) \<noteq> 0"
    by auto
  show ?case
  proof (cases "off = length bs")
    case True
    then have "?loop (of_nat off) u s = Some (0, u, s)"
      using pos by (subst get_file_loop.simps) (simp add: signed.less_irrefl)
    then show ?thesis
      using True by (intro exI [of _ "[]"] exI [of _ s]) (simp add: fed_def)
  next
    case False
    then have lt: "off < length bs"
      using less.prems by simp
    obtain q where q: "getFile_query loc (of_nat off) = Some q" "views q (getFile_image l (of_nat off))"
      using getFile_query_ok [OF loc, of "of_nat off"] lt len(1) by (auto simp: ok_def signed_of_nat split: option.splits)
    obtain p t s' where a: "call q s = Some (Some t, s')" "upload_answer p t" "p \<noteq> []" "prefix p (drop off bs)"
      using srv lt q(2) unfolding serves_def by blast
    then obtain r where r: "drop off bs = p @ r"
      by (auto simp: prefix_def)
    then have next_off: "off + length p \<le> length bs" "drop (off + length p) bs = r"
      using lt by (metis (no_types, lifting) length_append length_drop le_add1 le_diff_conv2 add.commute less_imp_le)
        (metis r drop_drop add.commute append_eq_conv_conj)
    have sl: "of_nat off <s (of_nat (length bs) :: u32)"
      using signed_less_of_nat lt len(1) by simp
    obtain ty where ty: "fld_obj t ''type'' = Some ty"
      using a(2) by (auto simp: upload_answer_def)
    define u' where "u' = snd (f u p)"
    have step: "?loop (of_nat off) u s = (if fst (f u p) then Some (0, u', s') else ?loop (of_nat (off + length p)) u' s')"
      using nz sl q(1) a(1,2) ty
      by (simp add: get_file_loop.simps [of call _ loc _ "of_nat off"] upload_answer_def tg_file_from_tl_def u'_def)
    show ?thesis
    proof (cases "fst (f u p)")
      case True
      then show ?thesis
        using step r by (intro exI [of _ "[p]"] exI [of _ s']) (simp add: fed_def u'_def)
    next
      case False
      have "length bs - (off + length p) < length bs - off"
        using a(3) lt by (simp add: diff_less_mono2)
      then obtain ps s'' where "?loop (of_nat (off + length p)) u' s' = Some (0, snd (feed f ps u'), s'')" "fed f u' r ps"
        using less.hyps [OF _ next_off(1), of u' s'] next_off(2) by metis
      then show ?thesis
        using step False r by (intro exI [of _ "p # ps"] exI [of _ s'']) (simp add: fed_Cons u'_def)
    qed
  qed
qed

section \<open>Uploads\<close>

lemma d_saveFilePart_id: "m_id d_saveFilePart = 0xb304a621"
  by code_simp

lemma d_saveFilePart_args: "m_args d_saveFilePart = [mand_arg ''file_id'' ''long'', mand_arg ''file_part'' ''int'',
    mand_arg ''bytes'' ''bytes'']"
  by code_simp

definition saveFilePart_image :: "u64 \<Rightarrow> u32 \<Rightarrow> byte list \<Rightarrow> byte list" where
  "saveFilePart_image i k p = ((le_bytes 4 (0xb304a621 :: u32) @ le_bytes 8 i) @ le_bytes 4 k) @ tl_string p"

lemma owns_put_bytes:
  assumes "views x p" and "owns b xs" and "length xs + length p + 17 < 2 ^ 32"
  shows "ok (put_bytes x b) (\<lambda>b'. owns b' (xs @ tl_string p))"
proof -
  have n: "unat (bsize x) = length p"
    using assms(1) by (rule views_length)
  have "length p < 2 ^ 64"
    using assms(3) by simp
  then have u: "unat (ucast (bsize x) :: u64) = length p"
    using n by (simp add: unsigned_ucast_eq take_bit_nat_eq_self)
  have pk: "peeks x 0 (unat (bsize x)) = Some p"
    using views_peeks [OF assms(1), of 0 "length p"] n by simp
  have "ok (serialize_bytes p (ucast (bsize x))) (\<lambda>s. owns s (tl_string p))"
    using serialize_bytes_ok [OF u, of "[]"] assms(3) by simp
  then show ?thesis
    unfolding put_bytes_def pk bind.bind_lunit
    by (rule ok_bind) (rule buf_cat_owns [OF assms(2)], use assms(3) length_tl_string_le [of p] in auto)
qed

text \<open>A part is longer than the block a buffer starts with, but its request has no flags word.\<close>

lemma saveFilePart_query_ok:
  assumes "views bytes p" and "length p \<le> part_size"
  shows "ok (saveFilePart_query i k bytes) (\<lambda>q. views q (saveFilePart_image i k p))"
proof -
  let ?env = "[''file_id'' \<mapsto> ALong i, ''file_part'' \<mapsto> AInt k, ''bytes'' \<mapsto> ABuf bytes]"
  have "saveFilePart_query i k bytes = do {
      b \<leftarrow> buf_add_ui32 0xb304a621;
      b \<leftarrow> buf_cat_ui64 b i;
      b \<leftarrow> buf_cat_ui32 b k;
      put_bytes bytes b
    }"
    by (simp add: saveFilePart_query_def tl_method_def d_saveFilePart_id d_saveFilePart_args mand_arg_def emit_typed_kind
      ser_kind_def flag_of_def exec_put_def put_op_def as_defs)
  moreover have "ok \<dots> (\<lambda>q. owns q (saveFilePart_image i k p))"
    unfolding saveFilePart_image_def
    by (rule ok_bind [OF buf_add_ui_ok(1)], rule ok_bind [OF buf_cat_ui_ok(2)], assumption, simp,
        rule ok_bind [OF buf_cat_ui_ok(1)], assumption, simp, rule owns_put_bytes [OF assms(1)], assumption)
      (use assms(2) in \<open>simp add: part_size_def\<close>)
  ultimately show ?thesis
    by (auto elim: ok_mono)
qed

declare send_parts.simps [simp del]

text \<open>A server that keeps the parts of a file under their numbers, and that refuses a part only
  finitely often in a row.\<close>

definition keeps :: "'s call \<Rightarrow> u64 \<Rightarrow> ('s \<Rightarrow> u32 \<Rightarrow> byte list option) \<Rightarrow> ('s \<Rightarrow> nat) \<Rightarrow> bool" where
  "keeps call i got patience \<longleftrightarrow> (\<forall>q k p s. length p \<le> part_size \<longrightarrow> views q (saveFilePart_image i k p) \<longrightarrow>
     (\<exists>t s'. call q s = Some (t, s') \<and>
       (if accepted t then got s' = (got s)(k \<mapsto> p) else got s' = got s \<and> patience s' < patience s)))"

lemma send_part_ok:
  assumes srv: "keeps call i got patience" and b: "views bytes p" "length p \<le> part_size"
  shows "\<exists>s'. send_part call i k bytes s = Some s' \<and> got s' = (got s)(k \<mapsto> p)"
proof (induction "patience s" arbitrary: s rule: less_induct)
  case less
  obtain q where q: "saveFilePart_query i k bytes = Some q" "views q (saveFilePart_image i k p)"
    using saveFilePart_query_ok [OF b, of i k] by (auto simp: ok_def split: option.splits)
  obtain t s' where a: "call q s = Some (t, s')"
    "if accepted t then got s' = (got s)(k \<mapsto> p) else got s' = got s \<and> patience s' < patience s"
    using srv q(2) b(2) unfolding keeps_def by blast
  have "send_part call i k bytes s = (if accepted t then Some s' else send_part call i k bytes s')"
    using q(1) a(1) by (simp add: send_part.simps [of call i k bytes s])
  with a(2) less.hyps [of s'] show ?case
    by (cases "accepted t") auto
qed

function chunks :: "byte list \<Rightarrow> byte list list" where
  "chunks bs = (if bs = [] then [] else take part_size bs # chunks (drop part_size bs))"
  by pat_completeness auto
termination by (relation "measure length") (auto simp: part_size_def)

declare chunks.simps [simp del]

lemma concat_chunks: "concat (chunks bs) = bs"
  by (induction bs rule: chunks.induct) (simp add: chunks.simps)

lemma length_chunks: "(length (chunks bs) - 1) * part_size \<le> length bs"
proof (induction bs rule: chunks.induct)
  case (1 bs)
  show ?case
  proof (cases "drop part_size bs = []")
    case True
    then show ?thesis
      by (cases "bs = []") (simp_all add: chunks.simps [of bs] chunks.simps [of "[]"])
  next
    case False
    then have "bs \<noteq> []" and "chunks (drop part_size bs) \<noteq> []"
      by (auto simp: chunks.simps [of "drop part_size bs"])
    then show ?thesis
      using 1 False by (cases "chunks (drop part_size bs)") (simp_all add: chunks.simps [of bs])
  qed
qed

fun store :: "u32 \<Rightarrow> byte list list \<Rightarrow> (u32 \<Rightarrow> byte list option) \<Rightarrow> (u32 \<Rightarrow> byte list option)" where
  "store k [] g = g"
| "store k (p # ps) g = store (k + 1) ps (g(k \<mapsto> p))"

lemma store_other: "(\<And>j. j < length ps \<Longrightarrow> k + of_nat j \<noteq> x) \<Longrightarrow> store k ps g x = g x"
proof (induction ps arbitrary: k g)
  case (Cons p ps)
  have "k + 1 + of_nat j \<noteq> x" if "j < length ps" for j
    using Cons.prems [of "Suc j"] that by (simp add: add.assoc)
  moreover have "k \<noteq> x"
    using Cons.prems [of 0] by simp
  ultimately show ?case
    using Cons.IH by simp
qed simp

lemma store_nth: "j < length ps \<Longrightarrow> length ps < 2 ^ 32 \<Longrightarrow> store k ps g (k + of_nat j) = Some (ps ! j)"
proof (induction ps arbitrary: k g j)
  case (Cons p ps)
  show ?case
  proof (cases j)
    case 0
    have "k + 1 + of_nat m \<noteq> k" if "m < length ps" for m
    proof
      assume "k + 1 + of_nat m = k"
      then have "(of_nat (Suc m) :: u32) = 0"
        by (metis add.assoc add_cancel_right_right of_nat_Suc)
      then have "unat (of_nat (Suc m) :: u32) = 0"
        by (simp only: unsigned_0)
      moreover have "unat (of_nat (Suc m) :: u32) = Suc m"
        using that Cons.prems(2) by (intro unat_of_nat_u32) simp
      ultimately show False
        by simp
    qed
    with 0 show ?thesis
      using store_other [of ps "k + 1" k] by simp
  next
    case (Suc m)
    have "k + of_nat j = (k + 1) + of_nat m"
      using Suc by simp
    then show ?thesis
      using Cons.IH [of m "k + 1"] Cons.prems Suc by (simp add: add.assoc)
  qed
qed simp

lemma fread_buf_views:
  "data b = 0 \<Longrightarrow> unat (asize b) = part_size \<Longrightarrow> length p \<le> part_size \<Longrightarrow> views (fread_buf b p) p"
  by (intro viewsI) (auto simp: fread_buf_def part_size_def)

lemma send_parts_ok:
  assumes srv: "keeps call i got patience"
  shows "data bytes = 0 \<Longrightarrow> unat (asize bytes) = part_size \<Longrightarrow> owns buf xs \<Longrightarrow> length xs + length fp + 1 < 2 ^ 32 \<Longrightarrow>
    \<exists>buf' u' s'. send_parts call prog sz i k fp bytes buf u s = Some (k + of_nat (length (chunks fp)), buf', u', s') \<and>
      owns buf' (xs @ fp) \<and> got s' = store k (chunks fp) (got s)"
proof (induction fp arbitrary: k bytes buf xs u s rule: chunks.induct)
  case (1 fp)
  show ?case
  proof (cases "fp = []")
    case True
    with 1 show ?thesis
      by (simp add: send_parts.simps chunks.simps)
  next
    case False
    let ?p = "take part_size fp"
    let ?b = "fread_buf bytes ?p"
    have v: "views ?b ?p"
      by (rule fread_buf_views) (use 1 in auto)
    obtain buf1 where b1: "buf_cat buf ?b = Some buf1" "owns buf1 (xs @ ?p)"
    proof -
      have "length xs + length ?p + 1 < 2 ^ 32"
        using 1(5) by simp
      from buf_cat_owns [OF 1(4) v this] show ?thesis
        by (auto simp: ok_def intro: that split: option.splits)
    qed
    obtain s1 where s1: "send_part call i k ?b s = Some s1" "got s1 = (got s)(k \<mapsto> ?p)"
      using send_part_ok [OF srv v] by auto
    define u1 where "u1 = snd (report prog (length ?p) sz u)"
    have len: "length (xs @ ?p) + length (drop part_size fp) + 1 < 2 ^ 32"
      using 1(5) by simp
    obtain buf' u' s' where "send_parts call prog sz i (k + 1) (drop part_size fp) ?b buf1 u1 s1 =
        Some (k + 1 + of_nat (length (chunks (drop part_size fp))), buf', u', s')"
      "owns buf' ((xs @ ?p) @ drop part_size fp)" "got s' = store (k + 1) (chunks (drop part_size fp)) (got s1)"
      using 1(1) [OF False _ _ b1(2) len, of ?b "k + 1" u1 s1] 1(2,3) by (auto simp: fread_buf_def)
    then show ?thesis
      using False b1 s1 by (simp add: send_parts.simps [of call prog sz i k fp] chunks.simps [of fp] Let_def u1_def
        add.assoc del: send_parts.simps)
  qed
qed

lemma d_inputFile_id: "m_id d_inputFile = 0xf52ff27f"
  by code_simp

lemma d_inputFile_args: "m_args d_inputFile = [mand_arg ''id'' ''long'', mand_arg ''parts'' ''int'',
    mand_arg ''name'' ''string'', mand_arg ''md5_checksum'' ''string'']"
  by code_simp

definition hex_text :: "byte list \<Rightarrow> byte list" where
  "hex_text h = concat (map (\<lambda>x. [hex_digit (drop_bit 4 x), hex_digit (x AND 15)]) h)"

definition inputFile_image :: "u64 \<Rightarrow> u32 \<Rightarrow> byte list \<Rightarrow> byte list \<Rightarrow> byte list" where
  "inputFile_image i n name md = le_bytes 4 (0xf52ff27f :: u32) @ le_bytes 8 i @ le_bytes 4 n @ tl_string name @ tl_string md"

lemma hex_digit_nonzero:
  assumes "unat x < 16"
  shows "hex_digit x \<noteq> 0"
proof -
  have "unat (hex_digit x) \<noteq> 0"
    using assms by (simp add: hex_digit_def unat_word_ariths)
  then show ?thesis
    by auto
qed

lemma hex_text_nonzero: "0 \<notin> set (hex_text h)"
proof -
  have "unat (drop_bit 4 x) < 16" for x :: byte
  proof -
    have "unat (drop_bit 4 x) = unat x div 16"
      unfolding unsigned_drop_bit_eq using unsigned_less [of x, where 'a = nat]
      by (simp add: drop_bit_eq_div take_bit_nat_eq_self)
    then show ?thesis
      using unsigned_less [of x, where 'a = nat] by simp
  qed
  moreover have "unat (x AND 15) < 16" for x :: byte
    using word_and_le1 [of x 15] by (simp add: word_le_nat_alt)
  ultimately show ?thesis
    using hex_digit_nonzero by (fastforce simp: hex_text_def)
qed

lemma length_hex_text: "length (hex_text h) = 2 * length h"
  by (induction h) (simp_all add: hex_text_def)

lemma inputFile_ok:
  assumes name: "string_at nm name" "length name \<le> 255" and h: "length h = 16"
  shows "ok (tl_method False d_inputFile [''id'' \<mapsto> ALong i, ''parts'' \<mapsto> AInt n, ''name'' \<mapsto> AMem nm,
      ''md5_checksum'' \<mapsto> AMem (md5_checksum h)]) (\<lambda>f. views f (inputFile_image i n name (hex_text h)))"
proof -
  let ?vs = "[VLong i, VInt n, VStr name, VStr (hex_text h)]"
  have img: "enc_val (VObj d_inputFile ?vs) = inputFile_image i n name (hex_text h)"
    by (simp add: d_inputFile_id d_inputFile_args inputFile_image_def mand_arg_def is_flags_def)
  have sum: "string_at (md5_checksum h) (hex_text h)"
    using hex_text_nonzero by (simp add: string_at_def md5_checksum_def hex_text_def)
  show ?thesis
  proof (rule ok_mono [OF tl_method_written [of False _ d_inputFile ?vs]])
    show "length (enc_val (VObj d_inputFile ?vs)) \<le> 8192"
      unfolding img using name(2) h length_tl_string_le [of name] length_tl_string_le [of "hex_text h"]
      by (simp add: inputFile_image_def length_hex_text)
    show "wf_args 0 (m_args d_inputFile)"
      by (simp add: d_inputFile_args mand_arg_def is_flags_def)
    show "list_all2 (carries False [''id'' \<mapsto> ALong i, ''parts'' \<mapsto> AInt n, ''name'' \<mapsto> AMem nm,
      ''md5_checksum'' \<mapsto> AMem (md5_checksum h)]) (m_args d_inputFile) ?vs"
      using name(1) sum by (simp add: d_inputFile_args mand_arg_def carries_def ser_kind_def
        vector_of_def op_passes_def passes_defs as_defs)
  qed (auto simp only: img small_def owns_def)
qed

lemma tg_get_file_zero: "tg_get_file call loc 0 cb u s = None"
  by (simp add: tg_get_file_def tg_get_file_with_progress_def get_file_loop.simps [of call cb loc 0])

text \<open>The request for a part of a big file is freed before it is sent.\<close>

lemma big_upload_undefined:
  assumes "10485760 < length fp" and "length fp < 2 ^ 31" and "\<not> c_empty (filename d)"
  shows "upload_file call prog md5 d fp i u s = None"
proof -
  have big: "(10485760 :: u32) <s of_nat (length fp)"
    using signed_less_of_nat [of 10485760 "length fp"] assms(1,2) by simp
  have "send_big_part call i k n b s = None" for k n b
    by (simp add: send_big_part.simps [of call i k n b s] freed_def)
  moreover have "fp \<noteq> []"
    using assms(1) by auto
  ultimately have "send_big_parts call prog sz i k n fp bytes buf u s = None" for sz k n bytes buf
    by (simp add: send_big_parts.simps [of call prog sz i k n fp] Let_def)
  then show ?thesis
    using big assms(3) by (simp add: upload_file_def)
qed

section \<open>Properties\<close>

text \<open>C34. A download ends and is complete: if the server answers every request for the bytes from an
  offset of a file with some of them, then the download of a file of that size, shorter than 2 GB,
  returns success, and the callback is given parts that, in order, are the file; a callback that asks to
  stop ends the download there, and has been given a prefix of the file.\<close>

theorem download_completes:
  assumes "views loc l" and "length l \<le> 8000" and "length bs < 2 ^ 31" and "bs \<noteq> []" and "serves call l bs"
  shows "\<exists>ps s'. tg_get_file_with_progress call loc (of_nat (length bs)) (Some (\<lambda>u t. f u (file_bytes t))) u s
      = Some (0, snd (feed f ps u), s') \<and>
    (if fst (feed f ps u) then prefix (concat ps) bs else concat ps = bs)"
  using get_file_loop_ok [OF assms, of 0 f u s] by (simp add: tg_get_file_with_progress_def fed_def)

text \<open>A server with a file of three bytes that answers with two bytes at most.\<close>

definition demo_location :: buf_t where
  "demo_location = buf_of [1, 2, 3]"

definition demo_file_server :: "nat call" where
  "demo_file_server q s = (case peeks q 11 8 of
     None \<Rightarrow> Some (None, s)
   | Some xs \<Rightarrow> Some (Some (TL id_upload_file [] [(''type'', FObj (Some (TL 0xaa963b05 [] []))),
       (''bytes'', FBytes (take 2 (drop (unat (le_val xs :: u64)) [10, 20, 30])))]), s + 1))"

lemma demo_location_views: "views demo_location [1, 2, 3]"
  unfolding demo_location_def by (rule owns_views [OF buf_of_owns]) simp

lemma demo_serves: "serves demo_file_server [1, 2, 3] [10, 20, 30]"
  unfolding serves_def
proof (intro allI impI)
  fix off q s
  assume off: "off < length [10, 20, 30 :: byte]" and q: "views q (getFile_image [1, 2, 3] (of_nat off))"
  have "peeks q 11 8 = Some (le_bytes 8 (of_nat off :: u64))"
    using views_peeks [OF q, of 11 8] by (simp add: getFile_image_def)
  moreover have "unat (of_nat off :: u64) = off"
    using off by (simp add: unsigned_of_nat take_bit_nat_eq_self)
  ultimately have "demo_file_server q s = Some (Some (TL id_upload_file [] [(''type'', FObj (Some (TL 0xaa963b05 [] []))),
      (''bytes'', FBytes (take 2 (drop off [10, 20, 30])))]), s + 1)"
    by (simp add: demo_file_server_def le_val_le_bytes)
  moreover have "off = 0 \<or> off = 1 \<or> off = 2"
    using off by auto
  ultimately show "\<exists>p t s'. demo_file_server q s = Some (Some t, s') \<and> upload_answer p t \<and> p \<noteq> [] \<and> prefix p (drop off [10, 20, 30])"
    by (elim disjE) (auto simp: upload_answer_def fld_obj_def fld_bytes_def)
qed

theorem download_completes_witness:
  "\<exists>s'. tg_get_file_with_progress demo_file_server demo_location 3 (Some (\<lambda>u t. (False, u @ file_bytes t))) [] 0
    = Some (0, [10, 20, 30], s')"
proof -
  have fold: "feed (\<lambda>u p. (False, u @ p)) ps u = (False, u @ concat ps)" for ps and u :: "byte list"
    by (induction ps arbitrary: u) simp_all
  show ?thesis
    using download_completes [OF demo_location_views _ _ _ demo_serves, where f = "\<lambda>u p. (False, u @ p)" and u = "[]" and s = 0]
    by (auto simp: fold)
qed

text \<open>A photo is never downloaded: the calls for a photo, the photo of a peer and the thumbnail of a
  document ask for a file of size 0, and the message at the start of the download divides by it.\<close>

theorem photo_download_divides_by_zero:
  "tg_get_photo_file call junk i hash ref thumb s = None \<and>
   tg_get_peer_photo_file call peer big i s = None \<and>
   tg_get_document_thumb call junk i hash ref thumb s = None"
  by (simp_all add: tg_get_photo_file_def tg_get_peer_photo_file_def tg_get_document_thumb_def tg_get_file_zero Option.bind_eq_None_conv)


text \<open>A server that keeps the parts of the upload 7 and refuses some of the requests.\<close>

definition untl :: "byte list \<Rightarrow> byte list" where
  "untl xs = (if hd xs = 0xfe then take (unat (le_val (take 3 (drop 1 xs)) :: u32)) (drop 4 xs) else take (unat (hd xs)) (drop 1 xs))"

definition demo_store_server :: "((u32 \<Rightarrow> byte list option) \<times> nat) call" where
  "demo_store_server q s = (if snd s > 0 then Some (None, (fst s, snd s - 1))
     else case peeks q 0 (unat (bsize q)) of
       None \<Rightarrow> None
     | Some xs \<Rightarrow> Some (Some (TL id_boolTrue [] []), ((fst s)(le_val (take 4 (drop 12 xs)) \<mapsto> untl (drop 16 xs)), 0)))"

lemma untl_tl_string:
  assumes "length p \<le> part_size"
  shows "untl (tl_string p) = p"
proof (cases "length p \<le> 253")
  case True
  have u: "unat (of_nat (length p) :: byte) = length p"
    using True by (simp add: unsigned_of_nat take_bit_nat_eq_self)
  have "(of_nat (length p) :: byte) \<noteq> 0xfe"
  proof
    assume "(of_nat (length p) :: byte) = 0xfe"
    then have "unat (of_nat (length p) :: byte) = 254"
      by simp
    with u True show False
      by simp
  qed
  with True u show ?thesis
    by (simp add: untl_def tl_string_def tl_head_def)
next
  case False
  have "(le_val (le_bytes 3 (of_nat (length p) :: u32)) :: u32) = of_nat (length p)"
    using assms le_val_pad [of "of_nat (length p) :: u32" 3 0, where 'b = 32] by (simp add: part_size_def)
  moreover have "unat (of_nat (length p) :: u32) = length p"
    using assms by (intro unat_of_nat_u32) (simp add: part_size_def)
  ultimately show ?thesis
    using False by (simp add: untl_def tl_string_def tl_head_def)
qed

lemma demo_keeps: "keeps demo_store_server 7 fst snd"
  unfolding keeps_def
proof (intro allI impI)
  fix q k p and s :: "(u32 \<Rightarrow> byte list option) \<times> nat"
  assume p: "length p \<le> part_size" and q: "views q (saveFilePart_image 7 k p)"
  have "peeks q 0 (unat (bsize q)) = Some (saveFilePart_image 7 k p)"
    using views_peeks [OF q, of 0 "length (saveFilePart_image 7 k p)"] views_length [OF q] by simp
  moreover have "take 4 (drop 12 (saveFilePart_image 7 k p)) = le_bytes 4 k" "drop 16 (saveFilePart_image 7 k p) = tl_string p"
    by (simp_all add: saveFilePart_image_def)
  ultimately have "demo_store_server q s = (if snd s > 0 then Some (None, (fst s, snd s - 1))
      else Some (Some (TL id_boolTrue [] []), ((fst s)(k \<mapsto> p), 0)))"
    using untl_tl_string [OF p] by (simp add: demo_store_server_def le_val_le_bytes)
  then show "\<exists>t s'. demo_store_server q s = Some (t, s') \<and>
      (if accepted t then fst s' = (fst s)(k \<mapsto> p) else fst s' = fst s \<and> snd s' < snd s)"
    by (simp add: accepted_def)
qed


end
