(* ===== verification/GenFree.thy ===== *)
theory GenFree
  imports GenDes
begin

text \<open>
  The functions that tl_generator/generator.c generates to free objects (append_free) and tl_free
  of tl/deserialize.c.  A block of memory is named by its place in the object: the object's own
  structure and the copy of its buffer, and what a field or an element of a vector points to.
  Freeing collects the blocks that are freed; a null pointer that is read, or a field that does
  not hold what its C type says, is undefined.
\<close>

section \<open>Blocks\<close>

datatype place = InField string | InElem nat

datatype part = Struct | Copy | Block

type_synonym block = "place list \<times> part"

text \<open>The argument says whether the bodies of messages are counted; an empty vector has no array.\<close>

primrec val_blocks :: "bool \<Rightarrow> fval \<Rightarrow> place list \<Rightarrow> block list" and obj_blocks :: "bool \<Rightarrow> tl_obj \<Rightarrow> place list \<Rightarrow> block list" where
  "val_blocks w (FInt i) = (\<lambda>p. [])"
| "val_blocks w (FBool t) = (\<lambda>p. [])"
| "val_blocks w (FLong i) = (\<lambda>p. [])"
| "val_blocks w (FDouble i) = (\<lambda>p. [])"
| "val_blocks w (FBytes bs) = (\<lambda>p. [(p, Block)])"
| "val_blocks w (FMsg i q n bd) = (\<lambda>p. if w then [(p, Block)] else [])"
| "val_blocks w (FVec vs) = (\<lambda>p. concat (map (\<lambda>(j, f). f (p @ [InElem j])) (enumerate 0 (map (val_blocks w) vs))) @
     (if vs = [] then [] else [(p, Block)]))"
| "val_blocks w (FObj x) = (\<lambda>p. case map_option (obj_blocks w) x of None \<Rightarrow> [] | Some f \<Rightarrow> f p)"
| "obj_blocks w (TL i copy fs) = (\<lambda>p. concat (map (\<lambda>(x, f). f (p @ [InField x])) (map (map_prod id (val_blocks w)) fs)) @
     [(p, Copy), (p, Struct)])"

section \<open>Emitted statements\<close>

datatype felem = FEObj | FEBuf | FENone

datatype fstmt = FreeVec string felem | FreeObj string | FreeBuf string | FreeBody string

definition plain_types :: "string list" where
  "plain_types = [''bytes'', ''string'', ''true'', ''bool'', ''int'', ''long'', ''int128'', ''int256'', ''%Message'', ''double'']"

definition buffer_types :: "string list" where
  "buffer_types = [''bytes'', ''int256'', ''int128'', ''string'']"

definition felem_kind :: "string \<Rightarrow> felem" where
  "felem_kind ty = (if ty \<notin> set plain_types then FEObj else if ty \<in> set buffer_types then FEBuf else FENone)"

definition free_arg :: "arg_t \<Rightarrow> fstmt list" where
  "free_arg a =
     (if arg_type a = None \<and> strstr (arg_name a) ''flags'' \<noteq> None then []
      else let ty = (case arg_type a of None \<Rightarrow> ''int'' | Some ty \<Rightarrow> ty) in
        (case vector_of ty of
           Some el \<Rightarrow> [FreeVec (arg_name a) (felem_kind el)]
         | None \<Rightarrow>
             (if ty \<notin> set plain_types then [FreeObj (arg_name a)] else []) @
             (if ty \<in> set buffer_types then [FreeBuf (arg_name a)] else []) @
             (if ty = ''%Message'' then [FreeBody (arg_name a)] else [])))"

definition gen_free :: "method_t \<Rightarrow> fstmt list" where
  "gen_free m = (if m_name m = ''vector'' then [FreeBuf ''data''] else []) @ concat (map free_arg (m_args m))"

section \<open>Their meaning\<close>

definition free_value :: "(tl_obj \<Rightarrow> place list \<Rightarrow> block list option) \<Rightarrow> felem \<Rightarrow> fval \<Rightarrow> place list \<Rightarrow> block list option" where
  "free_value fr e v p = (case e of
     FENone \<Rightarrow> Some []
   | FEBuf \<Rightarrow> (case v of FBytes _ \<Rightarrow> Some [(p, Block)] | _ \<Rightarrow> None)
   | FEObj \<Rightarrow> (case v of FObj None \<Rightarrow> Some [] | FObj (Some x) \<Rightarrow> fr x p | _ \<Rightarrow> None))"

fun free_elems :: "(tl_obj \<Rightarrow> place list \<Rightarrow> block list option) \<Rightarrow> felem \<Rightarrow> nat \<Rightarrow> fval list \<Rightarrow> place list \<Rightarrow> block list option" where
  "free_elems fr e j [] p = Some []"
| "free_elems fr e j (v # vs) p = do {
     bs \<leftarrow> free_value fr e v (p @ [InElem j]);
     cs \<leftarrow> free_elems fr e (Suc j) vs p;
     Some (bs @ cs)
   }"

text \<open>A vector that was refused has a length but no array: the loop over it reads the null
  pointer, unless nothing is freed for an element.\<close>

definition free_refused :: "(string \<times> fval) list \<Rightarrow> string \<Rightarrow> felem \<Rightarrow> block list option" where
  "free_refused fs x e = (case map_of fs (x @ ''_len'') of
     Some (FInt l) \<Rightarrow> if 0 <s l \<and> e \<noteq> FENone then None else Some []
   | _ \<Rightarrow> Some [])"

definition exec_free :: "(tl_obj \<Rightarrow> place list \<Rightarrow> block list option) \<Rightarrow> (string \<times> fval) list \<Rightarrow> place list \<Rightarrow> fstmt \<Rightarrow> block list option" where
  "exec_free fr fs p s = (case s of
     FreeVec x e \<Rightarrow> (case map_of fs x of
         None \<Rightarrow> free_refused fs x e
       | Some (FVec vs) \<Rightarrow> map_option (\<lambda>bs. bs @ (if vs = [] then [] else [(p @ [InField x], Block)])) (free_elems fr e 0 vs (p @ [InField x]))
       | Some _ \<Rightarrow> None)
   | FreeObj x \<Rightarrow> (case map_of fs x of None \<Rightarrow> Some [] | Some v \<Rightarrow> free_value fr FEObj v (p @ [InField x]))
   | FreeBuf x \<Rightarrow> (case map_of fs x of None \<Rightarrow> Some [] | Some v \<Rightarrow> free_value fr FEBuf v (p @ [InField x]))
   | FreeBody x \<Rightarrow> (case map_of fs x of
         None \<Rightarrow> Some [] | Some (FMsg _ _ _ _) \<Rightarrow> Some [(p @ [InField x], Block)] | Some _ \<Rightarrow> None))"

fun exec_frees :: "(tl_obj \<Rightarrow> place list \<Rightarrow> block list option) \<Rightarrow> (string \<times> fval) list \<Rightarrow> place list \<Rightarrow> fstmt list \<Rightarrow> block list option" where
  "exec_frees fr fs p [] = Some []"
| "exec_frees fr fs p (s # ss) = do {
     bs \<leftarrow> exec_free fr fs p s;
     cs \<leftarrow> exec_frees fr fs p ss;
     Some (bs @ cs)
   }"

text \<open>The two tables list the declarations in the same order; an object whose identifier is not
  there is left alone.  The recursion is over the nesting.\<close>

definition deserialize_table :: "method_t list \<Rightarrow> (u32 \<times> method_t) list" where
  "deserialize_table ms = map (\<lambda>m. (m_id m, m)) ms"

definition free_table :: "method_t list \<Rightarrow> (u32 \<times> fstmt list) list" where
  "free_table ms = map (\<lambda>m. (m_id m, gen_free m)) ms"

fun tl_free :: "method_t list \<Rightarrow> nat \<Rightarrow> tl_obj \<Rightarrow> place list \<Rightarrow> block list option" where
  "tl_free ms 0 x p = None"
| "tl_free ms (Suc n) (TL i copy fs) p = (case get_free_fun (deserialize_table ms) (free_table ms) i of
     None \<Rightarrow> Some []
   | Some ss \<Rightarrow> map_option (\<lambda>bs. bs @ [(p, Copy), (p, Struct)]) (exec_frees (tl_free ms n) fs p ss))"

end
