(* ===== verification/GenFreeProps.thy ===== *)
theory GenFreeProps
  imports GenFree
begin

text \<open>
  What a generated reader makes of arbitrary bytes has the shape of its declaration, and what
  tl_free releases of such an object.
\<close>

section \<open>Shapes\<close>

text \<open>The fields of a declaration: name, whether it is optional, kind.\<close>

definition declared_arg :: "arg_t \<Rightarrow> (string \<times> bool \<times> dop) list" where
  "declared_arg a = (case arg_type a of None \<Rightarrow> [] | Some ty \<Rightarrow> [(arg_name a, flagn a \<noteq> 0, dop_kind ty)])"

definition declared_fields :: "method_t \<Rightarrow> (string \<times> bool \<times> dop) list" where
  "declared_fields m = (if m_name m = ''vector'' then [(''len'', False, DInt), (''data'', False, DBytes)] else []) @
     concat (map declared_arg (m_args m))"

definition elem_shape :: "(tl_obj \<Rightarrow> bool) \<Rightarrow> delem \<Rightarrow> fval \<Rightarrow> bool" where
  "elem_shape P e v = (case v of
     FInt _ \<Rightarrow> e = DEInt
   | FBool _ \<Rightarrow> e = DEBool
   | FLong _ \<Rightarrow> e = DELong
   | FDouble _ \<Rightarrow> e = DEDouble
   | FBytes _ \<Rightarrow> e = DEBytes
   | FMsg _ _ _ _ \<Rightarrow> e = DEMessage
   | FVec _ \<Rightarrow> False
   | FObj x \<Rightarrow> e = DEObj \<and> pred_option P x)"

definition op_shape :: "(tl_obj \<Rightarrow> bool) \<Rightarrow> dop \<Rightarrow> fval \<Rightarrow> bool" where
  "op_shape P op v = (case v of
     FInt _ \<Rightarrow> op = DInt
   | FBool t \<Rightarrow> op = DBool \<or> op = DTrue \<and> t
   | FLong _ \<Rightarrow> op = DLong
   | FDouble _ \<Rightarrow> op = DDouble
   | FBytes bs \<Rightarrow> op = DBytes \<or> op = DFixed (length bs)
   | FMsg _ _ _ _ \<Rightarrow> False
   | FVec vs \<Rightarrow> (case op of DVector e \<Rightarrow> length vs \<le> 100 \<and> list_all (elem_shape P e) vs | _ \<Rightarrow> False)
   | FObj x \<Rightarrow> op = DObj \<and> pred_option P x)"

definition refused_len :: "dop \<Rightarrow> fval \<Rightarrow> bool" where
  "refused_len op v = (case (op, v) of (DVector e, FInt l) \<Rightarrow> sint l < 0 \<or> 100 < sint l | _ \<Rightarrow> False)"

text \<open>The mandatory fields in order, with optional ones between them, or a part of them up to the
  length of a vector that was refused.\<close>

fun fields_shape :: "(tl_obj \<Rightarrow> bool) \<Rightarrow> (string \<times> bool \<times> dop) list \<Rightarrow> (string \<times> fval) list \<Rightarrow> bool" where
  "fields_shape P [] fs \<longleftrightarrow> fs = []"
| "fields_shape P ((x, opt, op) # ds) fs \<longleftrightarrow> opt \<and> fields_shape P ds fs \<or>
     (case fs of [] \<Rightarrow> False
      | (y, v) # r \<Rightarrow> y = x \<and> op_shape P op v \<and> fields_shape P ds r \<or> y = x @ ''_len'' \<and> refused_len op v \<and> r = [])"

fun typed :: "method_t list \<Rightarrow> nat \<Rightarrow> tl_obj \<Rightarrow> bool" where
  "typed ms 0 x \<longleftrightarrow> False"
| "typed ms (Suc n) (TL i copy fs) \<longleftrightarrow>
     (case get_fun ms i of None \<Rightarrow> False | Some m \<Rightarrow> fields_shape (typed ms n) (declared_fields m) fs)"

section \<open>Readers\<close>

definition gives :: "(buf_t \<Rightarrow> tl_result) \<Rightarrow> (tl_obj \<Rightarrow> bool) \<Rightarrow> bool" where
  "gives des P \<longleftrightarrow> (\<forall>b x b'. des b = Some (Some x, b') \<longrightarrow> P x)"

lemma givesD: "gives des P \<Longrightarrow> des b = Some (x, b') \<Longrightarrow> pred_option P x"
  by (cases x) (auto simp: gives_def)

lemma get_elem_shape:
  assumes "gives des P" and "get_elem des e b = Some (v, b')"
  shows "elem_shape P e v"
  using assms by (cases e) (auto simp: get_elem_def rd_map_def elem_shape_def msg_field_def intro: givesD)

lemma read_many_all:
  assumes "\<And>b v b'. get b = Some (v, b') \<Longrightarrow> Q v"
  shows "read_many get n b = Some (vs, b') \<Longrightarrow> length vs = n \<and> list_all Q vs"
proof (induction n arbitrary: b vs b')
  case (Suc n)
  then show ?case
    using assms by (auto simp: bind_eq_Some_conv)
qed simp

lemma deserialize_buf_length:
  assumes "deserialize_buf b sz = Some (s, b')"
  shows "length (view s) = unat sz"
  using assms by (auto simp: deserialize_buf_def buf_add_def bind_eq_Some_conv)

lemma unat_nonneg_sint: "0 \<le> sint (l :: u32) \<Longrightarrow> unat l = nat (sint l)"
proof -
  assume "0 \<le> sint l"
  moreover have "sint l < 2 ^ 32"
    using sint_less [of l] by simp
  ultimately have "uint l = sint l"
    unfolding uint_sint by (simp add: take_bit_int_eq_self)
  then show ?thesis
    by (metis nat_uint_eq)
qed

lemma dop_kind_fixed: "dop_kind ty = DFixed n \<Longrightarrow> n = 16 \<or> n = 32"
  by (auto simp: dop_kind_def split: if_splits option.splits)

lemma get_op_shape:
  assumes P: "gives des P" and r: "get_op des x op fs b = Some r" and op: "op = dop_kind ty"
  obtains (read) v b' where "r = Next (fs @ [(x, v)]) b'" "op_shape P op v"
  | (refused) v b' where "r = Return (fs @ [(x @ ''_len'', v)]) b'" "refused_len op v"
proof (cases op)
  case (DVector e)
  obtain l b1 where l: "get_len b = Some (l, b1)"
    using r DVector by (auto simp: get_op_def get_vector_def bind_eq_Some_conv)
  show ?thesis
  proof (cases "sint l < 0 \<or> 100 < sint l")
    case True
    then show ?thesis
      using r DVector l by (intro refused [of "FInt l" b1]) (auto simp: get_op_def get_vector_def refused_len_def)
  next
    case False
    then obtain vs b2 where vs: "read_many (get_elem des e) (unat l) b1 = Some (vs, b2)" "r = Next (fs @ [(x, FVec vs)]) b2"
      using r DVector l by (auto simp: get_op_def get_vector_def bind_eq_Some_conv)
    then have "length vs = unat l \<and> list_all (elem_shape P e) vs"
      using read_many_all [where get = "get_elem des e" and Q = "elem_shape P e"] get_elem_shape [OF P] by blast
    moreover have "unat l \<le> 100"
      using False by (simp add: unat_nonneg_sint nat_le_iff)
    ultimately show ?thesis
      using vs(2) DVector by (intro read) (auto simp: op_shape_def)
  qed
next
  case (DFixed n)
  then have "n = 16 \<or> n = 32"
    using op dop_kind_fixed by auto
  then show ?thesis
    using r DFixed deserialize_buf_length
    by (auto simp: get_op_def put_field_def rd_map_def op_shape_def intro!: read)
next
  case DObj
  then show ?thesis
    using r givesD [OF P] by (auto simp: get_op_def put_field_def rd_map_def op_shape_def intro!: read)
qed (use r in \<open>auto simp: get_op_def put_field_def rd_map_def op_shape_def intro!: read\<close>)

lemma exec_shape:
  assumes P: "gives des P"
  shows "exec_dstmts des fl (gen_des k as) fs b = Some (fs', b') \<Longrightarrow>
    \<exists>gs. fs' = fs @ gs \<and> fields_shape P (concat (map declared_arg as)) gs"
proof (induction as arbitrary: k fl fs b)
  case (Cons a as)
  show ?case
  proof (cases "arg_type a")
    case None
    then show ?thesis
      using Cons.prems Cons.IH by (auto simp: declared_arg_def bind_eq_Some_conv split: if_splits)
  next
    case (Some ty)
    have decl: "concat (map declared_arg (a # as)) = (arg_name a, flagn a \<noteq> 0, dop_kind ty) # concat (map declared_arg as)"
      using Some by (simp add: declared_arg_def)
    obtain t where t: "flag_on fl (flag_of a) = Some t"
      using Cons.prems Some by (auto simp: bind_eq_Some_conv)
    show ?thesis
    proof (cases t)
      case False
      then have "flagn a \<noteq> 0"
        using t by (auto simp: flag_on_def flag_of_def split: if_splits)
      moreover have "exec_dstmts des fl (gen_des k as) fs b = Some (fs', b')"
        using Cons.prems Some t False by simp
      ultimately show ?thesis
        unfolding decl using Cons.IH [of fl k fs b] by auto
    next
      case True
      obtain r where r: "get_op des (arg_name a) (dop_kind ty) fs b = Some r"
        using Cons.prems Some t True by (auto simp: bind_eq_Some_conv)
      from P r refl show ?thesis
      proof (cases rule: get_op_shape)
        case (read v b1)
        then obtain gs where "fs' = (fs @ [(arg_name a, v)]) @ gs" "fields_shape P (concat (map declared_arg as)) gs"
          using Cons.prems Some t True r Cons.IH [of fl k "fs @ [(arg_name a, v)]" b1] by auto
        then show ?thesis
          unfolding decl using read by (intro exI [of _ "(arg_name a, v) # gs"]) simp
      next
        case (refused v b1)
        then show ?thesis
          unfolding decl using Cons.prems Some t True r
          by (intro exI [of _ "[(arg_name a @ ''_len'', v)]"]) simp
      qed
    qed
  qed
qed simp

lemma tl_read_shape:
  assumes "gives des P" and "tl_read des m b = Some (Some x, b')"
  obtains i copy fs where "x = TL i copy fs" "buf_get_ui32 b = Some i" "fields_shape P (declared_fields m) fs"
proof -
  let ?pre = "if m_name m = ''vector'' then [(''len'', False, DInt), (''data'', False, DBytes)] else []"
  obtain copy i fs0 b2 fs where c: "buf_get_ui32 b = Some i" "x = TL i (view copy) fs"
    and pre: "(if m_name m = ''vector''
        then do {
          (l, b) \<leftarrow> deserialize_ui32 (skip 4 b);
          d \<leftarrow> buf_add_buf b;
          Some ([(''len'', FInt l), (''data'', FBytes (view d))], b)
        }
        else Some ([], skip 4 b)) = Some (fs0, b2)"
    and ex: "exec_dstmts des Map.empty (gen_des 0 (m_args m)) fs0 b2 = Some (fs, b')"
    using assms(2) by (auto simp: tl_read_def deserialize_ui32_def bind_eq_Some_conv)
  obtain gs where gs: "fs = fs0 @ gs" "fields_shape P (concat (map declared_arg (m_args m))) gs"
    using exec_shape [OF assms(1) ex] by auto
  have "fields_shape P (?pre @ ds) (fs0 @ gs)" if "fields_shape P ds gs" for ds
    using pre that by (auto simp: bind_eq_Some_conv op_shape_def split: if_splits)
  from this [OF gs(2)] show ?thesis
    unfolding gs(1) [symmetric] using c by (intro that) (simp_all add: declared_fields_def)
qed

lemma get_fun_id: "get_fun ms i = Some m \<Longrightarrow> m_id m = i"
  by (induction ms) (auto split: if_splits)

lemma tl_deserialize_typed: "gives (tl_deserialize ms n) (typed ms n)"
proof (induction n)
  case (Suc n)
  show ?case
    unfolding gives_def
  proof (intro allI impI)
    fix b x b'
    assume d: "tl_deserialize ms (Suc n) b = Some (Some x, b')"
    then obtain i m where m: "buf_get_ui32 b = Some i" "get_fun ms i = Some m" "tl_read (tl_deserialize ms n) m b = Some (Some x, b')"
      by (auto simp: bind_eq_Some_conv split: if_splits option.splits)
    obtain j copy fs where x: "x = TL j copy fs" "buf_get_ui32 b = Some j"
      "fields_shape (typed ms n) (declared_fields m) fs"
      by (rule tl_read_shape [OF Suc m(3)])
    then have "j = i"
      using m(1) by simp
    then show "typed ms (Suc n) x"
      using m(2) x by simp
  qed
qed (simp add: gives_def)

section \<open>What is freed\<close>

text \<open>A declaration whose vectors are of kinds that both generators know, and whose fields have
  different names, also from the lengths.\<close>

definition arg_supported :: "arg_t \<Rightarrow> bool" where
  "arg_supported a = (case arg_type a of None \<Rightarrow> True
     | Some ty \<Rightarrow> ty \<noteq> ''%Message'' \<and>
         (case vector_of ty of None \<Rightarrow> True | Some el \<Rightarrow> el \<notin> {''int128'', ''int256'', ''true''}))"

definition names_ok :: "(string \<times> bool \<times> dop) list \<Rightarrow> bool" where
  "names_ok ds \<longleftrightarrow> distinct (map fst ds) \<and> (\<forall>x \<in> fst ` set ds. \<forall>y \<in> fst ` set ds. y \<noteq> x @ ''_len'')"

definition supported :: "method_t \<Rightarrow> bool" where
  "supported m \<longleftrightarrow> list_all arg_supported (m_args m) \<and> names_ok (declared_fields m)"

definition free_of_elem :: "delem \<Rightarrow> felem" where
  "free_of_elem e = (case e of DEObj \<Rightarrow> FEObj | DEBytes \<Rightarrow> FEBuf | _ \<Rightarrow> FENone)"

definition free_of :: "string \<times> bool \<times> dop \<Rightarrow> fstmt list" where
  "free_of d = (case d of (x, opt, op) \<Rightarrow> (case op of
     DVector e \<Rightarrow> [FreeVec x (free_of_elem e)]
   | DObj \<Rightarrow> [FreeObj x]
   | DBytes \<Rightarrow> [FreeBuf x]
   | DFixed n \<Rightarrow> [FreeBuf x]
   | _ \<Rightarrow> []))"

lemma not_vectors: "vector_of ''int'' = None" "vector_of ''true'' = None" "vector_of ''bool'' = None" "vector_of ''long'' = None"
  "vector_of ''double'' = None" "vector_of ''string'' = None" "vector_of ''bytes'' = None" "vector_of ''int128'' = None"
  "vector_of ''int256'' = None"
  by (simp_all add: vector_of_def)

lemma free_of_elem_kind: "el \<notin> {''int128'', ''int256'', ''true''} \<Longrightarrow> felem_kind el = free_of_elem (delem_kind el)"
  by (simp add: felem_kind_def free_of_elem_def delem_kind_def plain_types_def buffer_types_def)

lemma free_arg_declared: "arg_supported a \<Longrightarrow> free_arg a = concat (map free_of (declared_arg a))"
proof (cases "arg_type a")
  case None
  then show ?thesis
    by (simp add: free_arg_def declared_arg_def not_vectors plain_types_def buffer_types_def)
next
  case (Some ty)
  assume a: "arg_supported a"
  show ?thesis
  proof (cases "vector_of ty")
    case None
    then show ?thesis
      using a Some by (simp add: free_arg_def declared_arg_def arg_supported_def plain_types_def buffer_types_def free_of_def dop_kind_def)
  next
    case v: (Some el)
    then have "ty \<notin> {''int'', ''true'', ''bool'', ''long'', ''double'', ''string'', ''bytes'', ''int128'', ''int256''}"
      using not_vectors by auto
    then show ?thesis
      using a Some v by (simp add: free_arg_def declared_arg_def arg_supported_def free_of_def dop_kind_def free_of_elem_kind)
  qed
qed

lemma gen_free_declared: "list_all arg_supported (m_args m) \<Longrightarrow> gen_free m = concat (map free_of (declared_fields m))"
proof -
  have "list_all arg_supported as \<Longrightarrow> concat (map free_arg as) = concat (map free_of (concat (map declared_arg as)))" for as
    by (induction as) (simp_all add: free_arg_declared)
  then show "list_all arg_supported (m_args m) \<Longrightarrow> gen_free m = concat (map free_of (declared_fields m))"
    by (simp add: gen_free_def declared_fields_def free_of_def)
qed

lemma get_free_fun_table: "get_free_fun (deserialize_table ms) (free_table ms) i = map_option gen_free (get_fun ms i)"
  by (induction ms) (simp_all add: deserialize_table_def free_table_def)

text \<open>A refused vector whose elements would be freed, here or in a nested object.\<close>

definition refused_elem :: "(tl_obj \<Rightarrow> bool) \<Rightarrow> fval \<Rightarrow> bool" where
  "refused_elem R v = (case v of FObj (Some x) \<Rightarrow> R x | _ \<Rightarrow> False)"

definition refused_val :: "(tl_obj \<Rightarrow> bool) \<Rightarrow> fval \<Rightarrow> bool" where
  "refused_val R v = (case v of FVec vs \<Rightarrow> list_ex (refused_elem R) vs | _ \<Rightarrow> refused_elem R v)"

definition refused_field :: "(string \<times> fval) list \<Rightarrow> string \<times> bool \<times> dop \<Rightarrow> bool" where
  "refused_field fs d = (case d of (x, opt, op) \<Rightarrow> (case op of
     DVector e \<Rightarrow> free_of_elem e \<noteq> FENone \<and> (case map_of fs (x @ ''_len'') of Some (FInt l) \<Rightarrow> 0 <s l | _ \<Rightarrow> False)
   | _ \<Rightarrow> False))"

fun refused :: "method_t list \<Rightarrow> nat \<Rightarrow> tl_obj \<Rightarrow> bool" where
  "refused ms 0 x \<longleftrightarrow> False"
| "refused ms (Suc n) (TL i copy fs) \<longleftrightarrow> (case get_fun ms i of None \<Rightarrow> False
     | Some m \<Rightarrow> list_ex (refused_field fs) (declared_fields m) \<or> list_ex (refused_val (refused ms n) \<circ> snd) fs)"

definition frees :: "(tl_obj \<Rightarrow> place list \<Rightarrow> block list option) \<Rightarrow> (tl_obj \<Rightarrow> bool) \<Rightarrow> (tl_obj \<Rightarrow> bool) \<Rightarrow> bool" where
  "frees fr P R \<longleftrightarrow> (\<forall>x p. P x \<longrightarrow> fr x p = (if R x then None else Some (obj_blocks False x p)))"

lemma free_value_ok:
  assumes "frees fr P R" and "elem_shape P e v"
  shows "free_value fr (free_of_elem e) v p = (if refused_elem R v then None else Some (val_blocks False v p))"
  using assms by (cases v) (auto simp: elem_shape_def free_value_def free_of_elem_def refused_elem_def frees_def split: option.splits)

lemma free_elems_ok:
  assumes "frees fr P R"
  shows "list_all (elem_shape P e) vs \<Longrightarrow> free_elems fr (free_of_elem e) j vs p =
    (if list_ex (refused_elem R) vs then None
     else Some (concat (map (\<lambda>(j, f). f (p @ [InElem j])) (enumerate j (map (val_blocks False) vs)))))"
  by (induction vs arbitrary: j) (simp_all add: free_value_ok [OF assms])

lemma exec_frees_append: "exec_frees fr fs p (ss @ ts) = do { bs \<leftarrow> exec_frees fr fs p ss; cs \<leftarrow> exec_frees fr fs p ts; Some (bs @ cs) }"
  by (induction ss) (simp_all add: Option.bind_assoc [symmetric])

lemma exec_present:
  assumes "frees fr P R" and "op_shape P op v" and "map_of fs x = Some v"
  shows "exec_frees fr fs p (free_of (x, opt, op)) = (if refused_val R v then None else Some (val_blocks False v (p @ [InField x])))"
proof (cases op)
  case (DVector e)
  then obtain vs where "v = FVec vs" "list_all (elem_shape P e) vs"
    using assms(2) by (auto simp: op_shape_def split: fval.splits)
  then show ?thesis
    using assms(3) DVector by (simp add: free_of_def exec_free_def free_elems_ok [OF assms(1)] refused_val_def)
next
  case DObj
  then show ?thesis
    using assms free_value_ok [OF assms(1), of DEObj v]
    by (auto simp: op_shape_def free_of_def exec_free_def refused_val_def elem_shape_def free_of_elem_def split: fval.splits)
qed (use assms in \<open>auto simp: op_shape_def free_of_def exec_free_def refused_val_def refused_elem_def free_value_def split: fval.splits\<close>)

lemma exec_absent:
  assumes "map_of fs x = None" and "map_of fs (x @ ''_len'') = None"
  shows "exec_frees fr fs p (free_of (x, opt, op)) = Some []"
  using assms by (cases op) (simp_all add: free_of_def exec_free_def free_refused_def)

lemma exec_all_absent:
  assumes "\<forall>e \<in> set ds. map_of fs (fst e) = None \<and> map_of fs (fst e @ ''_len'') = None"
  shows "exec_frees fr fs p (concat (map free_of ds)) = Some []"
  using assms by (induction ds) (auto simp: exec_frees_append exec_absent)

lemma exec_refused:
  assumes "map_of fs x = None" and "map_of fs (x @ ''_len'') = Some v" and "refused_len op v"
  shows "exec_frees fr fs p (free_of (x, opt, op)) = (if refused_field fs (x, opt, op) then None else Some [])"
  using assms by (auto simp: refused_len_def refused_field_def free_of_def exec_free_def free_refused_def split: dop.splits fval.splits)

lemma fields_cases:
  assumes "fields_shape P ((x, opt, op) # ds) gs"
  obtains (absent) "fields_shape P ds gs"
  | (present) v r where "gs = (x, v) # r" "op_shape P op v" "fields_shape P ds r"
  | (short) v where "gs = [(x @ ''_len'', v)]" "refused_len op v"
  using assms by (auto split: list.splits)

lemma field_fresh:
  "fields_shape P ds gs \<Longrightarrow> z \<notin> fst ` set ds \<Longrightarrow> (\<forall>y \<in> fst ` set ds. y @ ''_len'' \<noteq> z) \<Longrightarrow> z \<notin> fst ` set gs"
proof (induction ds arbitrary: gs)
  case (Cons d ds)
  obtain x opt op where d: "d = (x, opt, op)"
    by (cases d)
  from Cons.prems(1) [unfolded d] show ?case
  proof (cases rule: fields_cases)
    case absent
    then show ?thesis
      using Cons by simp
  next
    case present
    then show ?thesis
      using Cons.IH [OF present(3)] Cons.prems(2,3) by (simp add: d)
  next
    case short
    then show ?thesis
      using Cons.prems(3) by (auto simp: d)
  qed
qed simp

lemma refused_field_cong: "map_of fs (fst d @ ''_len'') = map_of gs (fst d @ ''_len'') \<Longrightarrow> refused_field fs d = refused_field gs d"
  by (cases d) (simp add: refused_field_def split: dop.splits)

lemma exec_frees_ok:
  assumes fr: "frees fr P R"
  shows "fields_shape P ds gs \<Longrightarrow> names_ok ds \<Longrightarrow>
    (\<forall>e \<in> set ds. map_of fs (fst e) = map_of gs (fst e) \<and> map_of fs (fst e @ ''_len'') = map_of gs (fst e @ ''_len'')) \<Longrightarrow>
    exec_frees fr fs p (concat (map free_of ds)) =
      (if list_ex (refused_field fs) ds \<or> list_ex (refused_val R \<circ> snd) gs then None
       else Some (concat (map (\<lambda>(x, f). f (p @ [InField x])) (map (map_prod id (val_blocks False)) gs))))"
proof (induction ds arbitrary: gs)
  case Nil
  then show ?case by simp
next
  case (Cons d ds)
  obtain x opt op where d: "d = (x, opt, op)"
    by (cases d)
  have ok: "names_ok ds" and x: "x \<notin> fst ` set ds" "\<forall>y \<in> fst ` set ds. y @ ''_len'' \<noteq> x \<and> x @ ''_len'' \<noteq> y"
    using Cons.prems(2) d by (auto simp: names_ok_def)
  have fs: "map_of fs x = map_of gs x" "map_of fs (x @ ''_len'') = map_of gs (x @ ''_len'')"
    using Cons.prems(3) d by auto
  from Cons.prems(1) [unfolded d] show ?case
  proof (cases rule: fields_cases)
    case absent
    have "x \<notin> fst ` set gs" and "x @ ''_len'' \<notin> fst ` set gs"
      by (rule field_fresh [OF absent]; use x in auto)+
    then have none: "map_of fs x = None" "map_of fs (x @ ''_len'') = None"
      using fs by (simp_all add: map_of_eq_None_iff)
    then have "\<not> refused_field fs d"
      by (simp add: d refused_field_def split: dop.splits)
    then show ?thesis
      using Cons.IH [OF absent ok] Cons.prems(3) d exec_absent [OF none] by (simp add: exec_frees_append)
  next
    case (present v r)
    have "\<forall>e \<in> set ds. map_of fs (fst e) = map_of r (fst e) \<and> map_of fs (fst e @ ''_len'') = map_of r (fst e @ ''_len'')"
    proof
      fix e
      assume e: "e \<in> set ds"
      then have "fst e \<noteq> x" "fst e @ ''_len'' \<noteq> x"
        using x by auto
      then show "map_of fs (fst e) = map_of r (fst e) \<and> map_of fs (fst e @ ''_len'') = map_of r (fst e @ ''_len'')"
        using Cons.prems(3) e by (simp add: present(1))
    qed
    note rest = Cons.IH [OF present(3) ok this]
    have "\<not> refused_field fs d"
    proof -
      have "x @ ''_len'' \<notin> fst ` set r"
        by (rule field_fresh [OF present(3)]) (use x in auto)
      then have "map_of fs (x @ ''_len'') = None"
        using fs(2) present(1) by (simp add: map_of_eq_None_iff)
      then show ?thesis
        by (simp add: d refused_field_def split: dop.splits)
    qed
    then show ?thesis
      using rest present(1) exec_present [OF fr present(2), of fs x p opt] fs(1) d by (simp add: exec_frees_append id_def)
  next
    case (short v)
    have rest: "\<forall>e \<in> set ds. map_of fs (fst e) = None \<and> map_of fs (fst e @ ''_len'') = None"
    proof
      fix e
      assume e: "e \<in> set ds"
      then have "fst e \<noteq> x @ ''_len''" "fst e \<noteq> x"
        using x by auto
      then show "map_of fs (fst e) = None \<and> map_of fs (fst e @ ''_len'') = None"
        using Cons.prems(3) e by (simp add: short(1))
    qed
    then have "\<not> refused_field fs e" if "e \<in> set ds" for e
      using that by (cases e) (auto simp: refused_field_def split: dop.splits)
    then have "list_ex (refused_field fs) ds = False"
      by (auto simp: list_ex_iff)
    moreover have "refused_val R v = False" "val_blocks False v = (\<lambda>p. [])"
      using short(2) by (auto simp: refused_len_def refused_val_def refused_elem_def split: dop.splits fval.splits)
    ultimately show ?thesis
      using exec_all_absent [OF rest] exec_refused [of fs x v op fr p opt] fs short d by (simp add: exec_frees_append)
  qed
qed

lemma tl_free_ok:
  assumes "\<forall>m \<in> set ms. supported m"
  shows "frees (tl_free ms n) (typed ms n) (refused ms n)"
proof (induction n)
  case (Suc n)
  show ?case
    unfolding frees_def
  proof (intro allI impI)
    fix x p
    assume t: "typed ms (Suc n) x"
    obtain i copy fs where x: "x = TL i copy fs"
      by (cases x)
    then obtain m where m: "get_fun ms i = Some m" "fields_shape (typed ms n) (declared_fields m) fs"
      using t by (auto split: option.splits)
    have "m \<in> set ms"
      using m(1) by (induction ms) (auto split: if_splits)
    then have s: "list_all arg_supported (m_args m)" "names_ok (declared_fields m)"
      using assms by (auto simp: supported_def)
    show "tl_free ms (Suc n) x p = (if refused ms (Suc n) x then None else Some (obj_blocks False x p))"
      using exec_frees_ok [OF Suc m(2) s(2), of fs p] m(1) by (auto simp: x get_free_fun_table gen_free_declared [OF s(1)])
  qed
qed (simp add: frees_def)

section \<open>Different blocks\<close>

primrec uniq :: "fval \<Rightarrow> bool" and uniq_obj :: "tl_obj \<Rightarrow> bool" where
  "uniq (FInt i) = True"
| "uniq (FBool t) = True"
| "uniq (FLong i) = True"
| "uniq (FDouble i) = True"
| "uniq (FBytes bs) = True"
| "uniq (FMsg i q n bd) = True"
| "uniq (FVec vs) = list_all id (map uniq vs)"
| "uniq (FObj x) = pred_option id (map_option uniq_obj x)"
| "uniq_obj (TL i copy fs) = (distinct (map fst fs) \<and> list_all snd (map (map_prod id uniq) fs))"

definition below :: "place list \<Rightarrow> block list \<Rightarrow> bool" where
  "below p bs \<longleftrightarrow> distinct bs \<and> (\<forall>b \<in> set bs. \<exists>r. fst b = p @ r)"

lemma below_concat:
  assumes "distinct (map fst kfs)" and "inj g" and "\<forall>(k, f) \<in> set kfs. below (p @ [g k]) (f (p @ [g k]))"
  shows "distinct (concat (map (\<lambda>(k, f). f (p @ [g k])) kfs)) \<and>
    (\<forall>b \<in> set (concat (map (\<lambda>(k, f). f (p @ [g k])) kfs)). \<exists>k \<in> set (map fst kfs). \<exists>r. fst b = p @ g k # r)"
  using assms
proof (induction kfs)
  case (Cons kf kfs)
  obtain k f where kf: "kf = (k, f)"
    by (cases kf)
  have b: "distinct (f (p @ [g k]))" "\<forall>b \<in> set (f (p @ [g k])). \<exists>r. fst b = p @ g k # r"
    using Cons.prems(3) by (auto simp: kf below_def)
  have ih: "distinct (concat (map (\<lambda>(k, f). f (p @ [g k])) kfs))"
    "\<forall>b \<in> set (concat (map (\<lambda>(k, f). f (p @ [g k])) kfs)). \<exists>k \<in> set (map fst kfs). \<exists>r. fst b = p @ g k # r"
    using Cons by simp_all
  let ?cs = "concat (map (\<lambda>(k, f). f (p @ [g k])) kfs)"
  have disj: "b \<notin> set ?cs" if "b \<in> set (f (p @ [g k]))" for b
  proof
    assume "b \<in> set ?cs"
    from bspec [OF ih(2) this] obtain k' r' where "k' \<in> set (map fst kfs)" "fst b = p @ g k' # r'"
      by (elim bexE exE)
    moreover from bspec [OF b(2) that] obtain r where "fst b = p @ g k # r"
      by (elim exE)
    moreover have "k \<notin> set (map fst kfs)"
      using Cons.prems(1) kf by simp
    ultimately show False
      using injD [OF Cons.prems(2), of k k'] by auto
  qed
  have "set (f (p @ [g k])) \<inter> set ?cs = {}"
    unfolding disjoint_iff by (intro allI impI disj)
  then have "distinct (concat (map (\<lambda>(k, f). f (p @ [g k])) (kf # kfs)))"
    unfolding kf list.map concat.simps prod.case distinct_append by (intro conjI b(1) ih(1))
  moreover have "\<exists>j \<in> set (map fst (kf # kfs)). \<exists>r. fst b = p @ g j # r"
    if "b \<in> set (concat (map (\<lambda>(k, f). f (p @ [g k])) (kf # kfs)))" for b
  proof -
    from that consider (here) "b \<in> set (f (p @ [g k]))" | (later) "b \<in> set ?cs"
      unfolding kf list.map concat.simps prod.case set_append by (elim UnE)
    then show ?thesis
    proof cases
      case here
      from bspec [OF b(2) this] obtain r where "fst b = p @ g k # r"
        by (elim exE)
      then show ?thesis
        by (auto simp: kf)
    next
      case later
      from bspec [OF ih(2) this] obtain j r where "j \<in> set (map fst kfs)" "fst b = p @ g j # r"
        by (elim bexE exE)
      then show ?thesis
        by auto
    qed
  qed
  ultimately show ?case
    by blast
qed simp

lemma below_tree:
  assumes "distinct (map fst kfs)" and "inj g" and "\<forall>(k, f) \<in> set kfs. below (p @ [g k]) (f (p @ [g k]))"
    and ts: "distinct ts" "\<forall>b \<in> set ts. fst b = p"
  shows "below p (concat (map (\<lambda>(k, f). f (p @ [g k])) kfs) @ ts)"
proof -
  let ?cs = "concat (map (\<lambda>(k, f). f (p @ [g k])) kfs)"
  have cs: "distinct ?cs" "\<forall>b \<in> set ?cs. \<exists>k \<in> set (map fst kfs). \<exists>r. fst b = p @ g k # r"
    by (rule below_concat [OF assms(1-3), THEN conjunct1], rule below_concat [OF assms(1-3), THEN conjunct2])
  have "b \<notin> set ts" if "b \<in> set ?cs" for b
  proof
    assume "b \<in> set ts"
    then have "fst b = p"
      using ts(2) by blast
    moreover from bspec [OF cs(2) that] obtain k r where "fst b = p @ g k # r"
      by (elim bexE exE)
    ultimately show False
      by simp
  qed
  then have "set ?cs \<inter> set ts = {}"
    unfolding disjoint_iff by (intro allI impI)
  then have "distinct (?cs @ ts)"
    unfolding distinct_append by (intro conjI cs(1) ts(1))
  moreover have "\<exists>r. fst b = p @ r" if "b \<in> set (?cs @ ts)" for b
  proof -
    from that consider "b \<in> set ?cs" | "b \<in> set ts"
      unfolding set_append by (elim UnE)
    then show ?thesis
    proof cases
      case 1
      from bspec [OF cs(2) this] show ?thesis
        by (elim bexE exE) (rule exI)
    next
      case 2
      from bspec [OF ts(2) this] show ?thesis
        by (intro exI [of _ "[]"]) simp
    qed
  qed
  ultimately show ?thesis
    unfolding below_def by (intro conjI ballI)
qed

lemma blocks_below:
  "uniq v \<Longrightarrow> below p (val_blocks w v p)"
  "uniq_obj x \<Longrightarrow> below p (obj_blocks w x p)"
proof (induction v and x arbitrary: p and p)
  case (FVec vs)
  have "\<forall>(k, f) \<in> set (enumerate 0 (map (val_blocks w) vs)). below (p @ [InElem k]) (f (p @ [InElem k]))"
    using FVec by (auto simp: list_all_iff in_set_enumerate_eq)
  then show ?case
    unfolding val_blocks.simps by (intro below_tree) (auto simp: inj_def)
next
  case (TL i copy fs)
  have "\<forall>(k, f) \<in> set (map (map_prod id (val_blocks w)) fs). below (p @ [InField k]) (f (p @ [InField k]))"
    using TL by (fastforce simp: list_all_iff)
  moreover have "distinct (map fst (map (map_prod id (val_blocks w)) fs))"
    using TL.prems by (simp add: comp_def)
  ultimately show ?case
    unfolding obj_blocks.simps by (intro below_tree) (auto simp: inj_def)
qed (fastforce simp: below_def split: option.splits)+

lemma pred_option_mono: "(\<And>x. P x \<Longrightarrow> Q x) \<Longrightarrow> pred_option P y \<Longrightarrow> pred_option Q y"
  by (cases y) auto

lemma fields_uniq:
  assumes P: "\<And>x. P x \<Longrightarrow> uniq_obj x"
  shows "fields_shape P ds fs \<Longrightarrow> names_ok ds \<Longrightarrow> distinct (map fst fs) \<and> list_all (uniq \<circ> snd) fs"
proof (induction ds arbitrary: fs)
  case (Cons d ds)
  obtain x opt op where d: "d = (x, opt, op)"
    by (cases d)
  have ok: "names_ok ds" and x: "x \<notin> fst ` set ds" "\<forall>y \<in> fst ` set ds. y @ ''_len'' \<noteq> x"
    using Cons.prems(2) d by (auto simp: names_ok_def)
  have elem: "elem_shape P e v \<Longrightarrow> uniq v" for e v
    using pred_option_mono [of P uniq_obj, OF P] by (cases v) (auto simp: elem_shape_def option.pred_map)
  have val: "op_shape P op v \<Longrightarrow> uniq v" for v
    using pred_option_mono [of P uniq_obj, OF P] elem
    by (cases v) (auto simp: op_shape_def list_all_iff option.pred_map split: dop.splits)
  from Cons.prems(1) [unfolded d] show ?case
  proof (cases rule: fields_cases)
    case absent
    then show ?thesis
      using Cons.IH ok by blast
  next
    case (present v r)
    have "x \<notin> fst ` set r"
      by (rule field_fresh [OF present(3) x])
    then show ?thesis
      using Cons.IH [OF present(3) ok] val [OF present(2)] present(1) by simp
  next
    case (short v)
    then show ?thesis
      by (auto simp: refused_len_def split: dop.splits fval.splits)
  qed
qed simp

lemma typed_uniq: "\<forall>m \<in> set ms. supported m \<Longrightarrow> typed ms n x \<Longrightarrow> uniq_obj x"
proof (induction n arbitrary: x)
  case (Suc n)
  obtain i copy fs where x: "x = TL i copy fs"
    by (cases x)
  then obtain m where m: "get_fun ms i = Some m" "fields_shape (typed ms n) (declared_fields m) fs"
    using Suc.prems by (auto split: option.splits)
  have "m \<in> set ms"
    using m(1) by (induction ms) (auto split: if_splits)
  then have "names_ok (declared_fields m)"
    using Suc.prems(1) by (auto simp: supported_def)
  from fields_uniq [OF _ m(2) this] Suc.IH [OF Suc.prems(1)] show ?case
    by (auto simp: x list_all_iff)
qed simp

section \<open>Properties\<close>

text \<open>contacts.blocked, and an answer that claims 200 blocked peers.\<close>

definition mk_arg :: "string \<Rightarrow> string \<Rightarrow> arg_t" where
  "mk_arg x ty = \<lparr>arg_name = x, arg_type = Some ty, flagn = 0, flagb = 0\<rparr>"

definition contacts_blocked :: method_t where
  "contacts_blocked = \<lparr>m_name = ''contacts_blocked'', m_id = 0x0ade1591, m_ret = None,
     m_args = [mk_arg ''blocked'' ''Vector<PeerBlocked>'', mk_arg ''chats'' ''Vector<Chat>'', mk_arg ''users'' ''Vector<User>''],
     m_nflags = 0\<rparr>"

definition blocked_200 :: buf_t where
  "blocked_200 = buf_of (le_bytes 4 (0x0ade1591 :: u32) @ le_bytes 4 (200 :: u32))"

lemma blocked_supported: "\<forall>m \<in> set [contacts_blocked]. supported m"
  by code_simp

lemma blocked_read:
  "\<exists>copy b'. tl_deserialize [contacts_blocked] 1 blocked_200 = Some (Some (TL 0x0ade1591 copy [(''blocked_len'', FInt 200)]), b')"
proof -
  have v: "views blocked_200 (le_bytes 4 (0x0ade1591 :: u32) @ le_bytes 4 (200 :: u32))"
    unfolding blocked_200_def by (rule owns_views [OF buf_of_owns]) simp
  have "buf_get_ui32 blocked_200 = Some 0x0ade1591"
    using buf_get_ok(1) [OF v] by (simp add: le_val_le_bytes)
  moreover obtain c where "buf_add_buf blocked_200 = Some c"
    using buf_add_buf_ok [OF v] by (auto simp: ok_def split: option.splits)
  moreover have "views (skip 4 blocked_200) (le_bytes 4 (200 :: u32))"
    using skip_views [OF v, of 4] by simp
  then have "buf_get_ui32 (skip 4 blocked_200) = Some 200"
    using buf_get_ok(1) by (fastforce simp: le_val_le_bytes)
  ultimately show ?thesis
    by (simp add: tl_read_def deserialize_ui32_def contacts_blocked_def mk_arg_def dop_kind_def vector_of_def delem_kind_def
      flag_of_def flag_on_def get_op_def get_vector_def get_len_def id_vector_def)
qed



text \<open>C38. Freeing is exact: of an object read from any bytes, over declarations whose fields have
  different names, tl_free releases every block exactly once except the bodies of messages, which
  are lost, and is undefined (a null pointer is read) exactly when a vector of strings or
  objects claimed more than 100 elements.\<close>

theorem tl_free_exact:
  assumes "\<forall>m \<in> set ms. supported m" and "tl_deserialize ms n b = Some (Some x, b')"
  shows "distinct (obj_blocks True x []) \<and>
    tl_free ms n x [] = (if refused ms n x then None else Some (obj_blocks False x []))"
proof -
  have t: "typed ms n x"
    using assms(2) tl_deserialize_typed [of ms n] unfolding gives_def by blast
  then show ?thesis
    using blocks_below(2) [OF typed_uniq [OF assms(1)], of n x "[]" True] tl_free_ok [OF assms(1), of n]
    by (simp add: frees_def below_def)
qed

theorem tl_free_exact_witness:
  "\<exists>x b'. tl_deserialize [contacts_blocked] 1 blocked_200 = Some (Some x, b') \<and> tl_free [contacts_blocked] 1 x [] = None"
proof -
  obtain copy b' where r: "tl_deserialize [contacts_blocked] 1 blocked_200 = Some (Some (TL 0x0ade1591 copy [(''blocked_len'', FInt 200)]), b')"
    using blocked_read by blast
  have "(0 :: u32) <s 200"
    by (simp add: word_sless_alt)
  then have "refused [contacts_blocked] 1 (TL 0x0ade1591 copy [(''blocked_len'', FInt 200)])"
    by (simp add: contacts_blocked_def mk_arg_def declared_fields_def declared_arg_def refused_field_def dop_kind_def
      vector_of_def delem_kind_def free_of_elem_def)
  then show ?thesis
    using tl_free_exact [OF blocked_supported r] r by auto
qed

end
