(* ===== verification/Str.thy ===== *)
theory Str
  imports Prelude
begin

text \<open>
  Dynamic strings (tl/str.h) and the formats the code prints into them.  A string is its
  characters up to the null character and the allocated size; allocation succeeds.
\<close>

record str =
  chars :: "byte list"
  str_size :: int

definition str_init :: str where
  "str_init = \<lparr>chars = [], str_size = 8192\<rparr>"

text \<open>The size grows by BUFSIZ until it is enough; sizes are ints.\<close>

function str_realloc :: "str \<Rightarrow> int \<Rightarrow> str option" where
  "str_realloc s new_size =
     (if \<not> str_size s < new_size then Some s
      else if 2 ^ 31 \<le> str_size s + 8192 then None
      else str_realloc (s\<lparr>str_size := str_size s + 8192\<rparr>) new_size)"
  by pat_completeness auto
termination by (relation "measure (\<lambda>(s, n). nat (n - str_size s))") auto

declare str_realloc.simps [simp del]

definition str_append :: "str \<Rightarrow> byte list \<Rightarrow> str option" where
  "str_append s t =
     (if t = [] then Some s
      else let new_size = int (length (chars s)) + int (length t) + 1 in
        if 2 ^ 31 \<le> new_size then None
        else do {
          s \<leftarrow> str_realloc s new_size;
          Some (s\<lparr>chars := chars s @ t\<rparr>)
        })"

text \<open>The formatted text is cut to what an array of BUFSIZ characters takes.\<close>

definition str_appendf :: "str \<Rightarrow> byte list \<Rightarrow> str option" where
  "str_appendf s t = str_append s (take 8190 t)"

fun str_appends :: "str \<Rightarrow> byte list list \<Rightarrow> str option" where
  "str_appends s [] = Some s"
| "str_appends s (t # ts) = do { s \<leftarrow> str_appendf s t; str_appends s ts }"

text \<open>Literals, and the conversions of a signed number.\<close>

definition lit :: "string \<Rightarrow> byte list" where
  "lit = map of_char"

function dec_digits :: "nat \<Rightarrow> byte list" where
  "dec_digits n = (if n < 10 then [48 + of_nat n] else dec_digits (n div 10) @ [48 + of_nat (n mod 10)])"
  by pat_completeness auto
termination by (relation "measure id") auto

declare dec_digits.simps [simp del]

definition dec :: "int \<Rightarrow> byte list" where
  "dec i = (if i < 0 then 45 # dec_digits (nat (- i)) else dec_digits (nat i))"

section \<open>What the operations do\<close>

definition str_wf :: "str \<Rightarrow> bool" where
  "str_wf s \<longleftrightarrow> int (length (chars s)) < str_size s \<and> str_size s < 2 ^ 31"

lemma str_init_wf [simp]: "str_wf str_init" "chars str_init = []"
  by (simp_all add: str_wf_def str_init_def)

lemma str_realloc_ok:
  "new_size < 2 ^ 31 - 8192 \<Longrightarrow> str_size s < 2 ^ 31 \<Longrightarrow>
    ok (str_realloc s new_size) (\<lambda>s'. chars s' = chars s \<and> new_size \<le> str_size s' \<and> str_size s' < 2 ^ 31)"
proof (induction s new_size rule: str_realloc.induct)
  case (1 s new_size)
  show ?case
  proof (cases "str_size s < new_size")
    case True
    then show ?thesis
      using 1 by (subst str_realloc.simps) simp
  qed (use 1 in \<open>simp add: str_realloc.simps [of s]\<close>)
qed

lemma str_append_ok:
  assumes "str_wf s" and "length (chars s) + length t < 2 ^ 31 - 8194"
  shows "ok (str_append s t) (\<lambda>s'. str_wf s' \<and> chars s' = chars s @ t)"
proof (cases "t = []")
  case False
  let ?n = "int (length (chars s)) + int (length t) + 1"
  have "ok (str_realloc s ?n) (\<lambda>s'. chars s' = chars s \<and> ?n \<le> str_size s' \<and> str_size s' < 2 ^ 31)"
    by (rule str_realloc_ok) (use assms in \<open>auto simp: str_wf_def\<close>)
  then show ?thesis
    using False assms(2) by (auto simp: str_append_def str_wf_def Let_def intro: ok_bind)
qed (use assms in \<open>simp add: str_append_def\<close>)

lemma str_appendf_ok:
  assumes "str_wf s" and "length t \<le> 8190" and "length (chars s) + length t < 2 ^ 31 - 8194"
  shows "ok (str_appendf s t) (\<lambda>s'. str_wf s' \<and> chars s' = chars s @ t)"
  using str_append_ok [of s t] assms by (simp add: str_appendf_def)

lemma str_appends_ok:
  "str_wf s \<Longrightarrow> \<forall>t \<in> set ts. length t \<le> 8190 \<Longrightarrow> length (chars s) + length (concat ts) < 2 ^ 31 - 8194 \<Longrightarrow>
    ok (str_appends s ts) (\<lambda>s'. str_wf s' \<and> chars s' = chars s @ concat ts)"
proof (induction ts arbitrary: s)
  case (Cons t ts)
  have "ok (str_appendf s t) (\<lambda>s'. str_wf s' \<and> chars s' = chars s @ t)"
    by (rule str_appendf_ok) (use Cons.prems in auto)
  then show ?case
  proof (simp, rule ok_bind)
    fix s'
    assume s': "str_wf s' \<and> chars s' = chars s @ t"
    have "ok (str_appends s' ts) (\<lambda>s''. str_wf s'' \<and> chars s'' = chars s' @ concat ts)"
      by (rule Cons.IH) (use Cons.prems s' in auto)
    then show "ok (str_appends s' ts) (\<lambda>s''. str_wf s'' \<and> chars s'' = chars s @ t @ concat ts)"
      using s' by simp
  qed
qed simp

end
