(* ===== verification/Updates.thy ===== *)
theory Updates
  imports Peer Str
begin

text \<open>
  Updates (tg/updates.c): what the client does with an update of the server, as the list of the
  calls it makes: the statements for the database, the client's callback, and the saving of users,
  chats and full messages, which is not modelled further.  A null pointer or a value that was
  never written is undefined.  The argument \<^theory_text>\<open>lg\<close> says that a callback for the log is set: only then
  are the arguments of a log line evaluated.
\<close>

datatype TG_UPDATE = TG_UPDATE_MESSAGE | TG_UPDATE_MESSAGE_DELETE
  | TG_UPDATE_USER_TYPING | TG_UPDATE_USER_CANCEL | TG_UPDATE_USER_UPLOAD_VIDEO | TG_UPDATE_USER_UPLOAD_AUDIO
  | TG_UPDATE_USER_UPLOAD_PHOTO | TG_UPDATE_USER_UPLOAD_DOCUMENT | TG_UPDATE_USER_RECORD_AUDIO | TG_UPDATE_USER_RECORD_ROUND
  | TG_UPDATE_CHAT_MESSAGE
  | TG_UPDATE_CHAT_USER_TYPING | TG_UPDATE_CHAT_USER_CANCEL | TG_UPDATE_CHAT_USER_UPLOAD_VIDEO | TG_UPDATE_CHAT_USER_UPLOAD_AUDIO
  | TG_UPDATE_CHAT_USER_UPLOAD_PHOTO | TG_UPDATE_CHAT_USER_UPLOAD_DOCUMENT | TG_UPDATE_CHAT_USER_RECORD_AUDIO
  | TG_UPDATE_CHAT_USER_RECORD_ROUND | TG_UPDATE_USER_STATUS

text \<open>The fields of a message that a short update sets.\<close>

record short_message =
  sm_out :: bool
  sm_mentioned :: bool
  sm_media_unread :: bool
  sm_silent :: bool
  sm_id :: u32
  sm_from_id :: u64
  sm_message :: "byte list"
  sm_date :: u32
  sm_ttl_period :: u32

datatype upd_data = UShort short_message | UChatShort u64 short_message | UFull tl_obj | UMsgId u32
  | UUser u64 | UChatUser u64 u64 | UStatus u64 u32

datatype event = OnUpdate TG_UPDATE upd_data | Exec "byte list" | MessageToDatabase tl_obj
  | UsersSave "fval list" | ChatsSave "fval list"

definition id_updatesTooLong :: u32 where "id_updatesTooLong = 0xe317af7e"
definition id_updateShortMessage :: u32 where "id_updateShortMessage = 0x313bc7f8"
definition id_updateShortChatMessage :: u32 where "id_updateShortChatMessage = 0x4d6deea5"
definition id_updateShort :: u32 where "id_updateShort = 0x78d4dec1"
definition id_updatesCombined :: u32 where "id_updatesCombined = 0x725b04c3"
definition id_updates :: u32 where "id_updates = 0x74ae4240"
definition id_updateShortSentMessage :: u32 where "id_updateShortSentMessage = 0x9015e101"
definition id_updateNewMessage :: u32 where "id_updateNewMessage = 0x1f2b0afd"
definition id_updateDeleteMessages :: u32 where "id_updateDeleteMessages = 0xa20db0e5"
definition id_updateUserTyping :: u32 where "id_updateUserTyping = 0xc01e857f"
definition id_updateChatUserTyping :: u32 where "id_updateChatUserTyping = 0x83487af0"
definition id_updateChannelUserTyping :: u32 where "id_updateChannelUserTyping = 0x8c88c923"
definition id_updateUserStatus :: u32 where "id_updateUserStatus = 0xe5bdf8de"
definition id_message :: u32 where "id_message = 0x94345242"
definition id_messageService :: u32 where "id_messageService = 0x2b085862"
definition id_userStatusEmpty :: u32 where "id_userStatusEmpty = 0x09d05049"

lemmas update_ids = id_updatesTooLong_def id_updateShortMessage_def id_updateShortChatMessage_def id_updateShort_def
  id_updatesCombined_def id_updates_def id_updateShortSentMessage_def id_updateNewMessage_def id_updateDeleteMessages_def
  id_updateUserTyping_def id_updateChatUserTyping_def id_updateChannelUserTyping_def id_updateUserStatus_def

section \<open>One update\<close>

text \<open>The actions that are reported, with what is reported for a user and for a user in a chat:
  typing, cancel, uploads of video, audio, photo and document, recording of audio and of a round.\<close>

definition action_updates :: "(u32 \<times> TG_UPDATE \<times> TG_UPDATE) list" where
  "action_updates =
    [(0x16bf744e, TG_UPDATE_USER_TYPING, TG_UPDATE_CHAT_USER_TYPING),
     (0xfd5ec8f5, TG_UPDATE_USER_CANCEL, TG_UPDATE_CHAT_USER_CANCEL),
     (0xe9763aec, TG_UPDATE_USER_UPLOAD_VIDEO, TG_UPDATE_CHAT_USER_UPLOAD_VIDEO),
     (0xf351d7ab, TG_UPDATE_USER_UPLOAD_AUDIO, TG_UPDATE_CHAT_USER_UPLOAD_AUDIO),
     (0xd1d34a26, TG_UPDATE_USER_UPLOAD_PHOTO, TG_UPDATE_CHAT_USER_UPLOAD_PHOTO),
     (0xaa0cd9e4, TG_UPDATE_USER_UPLOAD_DOCUMENT, TG_UPDATE_CHAT_USER_UPLOAD_DOCUMENT),
     (0xd52f73f7, TG_UPDATE_USER_RECORD_AUDIO, TG_UPDATE_CHAT_USER_RECORD_AUDIO),
     (0x88f27fbc, TG_UPDATE_USER_RECORD_ROUND, TG_UPDATE_CHAT_USER_RECORD_ROUND)]"

definition user_typing :: "tl_obj \<Rightarrow> event list option" where
  "user_typing m = do {
     a \<leftarrow> fld_obj m ''action'';
     Some (case map_of action_updates (tl_id a) of
        Some (u, c) \<Rightarrow> [OnUpdate u (UUser (fld_long m ''user_id''))] | None \<Rightarrow> [])
   }"

text \<open>A null sender only leaves the switch.\<close>

definition chat_user_typing :: "string \<Rightarrow> tl_obj \<Rightarrow> event list option" where
  "chat_user_typing chat m = (case fld_obj m ''from_id'' of
     None \<Rightarrow> Some []
   | Some peer \<Rightarrow> do {
       a \<leftarrow> fld_obj m ''action'';
       Some (case map_of action_updates (tl_id a) of
          Some (u, c) \<Rightarrow> [OnUpdate c (UChatUser (fld_long m chat) (peer_field peer))] | None \<Rightarrow> [])
     })"

text \<open>The status is the identifier of its type; another one leaves it zero.\<close>

definition user_status :: "tl_obj \<Rightarrow> event list option" where
  "user_status m = do {
     st \<leftarrow> fld_obj m ''status'';
     Some [OnUpdate TG_UPDATE_USER_STATUS (UStatus (fld_long m ''user_id'')
       (if tl_id st \<in> {id_userStatusEmpty, 0xedb93949, 0x008c703f, 0x7b197dc8, 0x541a1d1a, 0x65899777} then tl_id st else 0))]
   }"

text \<open>The identifiers are read through the array, which a refused vector does not have.\<close>

fun deleted_events :: "fval list \<Rightarrow> event list" where
  "deleted_events [] = []"
| "deleted_events (v # vs) = OnUpdate TG_UPDATE_MESSAGE_DELETE (UMsgId (case v of FInt i \<Rightarrow> i | _ \<Rightarrow> 0)) # deleted_events vs"

definition delete_messages :: "tl_obj \<Rightarrow> event list option" where
  "delete_messages m = (if 0 <s fld_int m ''messages_len'' then None else Some (deleted_events (fld_vec m ''messages'')))"

text \<open>tg_message_from_tl_unknown writes its result for two kinds of messages only.\<close>

definition new_message :: "tl_obj \<Rightarrow> event list option" where
  "new_message m = do {
     x \<leftarrow> fld_obj m ''message'';
     (if tl_id x = id_message \<or> tl_id x = id_messageService
      then Some [MessageToDatabase x, OnUpdate TG_UPDATE_MESSAGE (UFull x)]
      else None)
   }"

definition tg_do_update :: "bool \<Rightarrow> tl_obj option \<Rightarrow> event list option" where
  "tg_do_update lg update = (case update of
     None \<Rightarrow> if lg then None else Some []
   | Some m \<Rightarrow>
       if tl_id m = id_updateNewMessage then new_message m
       else if tl_id m = id_updateDeleteMessages then delete_messages m
       else if tl_id m = id_updateUserTyping then user_typing m
       else if tl_id m = id_updateChatUserTyping then chat_user_typing ''chat_id'' m
       else if tl_id m = id_updateChannelUserTyping then chat_user_typing ''channel_id'' m
       else if tl_id m = id_updateUserStatus then user_status m
       else Some [])"

section \<open>Short messages\<close>

definition fld_bool :: "tl_obj \<Rightarrow> string \<Rightarrow> bool" where
  "fld_bool x n = (case fld x n of Some (FBool t) \<Rightarrow> t | _ \<Rightarrow> False)"

definition c_string :: "byte list \<Rightarrow> byte list" where
  "c_string bs = takeWhile (\<lambda>c. c \<noteq> 0) bs"

text \<open>The identifier of a short chat message is taken from the identifier of its type.\<close>

definition short_of :: "tl_obj \<Rightarrow> short_message" where
  "short_of x = (let chat = (tl_id x = id_updateShortChatMessage) in
     \<lparr>sm_out = fld_bool x ''out'', sm_mentioned = fld_bool x ''mentioned'', sm_media_unread = fld_bool x ''media_unread'',
      sm_silent = fld_bool x ''silent'', sm_id = (if chat then tl_id x else fld_int x ''id''),
      sm_from_id = (if chat then fld_long x ''from_id'' else 0), sm_message = c_string (fld_bytes x ''message''),
      sm_date = fld_int x ''date'', sm_ttl_period = fld_int x ''ttl_period''\<rparr>)"

definition quoted :: "byte list \<Rightarrow> byte list" where
  "quoted t = 39 # t @ [39]"

definition insert_sql :: "u32 \<Rightarrow> byte list" where
  "insert_sql i = lit ''INSERT INTO '' @ quoted (lit ''messages'') @ lit '' ('' @ quoted (lit ''msg_id'') @ lit '') SELECT '' @ dec (sint i) @
     lit '' WHERE NOT EXISTS (SELECT 1 FROM messages WHERE msg_id = '' @ dec (sint i) @ lit '');'' @ [10]"

definition update_sql :: "byte list" where
  "update_sql = lit ''UPDATE '' @ quoted (lit ''messages'') @ lit '' SET ''"

definition column_sql :: "string \<Rightarrow> int \<Rightarrow> byte list" where
  "column_sql name v = quoted (lit name) @ lit '' = '' @ dec v @ lit '', ''"

definition where_sql :: "u32 \<Rightarrow> u32 \<Rightarrow> byte list" where
  "where_sql me i = lit ''id = '' @ dec (sint me) @ lit '' WHERE msg_id = '' @ dec (sint i) @ lit '';'' @ [10]"

definition columns_sql :: "short_message \<Rightarrow> byte list list" where
  "columns_sql m =
    [column_sql ''out'' (of_bool (sm_out m)), column_sql ''mentioned'' (of_bool (sm_mentioned m)),
     column_sql ''media_unread'' (of_bool (sm_media_unread m)), column_sql ''silent'' (of_bool (sm_silent m)),
     column_sql ''date'' (uint (sm_date m)), column_sql ''ttl_period'' (uint (sm_ttl_period m))]"

definition message_sql :: "u32 \<Rightarrow> short_message \<Rightarrow> byte list option" where
  "message_sql me m = do {
     s \<leftarrow> str_appends str_init [insert_sql (sm_id m), update_sql];
     s \<leftarrow> (if sm_message m = [] then Some s
          else do {
            s \<leftarrow> str_appendf s (quoted (lit ''message'') @ lit '' = '' @ [39]);
            s \<leftarrow> str_append s (sm_message m);
            str_appendf s (39 # lit '', '')
          });
     s \<leftarrow> str_appends s (columns_sql m @ [where_sql me (sm_id m)]);
     Some (chars s)
   }"

definition message_update :: "u32 \<Rightarrow> tl_obj \<Rightarrow> (short_message \<times> event list) option" where
  "message_update me x = do {
     sql \<leftarrow> message_sql me (short_of x);
     Some (short_of x, [Exec sql])
   }"

section \<open>Updates\<close>

text \<open>A null update in a vector is skipped; an update that is undefined leaves nothing.\<close>

fun do_each :: "bool \<Rightarrow> fval list \<Rightarrow> event list option" where
  "do_each lg [] = Some []"
| "do_each lg (FObj None # us) = do_each lg us"
| "do_each lg (FObj (Some u) # us) = do {
     es \<leftarrow> tg_do_update lg (Some u);
     fs \<leftarrow> do_each lg us;
     Some (es @ fs)
   }"
| "do_each lg (_ # us) = None"

definition do_container :: "bool \<Rightarrow> tl_obj \<Rightarrow> event list option" where
  "do_container lg x = do {
     es \<leftarrow> do_each lg (fld_vec x ''updates'');
     Some (UsersSave (fld_vec x ''users'') # ChatsSave (fld_vec x ''chats'') # es)
   }"

definition tg_do_updates :: "bool \<Rightarrow> u32 \<Rightarrow> tl_obj option \<Rightarrow> (nat \<times> event list) option" where
  "tg_do_updates lg me t = (case t of
     None \<Rightarrow> Some (1, [])
   | Some x \<Rightarrow>
       if tl_id x = id_updatesTooLong then Some (0, [])
       else if tl_id x = id_updateShortMessage then do {
         (m, es) \<leftarrow> message_update me x;
         Some (0, es @ [OnUpdate TG_UPDATE_MESSAGE (UShort m)])
       }
       else if tl_id x = id_updateShortChatMessage then do {
         (m, es) \<leftarrow> message_update me x;
         Some (0, es @ [OnUpdate TG_UPDATE_CHAT_MESSAGE (UChatShort (fld_long x ''chat_id'') m)])
       }
       else if tl_id x = id_updateShort then map_option (Pair 0) (tg_do_update lg (fld_obj x ''update''))
       else if tl_id x = id_updatesCombined \<or> tl_id x = id_updates then map_option (Pair 0) (do_container lg x)
       else if tl_id x = id_updateShortSentMessage then Some (0, [])
       else Some (1, []))"

end
