(* ===== verification/UpdatesProps.thy ===== *)
theory UpdatesProps
  imports Updates
begin

text \<open>
  The statements that short messages become, and what an SQL parser takes for data in them.
\<close>

section \<open>Lengths\<close>

lemma length_dec_digits: "n < 10 ^ k \<Longrightarrow> 0 < k \<Longrightarrow> length (dec_digits n) \<le> k"
proof (induction k arbitrary: n)
  case (Suc k)
  show ?case
  proof (cases "n < 10")
    case False
    then have "0 < k"
      using Suc.prems by (cases k) auto
    then have "length (dec_digits (n div 10)) \<le> k"
      using Suc by simp
    then show ?thesis
      using False by (simp add: dec_digits.simps [of n])
  qed (simp add: dec_digits.simps [of n])
qed simp

lemma length_dec: "\<bar>i\<bar> < 10 ^ 10 \<Longrightarrow> length (dec i) \<le> 11"
  using length_dec_digits [of "nat i" 10] length_dec_digits [of "nat (- i)" 10] by (auto simp: dec_def nat_less_iff)

lemma length_dec_word:
  "length (dec (sint (w :: u32))) \<le> 11" "length (dec (uint (w :: u32))) \<le> 11" "length (dec 0) \<le> 11" "length (dec 1) \<le> 11"
proof -
  have "- (2 ^ 31) \<le> sint w" "sint w < 2 ^ 31" "0 \<le> uint w" "uint w < 2 ^ 32"
    using sint_ge [of w] sint_less [of w] uint_lt2p [of w] by simp_all
  then show "length (dec (sint w)) \<le> 11" "length (dec (uint w)) \<le> 11"
    by (auto intro!: length_dec)
  show "length (dec 0) \<le> 11" "length (dec 1) \<le> 11"
    by (auto intro!: length_dec)
qed

lemma length_lit [simp]: "length (lit s) = length s"
  by (simp add: lit_def)

lemma short_pieces:
  "length (insert_sql i) \<le> 8190" "length update_sql \<le> 8190" "length (where_sql me i) \<le> 8190"
  "t \<in> set (columns_sql m) \<Longrightarrow> length t \<le> 8190"
  using length_dec_word(1) [of i] length_dec_word(1) [of me] length_dec_word(2) [of "sm_date m"]
    length_dec_word(2) [of "sm_ttl_period m"] length_dec_word(3,4)
  by (auto simp: insert_sql_def update_sql_def where_sql_def columns_sql_def column_sql_def quoted_def)

section \<open>The statement\<close>

definition text_column :: "byte list \<Rightarrow> byte list" where
  "text_column t = (if t = [] then [] else (quoted (lit ''message'') @ lit '' = '' @ [39]) @ t @ 39 # lit '', '')"

lemma length_concat_le: "\<forall>t \<in> set ts. length t \<le> k \<Longrightarrow> length (concat ts) \<le> length ts * k"
  by (induction ts) auto

lemma message_sql_ok:
  assumes "length (sm_message m) < 2 ^ 30"
  shows "message_sql me m = Some ((insert_sql (sm_id m) @ update_sql) @ text_column (sm_message m) @ concat (columns_sql m) @ where_sql me (sm_id m))"
proof -
  let ?head = "insert_sql (sm_id m) @ update_sql" and ?t = "sm_message m"
  let ?tail = "columns_sql m @ [where_sql me (sm_id m)]"
  have head: "length ?head \<le> 16380"
    using short_pieces(1) [of "sm_id m"] short_pieces(2) by simp
  have body: "length (text_column ?t) \<le> 2 ^ 30 + 100"
    using assms by (simp add: text_column_def quoted_def)
  have pieces: "\<forall>t \<in> set ?tail. length t \<le> 8190"
    using short_pieces(3,4) by auto
  have tail: "length (concat ?tail) \<le> 7 * 8190"
    using length_concat_le [OF pieces] by (simp add: columns_sql_def)
  obtain s1 where s1: "str_appends str_init [insert_sql (sm_id m), update_sql] = Some s1" "str_wf s1" "chars s1 = ?head"
    using str_appends_ok [of str_init "[insert_sql (sm_id m), update_sql]"] short_pieces(1,2) head
    by (auto simp: ok_def split: option.splits)
  obtain s2 where s2: "(if ?t = [] then Some s1
      else do {
        s \<leftarrow> str_appendf s1 (quoted (lit ''message'') @ lit '' = '' @ [39]);
        s \<leftarrow> str_append s ?t;
        str_appendf s (39 # lit '', '')
      }) = Some s2" "str_wf s2" "chars s2 = ?head @ text_column ?t"
  proof (cases "?t = []")
    case True
    then show ?thesis
      using that [of s1] s1 by (simp add: text_column_def)
  next
    case False
    let ?open = "quoted (lit ''message'') @ lit '' = '' @ [39]"
    have o: "length ?open \<le> 8190" "length (39 # lit '', '') \<le> 8190"
      by (simp_all add: quoted_def)
    obtain a where a: "str_appendf s1 ?open = Some a" "str_wf a" "chars a = ?head @ ?open"
      using str_appendf_ok [OF s1(2) o(1)] head s1(3) by (auto simp: ok_def quoted_def split: option.splits)
    obtain b where b: "str_append a ?t = Some b" "str_wf b" "chars b = (?head @ ?open) @ ?t"
      using str_append_ok [OF a(2), of ?t] head assms a(3) by (auto simp: ok_def quoted_def split: option.splits)
    obtain c where c: "str_appendf b (39 # lit '', '') = Some c" "str_wf c" "chars c = ((?head @ ?open) @ ?t) @ 39 # lit '', ''"
      using str_appendf_ok [OF b(2) o(2)] head assms b(3) by (auto simp: ok_def quoted_def split: option.splits)
    show ?thesis
      by (rule that [of c]) (use False a b c in \<open>simp_all add: text_column_def\<close>)
  qed
  obtain s3 where s3: "str_appends s2 ?tail = Some s3" "chars s3 = (?head @ text_column ?t) @ concat ?tail"
  proof -
    have "length (chars s2) + length (concat ?tail) < 2 ^ 31 - 8194"
      using head body tail s2(3) by simp
    from str_appends_ok [OF s2(2) pieces this] show ?thesis
      using that s2(3) by (auto simp: ok_def split: option.splits)
  qed
  show ?thesis
    using s1(1) s2(1) s3 by (simp add: message_sql_def)
qed

section \<open>What is data\<close>

text \<open>Whether the text after a statement's beginning is inside a literal; a doubled quote leaves and
  enters again.\<close>

fun scan :: "bool \<Rightarrow> byte list \<Rightarrow> bool" where
  "scan q [] = q"
| "scan q (c # cs) = scan (if c = 39 then \<not> q else q) cs"

lemma scan_append: "scan q (xs @ ys) = scan (scan q xs) ys"
  by (induction xs arbitrary: q) simp_all

lemma scan_count: "scan q xs = (q = even (count_list xs 39))"
  by (induction xs arbitrary: q) auto

lemma digit_no_quote:
  assumes "k < 10"
  shows "(48 + of_nat k :: byte) \<noteq> 39"
proof
  assume "(48 + of_nat k :: byte) = 39"
  then have "unat (48 + of_nat k :: byte) = unat (39 :: byte)"
    by (rule arg_cong)
  moreover have "unat (48 + of_nat k :: byte) = 48 + k"
    using assms by (simp add: unat_word_ariths unsigned_of_nat take_bit_nat_eq_self)
  ultimately show False
    by simp
qed

lemma dec_digits_no_quote: "39 \<notin> set (dec_digits n)"
proof (induction n rule: dec_digits.induct)
  case (1 n)
  then show ?case
    using digit_no_quote [of n] digit_no_quote [of "n mod 10"] by (auto simp: dec_digits.simps [of n])
qed

lemma dec_no_quote [simp]: "count_list (dec i) 39 = 0"
  using dec_digits_no_quote by (auto simp: dec_def count_list_0_iff)

lemma head_closed: "\<not> scan False (insert_sql i @ update_sql)"
  by (simp add: scan_count insert_sql_def update_sql_def quoted_def lit_def)

lemma column_opens: "scan False ((insert_sql i @ update_sql) @ quoted (lit ''message'') @ lit '' = '' @ [39])"
  by (simp add: scan_count insert_sql_def update_sql_def quoted_def lit_def)

section \<open>Properties\<close>

lemma short_sql:
  assumes "tl_id x \<in> {id_updateShortMessage, id_updateShortChatMessage}" and "c_string (fld_bytes x ''message'') = t" and "length t < 2 ^ 30"
  shows "\<exists>ev. tg_do_updates lg me (Some x) = Some (0, [Exec ((insert_sql (sm_id (short_of x)) @ update_sql) @ text_column t @
    concat (columns_sql (short_of x)) @ where_sql me (sm_id (short_of x))), ev])"
proof -
  have "sm_message (short_of x) = t"
    using assms(2) by (simp add: short_of_def Let_def)
  with message_sql_ok [of "short_of x" me] assms(1,3) show ?thesis
    by (auto simp: tg_do_updates_def message_update_def update_ids)
qed

text \<open>C39. The text of a received short message becomes part of an SQL statement as it is: the client
  executes a statement that contains the text between quotes, and a character of the text is data
  for the database only while the number of quotes before it in the text is even; what follows a
  first quote is executed as SQL.\<close>

theorem short_message_injection:
  assumes "tl_id x \<in> {id_updateShortMessage, id_updateShortChatMessage}"
    and "c_string (fld_bytes x ''message'') = t" and "t \<noteq> []" and "length t < 2 ^ 30"
  shows "\<exists>pre post ev. tg_do_updates lg me (Some x) = Some (0, [Exec (pre @ t @ post), ev]) \<and>
    (\<forall>a b. t = a @ b \<longrightarrow> scan False (pre @ a) = even (count_list a 39))"
proof -
  let ?pre = "(insert_sql (sm_id (short_of x)) @ update_sql) @ quoted (lit ''message'') @ lit '' = '' @ [39]"
  have "\<exists>post ev. tg_do_updates lg me (Some x) = Some (0, [Exec (?pre @ t @ post), ev])"
    using short_sql [OF assms(1,2,4), of lg me] assms(3) by (simp add: text_column_def) blast
  moreover have "scan False (?pre @ a) = even (count_list a 39)" for a
    using column_opens scan_count [of True a] scan_append [of False ?pre a] by simp
  ultimately show ?thesis
    by blast
qed

definition demo_short :: tl_obj where
  "demo_short = TL id_updateShortMessage [] [(''id'', FInt 7), (''message'', FBytes (lit ''hi'' @ 39 # lit ''; DROP TABLE messages; --''))]"

theorem short_message_injection_witness:
  "\<exists>pre post ev. tg_do_updates False 1 (Some demo_short) =
      Some (0, [Exec (pre @ (lit ''hi'' @ 39 # lit ''; DROP TABLE messages; --'') @ post), ev]) \<and>
    scan False (pre @ lit ''hi'') \<and> \<not> scan False (pre @ lit ''hi'' @ [39])"
proof -
  let ?t = "lit ''hi'' @ 39 # lit ''; DROP TABLE messages; --''"
  have t: "c_string (fld_bytes demo_short ''message'') = ?t" "length ?t < 2 ^ 30" "?t \<noteq> []"
    by (simp_all add: demo_short_def fld_bytes_def c_string_def lit_def)
  obtain pre post ev where r: "tg_do_updates False 1 (Some demo_short) = Some (0, [Exec (pre @ ?t @ post), ev])"
    and s: "\<forall>a b. ?t = a @ b \<longrightarrow> scan False (pre @ a) = even (count_list a 39)"
    using short_message_injection [OF _ t(1,3,2), of False 1] by (auto simp: demo_short_def)
  have "scan False (pre @ lit ''hi'')"
    using s [rule_format, of "lit ''hi''" "39 # lit ''; DROP TABLE messages; --''"] by (simp add: lit_def)
  moreover have "\<not> scan False (pre @ lit ''hi'' @ [39])"
    using s [rule_format, of "lit ''hi'' @ [39]" "lit ''; DROP TABLE messages; --''"] by (simp add: lit_def)
  ultimately show ?thesis
    using r by blast
qed

text \<open>Every short message of a chat is kept in one row of the table, whatever its identifier, chat and
  text are: the statement inserts and updates the row of the identifier of the type
  updateShortChatMessage, so that each message replaces the one before.\<close>

theorem short_chat_message_row:
  assumes "tl_id x = id_updateShortChatMessage" and "length (c_string (fld_bytes x ''message'')) < 2 ^ 30"
  shows "\<exists>mid ev. tg_do_updates lg me (Some x) =
    Some (0, [Exec (insert_sql id_updateShortChatMessage @ mid @ where_sql me id_updateShortChatMessage), ev])"
proof -
  have "sm_id (short_of x) = id_updateShortChatMessage"
    using assms(1) by (simp add: short_of_def Let_def)
  with short_sql [OF _ refl assms(2), of lg me] assms(1) show ?thesis
    by auto
qed

theorem short_chat_message_row_witness:
  "\<exists>mid ev. tg_do_updates False 1 (Some (TL id_updateShortChatMessage [] [(''id'', FInt 7), (''chat_id'', FLong 9)])) =
    Some (0, [Exec (insert_sql id_updateShortChatMessage @ mid @ where_sql 1 id_updateShortChatMessage), ev])"
  by (rule short_chat_message_row) (simp_all add: fld_bytes_def c_string_def)

end
