(* ===== verification/Database.thy ===== *)
theory Database
  imports Updates
begin

text \<open>
  The client's database (tg/database.c): the statements it executes, the columns it reads and the
  lock around the writers.  SQLite is an argument: whether the file opens, what a text of
  statements does and whether it succeeds, which rows a query has (or that it does not compile),
  and what a statement with one bound blob does.  A row is what the column functions return: the
  number, and the bytes when the column is not null.  Stepping through a query gives its rows and
  ends.  The lock is the one of this thread: to take it twice is to wait for ever, and to release
  what is not held is undefined.
\<close>

record cell =
  c_int :: u64
  c_data :: "byte list option"

record 'd sqlite =
  sq_open :: "'d \<Rightarrow> bool"
  sq_exec :: "'d \<Rightarrow> byte list \<Rightarrow> 'd \<times> bool"
  sq_rows :: "'d \<Rightarrow> byte list \<Rightarrow> cell list list option"
  sq_blob :: "'d \<Rightarrow> byte list \<Rightarrow> byte list \<Rightarrow> 'd option"

record 'd tg_db =
  db_id :: u32
  db :: 'd
  databasem :: bool

section \<open>The connection\<close>

definition tg_sqlite3_exec :: "'d sqlite \<Rightarrow> 'd tg_db \<Rightarrow> byte list \<Rightarrow> int \<times> 'd tg_db" where
  "tg_sqlite3_exec q s sql =
     (if \<not> sq_open q (db s) then (1, s)
      else let (d, done) = sq_exec q (db s) sql in (if done then 0 else 1, s\<lparr>db := d\<rparr>))"

definition run_sql :: "'d sqlite \<Rightarrow> byte list \<Rightarrow> 'd tg_db \<Rightarrow> 'd tg_db" where
  "run_sql q sql s = snd (tg_sqlite3_exec q s sql)"

definition tg_sqlite3_for_each :: "'d sqlite \<Rightarrow> 'd tg_db \<Rightarrow> byte list \<Rightarrow> cell list list" where
  "tg_sqlite3_for_each q s sql =
     (if \<not> sq_open q (db s) then [] else case sq_rows q (db s) sql of None \<Rightarrow> [] | Some rs \<Rightarrow> rs)"

definition lock :: "'d tg_db \<Rightarrow> 'd tg_db option" where
  "lock s = (if databasem s then None else Some (s\<lparr>databasem := True\<rparr>))"

definition unlock :: "'d tg_db \<Rightarrow> 'd tg_db option" where
  "unlock s = (if databasem s then Some (s\<lparr>databasem := False\<rparr>) else None)"

definition with_lock :: "('d tg_db \<Rightarrow> ('r \<times> 'd tg_db) option) \<Rightarrow> 'd tg_db \<Rightarrow> ('r \<times> 'd tg_db) option" where
  "with_lock f s = do {
     s \<leftarrow> lock s;
     (r, s) \<leftarrow> f s;
     s \<leftarrow> unlock s;
     Some (r, s)
   }"

text \<open>A text is printed into an array of BUFSIZ characters.\<close>

definition sprintf_buf :: "byte list \<Rightarrow> byte list option" where
  "sprintf_buf t = (if length t < 8192 then Some t else None)"

definition dec_int :: "u32 \<Rightarrow> byte list" where
  "dec_int v = dec (sint v)"

definition dec_long :: "u64 \<Rightarrow> byte list" where
  "dec_long v = dec (sint v)"

definition column :: "cell list \<Rightarrow> nat \<Rightarrow> cell option" where
  "column r i = (if i < length r then Some (r ! i) else None)"

definition column_data :: "cell list \<Rightarrow> nat \<Rightarrow> byte list option" where
  "column_data r i = do { c \<leftarrow> column r i; Some (case c_data c of None \<Rightarrow> [] | Some d \<Rightarrow> d) }"

section \<open>The authorization key\<close>

definition auth_key_query :: "u32 \<Rightarrow> byte list" where
  "auth_key_query me = lit ''SELECT auth_key FROM auth_keys WHERE id = '' @ dec_int me @ lit '';''"

definition buf_zero :: buf_t where
  "buf_zero = \<lparr>aptr = (\<lambda>_. 0), data = 0, bsize = 0, asize = 0\<rparr>"

fun key_rows :: "cell list list \<Rightarrow> buf_t \<Rightarrow> buf_t option" where
  "key_rows [] key = Some key"
| "key_rows (r # rs) key = do {
     d \<leftarrow> column_data r 0;
     key \<leftarrow> buf_add d (of_nat (length d));
     key_rows rs key
   }"

definition auth_key_from_database :: "'d sqlite \<Rightarrow> 'd tg_db \<Rightarrow> buf_t option" where
  "auth_key_from_database q s = do {
     sql \<leftarrow> sprintf_buf (auth_key_query (db_id s));
     key_rows (tg_sqlite3_for_each q s sql) buf_zero
   }"

definition auth_key_alter :: "byte list" where
  "auth_key_alter = lit ''ALTER TABLE 'auth_keys' ADD COLUMN 'auth_key' BLOB; ''"

definition auth_key_insert :: "u32 \<Rightarrow> byte list" where
  "auth_key_insert me = lit ''INSERT INTO 'auth_keys' (id) SELECT '' @ dec_int me @
     lit '' WHERE NOT EXISTS (SELECT 1 FROM auth_keys WHERE id = '' @ dec_int me @ lit ''); ''"

definition auth_key_update :: "u32 \<Rightarrow> byte list" where
  "auth_key_update me = lit ''UPDATE 'auth_keys' SET 'auth_key' = (?) WHERE id = '' @ dec_int me @ lit ''; ''"

text \<open>A connection that does not open, or a statement that does not compile, is the result 1;
  whether the step succeeds is not looked at.\<close>

definition auth_key_to_database :: "'d sqlite \<Rightarrow> buf_t \<Rightarrow> 'd tg_db \<Rightarrow> (int \<times> 'd tg_db) option" where
  "auth_key_to_database q key = with_lock (\<lambda>s. do {
     s \<leftarrow> Some (run_sql q auth_key_alter s);
     sql \<leftarrow> sprintf_buf (auth_key_insert (db_id s));
     s \<leftarrow> Some (run_sql q sql s);
     sql \<leftarrow> sprintf_buf (auth_key_update (db_id s));
     (if \<not> sq_open q (db s) then Some (1, s)
      else do {
        k \<leftarrow> peeks key 0 (unat (bsize key));
        (case sq_blob q (db s) sql k of
           None \<Rightarrow> Some (1, s)
         | Some d \<Rightarrow> Some (0, s\<lparr>db := d\<rparr>))
      })
   })"

section \<open>Texts of an account\<close>

fun strcpy_rows :: "cell list list \<Rightarrow> byte list \<Rightarrow> byte list option" where
  "strcpy_rows [] b = Some b"
| "strcpy_rows (r # rs) b = do {
     c \<leftarrow> column r 0;
     t \<leftarrow> c_data c;
     b \<leftarrow> sprintf_buf (c_string t);
     strcpy_rows rs b
   }"

definition text_from_database :: "'d sqlite \<Rightarrow> byte list \<Rightarrow> 'd tg_db \<Rightarrow> byte list option option" where
  "text_from_database q sql s = do {
     sql \<leftarrow> sprintf_buf sql;
     b \<leftarrow> strcpy_rows (tg_sqlite3_for_each q s sql) [];
     Some (if b = [] then None else Some b)
   }"

definition text_to_database :: "'d sqlite \<Rightarrow> byte list \<Rightarrow> (u32 \<Rightarrow> byte list) \<Rightarrow> 'd tg_db \<Rightarrow> (int \<times> 'd tg_db) option" where
  "text_to_database q alter stmts = with_lock (\<lambda>s. do {
     s \<leftarrow> Some (run_sql q alter s);
     sql \<leftarrow> sprintf_buf (stmts (db_id s));
     Some (tg_sqlite3_exec q s sql)
   })"

definition phone_number_from_database :: "'d sqlite \<Rightarrow> 'd tg_db \<Rightarrow> byte list option option" where
  "phone_number_from_database q s =
     text_from_database q (lit ''SELECT phone_number FROM phone_numbers WHERE id = '' @ dec_int (db_id s) @ lit '';'') s"

definition phone_number_alter :: "byte list" where
  "phone_number_alter = lit ''ALTER TABLE 'phone_numbers' ADD COLUMN 'phone_number' TEXT; ''"

definition phone_number_update :: "byte list \<Rightarrow> u32 \<Rightarrow> byte list" where
  "phone_number_update phone me = lit ''INSERT INTO 'phone_numbers' ('id') SELECT '' @ dec_int me @
     lit '' WHERE NOT EXISTS (SELECT 1 FROM phone_numbers WHERE id = '' @ dec_int me @
     lit ''); UPDATE 'phone_numbers' SET 'phone_number' = '' @ quoted phone @ lit '', id = '' @ dec_int me @ lit ''; ''"

definition phone_number_to_database :: "'d sqlite \<Rightarrow> byte list \<Rightarrow> 'd tg_db \<Rightarrow> (int \<times> 'd tg_db) option" where
  "phone_number_to_database q phone = text_to_database q phone_number_alter (phone_number_update phone)"

definition ip_address_from_database :: "'d sqlite \<Rightarrow> 'd tg_db \<Rightarrow> byte list option option" where
  "ip_address_from_database q s =
     text_from_database q (lit ''SELECT ip FROM ips WHERE id = '' @ dec_int (db_id s) @ lit '';'') s"

definition ip_alter :: "byte list" where
  "ip_alter = lit ''ALTER TABLE 'ips' ADD COLUMN 'ip' TEXT; ''"

definition ip_update :: "byte list \<Rightarrow> u32 \<Rightarrow> byte list" where
  "ip_update ip me = lit ''INSERT INTO 'ips' ('id') SELECT '' @ dec_int me @
     lit '' WHERE NOT EXISTS (SELECT 1 FROM ips WHERE id = '' @ dec_int me @
     lit ''); UPDATE 'ips' SET 'ip' = '' @ quoted ip @ lit '', id = '' @ dec_int me @ lit ''; ''"

definition ip_address_to_database :: "'d sqlite \<Rightarrow> byte list \<Rightarrow> 'd tg_db \<Rightarrow> (int \<times> 'd tg_db) option" where
  "ip_address_to_database q ip = text_to_database q ip_alter (ip_update ip)"

definition auth_token_alter :: "byte list" where
  "auth_token_alter = lit ''ALTER TABLE 'auth_tokens' ADD COLUMN 'auth_token' TEXT; ''"

definition auth_token_insert :: "byte list \<Rightarrow> u32 \<Rightarrow> byte list" where
  "auth_token_insert token me = lit ''INSERT INTO 'auth_tokens' (id, 'auth_token') VALUES ('' @ dec_int me @
     lit '', '' @ quoted token @ lit ''); ''"

definition auth_token_to_database :: "'d sqlite \<Rightarrow> byte list \<Rightarrow> 'd tg_db \<Rightarrow> (int \<times> 'd tg_db) option" where
  "auth_token_to_database q token = text_to_database q auth_token_alter (auth_token_insert token)"

definition auth_tokens_query :: "u32 \<Rightarrow> byte list" where
  "auth_tokens_query me = lit ''SELECT * FROM ((SELECT ROW_NUMBER() OVER (ORDER BY ID) AS Number, auth_token FROM auth_tokens)) WHERE id = '' @
     dec_int me @ lit '' ORDER BY Number DESC LIMIT 20;''"

text \<open>A separator is written before every token but the first; an empty one is not counted.\<close>

fun token_rows :: "cell list list \<Rightarrow> nat \<Rightarrow> str \<Rightarrow> str option" where
  "token_rows [] i s = Some s"
| "token_rows (r # rs) i s = do {
     s \<leftarrow> (if 0 < i then str_append s (lit '';'') else Some s);
     d \<leftarrow> column_data r 1;
     s \<leftarrow> str_append s d;
     token_rows rs (if d = [] then i else i + 1) s
   }"

definition auth_tokens_from_database :: "'d sqlite \<Rightarrow> 'd tg_db \<Rightarrow> byte list option option" where
  "auth_tokens_from_database q s = do {
     sql \<leftarrow> sprintf_buf (auth_tokens_query (db_id s));
     t \<leftarrow> token_rows (tg_sqlite3_for_each q s sql) 0 str_init;
     Some (if chars t = [] then None else Some (chars t))
   }"

section \<open>Hashes\<close>

text \<open>Without a row the variable is returned as it is, never written.\<close>

fun hash_rows :: "cell list list \<Rightarrow> u64 option \<Rightarrow> u64 option" where
  "hash_rows [] h = h"
| "hash_rows (r # rs) h = do { c \<leftarrow> column r 0; hash_rows rs (Some (c_int c)) }"

text \<open>The reader does not take the lock that it releases.\<close>

definition dialogs_hash_from_database :: "'d sqlite \<Rightarrow> 'd tg_db \<Rightarrow> (u64 \<times> 'd tg_db) option" where
  "dialogs_hash_from_database q s = do {
     sql \<leftarrow> sprintf_buf (lit ''SELECT hash FROM dialogs_hash WHERE id = '' @ dec_int (db_id s) @ lit '';'');
     h \<leftarrow> hash_rows (tg_sqlite3_for_each q s sql) None;
     s \<leftarrow> unlock s;
     Some (h, s)
   }"

definition dialogs_hash_alter :: "byte list" where
  "dialogs_hash_alter = lit ''ALTER TABLE 'dialogs_hash' ADD COLUMN 'hash' INT; ''"

definition dialogs_hash_update :: "u64 \<Rightarrow> u32 \<Rightarrow> byte list" where
  "dialogs_hash_update hash me = lit ''INSERT INTO 'dialogs_hash' ('id') SELECT '' @ dec_int me @
     lit '' WHERE NOT EXISTS (SELECT 1 FROM dialogs_hash WHERE id = '' @ dec_int me @
     lit ''); UPDATE 'dialogs_hash' SET 'hash' = '' @ quoted (dec_long hash) @ lit '', id = '' @ dec_int me @ lit ''; ''"

definition dialogs_hash_to_database :: "'d sqlite \<Rightarrow> u64 \<Rightarrow> 'd tg_db \<Rightarrow> (int \<times> 'd tg_db) option" where
  "dialogs_hash_to_database q hash = with_lock (\<lambda>s. do {
     sql \<leftarrow> sprintf_buf (dialogs_hash_alter @ dialogs_hash_update hash (db_id s));
     Some (tg_sqlite3_exec q s sql)
   })"

definition messages_hash_from_database :: "'d sqlite \<Rightarrow> u64 \<Rightarrow> 'd tg_db \<Rightarrow> u64 option" where
  "messages_hash_from_database q peer s = do {
     sql \<leftarrow> sprintf_buf (lit ''SELECT hash FROM messages_hash WHERE id = '' @ dec_int (db_id s) @
       lit '' AND peer_id = '' @ dec_long peer @ lit '';'');
     hash_rows (tg_sqlite3_for_each q s sql) None
   }"

definition messages_hash_alter :: "byte list" where
  "messages_hash_alter = lit ''ALTER TABLE 'messages_hash' ADD COLUMN 'hash' INT; ''"

definition messages_hash_update :: "u64 \<Rightarrow> u64 \<Rightarrow> u32 \<Rightarrow> byte list" where
  "messages_hash_update peer hash me = lit ''ALTER TABLE 'messages_hash' ADD COLUMN 'peer_id' INT; INSERT INTO 'messages_hash' ('peer_id') SELECT '' @
     dec_long peer @ lit '' WHERE NOT EXISTS (SELECT 1 FROM messages_hash WHERE peer_id = '' @ dec_long peer @
     lit ''); UPDATE 'messages_hash' SET 'hash' = '' @ dec_long hash @ lit '', id = '' @ dec_int me @
     lit '' WHERE 'peer_id' = '' @ dec_long peer @ lit '';''"

definition messages_hash_to_database :: "'d sqlite \<Rightarrow> u64 \<Rightarrow> u64 \<Rightarrow> 'd tg_db \<Rightarrow> (int \<times> 'd tg_db) option" where
  "messages_hash_to_database q peer hash = with_lock (\<lambda>s. do {
     sql \<leftarrow> sprintf_buf (messages_hash_alter @ messages_hash_update peer hash (db_id s));
     Some (tg_sqlite3_exec q s sql)
   })"

text \<open>The step of the hash over message identifiers (update_hash of tg/tg.c).\<close>

definition update_hash :: "u64 \<Rightarrow> u32 \<Rightarrow> u64" where
  "update_hash hash msg_id = (let
     h = hash XOR drop_bit 21 hash;
     h = h XOR push_bit 35 h;
     h = h XOR drop_bit 4 h
   in h + ucast msg_id)"

section \<open>Photos\<close>

fun photo_rows :: "cell list list \<Rightarrow> byte list option option" where
  "photo_rows [] = Some None"
| "photo_rows (r # rs) = do {
     d \<leftarrow> column_data r 0;
     (if d = [] then photo_rows rs else Some (Some (c_string d)))
   }"

definition photo_file_from_database :: "'d sqlite \<Rightarrow> u64 \<Rightarrow> 'd tg_db \<Rightarrow> byte list option option" where
  "photo_file_from_database q photo s = do {
     sql \<leftarrow> sprintf_buf (lit ''SELECT data FROM photos WHERE id = '' @ dec_int (db_id s) @
       lit '' AND photo_id = '' @ dec_long photo @ lit '';'');
     photo_rows (tg_sqlite3_for_each q s sql)
   }"

definition peer_photo_file_from_database :: "'d sqlite \<Rightarrow> u64 \<Rightarrow> u64 \<Rightarrow> 'd tg_db \<Rightarrow> byte list option option" where
  "peer_photo_file_from_database q peer photo s = do {
     sql \<leftarrow> sprintf_buf (lit ''SELECT data FROM peer_photos WHERE id = '' @ dec_int (db_id s) @
       lit '' AND peer_id = '' @ dec_long peer @ lit '' AND photo_id = '' @ dec_long photo @ lit '';'');
     photo_rows (tg_sqlite3_for_each q s sql)
   }"

definition data_to_database :: "'d sqlite \<Rightarrow> byte list \<Rightarrow> (u32 \<Rightarrow> byte list) \<Rightarrow> byte list \<Rightarrow> byte list \<Rightarrow> 'd tg_db \<Rightarrow>
    (int \<times> 'd tg_db) option" where
  "data_to_database q alter head dat tail = with_lock (\<lambda>s. do {
     s \<leftarrow> Some (run_sql q alter s);
     sql \<leftarrow> str_appendf str_init (head (db_id s));
     sql \<leftarrow> str_append sql dat;
     sql \<leftarrow> str_appendf sql tail;
     Some (tg_sqlite3_exec q s (chars sql))
   })"

definition photo_to_database :: "'d sqlite \<Rightarrow> u64 \<Rightarrow> byte list \<Rightarrow> 'd tg_db \<Rightarrow> (int \<times> 'd tg_db) option" where
  "photo_to_database q photo dat = data_to_database q
     (lit ''ALTER TABLE 'photos' ADD COLUMN 'data' TEXT; ALTER TABLE 'photos' ADD COLUMN 'photo_id' INT; '')
     (\<lambda>me. lit ''INSERT INTO 'photos' ('photo_id') SELECT '' @ dec_long photo @
       lit '' WHERE NOT EXISTS (SELECT 1 FROM photos WHERE photo_id = '' @ dec_long photo @
       lit ''); UPDATE 'photos' SET 'photo_id' = '' @ dec_long photo @ lit '', id = '' @ dec_int me @ lit '', data = '' @ [39])
     dat
     (39 # lit '' WHERE photo_id = '' @ dec_long photo @ lit '';'')"

definition peer_photo_to_database :: "'d sqlite \<Rightarrow> u64 \<Rightarrow> u64 \<Rightarrow> byte list \<Rightarrow> 'd tg_db \<Rightarrow> (int \<times> 'd tg_db) option" where
  "peer_photo_to_database q peer photo dat = data_to_database q
     (lit ''ALTER TABLE 'peer_photos' ADD COLUMN 'data' TEXT; ALTER TABLE 'peer_photos' ADD COLUMN 'peer_id' INT; ALTER TABLE 'peer_photos' ADD COLUMN 'photo_id' INT; '')
     (\<lambda>me. lit ''INSERT INTO 'peer_photos' ('peer_id') SELECT '' @ dec_long peer @
       lit '' WHERE NOT EXISTS (SELECT 1 FROM peer_photos WHERE peer_id = '' @ dec_long peer @
       lit ''); UPDATE 'peer_photos' SET id = '' @ dec_int me @ lit '', 'photo_id' = '' @ dec_long photo @ lit '', data = '' @ [39])
     dat
     (39 # lit '' WHERE peer_id = '' @ dec_long peer @ lit '';'')"

end
