(* ===== verification/Rows.thy ===== *)
theory Rows
  imports Database Images
begin

text \<open>
  The rows of the database for users, chats, channels and dialogs (tg/user.c, tg/chat.c,
  tg/channel.c, tg/dialogs.c).  Each kind of row is an X-macro table in the header: a list of
  columns with the kind of the column (copied number, copied text, special number, special text),
  the C type and the name of the field, the declared type and the name of the column, and for users
  the mark of the fields that a "min" user does not have.  The structure, the conversion from the
  TL object, the statements and the reading of a row are expansions of the table; a structure is
  the values of its number fields and of its text fields.
\<close>

datatype col_kind = KARG | KSTR | KSPA | KSPS
datatype ctype = CBool | CU32 | CU64 | CDouble | CChars
datatype tcol = Col (c_kind: col_kind) (c_type: ctype) (c_field: string) (c_sqltype: string) (c_name: string) (c_ifmin: nat)

record row =
  nums :: "string \<Rightarrow> u64"
  strs :: "string \<Rightarrow> byte list option"

section \<open>The tables\<close>

definition TG_USER_ARGS :: "tcol list" where
  "TG_USER_ARGS = [
    Col KARG CBool ''self_'' ''INT'' ''self'' 0,
    Col KARG CBool ''contact_'' ''INT'' ''contact'' 1,
    Col KARG CBool ''mutual_contact_'' ''INT'' ''mutual_contact'' 1,
    Col KARG CBool ''deleted_'' ''INT'' ''deleted'' 0,
    Col KARG CBool ''bot_'' ''INT'' ''bot'' 0,
    Col KARG CBool ''bot_chat_history_'' ''INT'' ''bot_chat_history'' 0,
    Col KARG CBool ''bot_nochats_'' ''INT'' ''bot_nochats'' 0,
    Col KARG CBool ''verified_'' ''INT'' ''verified'' 0,
    Col KARG CBool ''restricted_'' ''INT'' ''restricted'' 0,
    Col KARG CBool ''min_'' ''INT'' ''min'' 0,
    Col KARG CBool ''bot_inline_geo_'' ''INT'' ''bot_inline_geo'' 0,
    Col KARG CBool ''support_'' ''INT'' ''support'' 0,
    Col KARG CBool ''scam_'' ''INT'' ''scam'' 0,
    Col KARG CBool ''apply_min_photo_'' ''INT'' ''apply_min_photo'' 0,
    Col KARG CBool ''fake_'' ''INT'' ''fake'' 0,
    Col KARG CBool ''bot_attach_menu_'' ''INT'' ''bot_attach_menu'' 0,
    Col KARG CBool ''premium_'' ''INT'' ''premium'' 0,
    Col KARG CBool ''attach_menu_enabled_'' ''INT'' ''attach_menu_enabled'' 0,
    Col KARG CBool ''bot_can_edit_'' ''INT'' ''bot_can_edit'' 0,
    Col KARG CBool ''close_friend_'' ''INT'' ''close_friend'' 1,
    Col KARG CBool ''stories_hidden_'' ''INT'' ''stories_hidden'' 1,
    Col KARG CBool ''stories_unavailable_'' ''INT'' ''stories_unavailable'' 0,
    Col KARG CBool ''contact_require_premium_'' ''INT'' ''contact_require_premium'' 0,
    Col KARG CBool ''bot_business_'' ''INT'' ''bot_business'' 0,
    Col KARG CBool ''bot_has_main_app_'' ''INT'' ''bot_has_main_app'' 0,
    Col KARG CU64 ''id_'' ''INT'' ''user_id'' 0,
    Col KARG CU64 ''access_hash_'' ''INT'' ''access_hash'' 2,
    Col KSTR CChars ''first_name_'' ''TEXT'' ''first_name'' 2,
    Col KSTR CChars ''last_name_'' ''TEXT'' ''last_name'' 2,
    Col KSTR CChars ''username_'' ''TEXT'' ''username'' 2,
    Col KSTR CChars ''phone_'' ''TEXT'' ''phone'' 2,
    Col KSPA CBool ''photo_has_video'' ''INT'' ''photo_has_video'' 2,
    Col KSPA CBool ''photo_personal'' ''INT'' ''photo_personal'' 2,
    Col KSPA CU64 ''photo_id'' ''INT'' ''photo_id'' 2,
    Col KSPS CChars ''photo_stripped_thumb'' ''INT'' ''photo_stripped_thumb'' 2,
    Col KSPA CU32 ''photo_dc_id'' ''INT'' ''photo_dc_id'' 2,
    Col KSPA CU32 ''user_satus'' ''INT'' ''user_status'' 2,
    Col KSPA CU32 ''user_satus_time'' ''INT'' ''user_status_time'' 2,
    Col KSPA CBool ''user_satus_byme'' ''INT'' ''user_status_byme'' 2,
    Col KARG CBool ''bot_info_version_'' ''INT'' ''bot_info_version'' 0,
    Col KSTR CChars ''bot_inline_placeholder_'' ''INT'' ''bot_inline_placeholder'' 0,
    Col KSTR CChars ''lang_code_'' ''INT'' ''lang_code'' 0,
    Col KARG CBool ''stories_max_id_'' ''INT'' ''stories_max_id'' 1,
    Col KSPA CU32 ''color'' ''INT'' ''color'' 0,
    Col KSPA CU32 ''profile_color'' ''INT'' ''profile_color'' 0,
    Col KARG CU32 ''bot_active_users_'' ''INT'' ''bot_active_users'' 0]"

definition TG_CHAT_ARGS :: "tcol list" where
  "TG_CHAT_ARGS = [
    Col KARG CBool ''creator_'' ''INT'' ''creator'' 0,
    Col KARG CBool ''left_'' ''INT'' ''left'' 0,
    Col KARG CBool ''deactivated_'' ''INT'' ''deactivated'' 0,
    Col KARG CBool ''call_active_'' ''INT'' ''call_active'' 0,
    Col KARG CBool ''call_not_empty_'' ''INT'' ''call_not_empty'' 0,
    Col KARG CBool ''noforwards_'' ''INT'' ''call_not_empty'' 0,
    Col KARG CU64 ''id_'' ''INT'' ''chat_id'' 0,
    Col KSTR CChars ''title_'' ''TEXT'' ''title'' 0,
    Col KSPA CBool ''photo_has_video'' ''INT'' ''photo_has_video'' 0,
    Col KSPA CU64 ''photo_id'' ''INT'' ''photo_id'' 0,
    Col KSPS CChars ''photo_stripped_thumb'' ''TEXT'' ''photo_stripped_thumb'' 0,
    Col KSPA CU32 ''photo_dc_id'' ''INT'' ''photo_dc_id'' 0,
    Col KARG CU32 ''participants_count_'' ''INT'' ''participants_count'' 0,
    Col KARG CU32 ''date_'' ''INT'' ''date'' 0,
    Col KARG CU32 ''version_'' ''INT'' ''version'' 0,
    Col KSPA CU64 ''migrated_to_channel_id'' ''INT'' ''migrated_to_channel_id'' 0,
    Col KSPA CU64 ''migrated_to_access_hash'' ''INT'' ''migrated_to_access_hash'' 0,
    Col KSPA CU64 ''migrated_to_channel_access_hash'' ''INT'' ''migrated_to_channel_access_hash'' 0,
    Col KSPA CBool ''chat_admin_rights_change_info'' ''INT'' ''chat_admin_rights_change_info'' 0,
    Col KSPA CBool ''chat_admin_rights_post_messages'' ''INT'' ''chat_admin_rights_post_messages'' 0,
    Col KSPA CBool ''chat_admin_rights_edit_messages'' ''INT'' ''chat_admin_rights_edit_messages'' 0,
    Col KSPA CBool ''chat_admin_rights_delete_messages'' ''INT'' ''chat_admin_rights_delete_messages'' 0,
    Col KSPA CBool ''chat_admin_rights_ban_users'' ''INT'' ''chat_admin_rights_ban_users'' 0,
    Col KSPA CBool ''chat_admin_rights_invite_users'' ''INT'' ''chat_admin_rights_invite_users'' 0,
    Col KSPA CBool ''chat_admin_rights_pin_messages'' ''INT'' ''chat_admin_rights_pin_messages'' 0,
    Col KSPA CBool ''chat_admin_rights_add_admins'' ''INT'' ''chat_admin_rights_add_admins'' 0,
    Col KSPA CBool ''chat_admin_rights_anonymous'' ''INT'' ''chat_admin_rights_anonymous'' 0,
    Col KSPA CBool ''chat_admin_rights_manage_call'' ''INT'' ''chat_admin_rights_manage_call'' 0,
    Col KSPA CBool ''chat_admin_rights_other'' ''INT'' ''chat_admin_rights_other'' 0,
    Col KSPA CBool ''chat_admin_rights_manage_topics'' ''INT'' ''chat_admin_rights_manage_topics'' 0,
    Col KSPA CBool ''chat_admin_rights_post_stories'' ''INT'' ''chat_admin_rights_post_stories'' 0,
    Col KSPA CBool ''chat_admin_rights_edit_stories'' ''INT'' ''chat_admin_rights_edit_stories'' 0,
    Col KSPA CBool ''chat_admin_rights_delete_stories'' ''INT'' ''chat_admin_rights_delete_stories'' 0,
    Col KSPA CBool ''chat_default_banned_rights_view_messages'' ''INT'' ''chat_default_banned_rights_view_messages'' 0,
    Col KSPA CBool ''chat_default_banned_rights_send_messages'' ''INT'' ''chat_default_banned_rights_send_messages'' 0,
    Col KSPA CBool ''chat_default_banned_rights_send_media'' ''INT'' ''chat_default_banned_rights_send_media'' 0,
    Col KSPA CBool ''chat_default_banned_rights_send_stickers'' ''INT'' ''chat_default_banned_rights_send_stickers'' 0,
    Col KSPA CBool ''chat_default_banned_rights_send_gifs'' ''INT'' ''chat_default_banned_rights_send_gifs'' 0,
    Col KSPA CBool ''chat_default_banned_rights_send_games'' ''INT'' ''chat_default_banned_rights_send_games'' 0,
    Col KSPA CBool ''chat_default_banned_rights_send_inline'' ''INT'' ''chat_default_banned_rights_send_inline'' 0,
    Col KSPA CBool ''chat_default_banned_rights_embed_links'' ''INT'' ''chat_default_banned_rights_embed_links'' 0,
    Col KSPA CBool ''chat_default_banned_rights_send_polls'' ''INT'' ''chat_default_banned_rights_send_polls'' 0,
    Col KSPA CBool ''chat_default_banned_rights_change_info'' ''INT'' ''chat_default_banned_rights_change_info'' 0,
    Col KSPA CBool ''chat_default_banned_rights_invite_users'' ''INT'' ''chat_default_banned_rights_invite_users'' 0,
    Col KSPA CBool ''chat_default_banned_rights_pin_messages'' ''INT'' ''chat_default_banned_rights_pin_messages'' 0,
    Col KSPA CBool ''chat_default_banned_rights_manage_topics'' ''INT'' ''chat_default_banned_rights_manage_topics'' 0,
    Col KSPA CBool ''chat_default_banned_rights_send_photos'' ''INT'' ''chat_default_banned_rights_send_photos'' 0,
    Col KSPA CBool ''chat_default_banned_rights_send_videos'' ''INT'' ''chat_default_banned_rights_send_videos'' 0,
    Col KSPA CBool ''chat_default_banned_rights_send_roundvideos'' ''INT'' ''chat_default_banned_rights_send_roundvideos'' 0,
    Col KSPA CBool ''chat_default_banned_rights_send_audios'' ''INT'' ''chat_default_banned_rights_send_audios'' 0,
    Col KSPA CBool ''chat_default_banned_rights_send_voices'' ''INT'' ''chat_default_banned_rights_send_voices'' 0,
    Col KSPA CBool ''chat_default_banned_rights_send_docs'' ''INT'' ''chat_default_banned_rights_send_docs'' 0,
    Col KSPA CBool ''chat_default_banned_rights_send_plain'' ''INT'' ''chat_default_banned_rights_send_plain'' 0,
    Col KSPA CU32 ''chat_default_banned_rights_until_date'' ''INT'' ''chat_default_banned_rights_until_date'' 0]"

definition TG_CHANNEL_ARGS :: "tcol list" where
  "TG_CHANNEL_ARGS = [
    Col KARG CBool ''creator_'' ''INT'' ''creator'' 0,
    Col KARG CBool ''left_'' ''INT'' ''left'' 0,
    Col KARG CBool ''broadcast_'' ''INT'' ''broadcast'' 0,
    Col KARG CBool ''verified_'' ''INT'' ''verified'' 0,
    Col KARG CBool ''megagroup_'' ''INT'' ''megagroup'' 0,
    Col KARG CBool ''restricted_'' ''INT'' ''restricted'' 0,
    Col KARG CBool ''signatures_'' ''INT'' ''signatures'' 0,
    Col KARG CBool ''min_'' ''INT'' ''min'' 0,
    Col KARG CBool ''scam_'' ''INT'' ''scam'' 0,
    Col KARG CBool ''has_link_'' ''INT'' ''has_link'' 0,
    Col KARG CBool ''has_geo_'' ''INT'' ''has_geo'' 0,
    Col KARG CBool ''slowmode_enabled_'' ''INT'' ''slowmode_enabled'' 0,
    Col KARG CBool ''call_active_'' ''INT'' ''call_active'' 0,
    Col KARG CBool ''call_not_empty_'' ''INT'' ''call_not_empty'' 0,
    Col KARG CBool ''fake_'' ''INT'' ''fake'' 0,
    Col KARG CBool ''gigagroup_'' ''INT'' ''gigagroup'' 0,
    Col KARG CBool ''noforwards_'' ''INT'' ''noforwards'' 0,
    Col KARG CBool ''join_to_send_'' ''INT'' ''join_to_send'' 0,
    Col KARG CBool ''join_request_'' ''INT'' ''join_request'' 0,
    Col KARG CBool ''forum_'' ''INT'' ''forum'' 0,
    Col KARG CBool ''stories_hidden_'' ''INT'' ''stories_hidden'' 0,
    Col KARG CBool ''stories_hidden_min_'' ''INT'' ''stories_hidden_min'' 0,
    Col KARG CBool ''stories_unavailable_'' ''INT'' ''stories_unavailable'' 0,
    Col KARG CU64 ''id_'' ''INT'' ''channel_id'' 0,
    Col KARG CU64 ''access_hash_'' ''INT'' ''access_hash'' 0,
    Col KSTR CChars ''title_'' ''TEXT'' ''title'' 0,
    Col KSTR CChars ''username_'' ''TEXT'' ''username'' 0,
    Col KSPA CBool ''photo_has_video'' ''INT'' ''photo_has_video'' 0,
    Col KSPA CU64 ''photo_id'' ''INT'' ''photo_id'' 0,
    Col KSPS CChars ''photo_stripped_thumb'' ''TEXT'' ''photo_stripped_thumb'' 0,
    Col KSPA CU32 ''photo_dc_id'' ''INT'' ''photo_dc_id'' 0,
    Col KARG CU32 ''date_'' ''INT'' ''date'' 0,
    Col KARG CU32 ''participants_count_'' ''INT'' ''participants_count'' 0,
    Col KARG CU32 ''stories_max_id_'' ''INT'' ''stories_max_id'' 0,
    Col KSPA CBool ''chat_admin_rights_change_info'' ''INT'' ''chat_admin_rights_change_info'' 0,
    Col KSPA CBool ''chat_admin_rights_post_messages'' ''INT'' ''chat_admin_rights_post_messages'' 0,
    Col KSPA CBool ''chat_admin_rights_edit_messages'' ''INT'' ''chat_admin_rights_edit_messages'' 0,
    Col KSPA CBool ''chat_admin_rights_delete_messages'' ''INT'' ''chat_admin_rights_delete_messages'' 0,
    Col KSPA CBool ''chat_admin_rights_ban_users'' ''INT'' ''chat_admin_rights_ban_users'' 0,
    Col KSPA CBool ''chat_admin_rights_invite_users'' ''INT'' ''chat_admin_rights_invite_users'' 0,
    Col KSPA CBool ''chat_admin_rights_pin_messages'' ''INT'' ''chat_admin_rights_pin_messages'' 0,
    Col KSPA CBool ''chat_admin_rights_add_admins'' ''INT'' ''chat_admin_rights_add_admins'' 0,
    Col KSPA CBool ''chat_admin_rights_anonymous'' ''INT'' ''chat_admin_rights_anonymous'' 0,
    Col KSPA CBool ''chat_admin_rights_manage_call'' ''INT'' ''chat_admin_rights_manage_call'' 0,
    Col KSPA CBool ''chat_admin_rights_other'' ''INT'' ''chat_admin_rights_other'' 0,
    Col KSPA CBool ''chat_admin_rights_manage_topics'' ''INT'' ''chat_admin_rights_manage_topics'' 0,
    Col KSPA CBool ''chat_admin_rights_post_stories'' ''INT'' ''chat_admin_rights_post_stories'' 0,
    Col KSPA CBool ''chat_admin_rights_edit_stories'' ''INT'' ''chat_admin_rights_edit_stories'' 0,
    Col KSPA CBool ''chat_admin_rights_delete_stories'' ''INT'' ''chat_admin_rights_delete_stories'' 0,
    Col KSPA CBool ''chat_default_banned_rights_view_messages'' ''INT'' ''chat_default_banned_rights_view_messages'' 0,
    Col KSPA CBool ''chat_default_banned_rights_send_messages'' ''INT'' ''chat_default_banned_rights_send_messages'' 0,
    Col KSPA CBool ''chat_default_banned_rights_send_media'' ''INT'' ''chat_default_banned_rights_send_media'' 0,
    Col KSPA CBool ''chat_default_banned_rights_send_stickers'' ''INT'' ''chat_default_banned_rights_send_stickers'' 0,
    Col KSPA CBool ''chat_default_banned_rights_send_gifs'' ''INT'' ''chat_default_banned_rights_send_gifs'' 0,
    Col KSPA CBool ''chat_default_banned_rights_send_games'' ''INT'' ''chat_default_banned_rights_send_games'' 0,
    Col KSPA CBool ''chat_default_banned_rights_send_inline'' ''INT'' ''chat_default_banned_rights_send_inline'' 0,
    Col KSPA CBool ''chat_default_banned_rights_embed_links'' ''INT'' ''chat_default_banned_rights_embed_links'' 0,
    Col KSPA CBool ''chat_default_banned_rights_send_polls'' ''INT'' ''chat_default_banned_rights_send_polls'' 0,
    Col KSPA CBool ''chat_default_banned_rights_change_info'' ''INT'' ''chat_default_banned_rights_change_info'' 0,
    Col KSPA CBool ''chat_default_banned_rights_invite_users'' ''INT'' ''chat_default_banned_rights_invite_users'' 0,
    Col KSPA CBool ''chat_default_banned_rights_pin_messages'' ''INT'' ''chat_default_banned_rights_pin_messages'' 0,
    Col KSPA CBool ''chat_default_banned_rights_manage_topics'' ''INT'' ''chat_default_banned_rights_manage_topics'' 0,
    Col KSPA CBool ''chat_default_banned_rights_send_photos'' ''INT'' ''chat_default_banned_rights_send_photos'' 0,
    Col KSPA CBool ''chat_default_banned_rights_send_videos'' ''INT'' ''chat_default_banned_rights_send_videos'' 0,
    Col KSPA CBool ''chat_default_banned_rights_send_roundvideos'' ''INT'' ''chat_default_banned_rights_send_roundvideos'' 0,
    Col KSPA CBool ''chat_default_banned_rights_send_audios'' ''INT'' ''chat_default_banned_rights_send_audios'' 0,
    Col KSPA CBool ''chat_default_banned_rights_send_voices'' ''INT'' ''chat_default_banned_rights_send_voices'' 0,
    Col KSPA CBool ''chat_default_banned_rights_send_docs'' ''INT'' ''chat_default_banned_rights_send_docs'' 0,
    Col KSPA CBool ''chat_default_banned_rights_send_plain'' ''INT'' ''chat_default_banned_rights_send_plain'' 0,
    Col KSPA CU32 ''chat_default_banned_rights_until_date'' ''INT'' ''chat_default_banned_rights_until_date'' 0,
    Col KSPA CU32 ''color'' ''INT'' ''color'' 0,
    Col KSPA CU32 ''profile_color'' ''INT'' ''profile_color'' 0]"

definition TG_DIALOG_ARGS :: "tcol list" where
  "TG_DIALOG_ARGS = [
    Col KSTR CChars ''name'' ''TEXT'' ''name'' 0,
    Col KARG CBool ''pinned'' ''INT'' ''pinned'' 0,
    Col KARG CBool ''unread_mark'' ''INT'' ''unread_mark'' 0,
    Col KARG CU32 ''top_message_id'' ''INT'' ''top_message_id'' 0,
    Col KARG CU32 ''top_message_from_peer_type'' ''INT'' ''top_message_from_peer_type'' 0,
    Col KARG CU64 ''top_message_from_peer_id'' ''INT'' ''top_message_from_peer_id'' 0,
    Col KARG CU32 ''top_message_date'' ''INT'' ''top_message_date'' 0,
    Col KSTR CChars ''top_message_text'' ''TEXT'' ''top_message_text'' 0,
    Col KARG CU32 ''read_inbox_max_id'' ''INT'' ''read_inbox_max_id'' 0,
    Col KARG CU32 ''read_outbox_max_id'' ''INT'' ''read_outbox_max_id'' 0,
    Col KARG CU32 ''unread_count'' ''INT'' ''unread_count'' 0,
    Col KARG CU32 ''unread_mentions_count'' ''INT'' ''unread_mentions_count'' 0,
    Col KARG CU32 ''unread_reactions_count'' ''INT'' ''unread_reactions_count'' 0,
    Col KARG CU32 ''folder_id'' ''INT'' ''folder_id'' 0,
    Col KARG CBool ''silent'' ''INT'' ''silent'' 0,
    Col KARG CU32 ''mute_until'' ''INT'' ''mute_until'' 0,
    Col KARG CU32 ''peer_type'' ''INT'' ''peer_type'' 0,
    Col KARG CU64 ''peer_id'' ''INT'' ''peer_id'' 0,
    Col KARG CU64 ''photo_id'' ''INT'' ''photo_id'' 0,
    Col KSTR CChars ''thumb'' ''TEXT'' ''thumb'' 0,
    Col KARG CU64 ''access_hash'' ''INT'' ''access_hash'' 0,
    Col KARG CBool ''broadcast'' ''INT'' ''broadcat'' 0]"

section \<open>From TL objects\<close>

definition zero_row :: row where
  "zero_row = \<lparr>nums = (\<lambda>_. 0), strs = (\<lambda>_. None)\<rparr>"

definition to_ctype :: "ctype \<Rightarrow> u64 \<Rightarrow> u64" where
  "to_ctype t v = (case t of CBool \<Rightarrow> of_bool (v \<noteq> 0) | CU32 \<Rightarrow> ucast (ucast v :: u32) | _ \<Rightarrow> v)"

definition put_num :: "string \<Rightarrow> u64 \<Rightarrow> row \<Rightarrow> row" where
  "put_num f v r = r\<lparr>nums := (nums r)(f := v)\<rparr>"

definition put_str :: "string \<Rightarrow> byte list option \<Rightarrow> row \<Rightarrow> row" where
  "put_str f v r = r\<lparr>strs := (strs r)(f := v)\<rparr>"

definition fld_num :: "tl_obj \<Rightarrow> string \<Rightarrow> u64" where
  "fld_num x n = (case fld x n of Some (FBool t) \<Rightarrow> of_bool t | Some (FInt v) \<Rightarrow> ucast v | Some (FLong v) \<Rightarrow> v | _ \<Rightarrow> 0)"

text \<open>A field of the structure is named as that of the object, whose C name has an underscore at
  the end.  A text of no bytes stays a null pointer.\<close>

definition copy_column :: "tl_obj \<Rightarrow> tcol \<Rightarrow> row \<Rightarrow> row" where
  "copy_column x c r = (let f = c_field c; v = fld_bytes x (butlast f) in case c_kind c of
     KARG \<Rightarrow> put_num f (to_ctype (c_type c) (fld_num x (butlast f))) r
   | KSTR \<Rightarrow> if v = [] then r else put_str f (Some (c_string v)) r
   | _ \<Rightarrow> r)"

definition copy_columns :: "tl_obj \<Rightarrow> tcol list \<Rightarrow> row" where
  "copy_columns x cols = fold (copy_column x) cols zero_row"

definition id_userProfilePhoto :: u32 where "id_userProfilePhoto = 0x82d1f706"
definition id_chatPhoto :: u32 where "id_chatPhoto = 0x1c6e1c11"
definition id_peerColor :: u32 where "id_peerColor = 0xb54b5acf"
definition id_inputChannel :: u32 where "id_inputChannel = 0xf35aec28"
definition id_inputChannelFromMessage :: u32 where "id_inputChannelFromMessage = 0x5b934f9d"
definition id_chatAdminRights :: u32 where "id_chatAdminRights = 0x5fb224d5"
definition id_chatBannedRights :: u32 where "id_chatBannedRights = 0x9f120418"
definition id_userStatusOnline :: u32 where "id_userStatusOnline = 0xedb93949"
definition id_userStatusOffline :: u32 where "id_userStatusOffline = 0x008c703f"
definition id_userStatusRecently :: u32 where "id_userStatusRecently = 0x7b197dc8"
definition id_userStatusLastWeek :: u32 where "id_userStatusLastWeek = 0x541a1d1a"
definition id_userStatusLastMonth :: u32 where "id_userStatusLastMonth = 0x65899777"
definition id_chat :: u32 where "id_chat = 0x41cbf256"
definition id_channel :: u32 where "id_channel = 0x0aadfc8f"

text \<open>The object of a field, when it has a given type.\<close>

definition fld_of :: "u32 \<Rightarrow> tl_obj \<Rightarrow> string \<Rightarrow> tl_obj option" where
  "fld_of i x n = (case fld_obj x n of Some y \<Rightarrow> if tl_id y = i then Some y else None | None \<Rightarrow> None)"

definition from_photo :: "u32 \<Rightarrow> tl_obj \<Rightarrow> row \<Rightarrow> row option" where
  "from_photo i x r = (case fld_of i x ''photo'' of
     None \<Rightarrow> Some r
   | Some p \<Rightarrow> do {
       thumb \<leftarrow> buf2img (fld_bytes p ''stripped_thumb'');
       Some (put_num ''photo_dc_id'' (fld_num p ''dc_id'') (put_str ''photo_stripped_thumb'' thumb
         (put_num ''photo_id'' (fld_num p ''photo_id'') (put_num ''photo_has_video'' (fld_num p ''has_video'') r))))
     })"

text \<open>The status "recently" is not handled.\<close>

definition from_status :: "tl_obj \<Rightarrow> row \<Rightarrow> row" where
  "from_status x r = (case fld_obj x ''status'' of
     None \<Rightarrow> r
   | Some st \<Rightarrow>
       if tl_id st = id_userStatusEmpty then put_num ''user_satus'' (ucast id_userStatusEmpty) r
       else if tl_id st = id_userStatusOnline
       then put_num ''user_satus_time'' (fld_num st ''expires'') (put_num ''user_satus'' (ucast id_userStatusOnline) r)
       else if tl_id st = id_userStatusOffline
       then put_num ''user_satus_time'' (fld_num st ''was_online'') (put_num ''user_satus'' (ucast id_userStatusOffline) r)
       else if tl_id st = id_userStatusLastWeek
       then put_num ''user_satus_byme'' (fld_num st ''by_me'') (put_num ''user_satus'' (ucast id_userStatusLastWeek) r)
       else if tl_id st = id_userStatusLastMonth
       then put_num ''user_satus_byme'' (fld_num st ''by_me'') (put_num ''user_satus'' (ucast id_userStatusLastMonth) r)
       else r)"

definition from_color :: "tl_obj \<Rightarrow> string \<Rightarrow> row \<Rightarrow> row" where
  "from_color x n r = (case fld_of id_peerColor x n of None \<Rightarrow> r | Some c \<Rightarrow> put_num n (fld_num c ''color'') r)"

definition tg_user_from_tl :: "tl_obj \<Rightarrow> row option" where
  "tg_user_from_tl x = do {
     r \<leftarrow> from_photo id_userProfilePhoto x (copy_columns x TG_USER_ARGS);
     Some (from_color x ''profile_color'' (from_color x ''color'' (from_status x r)))
   }"

text \<open>The rights are copied one by one to the fields with the prefix.\<close>

definition admin_rights :: "string list" where
  "admin_rights = [''change_info'', ''post_messages'', ''edit_messages'', ''delete_messages'', ''ban_users'', ''invite_users'',
    ''pin_messages'', ''add_admins'', ''anonymous'', ''manage_call'', ''other'', ''manage_topics'', ''post_stories'',
    ''edit_stories'', ''delete_stories'']"

definition banned_rights :: "string list" where
  "banned_rights = [''view_messages'', ''send_messages'', ''send_media'', ''send_stickers'', ''send_gifs'', ''send_games'',
    ''send_inline'', ''embed_links'', ''send_polls'', ''change_info'', ''invite_users'', ''pin_messages'', ''manage_topics'',
    ''send_photos'', ''send_videos'', ''send_roundvideos'', ''send_audios'', ''send_voices'', ''send_docs'', ''send_plain'',
    ''until_date'']"

definition from_rights :: "u32 \<Rightarrow> string list \<Rightarrow> tl_obj \<Rightarrow> string \<Rightarrow> row \<Rightarrow> row" where
  "from_rights i rights x n r = (case fld_of i x n of
     None \<Rightarrow> r
   | Some a \<Rightarrow> fold (\<lambda>g. put_num (''chat_'' @ n @ ''_'' @ g) (fld_num a g)) rights r)"

definition from_all_rights :: "tl_obj \<Rightarrow> row \<Rightarrow> row" where
  "from_all_rights x r = from_rights id_chatBannedRights banned_rights x ''default_banned_rights''
     (from_rights id_chatAdminRights admin_rights x ''admin_rights'' r)"

definition from_migrated :: "tl_obj \<Rightarrow> row \<Rightarrow> row" where
  "from_migrated x r = (case fld_obj x ''migrated_to'' of
     None \<Rightarrow> r
   | Some c \<Rightarrow>
       if tl_id c = id_inputChannel
       then put_num ''migrated_to_access_hash'' (fld_num c ''access_hash'')
         (put_num ''migrated_to_channel_id'' (fld_num c ''channel_id'') r)
       else if tl_id c = id_inputChannelFromMessage
       then put_num ''migrated_to_channel_id'' (fld_num c ''channel_id'') r
       else r)"

definition tg_chat_from_tl :: "tl_obj \<Rightarrow> row option" where
  "tg_chat_from_tl x = do {
     r \<leftarrow> from_photo id_chatPhoto x (from_migrated x (copy_columns x TG_CHAT_ARGS));
     Some (from_all_rights x r)
   }"

definition tg_channel_from_tl :: "tl_obj \<Rightarrow> row option" where
  "tg_channel_from_tl x = do {
     r \<leftarrow> from_photo id_chatPhoto x (copy_columns x TG_CHANNEL_ARGS);
     Some (from_color x ''profile_color'' (from_color x ''color'' (from_all_rights x r)))
   }"

text \<open>What tg_user_free and the others release: every text that is set.\<close>

definition row_free :: "tcol list \<Rightarrow> row \<Rightarrow> string list" where
  "row_free cols r = [c_field c. c \<leftarrow> cols, c_kind c \<in> {KSTR, KSPS} \<and> strs r (c_field c) \<noteq> None]"

definition tg_user_free :: "row \<Rightarrow> string list" where "tg_user_free = row_free TG_USER_ARGS"
definition tg_chat_free :: "row \<Rightarrow> string list" where "tg_chat_free = row_free TG_CHAT_ARGS"
definition tg_channel_free :: "row \<Rightarrow> string list" where "tg_channel_free = row_free TG_CHANNEL_ARGS"
definition tg_dialog_free :: "row \<Rightarrow> string list" where "tg_dialog_free = row_free TG_DIALOG_ARGS"

section \<open>Statements\<close>

definition create_sql :: "string \<Rightarrow> string \<Rightarrow> byte list" where
  "create_sql tab key = lit ''CREATE TABLE IF NOT EXISTS '' @ lit tab @ lit '' (id INT, '' @ lit key @ lit '' INT UNIQUE);''"

definition alter_sql :: "string \<Rightarrow> tcol \<Rightarrow> byte list" where
  "alter_sql tab c = lit ''ALTER TABLE '' @ quoted (lit tab) @ lit '' ADD COLUMN '' @ quoted (lit (c_name c)) @ lit '' '' @
     lit (c_sqltype c) @ lit '';''"

text \<open>The statement of the table ends in a space for users, chats and channels, and those of the
  columns in a newline for dialogs.\<close>

definition create_table :: "'d sqlite \<Rightarrow> string \<Rightarrow> string \<Rightarrow> byte list \<Rightarrow> byte list \<Rightarrow> tcol list \<Rightarrow> 'd tg_db \<Rightarrow> 'd tg_db" where
  "create_table q tab key sp nl cols s = fold (\<lambda>c. run_sql q (alter_sql tab c @ nl)) cols (run_sql q (create_sql tab key @ sp) s)"

definition tg_user_create_table :: "'d sqlite \<Rightarrow> 'd tg_db \<Rightarrow> 'd tg_db" where
  "tg_user_create_table q = create_table q ''users'' ''user_id'' [32] [] TG_USER_ARGS"

definition tg_chat_create_table :: "'d sqlite \<Rightarrow> 'd tg_db \<Rightarrow> 'd tg_db" where
  "tg_chat_create_table q = create_table q ''chats'' ''chat_id'' [32] [] TG_CHAT_ARGS"

definition tg_channel_create_table :: "'d sqlite \<Rightarrow> 'd tg_db \<Rightarrow> 'd tg_db" where
  "tg_channel_create_table q = create_table q ''channels'' ''channel_id'' [32] [] TG_CHANNEL_ARGS"

definition tg_dialogs_create_table :: "'d sqlite \<Rightarrow> 'd tg_db \<Rightarrow> 'd tg_db" where
  "tg_dialogs_create_table q = create_table q ''dialogs'' ''peer_id'' [] [10] TG_DIALOG_ARGS"

definition row_insert :: "string \<Rightarrow> string \<Rightarrow> u64 \<Rightarrow> byte list" where
  "row_insert tab key v = lit ''INSERT INTO '' @ quoted (lit tab) @ lit '' ('' @ quoted (lit key) @ lit '') SELECT  '' @ dec_long v @
     lit '' WHERE NOT EXISTS (SELECT 1 FROM '' @ lit tab @ lit '' WHERE '' @ lit key @ lit '' = '' @ dec_long v @ lit '');'' @ [10]"

definition row_update :: "string \<Rightarrow> byte list" where
  "row_update tab = lit ''UPDATE '' @ quoted (lit tab) @ lit '' SET ''"

definition row_where :: "u32 \<Rightarrow> string \<Rightarrow> u64 \<Rightarrow> byte list" where
  "row_where me key v = lit ''id = '' @ dec_int me @ lit '' WHERE '' @ lit key @ lit '' = '' @ dec_long v @ lit '';'' @ [10]"

text \<open>The argument \<^theory_text>\<open>omit\<close> says which number columns are left out; \<^theory_text>\<open>blank\<close>,
  that a text of no characters is written.\<close>

definition save_column :: "(tcol \<Rightarrow> bool) \<Rightarrow> bool \<Rightarrow> row \<Rightarrow> tcol \<Rightarrow> str \<Rightarrow> str option" where
  "save_column omit blank r c s =
     (if c_kind c = KARG \<and> omit c then Some s
      else if c_kind c = KARG \<or> c_kind c = KSPA then str_appendf s (column_sql (c_name c) (sint (nums r (c_field c))))
      else (case strs r (c_field c) of
          None \<Rightarrow> Some s
        | Some t \<Rightarrow>
            if t = [] \<and> \<not> blank then Some s
            else do {
              s \<leftarrow> str_appendf s (quoted (lit (c_name c)) @ lit '' = '' @ [39]);
              s \<leftarrow> str_append s t;
              str_appendf s (39 # lit '', '')
            }))"

fun save_columns :: "(tcol \<Rightarrow> bool) \<Rightarrow> bool \<Rightarrow> row \<Rightarrow> tcol list \<Rightarrow> str \<Rightarrow> str option" where
  "save_columns omit blank r [] s = Some s"
| "save_columns omit blank r (c # cols) s = do { s \<leftarrow> save_column omit blank r c s; save_columns omit blank r cols s }"

definition row_sql :: "(tcol \<Rightarrow> bool) \<Rightarrow> bool \<Rightarrow> string \<Rightarrow> string \<Rightarrow> tcol list \<Rightarrow> u32 \<Rightarrow> u64 \<Rightarrow> row \<Rightarrow> byte list option" where
  "row_sql omit blank tab key cols me v r = do {
     s \<leftarrow> str_appendf str_init (row_insert tab key v);
     s \<leftarrow> str_appendf s (row_update tab);
     s \<leftarrow> save_columns omit blank r cols s;
     s \<leftarrow> str_appendf s (row_where me key v);
     Some (chars s)
   }"

definition row_to_database :: "'d sqlite \<Rightarrow> (u32 \<Rightarrow> byte list option) \<Rightarrow> 'd tg_db \<Rightarrow> (int \<times> 'd tg_db) option" where
  "row_to_database q stmts = with_lock (\<lambda>s. do { sql \<leftarrow> stmts (db_id s); Some (tg_sqlite3_exec q s sql) })"

text \<open>A "min" user leaves out the columns marked 1.\<close>

definition user_skip :: "row \<Rightarrow> tcol \<Rightarrow> bool" where
  "user_skip r c \<longleftrightarrow> nums r ''min_'' \<noteq> 0 \<and> c_ifmin c = 1"

definition user_sql :: "row \<Rightarrow> u32 \<Rightarrow> byte list option" where
  "user_sql r me = row_sql (user_skip r) False ''users'' ''user_id'' TG_USER_ARGS me (nums r ''id_'') r"

definition tg_user_save :: "'d sqlite \<Rightarrow> row \<Rightarrow> 'd tg_db \<Rightarrow> (int \<times> 'd tg_db) option" where
  "tg_user_save q r = row_to_database q (user_sql r)"

definition chat_sql :: "row \<Rightarrow> u32 \<Rightarrow> byte list option" where
  "chat_sql r me = row_sql (\<lambda>_. False) False ''chats'' ''chat_id'' TG_CHAT_ARGS me (nums r ''id_'') r"

definition tg_chat_save :: "'d sqlite \<Rightarrow> row \<Rightarrow> 'd tg_db \<Rightarrow> (int \<times> 'd tg_db) option" where
  "tg_chat_save q r = row_to_database q (chat_sql r)"

definition channel_sql :: "row \<Rightarrow> u32 \<Rightarrow> byte list option" where
  "channel_sql r me = row_sql (\<lambda>_. False) False ''channels'' ''channel_id'' TG_CHANNEL_ARGS me (nums r ''id_'') r"

definition tg_channel_save :: "'d sqlite \<Rightarrow> row \<Rightarrow> 'd tg_db \<Rightarrow> (int \<times> 'd tg_db) option" where
  "tg_channel_save q r = row_to_database q (channel_sql r)"

definition dialog_sql :: "row \<Rightarrow> u32 \<Rightarrow> byte list option" where
  "dialog_sql r me = row_sql (\<lambda>_. False) True ''dialogs'' ''peer_id'' TG_DIALOG_ARGS me (nums r ''peer_id'') r"

text \<open>The result of the statement is not returned.\<close>

definition tg_dialog_to_database :: "'d sqlite \<Rightarrow> row \<Rightarrow> 'd tg_db \<Rightarrow> (int \<times> 'd tg_db) option" where
  "tg_dialog_to_database q r s = map_option (\<lambda>(ret, s). (0, s)) (row_to_database q (dialog_sql r) s)"

section \<open>Reading\<close>

fun select_list :: "tcol list \<Rightarrow> str \<Rightarrow> str option" where
  "select_list [] s = Some s"
| "select_list (c # cols) s = do { s \<leftarrow> str_appendf s (lit (c_name c) @ lit '', ''); select_list cols s }"

definition row_query :: "tcol list \<Rightarrow> byte list \<Rightarrow> byte list option" where
  "row_query cols tail = do {
     s \<leftarrow> str_appendf str_init (lit ''SELECT '');
     s \<leftarrow> select_list cols s;
     s \<leftarrow> str_appendf s tail;
     Some (chars s)
   }"

definition read_column :: "tcol \<Rightarrow> cell \<Rightarrow> row \<Rightarrow> row" where
  "read_column c v r =
     (if c_kind c = KARG \<or> c_kind c = KSPA then put_num (c_field c) (to_ctype (c_type c) (c_int v)) r
      else (case c_data v of None \<Rightarrow> r | Some t \<Rightarrow> if t = [] then r else put_str (c_field c) (Some (c_string t)) r))"

fun read_columns :: "tcol list \<Rightarrow> cell list \<Rightarrow> nat \<Rightarrow> row \<Rightarrow> row option" where
  "read_columns [] vs i r = Some r"
| "read_columns (c # cols) vs i r = do { v \<leftarrow> column vs i; read_columns cols vs (i + 1) (read_column c v r) }"

text \<open>The first row, or a structure of zeros.\<close>

definition row_get :: "'d sqlite \<Rightarrow> tcol list \<Rightarrow> byte list \<Rightarrow> 'd tg_db \<Rightarrow> row option" where
  "row_get q cols tail s = do {
     sql \<leftarrow> row_query cols tail;
     (case tg_sqlite3_for_each q s sql of [] \<Rightarrow> Some zero_row | vs # _ \<Rightarrow> read_columns cols vs 0 zero_row)
   }"

definition get_tail :: "string \<Rightarrow> string \<Rightarrow> u32 \<Rightarrow> u64 \<Rightarrow> byte list" where
  "get_tail tab key me v = lit ''id FROM '' @ lit tab @ lit '' WHERE id = '' @ dec_int me @ lit '' AND '' @ lit key @ lit '' = '' @
     dec_long v @ lit '' ORDER BY 'date' DESC;''"

definition tg_user_get :: "'d sqlite \<Rightarrow> u64 \<Rightarrow> 'd tg_db \<Rightarrow> row option" where
  "tg_user_get q user_id s = row_get q TG_USER_ARGS (get_tail ''users'' ''user_id'' (db_id s) user_id) s"

definition tg_user_get_by_phone :: "'d sqlite \<Rightarrow> byte list \<Rightarrow> 'd tg_db \<Rightarrow> row option" where
  "tg_user_get_by_phone q phone s = row_get q TG_USER_ARGS (lit ''id FROM users WHERE id = '' @ dec_int (db_id s) @
     lit '' AND phone = '' @ quoted phone @ lit ''ORDER BY 'date' DESC;'') s"

definition tg_chat_get :: "'d sqlite \<Rightarrow> u64 \<Rightarrow> 'd tg_db \<Rightarrow> row option" where
  "tg_chat_get q chat_id s = row_get q TG_CHAT_ARGS (get_tail ''chats'' ''chat_id'' (db_id s) chat_id) s"

definition tg_channel_get :: "'d sqlite \<Rightarrow> u64 \<Rightarrow> 'd tg_db \<Rightarrow> row option" where
  "tg_channel_get q channel_id s = row_get q TG_CHANNEL_ARGS (get_tail ''channels'' ''channel_id'' (db_id s) channel_id) s"

text \<open>All dialogs go to the callback, which may be null, until it asks to stop.  Here a text column is copied even when
  it is null, whose pointer strndup reads when it is not told to read no bytes.\<close>

fun blank_texts :: "tcol list \<Rightarrow> row \<Rightarrow> row" where
  "blank_texts [] r = r"
| "blank_texts (c # cols) r = blank_texts cols
     (if c_kind c = KSTR \<and> strs r (c_field c) = None then put_str (c_field c) (Some []) r else r)"

fun dialog_rows :: "('u \<Rightarrow> row \<Rightarrow> bool \<times> 'u) option \<Rightarrow> cell list list \<Rightarrow> 'u \<Rightarrow> 'u option" where
  "dialog_rows cb [] u = Some u"
| "dialog_rows cb (vs # rs) u = do {
     r \<leftarrow> read_columns TG_DIALOG_ARGS vs 0 zero_row;
     (case cb of
        None \<Rightarrow> dialog_rows cb rs u
      | Some f \<Rightarrow> (case f u (blank_texts TG_DIALOG_ARGS r) of (stop, u) \<Rightarrow> if stop then Some u else dialog_rows cb rs u))
   }"

definition tg_get_dialogs_from_database :: "'d sqlite \<Rightarrow> ('u \<Rightarrow> row \<Rightarrow> bool \<times> 'u) option \<Rightarrow> 'u \<Rightarrow> 'd tg_db \<Rightarrow> (int \<times> 'u) option" where
  "tg_get_dialogs_from_database q cb u s = do {
     sql \<leftarrow> row_query TG_DIALOG_ARGS (lit ''id FROM dialogs WHERE id = '' @ dec_int (db_id s) @ lit '' ORDER BY 'top_message_date' DESC;'');
     u \<leftarrow> dialog_rows cb (tg_sqlite3_for_each q s sql) u;
     Some (0, u)
   }"

section \<open>Saving what an answer brings\<close>

fun tg_users_save :: "'d sqlite \<Rightarrow> fval list \<Rightarrow> 'd tg_db \<Rightarrow> 'd tg_db option" where
  "tg_users_save q [] s = Some s"
| "tg_users_save q (FObj (Some x) # xs) s =
     (if tl_id x \<noteq> id_user then tg_users_save q xs s
      else do {
        r \<leftarrow> tg_user_from_tl x;
        (ret, s) \<leftarrow> tg_user_save q r s;
        tg_users_save q xs s
      })"
| "tg_users_save q (_ # xs) s = tg_users_save q xs s"

fun tg_chats_save :: "'d sqlite \<Rightarrow> fval list \<Rightarrow> 'd tg_db \<Rightarrow> 'd tg_db option" where
  "tg_chats_save q [] s = Some s"
| "tg_chats_save q (FObj (Some x) # xs) s =
     (if tl_id x = id_chat then do {
        r \<leftarrow> tg_chat_from_tl x;
        (ret, s) \<leftarrow> tg_chat_save q r s;
        tg_chats_save q xs s
      }
      else if tl_id x = id_channel then do {
        r \<leftarrow> tg_channel_from_tl x;
        (ret, s) \<leftarrow> tg_channel_save q r s;
        tg_chats_save q xs s
      }
      else tg_chats_save q xs s)"
| "tg_chats_save q (_ # xs) s = tg_chats_save q xs s"

text \<open>A statement that is not SQL: UPDATE TABLE, the text without quotes, and the keyword WHERE joined to it.\<close>

definition tg_dialog_set_top_message :: "'d sqlite \<Rightarrow> u64 \<Rightarrow> u32 \<Rightarrow> byte list \<Rightarrow> 'd tg_db \<Rightarrow> (int \<times> 'd tg_db) option" where
  "tg_dialog_set_top_message q pid msg_id msg = row_to_database q (\<lambda>me. do {
     s \<leftarrow> str_appendf str_init (lit ''UPDATE TABLE 'dialogs' SET top_message_id = '' @ dec_int msg_id @ lit '', 'top_message_text' = '');
     s \<leftarrow> str_append s msg;
     s \<leftarrow> str_appendf s (lit ''WHERE 'peer_id' = '' @ dec_long pid @ lit '' AND id = '' @ dec_int me @ lit '';'');
     Some (chars s)
   })"

end
