(* ===== verification/RowsProps.thy ===== *)
theory RowsProps
  imports Rows UpdatesProps
begin

text \<open>
  What the statements for users, chats and channels mean: a reader of the SQL that they use takes
  the statement of a row back to the assignments of its columns, and reading the columns of the
  row so written gives the row.
\<close>

section \<open>A reader of the statements\<close>

datatype sqlval = SNum int | SText "byte list"

fun sql_expect :: "byte list \<Rightarrow> byte list \<Rightarrow> byte list option" where
  "sql_expect [] t = Some t"
| "sql_expect (c # cs) (d # t) = (if c = d then sql_expect cs t else None)"
| "sql_expect (c # cs) [] = None"

definition numeric :: "byte \<Rightarrow> bool" where
  "numeric c \<longleftrightarrow> c = 45 \<or> (48 \<le> c \<and> c \<le> 57)"

definition undigits :: "byte list \<Rightarrow> nat" where
  "undigits ds = foldl (\<lambda>n d. 10 * n + (unat d - 48)) 0 ds"

definition undec :: "byte list \<Rightarrow> int" where
  "undec ds = (case ds of [] \<Rightarrow> 0 | d # es \<Rightarrow> if d = 45 then - int (undigits es) else int (undigits ds))"

definition parse_num :: "byte list \<Rightarrow> (int \<times> byte list) option" where
  "parse_num t = (let ds = takeWhile numeric t in if ds = [] then None else Some (undec ds, dropWhile numeric t))"

definition parse_value :: "byte list \<Rightarrow> (sqlval \<times> byte list) option" where
  "parse_value t = (case sql_expect [39] t of
     None \<Rightarrow> map_option (\<lambda>(i, t). (SNum i, t)) (parse_num t)
   | Some u \<Rightarrow> map_option (Pair (SText (takeWhile (\<lambda>c. c \<noteq> 39) u))) (sql_expect [39] (dropWhile (\<lambda>c. c \<noteq> 39) u)))"

definition parse_clause :: "byte list \<Rightarrow> ((byte list \<times> sqlval) \<times> byte list) option" where
  "parse_clause t = do {
     t \<leftarrow> sql_expect [39] t;
     n \<leftarrow> Some (takeWhile (\<lambda>c. c \<noteq> 39) t);
     t \<leftarrow> sql_expect (39 # lit '' = '') (dropWhile (\<lambda>c. c \<noteq> 39) t);
     (v, t) \<leftarrow> parse_value t;
     t \<leftarrow> sql_expect (lit '', '') t;
     Some ((n, v), t)
   }"

fun parse_clauses :: "nat \<Rightarrow> byte list \<Rightarrow> ((byte list \<times> sqlval) list \<times> byte list) option" where
  "parse_clauses 0 t = None"
| "parse_clauses (Suc n) t = (case t of
     c # _ \<Rightarrow> if c = 39 then do {
         (a, t) \<leftarrow> parse_clause t;
         (as, t) \<leftarrow> parse_clauses n t;
         Some (a # as, t)
       } else Some ([], t)
   | [] \<Rightarrow> Some ([], []))"

text \<open>The key of the row that the statement makes sure of and changes, and the assignments to its
  columns.\<close>

definition row_parse :: "string \<Rightarrow> string \<Rightarrow> byte list \<Rightarrow> (int \<times> (byte list \<times> sqlval) list) option" where
  "row_parse tab key t = do {
     t \<leftarrow> sql_expect (lit ''INSERT INTO '' @ quoted (lit tab) @ lit '' ('' @ quoted (lit key) @ lit '') SELECT  '') t;
     (v, t) \<leftarrow> parse_num t;
     t \<leftarrow> sql_expect (lit '' WHERE NOT EXISTS (SELECT 1 FROM '' @ lit tab @ lit '' WHERE '' @ lit key @ lit '' = '') t;
     (v1, t) \<leftarrow> parse_num t;
     t \<leftarrow> sql_expect (lit '');'' @ 10 # lit ''UPDATE '' @ quoted (lit tab) @ lit '' SET '') t;
     (as, t) \<leftarrow> parse_clauses (length t) t;
     t \<leftarrow> sql_expect (lit ''id = '') t;
     (me, t) \<leftarrow> parse_num t;
     t \<leftarrow> sql_expect (lit '' WHERE '' @ lit key @ lit '' = '') t;
     (v2, t) \<leftarrow> parse_num t;
     (if t = lit '';'' @ [10] \<and> v = v1 \<and> v = v2 then Some (v, as @ [(lit ''id'', SNum me)]) else None)
   }"

section \<open>Numbers\<close>

lemma expect_append [simp]: "sql_expect p (p @ t) = Some t"
  by (induction p) simp_all

lemma expect_append2 [simp]: "sql_expect (p @ q) (p @ t) = sql_expect q t"
  by (induction p) simp_all

lemma digit_word: "k < 10 \<Longrightarrow> unat (48 + of_nat k :: byte) = 48 + k"
  by (simp add: unat_word_ariths unsigned_of_nat take_bit_nat_eq_self)

lemma numeric_digit: "k < 10 \<Longrightarrow> numeric (48 + of_nat k)"
  using digit_word [of k] by (simp add: numeric_def word_le_nat_alt)

lemma numeric_digits: "\<forall>c \<in> set (dec_digits n). numeric c"
proof (induction n rule: dec_digits.induct)
  case (1 n)
  then show ?case
    using numeric_digit [of n] numeric_digit [of "n mod 10"] by (auto simp: dec_digits.simps [of n])
qed

lemma undigits_dec: "undigits (dec_digits n) = n"
proof (induction n rule: dec_digits.induct)
  case (1 n)
  then show ?case
    using digit_word [of n] digit_word [of "n mod 10"] by (auto simp: dec_digits.simps [of n] undigits_def)
qed

lemma dec_digits_head: "\<exists>d ds. dec_digits n = d # ds \<and> d \<noteq> 45"
proof (induction n rule: dec_digits.induct)
  case (1 n)
  show ?case
  proof (cases "n < 10")
    case True
    have "(48 + of_nat n :: byte) \<noteq> 45"
    proof
      assume "(48 + of_nat n :: byte) = 45"
      from arg_cong [OF this, of unat] show False
        using digit_word [OF True] by simp
    qed
    then show ?thesis
      using True by (simp add: dec_digits.simps [of n])
  next
    case False
    then show ?thesis
      using 1 by (auto simp: dec_digits.simps [of n])
  qed
qed

lemma numeric_dec: "\<forall>c \<in> set (dec i). numeric c"
  using numeric_digits by (auto simp: dec_def numeric_def)

lemma undec_dec: "undec (dec i) = i"
proof (cases "i < 0")
  case False
  then show ?thesis
    using dec_digits_head [of "nat i"] undigits_dec [of "nat i"] by (auto simp: undec_def dec_def)
qed (simp add: undec_def dec_def undigits_dec)

lemma dec_not_nil: "dec i \<noteq> []"
  using dec_digits_head [of "nat i"] by (auto simp: dec_def)

lemma parse_num_dec: "\<not> numeric c \<Longrightarrow> parse_num (dec i @ c # t) = Some (i, c # t)"
proof -
  assume c: "\<not> numeric c"
  have "takeWhile numeric (dec i @ c # t) = dec i" "dropWhile numeric (dec i @ c # t) = c # t"
    using numeric_dec c by (simp_all add: takeWhile_append2 dropWhile_append2)
  then show ?thesis
    using dec_not_nil [of i] undec_dec [of i] by (simp add: parse_num_def)
qed

lemma numeric_ascii [simp]:
  "\<not> numeric 32" "\<not> numeric 41" "\<not> numeric 44" "\<not> numeric 59" "\<not> numeric 39"
  by (simp_all add: numeric_def)

lemma of_char_byte: "(of_char c :: byte) = of_char d \<longleftrightarrow> c = d"
proof -
  have "(of_char c :: byte) = of_char d \<longleftrightarrow> of_nat (of_char c) = (of_nat (of_char d) :: byte)"
    by (simp add: of_nat_of_char)
  also have "\<dots> \<longleftrightarrow> of_char c = (of_char d :: nat)"
    using nat_of_char_less_256 [of c] nat_of_char_less_256 [of d]
    by (simp only: word_of_nat_eq_iff) (simp add: take_bit_nat_eq_self)
  finally show ?thesis
    by (simp only: of_char_eq_iff)
qed

lemma lit_eq [simp]: "lit s = lit t \<longleftrightarrow> s = t"
  unfolding lit_def by (rule inj_map_eq_map) (simp add: inj_def of_char_byte)

lemma lit_quote: "39 \<in> set (lit s) \<longleftrightarrow> CHR 0x27 \<in> set s"
proof -
  have "of_char c = (39 :: byte) \<longleftrightarrow> c = CHR 0x27" for c
    using of_char_byte [of c "CHR 0x27"] by simp
  then show ?thesis
    by (force simp: lit_def)
qed

section \<open>The text of a row\<close>

definition value_of :: "(tcol \<Rightarrow> bool) \<Rightarrow> bool \<Rightarrow> row \<Rightarrow> tcol \<Rightarrow> sqlval option" where
  "value_of omit blank r c =
     (if c_kind c = KARG \<and> omit c then None
      else if c_kind c = KARG \<or> c_kind c = KSPA then Some (SNum (sint (nums r (c_field c))))
      else (case strs r (c_field c) of None \<Rightarrow> None | Some t \<Rightarrow> if t = [] \<and> \<not> blank then None else Some (SText t)))"

definition clause :: "tcol \<Rightarrow> sqlval \<Rightarrow> byte list" where
  "clause c v = quoted (lit (c_name c)) @ lit '' = '' @ (case v of SNum i \<Rightarrow> dec i | SText t \<Rightarrow> quoted t) @ lit '', ''"

fun assigned :: "(tcol \<Rightarrow> bool) \<Rightarrow> bool \<Rightarrow> row \<Rightarrow> tcol list \<Rightarrow> (byte list \<times> sqlval) list" where
  "assigned omit blank r [] = []"
| "assigned omit blank r (c # cs) =
     (case value_of omit blank r c of None \<Rightarrow> [] | Some v \<Rightarrow> [(lit (c_name c), v)]) @ assigned omit blank r cs"

fun clauses :: "(tcol \<Rightarrow> bool) \<Rightarrow> bool \<Rightarrow> row \<Rightarrow> tcol list \<Rightarrow> byte list" where
  "clauses omit blank r [] = []"
| "clauses omit blank r (c # cs) =
     (case value_of omit blank r c of None \<Rightarrow> [] | Some v \<Rightarrow> clause c v) @ clauses omit blank r cs"

text \<open>The names of a table are short and have no quotes; the texts of a row are shorter than a
  megabyte and have no quotes.\<close>

definition plain_names :: "tcol list \<Rightarrow> bool" where
  "plain_names cols \<longleftrightarrow> length cols < 1000 \<and> list_all (\<lambda>c. length (c_name c) < 64 \<and> CHR 0x27 \<notin> set (c_name c)) cols"

definition plain_texts :: "tcol list \<Rightarrow> row \<Rightarrow> bool" where
  "plain_texts cols r \<longleftrightarrow> (\<forall>c \<in> set cols. \<forall>t. strs r (c_field c) = Some t \<longrightarrow> length t < 2 ^ 20 \<and> 39 \<notin> set t)"

lemma tables_plain: "plain_names TG_USER_ARGS" "plain_names TG_CHAT_ARGS" "plain_names TG_CHANNEL_ARGS" "plain_names TG_DIALOG_ARGS"
  unfolding plain_names_def by code_simp+

lemma length_dec_long: "length (dec (sint (w :: u64))) \<le> 20"
proof -
  have "- (2 ^ 63) \<le> sint w" "sint w < 2 ^ 63"
    using sint_ge [of w] sint_less [of w] by simp_all
  then show ?thesis
    using length_dec_digits [of "nat (sint w)" 19] length_dec_digits [of "nat (- sint w)" 19]
    by (auto simp: dec_def nat_less_iff)
qed

lemma save_column_ok:
  assumes "str_wf s" and "length (c_name c) < 64" and "length (chars s) < 2 ^ 30 + 2 ^ 29"
    and "\<forall>t. strs r (c_field c) = Some t \<longrightarrow> length t < 2 ^ 20"
  shows "ok (save_column omit blank r c s) (\<lambda>s'. str_wf s' \<and>
    chars s' = chars s @ (case value_of omit blank r c of None \<Rightarrow> [] | Some v \<Rightarrow> clause c v))"
proof -
  have num: "length (column_sql (c_name c) (sint (nums r (c_field c)))) \<le> 8190"
    using assms(2) length_dec_long [of "nums r (c_field c)"] by (simp add: column_sql_def quoted_def)
  have open_ok: "length (quoted (lit (c_name c)) @ lit '' = '' @ [39]) \<le> 8190"
    using assms(2) by (simp add: quoted_def)
  show ?thesis
  proof (cases "c_kind c = KARG \<or> c_kind c = KSPA")
    case True
    then show ?thesis
      using str_appendf_ok [OF assms(1) num] num assms(1,3)
      by (auto simp: save_column_def value_of_def clause_def column_sql_def)
  next
    case False
    show ?thesis
    proof (cases "strs r (c_field c)")
      case (Some t)
      have t: "length t < 2 ^ 20"
        using assms(4) Some by simp
      show ?thesis
      proof (cases "t = [] \<and> \<not> blank")
        case not_blank: False
        let ?o = "quoted (lit (c_name c)) @ lit '' = '' @ [39]"
        obtain a where a: "str_appendf s ?o = Some a" "str_wf a" "chars a = chars s @ ?o"
          using str_appendf_ok [OF assms(1) open_ok] open_ok assms(3) by (auto elim!: okE)
        obtain b where b: "str_append a t = Some b" "str_wf b" "chars b = (chars s @ ?o) @ t"
          using str_append_ok [OF a(2), of t] open_ok assms(3) t a(3) by (auto elim!: okE)
        obtain d where d: "str_appendf b (39 # lit '', '') = Some d" "str_wf d" "chars d = ((chars s @ ?o) @ t) @ 39 # lit '', ''"
          using str_appendf_ok [OF b(2), of "39 # lit '', ''"] open_ok assms(3) t b(3) by (auto elim!: okE)
        show ?thesis
          using False Some not_blank a b d by (auto simp: save_column_def value_of_def clause_def quoted_def)
      qed (use False Some assms(1) in \<open>simp add: save_column_def value_of_def\<close>)
    qed (use False assms(1) in \<open>simp add: save_column_def value_of_def\<close>)
  qed
qed

lemma length_clause: "value_of omit blank r c = Some v \<Longrightarrow> length (c_name c) < 64 \<Longrightarrow>
    (\<And>t. strs r (c_field c) = Some t \<Longrightarrow> length t < 2 ^ 20) \<Longrightarrow> length (clause c v) < 2 ^ 20 + 100"
proof -
  assume v: "value_of omit blank r c = Some v" "length (c_name c) < 64" "\<And>t. strs r (c_field c) = Some t \<Longrightarrow> length t < 2 ^ 20"
  have "(case v of SNum i \<Rightarrow> length (dec i) \<le> 20 | SText t \<Rightarrow> length t < 2 ^ 20)"
    using v(1,3) length_dec_long by (auto simp: value_of_def split: if_splits option.splits)
  then show ?thesis
    using v(2) by (cases v) (auto simp: clause_def quoted_def)
qed

lemma length_clauses:
  assumes "\<forall>c \<in> set cols. length (c_name c) < 64 \<and> (\<forall>t. strs r (c_field c) = Some t \<longrightarrow> length t < 2 ^ 20)"
  shows "length (clauses omit blank r cols) \<le> length cols * (2 ^ 20 + 100)"
  using assms
proof (induction cols)
  case (Cons c cols)
  then show ?case
    using length_clause [of omit blank r c] by (cases "value_of omit blank r c") fastforce+
qed simp

lemma save_columns_ok:
  "str_wf s \<Longrightarrow> \<forall>c \<in> set cols. length (c_name c) < 64 \<and> (\<forall>t. strs r (c_field c) = Some t \<longrightarrow> length t < 2 ^ 20) \<Longrightarrow>
    length (chars s) + length cols * (2 ^ 20 + 100) < 2 ^ 30 + 2 ^ 29 \<Longrightarrow>
    ok (save_columns omit blank r cols s) (\<lambda>s'. str_wf s' \<and> chars s' = chars s @ clauses omit blank r cols)"
proof (induction cols arbitrary: s)
  case (Cons c cols)
  let ?v = "case value_of omit blank r c of None \<Rightarrow> [] | Some v \<Rightarrow> clause c v"
  have len: "length ?v \<le> 2 ^ 20 + 100"
    using length_clause [of omit blank r c] Cons.prems(2) by (force split: option.split)
  have "ok (save_column omit blank r c s) (\<lambda>s'. str_wf s' \<and> chars s' = chars s @ ?v)"
    by (rule save_column_ok) (use Cons.prems in auto)
  then show ?case
  proof (simp, rule ok_bind)
    fix s'
    assume s': "str_wf s' \<and> chars s' = chars s @ ?v"
    have "ok (save_columns omit blank r cols s') (\<lambda>s''. str_wf s'' \<and> chars s'' = chars s' @ clauses omit blank r cols)"
      by (rule Cons.IH) (use Cons.prems s' len in auto)
    then show "ok (save_columns omit blank r cols s') (\<lambda>s''. str_wf s'' \<and> chars s'' = chars s @ ?v @ clauses omit blank r cols)"
      using s' by simp
  qed
qed simp

lemma row_pieces:
  assumes "length tab < 64" and "length key < 64"
  shows "length (row_insert tab key v) \<le> 8190" "length (row_update tab) \<le> 8190" "length (row_where me key v) \<le> 8190"
  using assms length_dec_long [of v] length_dec_word(1) [of me]
  by (simp_all add: row_insert_def row_update_def row_where_def dec_long_def dec_int_def quoted_def)

definition short_texts :: "tcol list \<Rightarrow> row \<Rightarrow> bool" where
  "short_texts cols r \<longleftrightarrow> (\<forall>c \<in> set cols. \<forall>t. strs r (c_field c) = Some t \<longrightarrow> length t < 2 ^ 20)"

lemma plain_short: "plain_texts cols r \<Longrightarrow> short_texts cols r"
  by (auto simp: plain_texts_def short_texts_def)

lemma row_sql_ok:
  assumes "plain_names cols" and "short_texts cols r" and "length tab < 64" and "length key < 64"
  shows "row_sql omit blank tab key cols me v r =
    Some (row_insert tab key v @ row_update tab @ clauses omit blank r cols @ row_where me key v)"
proof -
  note p = row_pieces(1) [OF assms(3,4), of v] row_pieces(2) [OF assms(3,4)] row_pieces(3) [OF assms(3,4), of me v]
  have c: "\<forall>c \<in> set cols. length (c_name c) < 64 \<and> (\<forall>t. strs r (c_field c) = Some t \<longrightarrow> length t < 2 ^ 20)"
    "length cols < 1000"
    using assms(1,2) by (auto simp: plain_names_def short_texts_def list_all_iff)
  have l: "length (clauses omit blank r cols) \<le> 1000 * (2 ^ 20 + 100)"
    using length_clauses [OF c(1), of omit blank] c(2) mult_le_mono1 [of "length cols" 1000 "2 ^ 20 + 100"] by linarith
  obtain s1 where s1: "str_appendf str_init (row_insert tab key v) = Some s1" "str_wf s1" "chars s1 = row_insert tab key v"
    using str_appendf_ok [of str_init "row_insert tab key v"] p(1) by (auto elim!: okE)
  obtain s2 where s2: "str_appendf s1 (row_update tab) = Some s2" "str_wf s2" "chars s2 = row_insert tab key v @ row_update tab"
    using str_appendf_ok [OF s1(2) p(2)] p(1,2) s1(3) by (auto elim!: okE)
  obtain s3 where s3: "save_columns omit blank r cols s2 = Some s3" "str_wf s3" "chars s3 = chars s2 @ clauses omit blank r cols"
    using save_columns_ok [OF s2(2) c(1), of omit blank] c(2) p(1,2) s2(3) by (auto elim!: okE)
  obtain s4 where s4: "str_appendf s3 (row_where me key v) = Some s4" "chars s4 = chars s3 @ row_where me key v"
    using str_appendf_ok [OF s3(2) p(3)] l p s2(3) s3(3) by (auto elim!: okE)
  show ?thesis
    using s1 s2 s3 s4 by (simp add: row_sql_def)
qed

section \<open>Reading the text back\<close>

lemma until_quote:
  "39 \<notin> set n \<Longrightarrow> takeWhile (\<lambda>c. c \<noteq> 39) (n @ 39 # t) = n" "39 \<notin> set n \<Longrightarrow> dropWhile (\<lambda>c. c \<noteq> 39) (n @ 39 # t) = 39 # t"
  for n :: "byte list"
  by (induction n) auto

lemma dec_head: "\<exists>c cs. dec i @ t = c # cs \<and> c \<noteq> 39"
proof -
  obtain c cs where c: "dec i = c # cs"
    using dec_not_nil [of i] by (cases "dec i") auto
  then have "numeric c"
    using numeric_dec [of i] by simp
  then show ?thesis
    using c numeric_ascii(5) by auto
qed

lemma parse_value_ok:
  assumes "\<forall>t. v = SText t \<longrightarrow> 39 \<notin> set t"
  shows "parse_value ((case v of SNum i \<Rightarrow> dec i | SText t \<Rightarrow> quoted t) @ 44 # u) = Some (v, 44 # u)"
proof (cases v)
  case (SNum i)
  obtain c cs where c: "dec i @ 44 # u = c # cs" "c \<noteq> 39"
    using dec_head by blast
  then have "sql_expect [39] (dec i @ 44 # u) = None"
    by simp
  then show ?thesis
    using SNum parse_num_dec [of 44 i u] by (simp add: parse_value_def)
next
  case (SText t)
  then show ?thesis
    using assms until_quote [of t "44 # u"] by (simp add: parse_value_def quoted_def)
qed

lemma parse_clause_ok:
  assumes "CHR 0x27 \<notin> set (c_name c)" and "\<forall>t. v = SText t \<longrightarrow> 39 \<notin> set t"
  shows "parse_clause (clause c v @ u) = Some ((lit (c_name c), v), u)"
proof -
  let ?v = "case v of SNum i \<Rightarrow> dec i | SText t \<Rightarrow> quoted t"
  have n: "39 \<notin> set (lit (c_name c))"
    using assms(1) by (simp add: lit_quote)
  have e: "clause c v @ u = 39 # lit (c_name c) @ 39 # lit '' = '' @ ?v @ lit '', '' @ u"
    by (simp add: clause_def quoted_def)
  have s: "lit '', '' = [44, 32]"
    by (simp add: lit_def)
  have v: "parse_value (?v @ 44 # 32 # u) = Some (v, 44 # 32 # u)"
    using parse_value_ok [OF assms(2), of "32 # u"] .
  show ?thesis
    unfolding e parse_clause_def using until_quote [OF n] v s
    by (simp add: expect_append [of "39 # lit '' = ''", simplified])
qed

lemma clause_head: "\<exists>t. clause c v @ u = 39 # t"
  by (simp add: clause_def quoted_def)

lemma value_plain:
  "value_of omit blank r c = Some (SText t) \<Longrightarrow> strs r (c_field c) = Some t"
  by (auto simp: value_of_def split: if_splits option.splits)

lemma parse_clauses_ok:
  "\<forall>c \<in> set cols. CHR 0x27 \<notin> set (c_name c) \<and> (\<forall>t. strs r (c_field c) = Some t \<longrightarrow> 39 \<notin> set t) \<Longrightarrow>
    length (assigned omit blank r cols) < n \<Longrightarrow> h \<noteq> 39 \<Longrightarrow>
    parse_clauses n (clauses omit blank r cols @ h # u) = Some (assigned omit blank r cols, h # u)"
proof (induction cols arbitrary: n)
  case Nil
  then show ?case
    by (cases n) auto
next
  case (Cons c cols)
  show ?case
  proof (cases "value_of omit blank r c")
    case None
    then show ?thesis
      using Cons.IH [of n] Cons.prems by simp
  next
    case (Some v)
    let ?rest = "clauses omit blank r cols @ h # u"
    obtain m where n: "n = Suc m"
      using Cons.prems(2) by (cases n) auto
    obtain t where t: "clause c v @ ?rest = 39 # t"
      using clause_head by blast
    have "parse_clause (clause c v @ ?rest) = Some ((lit (c_name c), v), ?rest)"
      by (rule parse_clause_ok) (use Cons.prems(1) Some value_plain in auto)
    moreover have "parse_clauses m ?rest = Some (assigned omit blank r cols, h # u)"
      using Cons.IH [of m] Cons.prems n Some by auto
    ultimately show ?thesis
      using Some n t by simp
  qed
qed

lemma clauses_long: "length (assigned omit blank r cols) \<le> length (clauses omit blank r cols)"
  by (induction cols) (auto simp: clause_def quoted_def split: option.split)

lemma lit_head: "lit (c # s) = of_char c # lit s"
  by (simp add: lit_def)

lemma row_parse_ok:
  assumes "plain_names cols" and "plain_texts cols r"
  shows "row_parse tab key (row_insert tab key v @ row_update tab @ clauses omit blank r cols @ row_where me key v) =
    Some (sint v, assigned omit blank r cols @ [(lit ''id'', SNum (sint me))])"
proof -
  define A where "A = lit ''INSERT INTO '' @ quoted (lit tab) @ lit '' ('' @ quoted (lit key) @ lit '') SELECT  ''"
  define B where "B = lit '' WHERE NOT EXISTS (SELECT 1 FROM '' @ lit tab @ lit '' WHERE '' @ lit key @ lit '' = ''"
  define C where "C = lit '');'' @ 10 # lit ''UPDATE '' @ quoted (lit tab) @ lit '' SET ''"
  define D where "D = lit '' WHERE '' @ lit key @ lit '' = ''"
  define Z where "Z = lit '';'' @ [10]"
  let ?as = "assigned omit blank r cols" and ?cs = "clauses omit blank r cols"
  let ?tail = "lit ''id = '' @ dec (sint me) @ D @ dec (sint v) @ Z"
  have heads: "B = 32 # tl B" "C = 41 # tl C" "D = 32 # tl D" "Z = 59 # tl Z" "?tail = 105 # tl ?tail"
    by (simp_all add: B_def C_def D_def Z_def lit_head)
  have shape: "row_insert tab key v @ row_update tab @ ?cs @ row_where me key v =
      A @ dec (sint v) @ B @ dec (sint v) @ C @ ?cs @ ?tail"
    by (simp add: row_insert_def row_update_def row_where_def A_def B_def C_def D_def Z_def dec_long_def dec_int_def)
  have nB: "parse_num (dec (sint v) @ B @ t) = Some (sint v, B @ t)" for t
    using parse_num_dec [OF numeric_ascii(1), of "sint v" "tl B @ t"] heads(1) by (metis append_Cons)
  have nC: "parse_num (dec (sint v) @ C @ t) = Some (sint v, C @ t)" for t
    using parse_num_dec [OF numeric_ascii(2), of "sint v" "tl C @ t"] heads(2) by (metis append_Cons)
  have nD: "parse_num (dec (sint me) @ D @ t) = Some (sint me, D @ t)" for t
    using parse_num_dec [OF numeric_ascii(1), of "sint me" "tl D @ t"] heads(3) by (metis append_Cons)
  have nZ: "parse_num (dec (sint v) @ Z) = Some (sint v, Z)"
    using parse_num_dec [OF numeric_ascii(4), of "sint v" "tl Z"] heads(4) by (metis append_Cons)
  have cl: "parse_clauses (length (?cs @ ?tail)) (?cs @ ?tail) = Some (?as, ?tail)"
  proof -
    have "parse_clauses (length (?cs @ ?tail)) (?cs @ 105 # tl ?tail) = Some (?as, 105 # tl ?tail)"
      by (rule parse_clauses_ok) (use assms clauses_long [of omit blank r cols] in
          \<open>auto simp: plain_names_def plain_texts_def list_all_iff\<close>)
    then show ?thesis
      using heads(5) by metis
  qed
  show ?thesis
    unfolding shape row_parse_def A_def [symmetric] B_def [symmetric] C_def [symmetric]
    unfolding D_def [symmetric] Z_def [symmetric]
    by (simp only: expect_append nB nC nD nZ cl bind.bind_lunit prod.case simp_thms if_True)
qed

section \<open>Reading the row\<close>

text \<open>An UPDATE sets the columns in the order of the assignments, the rightmost one counting when a
  column is named twice; \<^theory_text>\<open>sto\<close> is what is read of a column after a value is
  written to it, and a query reads the columns it names.\<close>

definition stored :: "(byte list \<Rightarrow> sqlval \<Rightarrow> cell) \<Rightarrow> (byte list \<times> sqlval) list \<Rightarrow> (byte list \<Rightarrow> cell) \<Rightarrow> byte list \<Rightarrow> cell" where
  "stored sto sets w = fold (\<lambda>(n, v) w. w(n := sto n v)) sets w"

definition selected :: "(byte list \<Rightarrow> cell) \<Rightarrow> tcol list \<Rightarrow> cell list" where
  "selected w cols = map (\<lambda>c. w (lit (c_name c))) cols @ [w (lit ''id'')]"

text \<open>A number is read as it was written, and so are the texts of the row.\<close>

definition store_laws :: "(byte list \<Rightarrow> sqlval \<Rightarrow> cell) \<Rightarrow> tcol list \<Rightarrow> row \<Rightarrow> bool" where
  "store_laws sto cols r \<longleftrightarrow> (\<forall>n i. c_int (sto n (SNum i)) = word_of_int i) \<and>
     (\<forall>c \<in> set cols. \<forall>t. strs r (c_field c) = Some t \<longrightarrow> c_data (sto (lit (c_name c)) (SText t)) = Some t)"

abbreviation is_num :: "tcol \<Rightarrow> bool" where
  "is_num c \<equiv> c_kind c = KARG \<or> c_kind c = KSPA"

definition row_typed :: "tcol list \<Rightarrow> row \<Rightarrow> bool" where
  "row_typed cols r \<longleftrightarrow> (\<forall>c \<in> set cols. to_ctype (c_type c) (nums r (c_field c)) = nums r (c_field c) \<and>
     (\<forall>t. strs r (c_field c) = Some t \<longrightarrow> c_string t = t))"

lemma stored_other: "n \<notin> fst ` set sets \<Longrightarrow> stored sto sets w n = w n"
  unfolding stored_def by (induction sets arbitrary: w) (auto split: prod.split)

lemma stored_append: "stored sto (a @ b) w = stored sto b (stored sto a w)"
  by (simp add: stored_def)

lemma assigned_names: "fst ` set (assigned omit blank r cols) \<subseteq> (\<lambda>c. lit (c_name c)) ` set cols"
  by (induction cols) (auto split: option.splits)

lemma assigned_append: "assigned omit blank r (a @ b) = assigned omit blank r a @ assigned omit blank r b"
  by (induction a) simp_all

text \<open>A column reads what the last column of its name was given.\<close>

lemma stored_last:
  assumes "cols = pre @ c # post" and "c_name c \<notin> c_name ` set post" and "c_name c \<noteq> ''id''"
    and "value_of omit blank r c = Some v"
  shows "stored sto (assigned omit blank r cols @ [(lit ''id'', i)]) w (lit (c_name c)) = sto (lit (c_name c)) v"
proof -
  have "lit (c_name c) \<notin> fst ` set (assigned omit blank r post @ [(lit ''id'', i)])"
    using assigned_names [of omit blank r post] assms(2,3) by auto
  then have "stored sto (assigned omit blank r post @ [(lit ''id'', i)]) w' (lit (c_name c)) = w' (lit (c_name c))" for w'
    by (rule stored_other)
  then show ?thesis
    using assms(4) by (simp add: assms(1) assigned_append stored_append) (simp add: stored_def)
qed

lemma stored_omitted:
  assumes "distinct (''id'' # map c_name cols)" and "c \<in> set cols" and "value_of omit blank r c = None"
  shows "stored sto (assigned omit blank r cols @ [(lit ''id'', i)]) w (lit (c_name c)) = w (lit (c_name c))"
proof (rule stored_other)
  obtain pre post where cols: "cols = pre @ c # post"
    using assms(2) by (auto dest: split_list)
  then have "fst ` set (assigned omit blank r cols) \<subseteq> (\<lambda>c. lit (c_name c)) ` (set pre \<union> set post)"
    using assigned_names [of omit blank r pre] assigned_names [of omit blank r post] assms(3)
    by (auto simp: assigned_append)
  then show "lit (c_name c) \<notin> fst ` set (assigned omit blank r cols @ [(lit ''id'', i)])"
    using assms(1) cols by (auto 0 3)
qed

lemma read_columns_fold:
  "read_columns cols (pre @ map g cols @ post) (length pre) r = Some (fold (\<lambda>c. read_column c (g c)) cols r)"
proof (induction cols arbitrary: pre r)
  case (Cons c cols)
  show ?case
    using Cons.IH [of "pre @ [g c]" "read_column c (g c) r"] by (simp add: column_def)
qed simp

lemma read_other:
  "f \<notin> c_field ` set cols \<Longrightarrow> nums (fold (\<lambda>c. read_column c (g c)) cols r) f = nums r f \<and>
    strs (fold (\<lambda>c. read_column c (g c)) cols r) f = strs r f"
  by (induction cols arbitrary: r) (auto simp: read_column_def put_num_def put_str_def split: option.split)

lemma read_field:
  assumes "distinct (map c_field cols)" and "c \<in> set cols"
  shows "is_num c \<Longrightarrow> nums (fold (\<lambda>c. read_column c (g c)) cols r) (c_field c) = to_ctype (c_type c) (c_int (g c))"
    and "\<not> is_num c \<Longrightarrow> strs (fold (\<lambda>c. read_column c (g c)) cols r) (c_field c) =
      (case c_data (g c) of None \<Rightarrow> strs r (c_field c) | Some t \<Rightarrow> if t = [] then strs r (c_field c) else Some (c_string t))"
proof -
  obtain pre post where cols: "cols = pre @ c # post"
    using assms(2) by (auto dest: split_list)
  have n: "c_field c \<notin> c_field ` set pre" "c_field c \<notin> c_field ` set post"
    using assms(1) cols by auto
  show "is_num c \<Longrightarrow> nums (fold (\<lambda>c. read_column c (g c)) cols r) (c_field c) = to_ctype (c_type c) (c_int (g c))"
    using read_other [OF n(2)] by (auto simp: cols read_column_def put_num_def)
  show "\<not> is_num c \<Longrightarrow> strs (fold (\<lambda>c. read_column c (g c)) cols r) (c_field c) =
      (case c_data (g c) of None \<Rightarrow> strs r (c_field c) | Some t \<Rightarrow> if t = [] then strs r (c_field c) else Some (c_string t))"
    using read_other [OF n(2), of g] read_other [OF n(1), of g] by (auto simp: cols read_column_def put_str_def split: option.split)
qed

section \<open>Properties\<close>

text \<open>What is read of a column: the value of the row, or what the table held when the statement
  left the column out.\<close>

definition old_text :: "cell \<Rightarrow> byte list option" where
  "old_text v = (case c_data v of None \<Rightarrow> None | Some t \<Rightarrow> if t = [] then None else Some (c_string t))"

definition reads_back :: "(tcol \<Rightarrow> bool) \<Rightarrow> row \<Rightarrow> (byte list \<Rightarrow> cell) \<Rightarrow> row \<Rightarrow> tcol \<Rightarrow> bool" where
  "reads_back omit r w r' c \<longleftrightarrow> (if is_num c
     then nums r' (c_field c) =
       (if c_kind c = KARG \<and> omit c then to_ctype (c_type c) (c_int (w (lit (c_name c)))) else nums r (c_field c))
     else strs r' (c_field c) =
       (case strs r (c_field c) of Some (t # ts) \<Rightarrow> Some (t # ts) | _ \<Rightarrow> old_text (w (lit (c_name c)))))"

lemma reads_back_ok:
  assumes names: "distinct (''id'' # map c_name cols)" "distinct (map c_field cols)" and c: "c \<in> set cols"
    and r: "row_typed cols r" "store_laws sto cols r"
  shows "reads_back omit r w (fold (\<lambda>c. read_column c
      (stored sto (assigned omit False r cols @ [(lit ''id'', i)]) w (lit (c_name c)))) cols zero_row) c"
proof -
  let ?w = "stored sto (assigned omit False r cols @ [(lit ''id'', i)]) w"
  let ?r = "fold (\<lambda>c. read_column c (?w (lit (c_name c)))) cols zero_row"
  obtain pre post where cols: "cols = pre @ c # post"
    using c by (auto dest: split_list)
  have n: "c_name c \<notin> c_name ` set post" "c_name c \<noteq> ''id''"
    using names(1) cols by auto
  have some: "?w (lit (c_name c)) = sto (lit (c_name c)) v" if "value_of omit False r c = Some v" for v
    using stored_last [OF cols n that] .
  have none: "?w (lit (c_name c)) = w (lit (c_name c))" if "value_of omit False r c = None"
    using stored_omitted [OF names(1) c that] .
  have typed: "to_ctype (c_type c) (nums r (c_field c)) = nums r (c_field c)" "strs r (c_field c) = Some t \<Longrightarrow> c_string t = t" for t
    using r(1) c by (auto simp: row_typed_def)
  have laws: "c_int (sto n (SNum i)) = word_of_int i" "strs r (c_field c) = Some t \<Longrightarrow> c_data (sto (lit (c_name c)) (SText t)) = Some t" for n i t
    using r(2) c by (auto simp: store_laws_def)
  show ?thesis
  proof (cases "is_num c")
    case True
    then show ?thesis
      using read_field(1) [OF names(2) c True, of "\<lambda>c. ?w (lit (c_name c))" zero_row] some none typed(1) laws(1)
      by (auto simp: reads_back_def value_of_def split: if_splits)
  next
    case False
    note f = read_field(2) [OF names(2) c False, of "\<lambda>c. ?w (lit (c_name c))" zero_row]
    show ?thesis
    proof (cases "strs r (c_field c)")
      case None
      then have "?w (lit (c_name c)) = w (lit (c_name c))"
        using none False by (simp add: value_of_def)
      then show ?thesis
        using f False None by (simp add: reads_back_def old_text_def zero_row_def split: option.split)
    next
      case (Some t)
      show ?thesis
      proof (cases t)
        case Nil
        then have "?w (lit (c_name c)) = w (lit (c_name c))"
          using none False Some by (simp add: value_of_def)
        then show ?thesis
          using f False Some Nil by (simp add: reads_back_def old_text_def zero_row_def split: option.split)
      next
        case (Cons a as)
        then have "c_data (?w (lit (c_name c))) = Some t"
          using some [of "SText t"] laws(2) False Some by (simp add: value_of_def)
        then show ?thesis
          using f False Some Cons typed(2) [OF Some] by (simp add: reads_back_def)
      qed
    qed
  qed
qed

lemma saved_read:
  assumes "plain_names cols" and "plain_texts cols r" and "length tab < 64" and "length key < 64"
    and "distinct (''id'' # map c_name cols)" and "distinct (map c_field cols)"
    and "row_typed cols r" and "store_laws sto cols r"
  shows "\<exists>sql sets r'. row_sql omit False tab key cols me v r = Some sql \<and> row_parse tab key sql = Some (sint v, sets) \<and>
    read_columns cols (selected (stored sto sets w) cols) 0 zero_row = Some r' \<and> (\<forall>c \<in> set cols. reads_back omit r w r' c)"
proof (intro exI conjI ballI)
  let ?sets = "assigned omit False r cols @ [(lit ''id'', SNum (sint me))]"
  show "row_sql omit False tab key cols me v r =
      Some (row_insert tab key v @ row_update tab @ clauses omit False r cols @ row_where me key v)"
    by (rule row_sql_ok) (use assms plain_short in auto)
  show "row_parse tab key (row_insert tab key v @ row_update tab @ clauses omit False r cols @ row_where me key v) =
      Some (sint v, ?sets)"
    by (rule row_parse_ok) (use assms in auto)
  show "read_columns cols (selected (stored sto ?sets w) cols) 0 zero_row =
      Some (fold (\<lambda>c. read_column c (stored sto ?sets w (lit (c_name c)))) cols zero_row)"
    using read_columns_fold [of cols "[]"] by (simp add: selected_def)
  show "reads_back omit r w (fold (\<lambda>c. read_column c (stored sto ?sets w (lit (c_name c)))) cols zero_row) c"
    if "c \<in> set cols" for c
    using reads_back_ok [OF assms(5,6) that assms(7,8)] .
qed

lemma user_names: "distinct (''id'' # map c_name TG_USER_ARGS)" "distinct (map c_field TG_USER_ARGS)"
  by (simp_all add: TG_USER_ARGS_def)

lemma channel_names: "distinct (''id'' # map c_name TG_CHANNEL_ARGS)" "distinct (map c_field TG_CHANNEL_ARGS)"
  by (simp_all add: TG_CHANNEL_ARGS_def)

lemma chat_names: "distinct (map c_field TG_CHAT_ARGS)"
  by (simp add: TG_CHAT_ARGS_def)

text \<open>What SQLite does with the statement of a row and the query for it: the row of the key holds the
  assignments, over what it held before (\<^theory_text>\<open>w\<close>), and the query for that key and account finds it.\<close>

definition upsert_law :: "'d sqlite \<Rightarrow> 'd \<Rightarrow> u32 \<Rightarrow> string \<Rightarrow> string \<Rightarrow> tcol list \<Rightarrow> (byte list \<Rightarrow> sqlval \<Rightarrow> cell) \<Rightarrow>
    (byte list \<Rightarrow> cell) \<Rightarrow> bool" where
  "upsert_law q d me tab key cols sto w \<longleftrightarrow> (\<forall>sql v sets query.
     row_parse tab key sql = Some (sint v, sets) \<longrightarrow> (lit ''id'', SNum (sint me)) \<in> set sets \<longrightarrow>
     row_query cols (get_tail tab key me v) = Some query \<longrightarrow>
     (\<exists>d'. sq_exec q d sql = (d', True) \<and> sq_open q d' \<and> sq_rows q d' query = Some [selected (stored sto sets w) cols]))"

lemma select_list_ok:
  "str_wf s \<Longrightarrow> \<forall>c \<in> set cols. length (c_name c) < 64 \<Longrightarrow> length (chars s) + length cols * 66 < 2 ^ 30 \<Longrightarrow>
    ok (select_list cols s) (\<lambda>s'. str_wf s' \<and> length (chars s') \<le> length (chars s) + length cols * 66)"
proof (induction cols arbitrary: s)
  case (Cons c cols)
  have "ok (str_appendf s (lit (c_name c) @ lit '', '')) (\<lambda>s'. str_wf s' \<and> chars s' = chars s @ lit (c_name c) @ lit '', '')"
    by (rule str_appendf_ok) (use Cons.prems in auto)
  then show ?case
  proof (simp, rule ok_bind)
    fix s'
    assume s': "str_wf s' \<and> chars s' = chars s @ lit (c_name c) @ lit '', ''"
    have "ok (select_list cols s') (\<lambda>s''. str_wf s'' \<and> length (chars s'') \<le> length (chars s') + length cols * 66)"
      by (rule Cons.IH) (use Cons.prems s' in auto)
    then show "ok (select_list cols s') (\<lambda>s''. str_wf s'' \<and> length (chars s'') \<le> length (chars s) + (66 + length cols * 66))"
      by (rule ok_mono) (use Cons.prems(2) s' in auto)
  qed
qed simp

lemma row_query_ok:
  assumes "plain_names cols" and "length tail \<le> 8190"
  shows "\<exists>query. row_query cols tail = Some query"
proof -
  obtain s1 where s1: "str_appendf str_init (lit ''SELECT '') = Some s1" "str_wf s1" "chars s1 = lit ''SELECT ''"
    using str_appendf_ok [of str_init "lit ''SELECT ''"] by (auto elim!: okE)
  obtain s2 where s2: "select_list cols s1 = Some s2" "str_wf s2" "length (chars s2) \<le> length (chars s1) + length cols * 66"
    using select_list_ok [OF s1(2), of cols] assms(1) s1(3) by (auto simp: plain_names_def list_all_iff elim!: okE)
  obtain s3 where "str_appendf s2 tail = Some s3"
    using str_appendf_ok [OF s2(2) assms(2)] assms s1(3) s2(3) by (auto simp: plain_names_def elim!: okE)
  then show ?thesis
    using s1(1) s2(1) by (simp add: row_query_def)
qed

lemma get_tail_short: "length tab < 64 \<Longrightarrow> length key < 64 \<Longrightarrow> length (get_tail tab key me v) \<le> 8190"
  using length_dec_long [of v] length_dec_word(1) [of me] by (simp add: get_tail_def dec_long_def dec_int_def)

text \<open>Saving a row and reading it, for any table: what is read is the row that the assignments leave.\<close>

lemma save_get:
  assumes "plain_names cols" and "plain_texts cols r" and "length tab < 64" and "length key < 64"
    and "\<not> databasem s" and "sq_open q (db s)" and "upsert_law q (db s) (db_id s) tab key cols sto w"
  shows "\<exists>s'. row_to_database q (\<lambda>me. row_sql omit False tab key cols me v r) s = Some (0, s') \<and> \<not> databasem s' \<and> db_id s' = db_id s \<and>
    row_get q cols (get_tail tab key (db_id s) v) s' = Some (fold (\<lambda>c. read_column c
      (stored sto (assigned omit False r cols @ [(lit ''id'', SNum (sint (db_id s)))]) w (lit (c_name c)))) cols zero_row)"
proof -
  let ?sets = "assigned omit False r cols @ [(lit ''id'', SNum (sint (db_id s)))]"
  let ?sql = "row_insert tab key v @ row_update tab @ clauses omit False r cols @ row_where (db_id s) key v"
  obtain query where query: "row_query cols (get_tail tab key (db_id s) v) = Some query"
    using row_query_ok [OF assms(1) get_tail_short [OF assms(3,4)]] by blast
  have sql: "row_sql omit False tab key cols (db_id s) v r = Some ?sql" "row_parse tab key ?sql = Some (sint v, ?sets)"
    by (rule row_sql_ok [OF assms(1) plain_short [OF assms(2)] assms(3,4)], rule row_parse_ok [OF assms(1,2)])
  obtain d' where d': "sq_exec q (db s) ?sql = (d', True)" "sq_open q d'" "sq_rows q d' query = Some [selected (stored sto ?sets w) cols]"
    using assms(7) [unfolded upsert_law_def, rule_format, OF sql(2) _ query] by auto
  have "row_to_database q (\<lambda>me. row_sql omit False tab key cols me v r) s = Some (0, s\<lparr>db := d'\<rparr>)"
    using assms(5,6) sql(1) d'(1)
    by (cases s) (simp add: row_to_database_def with_lock_def lock_def unlock_def tg_sqlite3_exec_def)
  moreover have "row_get q cols (get_tail tab key (db_id s) v) (s\<lparr>db := d'\<rparr>) = read_columns cols (selected (stored sto ?sets w) cols) 0 zero_row"
    using query d'(2,3) by (simp add: row_get_def tg_sqlite3_for_each_def)
  moreover have "\<dots> = Some (fold (\<lambda>c. read_column c (stored sto ?sets w (lit (c_name c)))) cols zero_row)"
    using read_columns_fold [of cols "[]"] by (simp add: selected_def)
  ultimately show ?thesis
    using assms(5) by (intro exI [of _ "s\<lparr>db := d'\<rparr>"]) simp
qed


definition demo_row :: row where
  "demo_row = put_str ''first_name_'' (Some (lit ''Bob'')) (put_num ''id_'' 7 zero_row)"

definition demo_sto :: "byte list \<Rightarrow> sqlval \<Rightarrow> cell" where
  "demo_sto n v = (case v of SNum i \<Rightarrow> \<lparr>c_int = word_of_int i, c_data = Some (dec i)\<rparr> | SText t \<Rightarrow> \<lparr>c_int = 0, c_data = Some t\<rparr>)"

text \<open>A database of one row, which understands the statements for it.\<close>

definition demo_sql :: "string \<Rightarrow> string \<Rightarrow> tcol list \<Rightarrow> (byte list \<Rightarrow> cell) sqlite" where
  "demo_sql tab key cols = \<lparr>sq_open = (\<lambda>d. True),
     sq_exec = (\<lambda>d sql. case row_parse tab key sql of Some (v, sets) \<Rightarrow> (stored demo_sto sets d, True) | None \<Rightarrow> (d, False)),
     sq_rows = (\<lambda>d sql. Some [selected d cols]), sq_blob = (\<lambda>d sql b. None)\<rparr>"

definition demo_db :: "(byte list \<Rightarrow> cell) tg_db" where
  "demo_db = \<lparr>db_id = 1, db = (\<lambda>n. \<lparr>c_int = 0, c_data = None\<rparr>), databasem = False\<rparr>"

lemma demo_laws:
  "upsert_law (demo_sql tab key cols) d me tab key cols demo_sto d" "store_laws demo_sto cols r"
  by (auto simp: upsert_law_def demo_sql_def store_laws_def demo_sto_def)

lemma demo_plain: "plain_texts cols demo_row"
  by (auto simp: plain_texts_def demo_row_def put_str_def put_num_def zero_row_def lit_def)

lemma demo_typed: "row_typed TG_USER_ARGS demo_row"
  by (simp add: row_typed_def TG_USER_ARGS_def demo_row_def put_str_def put_num_def zero_row_def to_ctype_def lit_def c_string_def)



definition demo_chat :: row where
  "demo_chat = put_num ''call_not_empty_'' 1 (put_num ''id_'' 7 zero_row)"


end
