(* ===== verification/DatabaseProps.thy ===== *)
theory DatabaseProps
  imports Database UpdatesProps
begin

text \<open>
  What the writers of the database do to it.  A writer whose column is added by a statement of its
  own works at every call, since the failure of that statement is not looked at; in the writers of the
  hashes the column is added in the same text, of which SQLite executes nothing after the failure.
\<close>

section \<open>The lock\<close>

lemma with_lock_eq:
  "\<not> databasem s \<Longrightarrow> f (s\<lparr>databasem := True\<rparr>) = Some (r, s') \<Longrightarrow> databasem s' \<Longrightarrow>
    with_lock f s = Some (r, s'\<lparr>databasem := False\<rparr>)"
  by (simp add: with_lock_def lock_def unlock_def)

text \<open>A writer that is called without the lock gives it back.\<close>

lemma with_lock_released: "with_lock f s = Some (r, s') \<Longrightarrow> \<not> databasem s'"
  by (auto simp: with_lock_def unlock_def split: bind_splits if_splits)

lemma writers_release:
  "auth_key_to_database q key s = Some (r, s') \<Longrightarrow> \<not> databasem s'"
  "phone_number_to_database q phone s = Some (r, s') \<Longrightarrow> \<not> databasem s'"
  "ip_address_to_database q ip s = Some (r, s') \<Longrightarrow> \<not> databasem s'"
  "auth_token_to_database q token s = Some (r, s') \<Longrightarrow> \<not> databasem s'"
  "dialogs_hash_to_database q h s = Some (r, s') \<Longrightarrow> \<not> databasem s'"
  "messages_hash_to_database q peer h s = Some (r, s') \<Longrightarrow> \<not> databasem s'"
  "photo_to_database q photo dat s = Some (r, s') \<Longrightarrow> \<not> databasem s'"
  "peer_photo_to_database q peer photo dat s = Some (r, s') \<Longrightarrow> \<not> databasem s'"
  unfolding auth_key_to_database_def phone_number_to_database_def ip_address_to_database_def auth_token_to_database_def
    text_to_database_def dialogs_hash_to_database_def messages_hash_to_database_def photo_to_database_def
    peer_photo_to_database_def data_to_database_def
  by (erule with_lock_released)+

text \<open>The reader of the dialogs' hash releases a lock that is not held.\<close>

lemma dialogs_hash_unlocks: "\<not> databasem s \<Longrightarrow> dialogs_hash_from_database q s = None"
  by (auto simp: dialogs_hash_from_database_def unlock_def split: bind_splits)

text \<open>The phone number is written at every call, for the row of the account and every other row:
  whatever the addition of the column does, the second text is executed.\<close>

lemma phone_number_stored:
  assumes "\<not> databasem s" and "\<forall>d. sq_open q d" and "length phone < 7900"
    and "d = fst (sq_exec q (db s) phone_number_alter)"
  shows "phone_number_to_database q phone s =
    Some (if snd (sq_exec q d (phone_number_update phone (db_id s))) then 0 else 1,
      s\<lparr>db := fst (sq_exec q d (phone_number_update phone (db_id s)))\<rparr>)"
proof -
  have "sprintf_buf (phone_number_update phone (db_id s)) = Some (phone_number_update phone (db_id s))"
    using assms(3) length_dec_word(1) [of "db_id s"]
    by (simp add: sprintf_buf_def phone_number_update_def quoted_def dec_int_def)
  then show ?thesis
    using assms(1,2,4)
    by (cases s) (auto simp: phone_number_to_database_def text_to_database_def with_lock_def lock_def unlock_def
        run_sql_def tg_sqlite3_exec_def split: prod.split)
qed

section \<open>The hashes\<close>

lemma length_long: "length (dec_long v) \<le> 20"
proof -
  have "- (2 ^ 63) \<le> sint v" "sint v < 2 ^ 63"
    using sint_ge [of v] sint_less [of v] by simp_all
  then show ?thesis
    using length_dec_digits [of "nat (sint v)" 19] length_dec_digits [of "nat (- sint v)" 19]
    by (auto simp: dec_long_def dec_def nat_less_iff)
qed

lemma length_int: "length (dec_int v) \<le> 11"
  by (simp add: dec_int_def length_dec_word)

lemma hash_texts:
  "sprintf_buf (dialogs_hash_alter @ dialogs_hash_update h me) = Some (dialogs_hash_alter @ dialogs_hash_update h me)"
  "sprintf_buf (messages_hash_alter @ messages_hash_update peer h me) = Some (messages_hash_alter @ messages_hash_update peer h me)"
  using length_long [of h] length_long [of peer] length_int [of me]
  by (simp_all add: sprintf_buf_def dialogs_hash_alter_def dialogs_hash_update_def messages_hash_alter_def
      messages_hash_update_def quoted_def)

text \<open>What SQLite documents of a text that begins with the addition of a column: when the table has
  the column, the statement fails and nothing of the text is executed; otherwise the column is added
  and the rest is executed.\<close>

definition alter_law :: "'d sqlite \<Rightarrow> ('d \<Rightarrow> bool) \<Rightarrow> ('d \<Rightarrow> 'd) \<Rightarrow> byte list \<Rightarrow> bool" where
  "alter_law q has add alter \<longleftrightarrow> (\<forall>d rest. sq_exec q d (alter @ rest) =
     (if has d then (d, False) else sq_exec q (add d) rest))"

lemma exec_alter:
  "alter_law q has add alter \<Longrightarrow> sq_open q (db s) \<Longrightarrow> tg_sqlite3_exec q s (alter @ rest) =
    (if has (db s) then (1, s) else (if snd (sq_exec q (add (db s)) rest) then 0 else 1, s\<lparr>db := fst (sq_exec q (add (db s)) rest)\<rparr>))"
  by (cases s) (auto simp: alter_law_def tg_sqlite3_exec_def split: prod.split)

text \<open>C12. The hash of the dialogs is stored at most once in the life of a database: the first call
  adds the column and writes the hash, and from then on every call fails and leaves the database as
  it is, because the text that it executes begins with adding the column again.\<close>

theorem dialogs_hash_stored_once:
  assumes "alter_law q has add dialogs_hash_alter" and "\<forall>d. sq_open q d" and "\<not> databasem s" and "\<not> has (db s)"
    and "\<forall>d h me. has (fst (sq_exec q (add d) (dialogs_hash_update h me)))"
  shows "\<exists>ret s1. dialogs_hash_to_database q h s = Some (ret, s1) \<and>
    db s1 = fst (sq_exec q (add (db s)) (dialogs_hash_update h (db_id s))) \<and>
    (\<forall>h'. dialogs_hash_to_database q h' s1 = Some (1, s1))"
proof -
  let ?e = "sq_exec q (add (db s)) (dialogs_hash_update h (db_id s))"
  let ?s1 = "s\<lparr>db := fst ?e, databasem := False\<rparr>"
  have again: "dialogs_hash_to_database q h' t = Some (1, t)" if "has (db t)" "\<not> databasem t" for h' t
    using that exec_alter [OF assms(1), of "t\<lparr>databasem := True\<rparr>"] assms(2)
    by (simp add: dialogs_hash_to_database_def hash_texts with_lock_def lock_def unlock_def)
  have "dialogs_hash_to_database q h s = Some (if snd ?e then 0 else 1, ?s1)"
    using assms(2-4) exec_alter [OF assms(1), of "s\<lparr>databasem := True\<rparr>"]
    by (simp add: dialogs_hash_to_database_def hash_texts with_lock_def lock_def unlock_def)
  moreover have "\<forall>h'. dialogs_hash_to_database q h' ?s1 = Some (1, ?s1)"
    using again [of ?s1] assms(5) by simp
  ultimately show ?thesis
    by auto
qed

text \<open>A database that keeps whether the column is there and the last text executed.\<close>

definition begins :: "byte list \<Rightarrow> bool" where
  "begins sql \<longleftrightarrow> take (length dialogs_hash_alter) sql = dialogs_hash_alter"

definition demo_exec :: "bool \<times> byte list \<Rightarrow> byte list \<Rightarrow> (bool \<times> byte list) \<times> bool" where
  "demo_exec d sql = (let rest = drop (length dialogs_hash_alter) sql in
     if \<not> begins sql then ((fst d, sql), True)
     else if fst d then (d, False)
     else if begins rest then ((True, snd d), False)
     else ((True, rest), True))"

definition demo_hash_sql :: "(bool \<times> byte list) sqlite" where
  "demo_hash_sql = \<lparr>sq_open = (\<lambda>d. True), sq_exec = demo_exec, sq_rows = (\<lambda>d sql. None), sq_blob = (\<lambda>d sql b. None)\<rparr>"

lemma demo_alter: "alter_law demo_hash_sql fst (\<lambda>d. (True, snd d)) dialogs_hash_alter"
  by (auto simp: alter_law_def demo_hash_sql_def demo_exec_def begins_def Let_def)

lemma update_begins: "\<not> begins (dialogs_hash_update h me)"
  by (simp add: begins_def dialogs_hash_alter_def dialogs_hash_update_def lit_def)

theorem dialogs_hash_stored_once_witness:
  "\<exists>ret s1. dialogs_hash_to_database demo_hash_sql 5 \<lparr>db_id = 1, db = (False, []), databasem = False\<rparr> = Some (ret, s1) \<and>
    db s1 = (True, dialogs_hash_update 5 1) \<and> dialogs_hash_to_database demo_hash_sql 6 s1 = Some (1, s1)"
proof -
  let ?s = "\<lparr>db_id = 1, db = (False, []), databasem = False\<rparr> :: (bool \<times> byte list) tg_db"
  have o: "\<forall>d. sq_open demo_hash_sql d"
    by (simp add: demo_hash_sql_def)
  have k: "\<forall>d h me. fst (fst (sq_exec demo_hash_sql (True, snd d) (dialogs_hash_update h me)))" for d :: "bool \<times> byte list"
    by (simp add: demo_hash_sql_def demo_exec_def update_begins)
  have "fst (sq_exec demo_hash_sql (True, []) (dialogs_hash_update 5 1)) = (True, dialogs_hash_update 5 1)"
    by (simp add: demo_hash_sql_def demo_exec_def update_begins)
  then show ?thesis
    using dialogs_hash_stored_once [OF demo_alter o, of ?s 5] k by simp blast
qed

end
