(* ===== verification/Messages.thy ===== *)
theory Messages
  imports Rows Peer
begin

text \<open>
  Messages (tg/messages.c): a message of the server as the row of the client, with its header of a
  forwarded message or of a reply, its media and, for a service message, the text that describes the
  action; the lists of messages in answers, the calls for messages, and the table of messages.  The
  fields of a nested structure have the name of the structure before theirs; a field of type double
  holds the bits.  The names of the generated table of TL types, the printing of a double and the
  conversion of a double to a number are arguments.
\<close>

record c_lib =
  tl_name :: "u32 \<Rightarrow> byte list"
  print_lf :: "u64 \<Rightarrow> byte list"
  of_double :: "u64 \<Rightarrow> u64"
  to_double :: "u64 \<Rightarrow> u64"

datatype mkind = MARG | MSTR | MPER | MSPA | MSPS | MRPL | MFWD
datatype mcol = MCol (m_kind: mkind) (m_type: ctype) (m_field: string) (m_sqltype: string) (m_name: string)

section \<open>The tables\<close>

definition TG_MESSAGE_FWD_HEADER_ARGS :: "mcol list" where
  "TG_MESSAGE_FWD_HEADER_ARGS = [
    MCol MARG CBool ''imported_'' ''INT'' ''imported'',
    MCol MARG CBool ''saved_out_'' ''INT'' ''saved_out'',
    MCol MPER CU64 ''from_id_'' ''INT'' ''from_id'',
    MCol MSTR CChars ''from_name_'' ''INT'' ''from_name'',
    MCol MARG CU32 ''date_'' ''INT'' ''date'',
    MCol MARG CU32 ''channel_post_'' ''INT'' ''channel_post'',
    MCol MSTR CChars ''post_author_'' ''INT'' ''post_author'',
    MCol MPER CU64 ''saved_from_peer_'' ''INT'' ''saved_from_peer'',
    MCol MARG CU32 ''saved_from_msg_id_'' ''INT'' ''saved_from_msg_id'',
    MCol MPER CU64 ''saved_from_id_'' ''INT'' ''saved_from_id'',
    MCol MSTR CChars ''saved_from_name_'' ''INT'' ''saved_from_name'',
    MCol MARG CU32 ''saved_date_'' ''INT'' ''saved_date'',
    MCol MSTR CChars ''psa_type_'' ''INT'' ''psa_type'']"

definition TG_MESSAGE_REPLY_HEADER_ARGS :: "mcol list" where
  "TG_MESSAGE_REPLY_HEADER_ARGS = [
    MCol MARG CBool ''reply_to_scheduled_'' ''INT'' ''reply_to_scheduled'',
    MCol MARG CBool ''forum_topic_'' ''INT'' ''forum_topic'',
    MCol MARG CBool ''quote_'' ''INT'' ''quote'',
    MCol MARG CU32 ''reply_to_msg_id_'' ''INT'' ''reply_to_msg_id'',
    MCol MPER CU64 ''reply_to_peer_id_'' ''INT'' ''reply_to_peer_id'',
    MCol MARG CU32 ''reply_to_top_id_'' ''INT'' ''reply_to_top_id'',
    MCol MSTR CChars ''quote_text_'' ''INT'' ''quote_text'',
    MCol MARG CU32 ''quote_offset_'' ''INT'' ''quote_offset'',
    MCol MFWD CChars ''reply_from_'' '''' '''']"

definition TG_MESSAGE_ARGS :: "mcol list" where
  "TG_MESSAGE_ARGS = [
    MCol MARG CBool ''out_'' ''INT'' ''out'',
    MCol MARG CBool ''mentioned_'' ''INT'' ''mentioned'',
    MCol MARG CBool ''media_unread_'' ''INT'' ''media_unread'',
    MCol MARG CBool ''silent_'' ''INT'' ''silent'',
    MCol MARG CBool ''post_'' ''INT'' ''post'',
    MCol MARG CBool ''from_scheduled_'' ''INT'' ''from_scheduled'',
    MCol MARG CBool ''legacy_'' ''INT'' ''legacy'',
    MCol MARG CBool ''edit_hide_'' ''INT'' ''edit_hide'',
    MCol MARG CBool ''pinned_'' ''INT'' ''pinned'',
    MCol MARG CBool ''noforwards_'' ''INT'' ''noforwards'',
    MCol MARG CBool ''invert_media_'' ''INT'' ''invert_media'',
    MCol MARG CBool ''offline_'' ''INT'' ''offline'',
    MCol MARG CU32 ''id_'' ''INT'' ''msg_id'',
    MCol MPER CU64 ''from_id_'' ''INT'' ''from_id'',
    MCol MARG CU32 ''from_boosts_applied_'' ''INT'' ''from_boosts_applied'',
    MCol MPER CU64 ''peer_id_'' ''INT'' ''peer_id'',
    MCol MPER CU64 ''saved_peer_id_'' ''INT'' ''saved_peer_id'',
    MCol MARG CU32 ''date_'' ''INT'' ''date'',
    MCol MSTR CChars ''message_'' ''TEXT'' ''message'',
    MCol MSPA CU32 ''media_type'' ''INT'' ''media_type'',
    MCol MSPA CU64 ''photo_id'' ''INT'' ''photo_id'',
    MCol MSPA CU64 ''photo_access_hash'' ''INT'' ''photo_access_hash'',
    MCol MSPA CU32 ''photo_dc_id'' ''INT'' ''photo_dc_id'',
    MCol MSPA CU32 ''photo_date'' ''INT'' ''photo_date'',
    MCol MSPS CChars ''photo_file_reference'' ''TEXT'' ''photo_file_reference'',
    MCol MSPS CChars ''photo_stripped'' ''TEXT'' ''photo_stripped'',
    MCol MSPS CChars ''photo_cached_size'' ''TEXT'' ''photo_cached_size'',
    MCol MSPS CChars ''photo_sizes'' ''TEXT'' ''photo_sizes'',
    MCol MSPS CChars ''photo_svg'' ''TEXT'' ''photo_svg'',
    MCol MSPA CDouble ''geo_long'' ''INT'' ''geo_long'',
    MCol MSPA CDouble ''geo_lat'' ''INT'' ''geo_lat'',
    MCol MSPA CU64 ''geo_access_hash'' ''INT'' ''geo_access_hash'',
    MCol MSPA CU32 ''geo_accuracy_radius'' ''INT'' ''geo_accuracy_radius'',
    MCol MSPS CChars ''video_sizes'' ''TEXT'' ''video_sizes'',
    MCol MSPA CBool ''doc_isVideo'' ''INT'' ''doc_isVideo'',
    MCol MSPA CBool ''doc_isRound'' ''INT'' ''doc_isRound'',
    MCol MSPA CBool ''doc_isVoice'' ''INT'' ''doc_isVoice'',
    MCol MSPA CU64 ''doc_id'' ''INT'' ''doc_id'',
    MCol MSPA CU64 ''doc_access_hash'' ''INT'' ''doc_access_hash'',
    MCol MSPS CChars ''doc_file_reference'' ''TEXT'' ''doc_file_reference'',
    MCol MSPA CU32 ''doc_date'' ''INT'' ''doc_date'',
    MCol MSPS CChars ''doc_mime_type'' ''TEXT'' ''doc_mime_type'',
    MCol MSPA CU64 ''doc_size'' ''INT'' ''doc_size'',
    MCol MSPS CChars ''doc_thumbs'' ''TEXT'' ''doc_thumbs'',
    MCol MSPS CChars ''doc_video_thumbs'' ''TEXT'' ''doc_video_thumbs'',
    MCol MSPA CU32 ''doc_dc_id'' ''INT'' ''doc_dc_id'',
    MCol MSPS CChars ''doc_file_name'' ''TEXT'' ''doc_file_name'',
    MCol MSPA CU32 ''doc_w'' ''INT'' ''doc_w'',
    MCol MSPA CU32 ''doc_h'' ''INT'' ''doc_h'',
    MCol MSPA CU32 ''doc_vw'' ''INT'' ''doc_vw'',
    MCol MSPA CU32 ''doc_vh'' ''INT'' ''doc_vh'',
    MCol MSPA CU64 ''doc_aduration'' ''INT'' ''doc_aduration'',
    MCol MSPA CU64 ''doc_vduration'' ''INT'' ''doc_vduration'',
    MCol MSPS CChars ''doc_title'' ''TEXT'' ''doc_title'',
    MCol MSPA CU64 ''web_id'' ''INT'' ''web_id'',
    MCol MSPS CChars ''web_url'' ''TEXT'' ''web_url'',
    MCol MSPS CChars ''web_display_url'' ''TEXT'' ''web_display_url'',
    MCol MSPA CU32 ''web_hash'' ''INT'' ''web_hash'',
    MCol MSPS CChars ''web_type'' ''TEXT'' ''web_type'',
    MCol MSPS CChars ''web_site_name'' ''TEXT'' ''web_site_name'',
    MCol MSPS CChars ''web_title'' ''TEXT'' ''web_title'',
    MCol MSPS CChars ''web_description'' ''TEXT'' ''web_description'',
    MCol MSPA CU64 ''web_photo_id'' ''INT'' ''web_photo_id'',
    MCol MSPA CU64 ''web_photo_access_hash'' ''INT'' ''web_photo_access_hash'',
    MCol MSPA CU32 ''web_photo_dc_id'' ''INT'' ''web_photo_dc_id'',
    MCol MSPA CU32 ''web_photo_date'' ''INT'' ''web_photo_date'',
    MCol MSPS CChars ''web_photo_file_reference'' ''TEXT'' ''web_photo_file_reference'',
    MCol MSPS CChars ''contact_phone_number'' ''TEXT'' ''contact_phone_number'',
    MCol MSPS CChars ''contact_first_name'' ''TEXT'' ''contact_first_name'',
    MCol MSPS CChars ''contact_last_name'' ''TEXT'' ''contact_last_name'',
    MCol MSPS CChars ''contact_vcard'' ''TEXT'' ''contact_vcard'',
    MCol MSPA CU64 ''contact_user_id'' ''INT'' ''contact_user_id'',
    MCol MSPA CBool ''is_service'' ''INT'' ''is_service'',
    MCol MSPA CU32 ''ttl_period_'' ''INT'' ''ttl_period'',
    MCol MRPL CChars ''reply_to_'' '''' '''',
    MCol MSPA CBool ''is_sticker'' ''INT'' ''is_sticker'',
    MCol MSPA CBool ''phone_call_video'' ''INT'' ''iphone_call_video'',
    MCol MSPA CU64 ''phone_call_id'' ''INT'' ''phone_call_id'',
    MCol MSPA CU32 ''phone_call_duration'' ''INT'' ''phone_call_duration'',
    MCol MSPA CU32 ''phone_call_reason'' ''INT'' ''phone_call_reason'']"

definition id_messageMediaPhoto :: u32 where "id_messageMediaPhoto = 0x695150d7"
definition id_messageMediaGeo :: u32 where "id_messageMediaGeo = 0x56e0d474"
definition id_geoPoint :: u32 where "id_geoPoint = 0xb2a2f663"
definition id_messageMediaDocument :: u32 where "id_messageMediaDocument = 0x4cf4d72d"
definition id_document :: u32 where "id_document = 0x8fd4c4d8"
definition id_messageMediaWebPage :: u32 where "id_messageMediaWebPage = 0xddf10c3b"
definition id_webPage :: u32 where "id_webPage = 0xe89c45b2"
definition id_messageMediaContact :: u32 where "id_messageMediaContact = 0x70322949"
definition id_documentAttributeImageSize :: u32 where "id_documentAttributeImageSize = 0x6c37c15c"
definition id_documentAttributeVideo :: u32 where "id_documentAttributeVideo = 0x17399fad"
definition id_documentAttributeAudio :: u32 where "id_documentAttributeAudio = 0x9852f9c6"
definition id_documentAttributeFilename :: u32 where "id_documentAttributeFilename = 0x15590068"
definition id_documentAttributeSticker :: u32 where "id_documentAttributeSticker = 0x6319d612"
definition id_videoSize :: u32 where "id_videoSize = 0xde33b094"
definition id_photo :: u32 where "id_photo = 0xfb197a65"
definition id_photoSize :: u32 where "id_photoSize = 0x75c78e60"
definition id_photoCachedSize :: u32 where "id_photoCachedSize = 0x021e1ad6"
definition id_photoStrippedSize :: u32 where "id_photoStrippedSize = 0xe0b0bc2e"
definition id_photoPathSize :: u32 where "id_photoPathSize = 0xd8214d41"
definition id_messageReplyHeader :: u32 where "id_messageReplyHeader = 0xafbc09db"
definition id_messageFwdHeader :: u32 where "id_messageFwdHeader = 0x4e4df4bb"
definition id_messageActionEmpty :: u32 where "id_messageActionEmpty = 0xb6aef7b0"
definition id_messageActionChatCreate :: u32 where "id_messageActionChatCreate = 0xbd47cbad"
definition id_messageActionChatEditTitle :: u32 where "id_messageActionChatEditTitle = 0xb5a1ce5a"
definition id_messageActionChatEditPhoto :: u32 where "id_messageActionChatEditPhoto = 0x7fcb13a8"
definition id_messageActionChatDeletePhoto :: u32 where "id_messageActionChatDeletePhoto = 0x95e3fbef"
definition id_messageActionChatAddUser :: u32 where "id_messageActionChatAddUser = 0x15cefd00"
definition id_messageActionChatDeleteUser :: u32 where "id_messageActionChatDeleteUser = 0xa43f30cc"
definition id_messageActionChatJoinedByLink :: u32 where "id_messageActionChatJoinedByLink = 0x031224c3"
definition id_messageActionChannelCreate :: u32 where "id_messageActionChannelCreate = 0x95d2ac92"
definition id_messageActionChatMigrateTo :: u32 where "id_messageActionChatMigrateTo = 0xe1037f92"
definition id_messageActionChannelMigrateFrom :: u32 where "id_messageActionChannelMigrateFrom = 0xea3948e9"
definition id_messageActionPhoneCall :: u32 where "id_messageActionPhoneCall = 0x80e11a7f"
definition id_messageActionCustomAction :: u32 where "id_messageActionCustomAction = 0xfae69f56"
definition id_phoneCallDiscardReasonMissed :: u32 where "id_phoneCallDiscardReasonMissed = 0x85e42301"
definition id_phoneCallDiscardReasonDisconnect :: u32 where "id_phoneCallDiscardReasonDisconnect = 0xe095c1a0"
definition id_phoneCallDiscardReasonHangup :: u32 where "id_phoneCallDiscardReasonHangup = 0x57adc690"
definition id_phoneCallDiscardReasonBusy :: u32 where "id_phoneCallDiscardReasonBusy = 0xfaf7e8c9"
definition id_outboxReadDate :: u32 where "id_outboxReadDate = 0x3bb842ac"
definition id_messages_messages :: u32 where "id_messages_messages = 0x8c718e87"
definition id_messages_messagesSlice :: u32 where "id_messages_messagesSlice = 0x3a54685e"
definition id_messages_channelMessages :: u32 where "id_messages_channelMessages = 0xc776ba4e"

section \<open>The header of a message\<close>

text \<open>A peer gives its number and, in the field with the prefix, its type.\<close>

definition copy_peer :: "string \<Rightarrow> string \<Rightarrow> tl_obj \<Rightarrow> row \<Rightarrow> row" where
  "copy_peer pre f x r = (case fld_obj x (butlast f) of
     None \<Rightarrow> r
   | Some p \<Rightarrow> put_num (pre @ ''type_'' @ f) (ucast (tl_id p)) (put_num (pre @ f) (peer_field p) r))"

definition copy_text :: "string \<Rightarrow> string \<Rightarrow> tl_obj \<Rightarrow> row \<Rightarrow> row" where
  "copy_text pre f x r = (let v = fld_bytes x (butlast f) in if v = [] then r else put_str (pre @ f) (Some (c_string v)) r)"

definition copy_field :: "string \<Rightarrow> tl_obj \<Rightarrow> mcol \<Rightarrow> row \<Rightarrow> row" where
  "copy_field pre x c r = (let f = m_field c in case m_kind c of
     MARG \<Rightarrow> put_num (pre @ f) (to_ctype (m_type c) (fld_num x (butlast f))) r
   | MSTR \<Rightarrow> copy_text pre f x r
   | MPER \<Rightarrow> copy_peer pre f x r
   | _ \<Rightarrow> r)"

definition tg_message_fwd :: "string \<Rightarrow> tl_obj \<Rightarrow> row \<Rightarrow> row" where
  "tg_message_fwd pre x r = fold (copy_field pre x) TG_MESSAGE_FWD_HEADER_ARGS r"

definition tg_message_reply :: "string \<Rightarrow> tl_obj \<Rightarrow> row \<Rightarrow> row" where
  "tg_message_reply pre x r = fold (\<lambda>c r.
     if m_kind c = MFWD
     then (case fld_of id_messageFwdHeader x (butlast (m_field c)) of
         None \<Rightarrow> r | Some h \<Rightarrow> tg_message_fwd (pre @ m_field c @ ''.'') h r)
     else copy_field pre x c r) TG_MESSAGE_REPLY_HEADER_ARGS r"

definition copy_reply :: "string \<Rightarrow> tl_obj \<Rightarrow> row \<Rightarrow> row" where
  "copy_reply f x r = (case fld_of id_messageReplyHeader x (butlast f) of
     None \<Rightarrow> r | Some h \<Rightarrow> tg_message_reply (f @ ''.'') h r)"

definition copy_message :: "tl_obj \<Rightarrow> row" where
  "copy_message x = fold (\<lambda>c r. if m_kind c = MRPL then copy_reply (m_field c) x r else copy_field [] x c r) TG_MESSAGE_ARGS zero_row"

section \<open>Media\<close>

definition buf_text :: "tl_obj \<Rightarrow> string \<Rightarrow> byte list option" where
  "buf_text x n = Some (c_string (fld_bytes x n))"

definition buf_base64 :: "tl_obj \<Rightarrow> string \<Rightarrow> byte list option option" where
  "buf_base64 x n = do { b \<leftarrow> own_buf (fld_bytes x n); buf_to_base64 b }"

definition size_text :: "tl_obj \<Rightarrow> byte list" where
  "size_text x = dec_int (fld_int x ''w'') @ lit ''x'' @ dec_int (fld_int x ''h'')"

fun video_sizes :: "c_lib \<Rightarrow> fval list \<Rightarrow> str \<Rightarrow> str option" where
  "video_sizes C [] s = Some s"
| "video_sizes C (FObj (Some x) # xs) s = do {
     s \<leftarrow> (if tl_id x = id_videoSize
       then str_appendf s (c_string (fld_bytes x ''type'') @ lit ''='' @ size_text x @ lit ''='' @ dec_int (fld_int x ''size'') @
         lit ''='' @ print_lf C (case fld x ''video_start_ts'' of Some (FDouble d) \<Rightarrow> d | _ \<Rightarrow> 0) @ lit '' '')
       else Some s);
     video_sizes C xs s
   }"
| "video_sizes C (_ # xs) s = video_sizes C xs s"

definition put_video_sizes :: "c_lib \<Rightarrow> fval list \<Rightarrow> row \<Rightarrow> row option" where
  "put_video_sizes C xs r = do { s \<leftarrow> video_sizes C xs str_init; Some (put_str ''video_sizes'' (Some (chars s)) r) }"

text \<open>The sizes of a photo, one text of them and one field for each of the last cached size, thumbnail
  and outline.\<close>

definition photo_size :: "tl_obj \<Rightarrow> str \<times> row \<Rightarrow> (str \<times> row) option" where
  "photo_size x = (\<lambda>(s, r).
     if tl_id x = id_photoSize
     then do { s \<leftarrow> str_appendf s (c_string (fld_bytes x ''type'') @ lit ''='' @ size_text x @ lit '' ''); Some (s, r) }
     else if tl_id x = id_photoCachedSize then Some (s, put_str ''photo_cached_size'' (Some (take 30 (size_text x))) r)
     else if tl_id x = id_photoStrippedSize
     then do { t \<leftarrow> buf2img (fld_bytes x ''bytes''); Some (s, put_str ''photo_stripped'' t r) }
     else if tl_id x = id_photoPathSize
     then do { t \<leftarrow> image_from_svg_path (fld_bytes x ''bytes''); Some (s, put_str ''photo_svg'' (Some (c_string t)) r) }
     else Some (s, r))"

fun photo_sizes :: "fval list \<Rightarrow> str \<times> row \<Rightarrow> (str \<times> row) option" where
  "photo_sizes [] a = Some a"
| "photo_sizes (FObj (Some x) # xs) a = do { a \<leftarrow> photo_size x a; photo_sizes xs a }"
| "photo_sizes (_ # xs) a = photo_sizes xs a"

definition put_photo_sizes :: "fval list \<Rightarrow> row \<Rightarrow> row option" where
  "put_photo_sizes xs r = do { (s, r) \<leftarrow> photo_sizes xs (str_init, r); Some (put_str ''photo_sizes'' (Some (chars s)) r) }"

definition from_media_photo :: "tl_obj \<Rightarrow> row \<Rightarrow> row option" where
  "from_media_photo m r = (case fld_of id_photo m ''photo'' of
     None \<Rightarrow> Some r
   | Some p \<Rightarrow> do {
       fr \<leftarrow> buf_base64 p ''file_reference'';
       put_photo_sizes (fld_vec p ''sizes'') (put_str ''photo_file_reference'' fr (put_num ''photo_date'' (fld_num p ''date'')
         (put_num ''photo_dc_id'' (fld_num p ''dc_id'') (put_num ''photo_id'' (fld_num p ''id'')
           (put_num ''photo_access_hash'' (fld_num p ''access_hash'') r)))))
     })"

definition fld_double :: "tl_obj \<Rightarrow> string \<Rightarrow> u64" where
  "fld_double x n = (case fld x n of Some (FDouble d) \<Rightarrow> d | _ \<Rightarrow> 0)"

definition from_media_geo :: "tl_obj \<Rightarrow> row \<Rightarrow> row" where
  "from_media_geo m r = (case fld_of id_geoPoint m ''geo'' of
     None \<Rightarrow> r
   | Some g \<Rightarrow> put_num ''geo_accuracy_radius'' (fld_num g ''accuracy_radius'') (put_num ''geo_access_hash'' (fld_num g ''access_hash'')
       (put_num ''geo_lat'' (fld_double g ''lat'') (put_num ''geo_long'' (fld_double g ''long'') r))))"

definition doc_attribute :: "c_lib \<Rightarrow> tl_obj \<Rightarrow> row \<Rightarrow> row" where
  "doc_attribute C a r =
     (if tl_id a = id_documentAttributeImageSize
      then put_num ''doc_h'' (fld_num a ''h'') (put_num ''doc_w'' (fld_num a ''w'') r)
      else if tl_id a = id_documentAttributeVideo
      then put_num ''doc_isVideo'' 1 (put_num ''doc_vduration'' (of_double C (fld_double a ''duration''))
        (put_num ''doc_vh'' (fld_num a ''h'') (put_num ''doc_vw'' (fld_num a ''w'') r)))
      else if tl_id a = id_documentAttributeAudio
      then put_num ''doc_aduration'' (fld_num a ''duration'') (put_str ''doc_title'' (buf_text a ''title'') r)
      else if tl_id a = id_documentAttributeFilename then put_str ''doc_file_name'' (buf_text a ''file_name'') r
      else if tl_id a = id_documentAttributeSticker
      then put_num ''is_sticker'' 1 (put_str ''message_'' (buf_text a ''alt'') r)
      else r)"

fun doc_attributes :: "c_lib \<Rightarrow> fval list \<Rightarrow> row \<Rightarrow> row option" where
  "doc_attributes C [] r = Some r"
| "doc_attributes C (FObj (Some a) # xs) r = doc_attributes C xs (doc_attribute C a r)"
| "doc_attributes C (_ # xs) r = doc_attributes C xs r"

text \<open>The flag of a video is stored as the flag of a voice, which the next assignment overwrites.  A
  vector of attributes that was refused has a length and no array, which is read.\<close>

definition from_media_document :: "c_lib \<Rightarrow> tl_obj \<Rightarrow> row \<Rightarrow> row option" where
  "from_media_document C m r = (case fld_of id_document m ''document'' of
     None \<Rightarrow> Some r
   | Some d \<Rightarrow> do {
       r \<leftarrow> Some (put_num ''doc_isVoice'' (fld_num m ''voice'') (put_num ''doc_isRound'' (fld_num m ''round'')
         (put_num ''doc_isVoice'' (fld_num m ''video'') r)));
       fr \<leftarrow> buf_base64 d ''file_reference'';
       r \<leftarrow> Some (put_num ''doc_dc_id'' (fld_num d ''dc_id'') (put_num ''doc_size'' (fld_num d ''size'') (put_num ''doc_date'' (fld_num d ''date'')
         (put_str ''doc_file_reference'' fr (put_num ''doc_access_hash'' (fld_num d ''access_hash'') (put_num ''doc_id'' (fld_num d ''id'') r))))));
       r \<leftarrow> put_photo_sizes (fld_vec d ''thumbs'') r;
       r \<leftarrow> put_video_sizes C (fld_vec d ''video_thumbs'') r;
       (if 0 <s fld_int d ''attributes_len'' then None else doc_attributes C (fld_vec d ''attributes'') r)
     })"

definition from_media_webpage :: "tl_obj \<Rightarrow> row \<Rightarrow> row option" where
  "from_media_webpage m r = (case fld_of id_webPage m ''webpage'' of
     None \<Rightarrow> Some r
   | Some w \<Rightarrow> do {
       r \<leftarrow> Some (fold (\<lambda>f. put_str (''web_'' @ f) (buf_text w f)) [''url'', ''display_url'', ''type'', ''site_name'', ''title'', ''description'']
         (put_num ''web_hash'' (fld_num w ''hash'') (put_num ''web_id'' (fld_num w ''id'') r)));
       (case fld_of id_photo w ''photo'' of
          None \<Rightarrow> Some r
        | Some p \<Rightarrow> do {
            fr \<leftarrow> buf_base64 p ''file_reference'';
            Some (put_str ''web_photo_file_reference'' fr (put_num ''web_photo_date'' (fld_num p ''date'')
              (put_num ''web_photo_dc_id'' (fld_num p ''dc_id'') (put_num ''web_photo_access_hash'' (fld_num p ''access_hash'')
                (put_num ''web_photo_id'' (fld_num p ''id'') r)))))
          })
     })"

definition from_media_contact :: "tl_obj \<Rightarrow> row \<Rightarrow> row" where
  "from_media_contact m r = put_num ''contact_user_id'' (fld_num m ''user_id'')
     (fold (\<lambda>f. put_str (''contact_'' @ f) (buf_text m f)) [''phone_number'', ''first_name'', ''last_name'', ''vcard''] r)"

definition from_media :: "c_lib \<Rightarrow> tl_obj \<Rightarrow> row \<Rightarrow> row option" where
  "from_media C m r = (let r = put_num ''media_type'' (ucast (tl_id m)) r in
     if tl_id m = id_messageMediaPhoto then from_media_photo m r
     else if tl_id m = id_messageMediaGeo then Some (from_media_geo m r)
     else if tl_id m = id_messageMediaDocument then from_media_document C m r
     else if tl_id m = id_messageMediaWebPage then from_media_webpage m r
     else if tl_id m = id_messageMediaContact then Some (from_media_contact m r)
     else Some r)"

definition tg_message_from_tl :: "c_lib \<Rightarrow> tl_obj \<Rightarrow> row option" where
  "tg_message_from_tl C x = (case fld_obj x ''media'' of None \<Rightarrow> Some (copy_message x) | Some m \<Rightarrow> from_media C m (copy_message x))"

section \<open>Service messages\<close>

text \<open>The macro STR, which cuts the text, and its texts of one title or one number.\<close>

definition cut_text :: "byte list \<Rightarrow> byte list option" where
  "cut_text t = Some (take 8190 t)"

definition titled :: "string \<Rightarrow> tl_obj \<Rightarrow> byte list option" where
  "titled what a = cut_text (lit what @ 34 # c_string (fld_bytes a ''title'') @ [34])"

definition numbered :: "string \<Rightarrow> tl_obj \<Rightarrow> string \<Rightarrow> byte list option" where
  "numbered what a n = cut_text (lit what @ dec_long (fld_long a n))"

text \<open>The users that were added, as long as their number is the identifier of the type of users.  A
  refused vector has no array and ends the loop.\<close>

fun added_users :: "fval list \<Rightarrow> str \<Rightarrow> str option" where
  "added_users [] s = Some s"
| "added_users (v # vs) s = (let u = (case v of FLong u \<Rightarrow> u | _ \<Rightarrow> 0) in
     if u \<noteq> ucast id_user then Some s
     else do { s \<leftarrow> str_appendf s (dec_long u @ lit '' ''); added_users vs s })"

text \<open>A call without a reason is read through the null pointer before the test for it.\<close>

definition from_phone_call :: "tl_obj \<Rightarrow> row \<Rightarrow> row option" where
  "from_phone_call a r = do {
     reason \<leftarrow> fld_obj a ''reason'';
     r \<leftarrow> Some (put_num ''phone_call_reason'' (ucast (tl_id reason)) (put_num ''phone_call_duration'' (fld_num a ''duration'')
       (put_num ''phone_call_id'' (fld_num a ''call_id'') (put_num ''phone_call_video'' (fld_num a ''video'') r))));
     kind \<leftarrow> Some (if fld_bool a ''video'' then lit ''video call'' else lit ''phone call'');
     Some (if tl_id reason = id_phoneCallDiscardReasonMissed then put_str ''message_'' (Some (lit ''missed '' @ kind)) r
       else if tl_id reason = id_phoneCallDiscardReasonDisconnect then put_str ''message_'' (Some (kind @ lit '' disconnected'')) r
       else if tl_id reason = id_phoneCallDiscardReasonHangup then put_str ''message_'' (Some (kind @ lit '' hanged up'')) r
       else if tl_id reason = id_phoneCallDiscardReasonBusy then put_str ''message_'' (Some (kind @ lit '' busy'')) r
       else r)
   }"

definition from_action :: "c_lib \<Rightarrow> tl_obj \<Rightarrow> row \<Rightarrow> row option" where
  "from_action C a r = (let i = tl_id a; say = (\<lambda>t. Some (put_str ''message_'' t r)) in
     if i = id_messageActionEmpty then say (Some (lit ''empty''))
     else if i = id_messageActionChatCreate then say (titled ''chat create: '' a)
     else if i = id_messageActionChatEditTitle then say (titled ''chat edit title: '' a)
     else if i = id_messageActionChatEditPhoto then say (Some (lit ''chat edit photo''))
     else if i = id_messageActionChatDeletePhoto then say (Some (lit ''chat delete photo''))
     else if i = id_messageActionChatAddUser then do {
       s \<leftarrow> str_appendf str_init (lit ''chat add users: '');
       s \<leftarrow> added_users (fld_vec a ''users'') s;
       say (Some (chars s))
     }
     else if i = id_messageActionChatDeleteUser then say (numbered ''chat delete user: '' a ''user_id'')
     else if i = id_messageActionChatJoinedByLink then say (numbered ''chat joined by link: '' a ''inviter_id'')
     else if i = id_messageActionChannelCreate then say (titled ''channel create: '' a)
     else if i = id_messageActionChatMigrateTo then say (numbered ''chat migrate to: '' a ''channel_id'')
     else if i = id_messageActionChannelMigrateFrom then say (numbered ''chat migrate from: '' a ''chat_id'')
     else if i = id_messageActionPhoneCall then from_phone_call a r
     else if i = id_messageActionCustomAction then say (buf_text a ''message'')
     else say (Some (tl_name C i)))"

definition tg_message_from_tl_service :: "c_lib \<Rightarrow> tl_obj \<Rightarrow> row option" where
  "tg_message_from_tl_service C x = do {
     r \<leftarrow> Some (fold (\<lambda>f. put_num (f @ ''_'') (fld_num x f)) [''out'', ''mentioned'', ''media_unread'', ''silent'', ''post'', ''legacy'', ''id'']
       (put_num ''is_service'' 1 zero_row));
     r \<leftarrow> Some (copy_reply ''reply_to_'' x (copy_peer [] ''peer_id_'' x (copy_peer [] ''from_id_'' x r)));
     a \<leftarrow> fld_obj x ''action'';
     r \<leftarrow> from_action C a (put_num ''date_'' (fld_num x ''date'') r);
     Some (put_num ''ttl_period_'' (fld_num x ''ttl_period'') r)
   }"

text \<open>A message of any other type, as messageEmpty, leaves the structure as it was: not written.\<close>

definition tg_message_from_tl_unknown :: "c_lib \<Rightarrow> tl_obj \<Rightarrow> row option" where
  "tg_message_from_tl_unknown C x =
     (if tl_id x = id_message then tg_message_from_tl C x
      else if tl_id x = id_messageService then tg_message_from_tl_service C x
      else None)"

definition tg_message_free :: "row \<Rightarrow> string list" where
  "tg_message_free r = [m_field c. c \<leftarrow> TG_MESSAGE_ARGS, m_kind c \<in> {MSTR, MSPS} \<and> strs r (m_field c) \<noteq> None]"

section \<open>Lists of messages\<close>

text \<open>The callback, which may be null, is called for each message until it asks to stop; the result
  is the position that was reached.\<close>

type_synonym 'u on_message = "'u \<Rightarrow> row \<Rightarrow> bool \<times> 'u"

fun tg_parse_msgs :: "c_lib \<Rightarrow> 'u on_message option \<Rightarrow> nat \<Rightarrow> fval list \<Rightarrow> 'u \<Rightarrow> (nat \<times> 'u) option" where
  "tg_parse_msgs C cb i [] u = Some (i, u)"
| "tg_parse_msgs C cb i (FObj None # xs) u = tg_parse_msgs C cb (i + 1) xs u"
| "tg_parse_msgs C cb i (FObj (Some x) # xs) u = do {
     m \<leftarrow> tg_message_from_tl_unknown C x;
     (case cb of
        None \<Rightarrow> tg_parse_msgs C cb (i + 1) xs u
      | Some f \<Rightarrow> (case f u m of (stop, u) \<Rightarrow> if stop then Some (i, u) else tg_parse_msgs C cb (i + 1) xs u))
   }"
| "tg_parse_msgs C cb i (_ # xs) u = None"

text \<open>The answer: its users and chats are saved, then its messages are handed over.  A refused vector
  of messages has a length and no array.\<close>

definition parse_tl :: "c_lib \<Rightarrow> 'd sqlite \<Rightarrow> 'u on_message option \<Rightarrow> tl_obj option \<Rightarrow> 'u \<Rightarrow> 'd tg_db \<Rightarrow> (nat \<times> 'u \<times> 'd tg_db) option" where
  "parse_tl C q cb t u d = (case t of
     None \<Rightarrow> Some (0, u, d)
   | Some x \<Rightarrow>
       if tl_id x \<in> {id_messages_channelMessages, id_messages_messages, id_messages_messagesSlice} then do {
         d \<leftarrow> tg_users_save q (fld_vec x ''users'') d;
         d \<leftarrow> tg_chats_save q (fld_vec x ''chats'') d;
         (i, u) \<leftarrow> (if 0 <s fld_int x ''messages_len'' then None else tg_parse_msgs C cb 0 (fld_vec x ''messages'') u);
         Some (i, u, d)
       }
       else Some (0, u, d))"

section \<open>Calls\<close>

definition getHistory_query :: "tg_peer_t \<Rightarrow> u32 \<Rightarrow> u32 \<Rightarrow> u32 \<Rightarrow> u32 \<Rightarrow> u32 \<Rightarrow> u32 \<Rightarrow> u64 \<Rightarrow> buf_t option" where
  "getHistory_query peer offset_id offset_date add_offset limit max_id min_id hash = do {
     p \<leftarrow> tg_inputPeer peer;
     tl_method False d_getHistory [''peer'' \<mapsto> ABuf p, ''offset_id'' \<mapsto> AInt offset_id, ''offset_date'' \<mapsto> AInt offset_date,
       ''add_offset'' \<mapsto> AInt add_offset, ''limit'' \<mapsto> AInt limit, ''max_id'' \<mapsto> AInt max_id, ''min_id'' \<mapsto> AInt min_id, ''hash'' \<mapsto> ALong hash]
   }"

text \<open>The hash of the caller is sent; it is not changed.\<close>

definition tg_messages_get_history :: "c_lib \<Rightarrow> 'd sqlite \<Rightarrow> 's call \<Rightarrow> 'u on_message option \<Rightarrow> tg_peer_t \<Rightarrow> u32 \<Rightarrow> u32 \<Rightarrow> u32 \<Rightarrow> u32 \<Rightarrow>
    u32 \<Rightarrow> u32 \<Rightarrow> u64 option \<Rightarrow> 'u \<Rightarrow> 's \<Rightarrow> 'd tg_db \<Rightarrow> (nat \<times> 'u \<times> 's \<times> 'd tg_db) option" where
  "tg_messages_get_history C q call cb peer offset_id offset_date add_offset limit max_id min_id hash u s d = do {
     query \<leftarrow> getHistory_query peer offset_id offset_date add_offset limit max_id min_id (case hash of None \<Rightarrow> 0 | Some h \<Rightarrow> h);
     (t, s) \<leftarrow> call query s;
     (i, u, d) \<leftarrow> parse_tl C q cb t u d;
     Some (i, u, s, d)
   }"

text \<open>The asynchronous call hands the callback of its answer to the query (\<^theory_text>\<open>spawn\<close> is
  tg_send_query_async), which runs it once with the answer.\<close>

definition tg_messages_get_history_async_cb :: "c_lib \<Rightarrow> 'd sqlite \<Rightarrow> 'u on_message option \<Rightarrow> ('u \<Rightarrow> 'u) option \<Rightarrow> tl_obj option \<Rightarrow>
    'u \<times> 'd tg_db \<Rightarrow> ('u \<times> 'd tg_db) option" where
  "tg_messages_get_history_async_cb C q cb on_done t = (\<lambda>(u, d). do {
     (i, u, d) \<leftarrow> parse_tl C q cb t u d;
     Some (case on_done of None \<Rightarrow> u | Some f \<Rightarrow> f u, d)
   })"

definition tg_messages_get_history_async :: "c_lib \<Rightarrow> 'd sqlite \<Rightarrow>
    (buf_t \<Rightarrow> (tl_obj option \<Rightarrow> 'u \<times> 'd tg_db \<Rightarrow> ('u \<times> 'd tg_db) option) \<Rightarrow> 's \<Rightarrow> ('p \<times> 's) option) \<Rightarrow>
    'u on_message option \<Rightarrow> ('u \<Rightarrow> 'u) option \<Rightarrow> tg_peer_t \<Rightarrow> u32 \<Rightarrow> u32 \<Rightarrow> u32 \<Rightarrow> u32 \<Rightarrow> u32 \<Rightarrow> u32 \<Rightarrow> u64 option \<Rightarrow> 's \<Rightarrow> ('p \<times> 's) option" where
  "tg_messages_get_history_async C q spawn cb on_done peer offset_id offset_date add_offset limit max_id min_id hash s = do {
     query \<leftarrow> getHistory_query peer offset_id offset_date add_offset limit max_id min_id (case hash of None \<Rightarrow> 0 | Some h \<Rightarrow> h);
     spawn query (tg_messages_get_history_async_cb C q cb on_done) s
   }"

definition input_messages :: "u32 list \<Rightarrow> aval option" where
  "input_messages ids = map_option (\<lambda>bs. AVec (map ABuf bs)) (those (map (\<lambda>i. tl_method False d_inputMessageID [''id'' \<mapsto> AInt i]) ids))"

definition tg_get_messages :: "c_lib \<Rightarrow> 'd sqlite \<Rightarrow> 's call \<Rightarrow> 'u on_message option \<Rightarrow> u32 list \<Rightarrow> 'u \<Rightarrow> 's \<Rightarrow> 'd tg_db \<Rightarrow>
    (nat \<times> 'u \<times> 's \<times> 'd tg_db) option" where
  "tg_get_messages C q call cb msgids u s d = do {
     im \<leftarrow> input_messages msgids;
     query \<leftarrow> tl_method False d_getMessages [''id'' \<mapsto> im];
     (t, s) \<leftarrow> call query s;
     (i, u, d) \<leftarrow> parse_tl C q cb t u d;
     Some (i, u, s, d)
   }"

definition tg_get_channel_messages :: "c_lib \<Rightarrow> 'd sqlite \<Rightarrow> 's call \<Rightarrow> 'u on_message option \<Rightarrow> tg_peer_t \<Rightarrow> u32 list \<Rightarrow> 'u \<Rightarrow> 's \<Rightarrow>
    'd tg_db \<Rightarrow> (nat \<times> 'u \<times> 's \<times> 'd tg_db) option" where
  "tg_get_channel_messages C q call cb channel msgids u s d = do {
     im \<leftarrow> input_messages msgids;
     ic \<leftarrow> tl_method False d_inputChannel [''channel_id'' \<mapsto> ALong (peer_id channel), ''access_hash'' \<mapsto> ALong (peer_hash channel)];
     query \<leftarrow> tl_method False d_getChannelMessages [''channel'' \<mapsto> ABuf ic, ''id'' \<mapsto> im];
     (t, s) \<leftarrow> call query s;
     (i, u, d) \<leftarrow> parse_tl C q cb t u d;
     Some (i, u, s, d)
   }"

text \<open>The updates of the answer are handled (\<^theory_text>\<open>upd\<close> is tg_do_updates).\<close>

definition tg_message_send :: "'s call \<Rightarrow> (tl_obj \<Rightarrow> 's \<Rightarrow> 's option) \<Rightarrow> (nat \<Rightarrow> byte) \<Rightarrow> tg_peer_t \<Rightarrow> byte list \<Rightarrow> 's \<Rightarrow> (nat \<times> 's) option" where
  "tg_message_send call upd rand peer message s = do {
     p \<leftarrow> tg_inputPeer peer;
     r \<leftarrow> buf_rand rand 8;
     random_id \<leftarrow> buf_get_ui64 r;
     m \<leftarrow> tl_method False d_sendMessage [''no_webpage'' \<mapsto> ABool False, ''silent'' \<mapsto> ABool False, ''background'' \<mapsto> ABool False,
       ''clear_draft'' \<mapsto> ABool False, ''noforwards'' \<mapsto> ABool False, ''update_stickersets_order'' \<mapsto> ABool False,
       ''invert_media'' \<mapsto> ABool False, ''peer'' \<mapsto> ABuf p, ''message'' \<mapsto> AMem message, ''random_id'' \<mapsto> ALong random_id];
     (t, s) \<leftarrow> call m s;
     (case t of None \<Rightarrow> Some (1, s) | Some x \<Rightarrow> do { s \<leftarrow> upd x s; Some (0, s) })
   }"

definition tg_messages_set_typing :: "'s call \<Rightarrow> tg_peer_t \<Rightarrow> bool \<Rightarrow> 's \<Rightarrow> (nat \<times> 's) option" where
  "tg_messages_set_typing call peer typing s = do {
     p \<leftarrow> tg_inputPeer peer;
     action \<leftarrow> tl_method False (if typing then d_sendMessageTypingAction else d_sendMessageCancelAction) Map.empty;
     query \<leftarrow> tl_method False d_setTyping [''peer'' \<mapsto> ABuf p, ''action'' \<mapsto> ABuf action];
     (t, s) \<leftarrow> call query s;
     Some (0, s)
   }"

text \<open>The statement for the dialog is not SQL (UPDATE TABLE), and it compares a text with the number.\<close>

definition set_read_sql :: "u64 \<Rightarrow> u32 \<Rightarrow> byte list" where
  "set_read_sql i me = lit ''UPDATE TABLE 'dialogs' SET 'unread_count' = 0 WHERE 'peer_id' = '' @ dec_long i @ lit '' AND id = '' @ dec_int me @ lit '';''"

definition tg_messages_set_read :: "'d sqlite \<Rightarrow> 's call \<Rightarrow> tg_peer_t \<Rightarrow> u32 \<Rightarrow> 's \<Rightarrow> 'd tg_db \<Rightarrow> (nat \<times> 's \<times> 'd tg_db) option" where
  "tg_messages_set_read q call peer max_id s d = do {
     p \<leftarrow> tg_inputPeer peer;
     query \<leftarrow> tl_method False d_readHistory [''peer'' \<mapsto> ABuf p, ''max_id'' \<mapsto> AInt max_id];
     (t, s) \<leftarrow> call query s;
     sql \<leftarrow> sprintf_buf (set_read_sql (peer_id peer) (db_id d));
     (ret, d) \<leftarrow> with_lock (\<lambda>d. Some (tg_sqlite3_exec q d sql)) d;
     Some (0, s, d)
   }"

text \<open>The date when a message was read: 0 when it was not, -1 on an error.  The date is a number of 32
  bits that is returned as an int.\<close>

definition tg_messages_get_read_date :: "'s call \<Rightarrow> tg_peer_t \<Rightarrow> u32 \<Rightarrow> 's \<Rightarrow> (int \<times> 's) option" where
  "tg_messages_get_read_date call peer msg_id s = do {
     p \<leftarrow> tg_inputPeer peer;
     query \<leftarrow> tl_method False d_getOutboxReadDate [''peer'' \<mapsto> ABuf p, ''msg_id'' \<mapsto> AInt msg_id];
     (t, s) \<leftarrow> call query s;
     Some (case t of
         None \<Rightarrow> - 1
       | Some x \<Rightarrow>
           if tl_id x = id_rpc_error then (if c_string (fld_bytes x ''error_message'') = lit ''MESSAGE_NOT_READ_YET'' then 0 else - 1)
           else if tl_id x = id_outboxReadDate then sint (fld_int x ''date'')
           else - 1, s)
   }"

section \<open>The table\<close>

text \<open>Messages are not saved: the function returns before it does anything.\<close>

definition tg_message_to_database :: "row \<Rightarrow> 'd tg_db \<Rightarrow> int \<times> 'd tg_db" where
  "tg_message_to_database r s = (0, s)"

definition m_alter :: "string \<Rightarrow> string \<Rightarrow> byte list" where
  "m_alter name ty = lit ''ALTER TABLE 'messages' ADD COLUMN '' @ quoted (lit name) @ lit '' '' @ lit ty @ lit '';''"

definition create_message_column :: "'d sqlite \<Rightarrow> mcol \<Rightarrow> 'd tg_db \<Rightarrow> 'd tg_db" where
  "create_message_column q c s =
     (if m_kind c = MRPL then s
      else (let s = run_sql q (m_alter (m_name c) (m_sqltype c)) s in
        if m_kind c = MPER then run_sql q (m_alter (''type_'' @ m_name c) (m_sqltype c)) s else s))"

definition tg_messages_create_table :: "'d sqlite \<Rightarrow> 'd tg_db \<Rightarrow> 'd tg_db" where
  "tg_messages_create_table q s = fold (create_message_column q) TG_MESSAGE_ARGS
     (run_sql q (lit ''CREATE TABLE IF NOT EXISTS messages (id INT, msg_id INT UNIQUE); '') s)"

fun message_select :: "mcol list \<Rightarrow> str \<Rightarrow> str option" where
  "message_select [] s = Some s"
| "message_select (c # cols) s = do {
     s \<leftarrow> (if m_kind c = MRPL then Some s
       else str_appendf s (lit (m_name c) @ (if m_kind c = MPER then lit '', type_'' @ lit (m_name c) else []) @ lit '', ''));
     message_select cols s
   }"

text \<open>The type of a peer is read from the column of its number.\<close>

fun read_message :: "c_lib \<Rightarrow> mcol list \<Rightarrow> cell list \<Rightarrow> nat \<Rightarrow> row \<Rightarrow> row option" where
  "read_message C [] vs i r = Some r"
| "read_message C (c # cols) vs i r = (let f = m_field c in
     if m_kind c = MRPL then read_message C cols vs i r
     else do {
       v \<leftarrow> column vs i;
       (if m_kind c = MARG \<or> m_kind c = MSPA
        then read_message C cols vs (i + 1) (put_num f (if m_type c = CDouble then to_double C (c_int v) else to_ctype (m_type c) (c_int v)) r)
        else if m_kind c = MPER
        then read_message C cols vs (i + 2) (put_num (''type_'' @ f) (ucast (ucast (c_int v) :: u32)) (put_num f (c_int v) r))
        else read_message C cols vs (i + 1) (case c_data v of None \<Rightarrow> r | Some t \<Rightarrow> if t = [] then r else put_str f (Some (c_string t)) r))
     })"

fun message_rows :: "c_lib \<Rightarrow> 'u on_message option \<Rightarrow> cell list list \<Rightarrow> int \<Rightarrow> 'u \<Rightarrow> (int \<times> 'u) option" where
  "message_rows C cb [] i u = Some (i, u)"
| "message_rows C cb (vs # rs) i u = do {
     m \<leftarrow> read_message C TG_MESSAGE_ARGS vs 0 zero_row;
     (case cb of
        None \<Rightarrow> message_rows C cb rs (i + 1) u
      | Some f \<Rightarrow> (case f u m of (stop, u) \<Rightarrow> if stop then Some (i + 1, u) else message_rows C cb rs (i + 1) u))
   }"

definition tg_get_messages_from_database :: "c_lib \<Rightarrow> 'd sqlite \<Rightarrow> 'u on_message option \<Rightarrow> tg_peer_t \<Rightarrow> 'u \<Rightarrow> 'd tg_db \<Rightarrow> (int \<times> 'u) option" where
  "tg_get_messages_from_database C q cb peer u d = do {
     s \<leftarrow> str_appendf str_init (lit ''SELECT '');
     s \<leftarrow> message_select TG_MESSAGE_ARGS s;
     s \<leftarrow> str_appendf s (lit ''id FROM messages WHERE id = '' @ dec_int (db_id d) @ lit '' AND peer_id = '' @ dec_long (peer_id peer) @
       lit '' ORDER BY 'date';'');
     message_rows C cb (tg_sqlite3_for_each q d (chars s)) 0 u
   }"

section \<open>The tables of the client\<close>

text \<open>The file opens or is created (\<^theory_text>\<open>created\<close> is the database then); the result of a statement
  is not looked at.\<close>

definition database_init :: "'d sqlite \<Rightarrow> 'd option \<Rightarrow> 'd tg_db \<Rightarrow> int \<times> 'd tg_db" where
  "database_init q created s = (case created of
     None \<Rightarrow> (1, s)
   | Some d \<Rightarrow> (0, fold (\<lambda>f. f) [
       run_sql q (lit ''PRAGMA journal_mode = wal;''),
       run_sql q (lit ''PRAGMA busy_timeout = 5000;''),
       run_sql q (lit ''CREATE TABLE IF NOT EXISTS ips (id INT); CREATE TABLE IF NOT EXISTS phone_numbers (id INT); CREATE TABLE IF NOT EXISTS auth_tokens (id INT); CREATE TABLE IF NOT EXISTS auth_keys (id INT); CREATE TABLE IF NOT EXISTS dialogs_hash (id INT); CREATE TABLE IF NOT EXISTS messages_hash (id INT); CREATE TABLE IF NOT EXISTS photos (id INT); CREATE TABLE IF NOT EXISTS peer_photos (id INT); ''),
       tg_messages_create_table q, tg_dialogs_create_table q, tg_chat_create_table q, tg_channel_create_table q, tg_user_create_table q]
       (s\<lparr>db := d\<rparr>)))"

end
