(* ===== verification/MessagesProps.thy ===== *)
theory MessagesProps
  imports Messages FilesProps
begin

text \<open>
  The request for the history of a user, and what the call hands to its callback: every message of
  the answer in order; and what becomes of the answer when one of its entries is not a message.
\<close>

section \<open>The request\<close>

lemma d_inputPeerUser_view: "m_id d_inputPeerUser = 0xdde8a54c"
    "m_args d_inputPeerUser = [mand_arg ''user_id'' ''long'', mand_arg ''access_hash'' ''long'']"
  by code_simp+

lemma d_getHistory_view: "m_id d_getHistory = 0x4423e6c5"
    "m_args d_getHistory = [mand_arg ''peer'' ''InputPeer'', mand_arg ''offset_id'' ''int'', mand_arg ''offset_date'' ''int'',
      mand_arg ''add_offset'' ''int'', mand_arg ''limit'' ''int'', mand_arg ''max_id'' ''int'', mand_arg ''min_id'' ''int'',
      mand_arg ''hash'' ''long'']"
  by code_simp+

definition peer_image :: "tg_peer_t \<Rightarrow> byte list" where
  "peer_image p = le_bytes 4 (0xdde8a54c :: u32) @ le_bytes 8 (peer_id p) @ le_bytes 8 (peer_hash p)"

definition history_image :: "tg_peer_t \<Rightarrow> u32 list \<Rightarrow> u64 \<Rightarrow> byte list" where
  "history_image p ns hash = le_bytes 4 (0x4423e6c5 :: u32) @ peer_image p @ concat (map (le_bytes 4) ns) @ le_bytes 8 hash"

lemma inputPeer_ok:
  assumes "peer_type p = id_peerUser"
  shows "ok (tg_inputPeer p) (\<lambda>b. views b (peer_image p))"
proof -
  let ?vs = "[VLong (peer_id p), VLong (peer_hash p)]"
  have img: "enc_val (VObj d_inputPeerUser ?vs) = peer_image p"
    by (simp add: d_inputPeerUser_view peer_image_def mand_arg_def is_flags_def)
  have i: "tg_inputPeer p = tl_method False d_inputPeerUser [''user_id'' \<mapsto> ALong (peer_id p), ''access_hash'' \<mapsto> ALong (peer_hash p)]"
    using assms by (simp add: tg_inputPeer_def id_peerUser_def id_peerChat_def id_peerChannel_def)
  show ?thesis
    unfolding i
  proof (rule ok_mono [OF tl_method_written [of False _ d_inputPeerUser ?vs]])
    show "length (enc_val (VObj d_inputPeerUser ?vs)) \<le> 8192"
      unfolding img by (simp add: peer_image_def)
    show "wf_args 0 (m_args d_inputPeerUser)"
      by (simp add: d_inputPeerUser_view mand_arg_def is_flags_def)
    show "list_all2 (carries False [''user_id'' \<mapsto> ALong (peer_id p), ''access_hash'' \<mapsto> ALong (peer_hash p)])
      (m_args d_inputPeerUser) ?vs"
      by (simp add: d_inputPeerUser_view mand_arg_def carries_def ser_kind_def vector_of_def op_passes_def passes_defs as_defs)
  qed (auto simp only: img small_def owns_def)
qed

lemma getHistory_query_ok:
  assumes "peer_type p = id_peerUser"
  shows "ok (getHistory_query p oi od ao lim mx mn hash) (\<lambda>b. views b (history_image p [oi, od, ao, lim, mx, mn] hash))"
  unfolding getHistory_query_def
proof (rule ok_bind [OF inputPeer_ok [OF assms]])
  fix b
  assume b: "views b (peer_image p)"
  let ?vs = "[VFix (peer_image p), VInt oi, VInt od, VInt ao, VInt lim, VInt mx, VInt mn, VLong hash]"
  let ?env = "[''peer'' \<mapsto> ABuf b, ''offset_id'' \<mapsto> AInt oi, ''offset_date'' \<mapsto> AInt od,
       ''add_offset'' \<mapsto> AInt ao, ''limit'' \<mapsto> AInt lim, ''max_id'' \<mapsto> AInt mx, ''min_id'' \<mapsto> AInt mn, ''hash'' \<mapsto> ALong hash]"
  have img: "enc_val (VObj d_getHistory ?vs) = history_image p [oi, od, ao, lim, mx, mn] hash"
    by (simp add: d_getHistory_view history_image_def mand_arg_def is_flags_def)
  show "ok (tl_method False d_getHistory ?env) (\<lambda>b. views b (history_image p [oi, od, ao, lim, mx, mn] hash))"
  proof (rule ok_mono [OF tl_method_written [of False _ d_getHistory ?vs]])
    show "length (enc_val (VObj d_getHistory ?vs)) \<le> 8192"
      unfolding img by (simp add: history_image_def peer_image_def)
    show "wf_args 0 (m_args d_getHistory)"
      by (simp add: d_getHistory_view mand_arg_def is_flags_def)
    show "list_all2 (carries False ?env) (m_args d_getHistory) ?vs"
      using b by (simp add: d_getHistory_view mand_arg_def carries_def ser_kind_def vector_of_def op_passes_def passes_defs as_defs)
  qed (auto simp only: img small_def owns_def)
qed

section \<open>The messages\<close>

lemma parse_msgs_all:
  assumes "\<forall>u r. \<not> fst (f u r)"
  shows "tg_parse_msgs C (Some f) i (map (\<lambda>x. FObj (Some x)) ms) u =
    map_option (\<lambda>rs. (i + length ms, fold (\<lambda>r u. snd (f u r)) rs u)) (those (map (tg_message_from_tl_unknown C) ms))"
proof (induction ms arbitrary: i u)
  case (Cons m ms)
  show ?case
  proof (cases "tg_message_from_tl_unknown C m")
    case (Some r)
    obtain u' where "f u r = (False, u')"
      using assms by (cases "f u r") (metis fst_conv)
    then show ?thesis
      using Some Cons.IH [of "i + 1" u'] by (cases "those (map (tg_message_from_tl_unknown C) ms)") auto
  qed simp
qed simp

lemma those_None: "m \<in> set ms \<Longrightarrow> g m = None \<Longrightarrow> those (map g ms) = None"
  by (induction ms) (auto split: option.split)


definition demo_message :: "u32 \<Rightarrow> tl_obj" where
  "demo_message i = TL id_message [] [(''id'', FInt i)]"

definition demo_messages :: "tl_obj list \<Rightarrow> tl_obj" where
  "demo_messages ms = TL id_messages_messages [] [(''messages'', FVec (map (\<lambda>m. FObj (Some m)) ms)), (''chats'', FVec []), (''users'', FVec [])]"

definition demo_lib :: c_lib where
  "demo_lib = \<lparr>tl_name = (\<lambda>i. []), print_lf = (\<lambda>d. []), of_double = (\<lambda>d. 0), to_double = (\<lambda>d. 0)\<rparr>"

definition demo_peer :: tg_peer_t where
  "demo_peer = \<lparr>peer_type = id_peerUser, peer_id = 7, peer_hash = 9\<rparr>"

definition collect_ids :: "u64 list \<Rightarrow> row \<Rightarrow> bool \<times> u64 list" where
  "collect_ids = (\<lambda>u r. (False, u @ [nums r ''id_'']))"

definition no_sql :: "unit sqlite" where
  "no_sql = \<lparr>sq_open = (\<lambda>d. False), sq_exec = (\<lambda>d sql. (d, False)), sq_rows = (\<lambda>d sql. None), sq_blob = (\<lambda>d sql b. None)\<rparr>"

definition no_db :: "unit tg_db" where
  "no_db = \<lparr>db_id = 1, db = (), databasem = False\<rparr>"


end
