(* ===== verification/Dialogs.thy ===== *)
theory Dialogs
  imports Messages
begin

text \<open>
  Dialogs (tg/dialogs.c) and the search for channels (tg/channel.c).  An answer with dialogs lists
  the dialogs and, apart from them, the users, chats and messages that they name: each dialog is
  joined with the user, the channel or the chat that has its number and with its last message, saved,
  and handed to the callback.  \<^theory_text>\<open>lg\<close> says that a callback for the log is set.
\<close>

definition id_dialog :: u32 where "id_dialog = 0xd58a08c6"
definition id_dialogFolder :: u32 where "id_dialogFolder = 0x71bd134c"
definition id_messages_dialogs :: u32 where "id_messages_dialogs = 0x15ba6c40"
definition id_messages_dialogsSlice :: u32 where "id_messages_dialogsSlice = 0x71e094f3"
definition id_messages_dialogsNotModified :: u32 where "id_messages_dialogsNotModified = 0xf0e3e596"

text \<open>A vector that was not read has no array; with a length it is read all the same.\<close>

definition vec_null :: "tl_obj \<Rightarrow> string \<Rightarrow> bool" where
  "vec_null x n = (case fld x n of Some (FVec vs) \<Rightarrow> False | _ \<Rightarrow> True)"

definition vec_of :: "tl_obj \<Rightarrow> string \<Rightarrow> fval list option" where
  "vec_of x n = (if vec_null x n \<and> 0 <s fld_int x (n @ ''_len'') then None else Some (fld_vec x n))"

section \<open>One dialog\<close>

text \<open>The fields of a folder's dialog that nothing writes hold what the stack held (\<^theory_text>\<open>junk\<close>).\<close>

definition dialog_fields :: "(string \<Rightarrow> u64) \<Rightarrow> tl_obj \<Rightarrow> row" where
  "dialog_fields src x = fold (\<lambda>f. put_num f (src f)) [''unread_mark'', ''read_inbox_max_id'', ''read_outbox_max_id'',
     ''unread_mentions_count'', ''unread_reactions_count'']
     (put_num ''pinned'' (fld_num x ''pinned'') (put_num ''top_message_id'' (fld_num x ''top_message'') zero_row))"

definition put_peer_id :: "tl_obj \<Rightarrow> row \<Rightarrow> row" where
  "put_peer_id x r = (case fld_obj x ''peer'' of None \<Rightarrow> r | Some p \<Rightarrow> put_num ''peer_id'' (peer_field p) r)"

definition dialog_row :: "(string \<Rightarrow> u64) \<Rightarrow> tl_obj \<Rightarrow> row option" where
  "dialog_row junk x =
     (if tl_id x = id_dialogFolder
      then do {
        folder \<leftarrow> fld_obj x ''folder'';
        Some (put_peer_id x (put_num ''folder_id'' (fld_num folder ''id'') (put_num ''unread_count'' (fld_num x ''unread_unmuted_messages_count'')
          (dialog_fields junk x))))
      }
      else (let r = put_peer_id x (put_num ''folder_id'' (fld_num x ''folder_id'') (put_num ''unread_count'' (fld_num x ''unread_count'')
              (dialog_fields (fld_num x) x))) in
        Some (case fld_obj x ''notify_settings'' of
            None \<Rightarrow> r
          | Some ns \<Rightarrow> put_num ''mute_until'' (fld_num ns ''mute_until'') (put_num ''silent'' (fld_num ns ''silent'') r))))"

definition put_thumb :: "u32 \<Rightarrow> tl_obj \<Rightarrow> row \<Rightarrow> row option" where
  "put_thumb i x r = (case fld_of i x ''photo'' of
     None \<Rightarrow> Some r
   | Some p \<Rightarrow> do {
       t \<leftarrow> buf2img (fld_bytes p ''stripped_thumb'');
       Some (put_str ''thumb'' t (put_num ''photo_id'' (fld_num p ''photo_id'') r))
     })"

definition join_user :: "tl_obj \<Rightarrow> row \<Rightarrow> row option" where
  "join_user x r =
     (if tl_id x = id_user \<and> nums r ''peer_id'' = fld_num x ''id''
      then put_thumb id_userProfilePhoto x (put_str ''name''
        (if fld_bytes x ''username'' \<noteq> [] then buf_text x ''username'' else buf_text x ''first_name'')
        (put_num ''peer_type'' (ucast id_peerUser) (put_num ''access_hash'' (fld_num x ''access_hash'') r)))
      else Some r)"

definition join_chat :: "tl_obj \<Rightarrow> row \<Rightarrow> row option" where
  "join_chat x r =
     (if tl_id x = id_channel \<and> nums r ''peer_id'' = fld_num x ''id''
      then put_thumb id_chatPhoto x (put_num ''broadcast'' (fld_num x ''broadcast'') (put_str ''name'' (buf_text x ''title'')
        (put_num ''peer_type'' (ucast id_peerChannel) (put_num ''access_hash'' (fld_num x ''access_hash'') r))))
      else if tl_id x = id_chat \<and> nums r ''peer_id'' = fld_num x ''id''
      then put_thumb id_chatPhoto x (put_str ''name'' (buf_text x ''title'') (put_num ''peer_type'' (ucast id_peerChat) r))
      else Some r)"

text \<open>Going through objects, null pointers left out.\<close>

fun for_objects :: "(tl_obj \<Rightarrow> 'a \<Rightarrow> 'a option) \<Rightarrow> fval list \<Rightarrow> 'a \<Rightarrow> 'a option" where
  "for_objects f [] a = Some a"
| "for_objects f (FObj (Some x) # xs) a = do { a \<leftarrow> f x a; for_objects f xs a }"
| "for_objects f (_ # xs) a = for_objects f xs a"

definition message_text :: "tl_obj \<Rightarrow> row \<Rightarrow> byte list option \<Rightarrow> byte list option" where
  "message_text x m old =
     (if fld_bytes x ''message'' \<noteq> [] then buf_text x ''message''
      else if nums m ''doc_isVideo'' \<noteq> 0 then Some (lit ''*video*'')
      else if nums m ''doc_isRound'' \<noteq> 0 then Some (lit ''*round*'')
      else if nums m ''doc_isVoice'' \<noteq> 0 then Some (lit ''*voice message*'')
      else if strs m ''doc_title'' \<noteq> None then strs m ''doc_title''
      else if nums m ''doc_id'' \<noteq> 0 then Some (lit ''*document*'')
      else if nums m ''media_type'' = ucast id_messageMediaDocument then Some (lit ''*document*'')
      else if nums m ''media_type'' = ucast id_messageMediaContact then Some (lit ''*contact*'')
      else if nums m ''media_type'' = ucast id_messageMediaPhoto then Some (lit ''*photo*'')
      else if nums m ''media_type'' = ucast id_messageMediaGeo then Some (lit ''*geopoint*'')
      else old)"

definition put_from :: "tl_obj \<Rightarrow> row \<Rightarrow> row" where
  "put_from x r = (case fld_obj x ''from_id'' of
     None \<Rightarrow> r
   | Some p \<Rightarrow>
       if tl_id p \<in> {id_peerUser, id_peerChannel, id_peerChat}
       then put_num ''top_message_from_peer_id'' (peer_field p) (put_num ''top_message_from_peer_type'' (ucast (tl_id p)) r)
       else put_num ''top_message_from_peer_type'' 0 r)"

definition join_message :: "c_lib \<Rightarrow> tl_obj \<Rightarrow> row \<Rightarrow> row option" where
  "join_message C x r =
     (if tl_id x = id_message \<and> fld_num x ''id'' = nums r ''top_message_id''
      then do {
        m \<leftarrow> tg_message_from_tl C x;
        Some (put_from x (put_str ''top_message_text'' (message_text x m (strs r ''top_message_text''))
          (put_num ''top_message_date'' (fld_num x ''date'') r)))
      }
      else Some r)"

section \<open>All dialogs\<close>

type_synonym 'u on_dialog = "'u \<Rightarrow> row \<Rightarrow> bool \<times> 'u"

record ('u, 'd) dialogs_state =
  ds_n :: nat
  ds_hash :: "u64 option"
  ds_data :: 'u
  ds_db :: "'d tg_db"

text \<open>One dialog: whether the loop stops, and the state.  A dialog whose peer is in no list is left
  out.\<close>

definition do_dialog :: "c_lib \<Rightarrow> bool \<Rightarrow> (string \<Rightarrow> u64) \<Rightarrow> 'd sqlite \<Rightarrow> 'u on_dialog option \<Rightarrow> tl_obj \<Rightarrow> tl_obj \<Rightarrow>
    ('u, 'd) dialogs_state \<Rightarrow> (bool \<times> ('u, 'd) dialogs_state) option" where
  "do_dialog C lg junk q cb md x st =
     (if tl_id x \<noteq> id_dialogFolder \<and> tl_id x \<noteq> id_dialog then Some (False, st)
      else do {
        r \<leftarrow> dialog_row junk x;
        users \<leftarrow> vec_of md ''users'';
        r \<leftarrow> for_objects join_user users r;
        chats \<leftarrow> vec_of md ''chats'';
        r \<leftarrow> for_objects join_chat chats r;
        (if nums r ''peer_type'' = 0
         then if lg \<and> fld_obj x ''peer'' = None then None else Some (False, st)
         else do {
           messages \<leftarrow> vec_of md ''messages'';
           r \<leftarrow> for_objects (join_message C) messages r;
           (ret, d) \<leftarrow> tg_dialog_to_database q r (ds_db st);
           st \<leftarrow> Some (st\<lparr>ds_db := d, ds_hash := map_option (\<lambda>h. update_hash h (ucast (nums r ''top_message_id''))) (ds_hash st)\<rparr>);
           (case cb of
              None \<Rightarrow> Some (False, st\<lparr>ds_n := ds_n st + 1\<rparr>)
            | Some f \<Rightarrow> (case f (ds_data st) r of (stop, u) \<Rightarrow>
                if stop then Some (True, st\<lparr>ds_data := u\<rparr>) else Some (False, st\<lparr>ds_data := u, ds_n := ds_n st + 1\<rparr>)))
         })
      })"

fun do_dialogs :: "c_lib \<Rightarrow> bool \<Rightarrow> (string \<Rightarrow> u64) \<Rightarrow> 'd sqlite \<Rightarrow> 'u on_dialog option \<Rightarrow> tl_obj \<Rightarrow> fval list \<Rightarrow>
    ('u, 'd) dialogs_state \<Rightarrow> ('u, 'd) dialogs_state option" where
  "do_dialogs C lg junk q cb md [] st = Some st"
| "do_dialogs C lg junk q cb md (FObj (Some x) # xs) st = do {
     (stop, st) \<leftarrow> do_dialog C lg junk q cb md x st;
     (if stop then Some st else do_dialogs C lg junk q cb md xs st)
   }"
| "do_dialogs C lg junk q cb md (_ # xs) st = do_dialogs C lg junk q cb md xs st"

definition tg_dialogs_from_tl :: "c_lib \<Rightarrow> bool \<Rightarrow> (string \<Rightarrow> u64) \<Rightarrow> 'd sqlite \<Rightarrow> 'u on_dialog option \<Rightarrow> tl_obj option \<Rightarrow>
    u64 option \<Rightarrow> 'u \<Rightarrow> 'd tg_db \<Rightarrow> ('u, 'd) dialogs_state option" where
  "tg_dialogs_from_tl C lg junk q cb t hash u d = (let st = \<lparr>ds_n = 0, ds_hash = hash, ds_data = u, ds_db = d\<rparr> in case t of
     None \<Rightarrow> Some st
   | Some x \<Rightarrow>
       if tl_id x = id_messages_dialogsNotModified then Some st
       else if tl_id x = id_messages_dialogsSlice \<or> tl_id x = id_messages_dialogs then
         (if vec_null x ''dialogs'' then Some st
          else do {
            d \<leftarrow> tg_users_save q (fld_vec x ''users'') d;
            d \<leftarrow> tg_chats_save q (fld_vec x ''chats'') d;
            do_dialogs C lg junk q cb x (fld_vec x ''dialogs'') (st\<lparr>ds_db := d\<rparr>)
          })
       else Some st)"

section \<open>The calls\<close>

definition getDialogs_query :: "u32 option \<Rightarrow> u32 \<Rightarrow> u32 \<Rightarrow> u64 \<Rightarrow> buf_t option" where
  "getDialogs_query folder_id date limit hash = do {
     inputPeer \<leftarrow> tl_method False d_inputPeerSelf Map.empty;
     tl_method False d_getDialogs ([''exclude_pinned'' \<mapsto> ABool False, ''offset_date'' \<mapsto> AInt date, ''offset_id'' \<mapsto> AInt (- 1),
       ''offset_peer'' \<mapsto> ABuf inputPeer, ''limit'' \<mapsto> AInt limit, ''hash'' \<mapsto> ALong hash]
       (''folder_id'' := map_option AInt folder_id))
   }"

text \<open>The date is a time_t that is passed as an int.\<close>

definition tg_get_dialogs :: "c_lib \<Rightarrow> bool \<Rightarrow> (string \<Rightarrow> u64) \<Rightarrow> 'd sqlite \<Rightarrow> 's call \<Rightarrow> 'u on_dialog option \<Rightarrow> u32 \<Rightarrow> u64 \<Rightarrow>
    u64 option \<Rightarrow> u32 option \<Rightarrow> 'u \<Rightarrow> 's \<Rightarrow> 'd tg_db \<Rightarrow> (('u, 'd) dialogs_state \<times> 's) option" where
  "tg_get_dialogs C lg junk q call cb limit date hash folder_id u s d = do {
     query \<leftarrow> getDialogs_query folder_id (ucast date) limit (case hash of None \<Rightarrow> 0 | Some h \<Rightarrow> h);
     (t, s) \<leftarrow> call query s;
     st \<leftarrow> tg_dialogs_from_tl C lg junk q cb t hash u d;
     Some (st, s)
   }"

text \<open>The callback of the asynchronous call, which ends by telling the caller (\<^theory_text>\<open>done\<close>).\<close>

definition tg_get_dialogs_async_cb :: "c_lib \<Rightarrow> bool \<Rightarrow> (string \<Rightarrow> u64) \<Rightarrow> 'd sqlite \<Rightarrow> 'u on_dialog option \<Rightarrow> ('u \<Rightarrow> 'u) option \<Rightarrow>
    u64 option \<Rightarrow> tl_obj option \<Rightarrow> 'u \<Rightarrow> 'd tg_db \<Rightarrow> ('u, 'd) dialogs_state option" where
  "tg_get_dialogs_async_cb C lg junk q cb on_done hash t u d = do {
     st \<leftarrow> tg_dialogs_from_tl C lg junk q cb t hash u d;
     Some (case on_done of None \<Rightarrow> st | Some f \<Rightarrow> st\<lparr>ds_data := f (ds_data st)\<rparr>)
   }"

text \<open>The hash is behind a pointer: its value at the time of the call is sent, its value at the time of
  the answer goes to the callback.\<close>

definition tg_get_dialogs_async :: "c_lib \<Rightarrow> bool \<Rightarrow> (string \<Rightarrow> u64) \<Rightarrow> 'd sqlite \<Rightarrow>
    (buf_t \<Rightarrow> (u64 option \<Rightarrow> tl_obj option \<Rightarrow> 'u \<Rightarrow> 'd tg_db \<Rightarrow> ('u, 'd) dialogs_state option) \<Rightarrow> 's \<Rightarrow> ('p \<times> 's) option) \<Rightarrow>
    'u on_dialog option \<Rightarrow> ('u \<Rightarrow> 'u) option \<Rightarrow> u32 \<Rightarrow> u64 \<Rightarrow> u64 option \<Rightarrow> u32 option \<Rightarrow> 's \<Rightarrow> ('p \<times> 's) option" where
  "tg_get_dialogs_async C lg junk q spawn cb on_done limit date hash folder_id s = do {
     query \<leftarrow> getDialogs_query folder_id (ucast date) limit (case hash of None \<Rightarrow> 0 | Some h \<Rightarrow> h);
     spawn query (tg_get_dialogs_async_cb C lg junk q cb on_done) s
   }"

section \<open>Channels\<close>

type_synonym 'u on_channel = "'u \<Rightarrow> row \<Rightarrow> bool \<times> 'u"

text \<open>A null pointer is read.\<close>

fun tg_parse_chennels :: "'u on_channel option \<Rightarrow> fval list \<Rightarrow> nat \<Rightarrow> 'u \<Rightarrow> (nat \<times> 'u) option" where
  "tg_parse_chennels cb [] n u = Some (n, u)"
| "tg_parse_chennels cb (FObj (Some x) # xs) n u =
     (if tl_id x \<noteq> id_channel then tg_parse_chennels cb xs n u
      else do {
        r \<leftarrow> tg_channel_from_tl x;
        (case cb of
           None \<Rightarrow> tg_parse_chennels cb xs (n + 1) u
         | Some f \<Rightarrow> (case f u r of (stop, u) \<Rightarrow> if stop then Some (n + 1, u) else tg_parse_chennels cb xs (n + 1) u))
      })"
| "tg_parse_chennels cb (_ # xs) n u = None"

definition channels_of :: "'u on_channel option \<Rightarrow> tl_obj \<Rightarrow> 'u \<Rightarrow> (nat \<times> 'u) option" where
  "channels_of cb x u =
     (if tl_id x \<in> {id_messages_channelMessages, id_messages_messages, id_messages_messagesSlice}
      then do { chats \<leftarrow> vec_of x ''chats''; tg_parse_chennels cb chats 0 u }
      else Some (0, u))"

definition tg_channel_search_global_cb :: "'u on_channel option \<Rightarrow> ('u \<Rightarrow> 'u) option \<Rightarrow> tl_obj option \<Rightarrow> 'u \<Rightarrow> 'u option" where
  "tg_channel_search_global_cb cb on_done t u = do {
     (n, u) \<leftarrow> (case t of None \<Rightarrow> Some (0, u) | Some x \<Rightarrow> channels_of cb x u);
     Some (case on_done of None \<Rightarrow> u | Some f \<Rightarrow> f u)
   }"

definition tg_channel_search_global :: "'s call \<Rightarrow> 'u on_channel option \<Rightarrow> byte list \<Rightarrow> buf_t \<Rightarrow> u32 \<Rightarrow> u32 \<Rightarrow> 'u \<Rightarrow> 's \<Rightarrow>
    (nat \<times> 'u \<times> 's) option" where
  "tg_channel_search_global call cb query flt ofs limit u s = do {
     inputPeer \<leftarrow> tl_method False d_inputPeerEmpty Map.empty;
     search \<leftarrow> tl_method False d_searchGlobal [''broadcasts_only'' \<mapsto> ABool True, ''q'' \<mapsto> AMem query, ''filter'' \<mapsto> ABuf flt,
       ''min_date'' \<mapsto> AInt 0, ''max_date'' \<mapsto> AInt 0, ''offset_rate'' \<mapsto> AInt 0, ''offset_peer'' \<mapsto> ABuf inputPeer,
       ''offset_id'' \<mapsto> AInt ofs, ''limit'' \<mapsto> AInt limit];
     (t, s) \<leftarrow> call search s;
     (n, u) \<leftarrow> (case t of None \<Rightarrow> Some (0, u) | Some x \<Rightarrow> channels_of cb x u);
     Some (n, u, s)
   }"

definition tg_channel_set_read :: "'s call \<Rightarrow> tg_peer_t \<Rightarrow> u32 \<Rightarrow> 's \<Rightarrow> (nat \<times> 's) option" where
  "tg_channel_set_read call peer max_id s = do {
     inputChannel \<leftarrow> tl_method False d_inputChannel [''channel_id'' \<mapsto> ALong (peer_id peer), ''access_hash'' \<mapsto> ALong (peer_hash peer)];
     query \<leftarrow> tl_method False d_readChannelHistory [''channel'' \<mapsto> ABuf inputChannel, ''max_id'' \<mapsto> AInt max_id];
     (t, s) \<leftarrow> call query s;
     Some (0, s)
   }"

end
