(* ===== verification/DialogsProps.thy ===== *)
theory DialogsProps
  imports Dialogs RowsProps MessagesProps
begin

text \<open>
  The dialogs of an answer: what is delivered, counted, hashed and stored.
\<close>

section \<open>One row\<close>

definition whole :: "tl_obj \<Rightarrow> string \<Rightarrow> bool" where
  "whole x n \<longleftrightarrow> vec_of x n = Some (fld_vec x n)"

text \<open>The row of a dialog, joined with the users, chats and messages of the answer; the messages only
  when its peer was found.\<close>

definition joined :: "c_lib \<Rightarrow> (string \<Rightarrow> u64) \<Rightarrow> tl_obj \<Rightarrow> tl_obj \<Rightarrow> row option" where
  "joined C junk md x = do {
     r \<leftarrow> dialog_row junk x;
     r \<leftarrow> for_objects join_user (fld_vec md ''users'') r;
     r \<leftarrow> for_objects join_chat (fld_vec md ''chats'') r;
     (if nums r ''peer_type'' = 0 then Some r else for_objects (join_message C) (fld_vec md ''messages'') r)
   }"

definition known :: "row \<Rightarrow> bool" where
  "known r \<longleftrightarrow> nums r ''peer_type'' \<noteq> 0"

lemma join_message_type: "join_message C x r = Some r' \<Longrightarrow> nums r' ''peer_type'' = nums r ''peer_type''"
  by (auto simp: join_message_def put_from_def put_num_def put_str_def split: if_splits option.splits elim!: bind_eq_Some_conv [THEN iffD1, elim_format])

lemma messages_keep_type: "for_objects (join_message C) xs r = Some r' \<Longrightarrow> nums r' ''peer_type'' = nums r ''peer_type''"
proof (induction "join_message C" xs r rule: for_objects.induct)
  case (2 x xs a)
  then obtain a' where "join_message C x a = Some a'" "for_objects (join_message C) xs a' = Some r'"
    by (cases "join_message C x a") auto
  then show ?case
    using 2(1) [of a'] join_message_type by simp
qed simp_all

section \<open>The statement of a row\<close>

definition dialog_text :: "u32 \<Rightarrow> row \<Rightarrow> byte list" where
  "dialog_text me r = row_insert ''dialogs'' ''peer_id'' (nums r ''peer_id'') @ row_update ''dialogs'' @
     clauses (\<lambda>_. False) True r TG_DIALOG_ARGS @ row_where me ''peer_id'' (nums r ''peer_id'')"

lemma dialog_stored:
  assumes "short_texts TG_DIALOG_ARGS r" and "\<not> databasem d"
  shows "tg_dialog_to_database q r d = Some (0, run_sql q (dialog_text (db_id d) r) d)"
proof -
  have "dialog_sql r me = Some (dialog_text me r)" for me
    unfolding dialog_sql_def dialog_text_def by (rule row_sql_ok [OF tables_plain(4) assms(1)]) simp_all
  then show ?thesis
    using assms(2) by (cases d; cases "sq_exec q (db d) (dialog_text (db_id d) r)")
      (simp add: tg_dialog_to_database_def row_to_database_def with_lock_def lock_def unlock_def run_sql_def tg_sqlite3_exec_def)
qed

lemma run_sql_keeps: "db_id (run_sql q t d) = db_id d" "databasem (run_sql q t d) = databasem d"
  by (simp_all add: run_sql_def tg_sqlite3_exec_def split: prod.split)

section \<open>All rows\<close>

definition taken :: "'d sqlite \<Rightarrow> ('u \<Rightarrow> row \<Rightarrow> bool \<times> 'u) \<Rightarrow> row \<Rightarrow> ('u, 'd) dialogs_state \<Rightarrow> ('u, 'd) dialogs_state" where
  "taken q f r st = \<lparr>ds_n = ds_n st + 1, ds_hash = map_option (\<lambda>h. update_hash h (ucast (nums r ''top_message_id''))) (ds_hash st),
     ds_data = snd (f (ds_data st) r), ds_db = run_sql q (dialog_text (db_id (ds_db st)) r) (ds_db st)\<rparr>"

lemma do_dialog_joined:
  assumes "whole md ''users''" "whole md ''chats''" "whole md ''messages''"
    and "tl_id x \<in> {id_dialog, id_dialogFolder}" "fld_obj x ''peer'' \<noteq> None"
    and "joined C junk md x = Some r" "short_texts TG_DIALOG_ARGS r" "\<not> databasem (ds_db st)" "\<forall>u r. \<not> fst (f u r)"
  shows "do_dialog C lg junk q (Some f) md x st = Some (False, if known r then taken q f r st else st)"
proof -
  obtain r0 r1 r2 where r: "dialog_row junk x = Some r0" "for_objects join_user (fld_vec md ''users'') r0 = Some r1"
    "for_objects join_chat (fld_vec md ''chats'') r1 = Some r2"
    "(if nums r2 ''peer_type'' = 0 then Some r2 else for_objects (join_message C) (fld_vec md ''messages'') r2) = Some r"
    using assms(6) by (auto simp: joined_def bind_eq_Some_conv)
  have k: "known r \<longleftrightarrow> nums r2 ''peer_type'' \<noteq> 0"
    using r(4) messages_keep_type by (auto simp: known_def split: if_splits)
  obtain u where f: "f (ds_data st) r = (False, u)"
    using assms(9) by (cases "f (ds_data st) r") (metis fst_conv)
  show ?thesis
    using r k f assms(1-5) dialog_stored [OF assms(7,8), of q]
    by (cases "nums r2 ''peer_type'' = 0") (auto simp: do_dialog_def whole_def taken_def)
qed

lemma do_dialogs_joined:
  assumes "whole md ''users''" "whole md ''chats''" "whole md ''messages''" "\<forall>u r. \<not> fst (f u r)"
  shows "list_all2 (\<lambda>x r. joined C junk md x = Some r) xs rs \<Longrightarrow>
    \<forall>x \<in> set xs. tl_id x \<in> {id_dialog, id_dialogFolder} \<and> fld_obj x ''peer'' \<noteq> None \<Longrightarrow>
    \<forall>r \<in> set rs. short_texts TG_DIALOG_ARGS r \<Longrightarrow> \<not> databasem (ds_db st) \<Longrightarrow>
    do_dialogs C lg junk q (Some f) md (map (\<lambda>x. FObj (Some x)) xs) st = Some (fold (taken q f) (filter known rs) st)"
proof (induction xs rs arbitrary: st rule: list_all2_induct)
  case (Cons x xs r rs)
  let ?st = "if known r then taken q f r st else st"
  have "do_dialog C lg junk q (Some f) md x st = Some (False, ?st)"
    by (rule do_dialog_joined) (use assms Cons in auto)
  moreover have "\<not> databasem (ds_db ?st)"
    using Cons.prems(3) by (simp add: taken_def run_sql_keeps)
  ultimately show ?case
    using Cons.IH [of ?st] Cons.prems by simp
qed simp

lemma fold_taken:
  "fold (taken q f) rs \<lparr>ds_n = n, ds_hash = h, ds_data = u, ds_db = d\<rparr> =
    \<lparr>ds_n = n + length rs, ds_hash = map_option (fold (\<lambda>r h. update_hash h (ucast (nums r ''top_message_id''))) rs) h,
      ds_data = fold (\<lambda>r u. snd (f u r)) rs u, ds_db = fold (\<lambda>r d. run_sql q (dialog_text (db_id d) r) d) rs d\<rparr>"
  by (induction rs arbitrary: n h u d) (auto simp: taken_def option.map_comp comp_def option.map_id)


section \<open>An answer\<close>

lemma strs_copy_columns:
  assumes "strs (copy_columns x cols) n = Some t"
  shows "\<exists>g. t = c_string (fld_bytes x g)"
proof -
  have "strs (fold (copy_column x) cols r) n = Some t \<Longrightarrow> (\<forall>n t. strs r n = Some t \<longrightarrow> (\<exists>g. t = c_string (fld_bytes x g))) \<Longrightarrow>
    \<exists>g. t = c_string (fld_bytes x g)" for r
  proof (induction cols arbitrary: r)
    case (Cons c cols)
    have "\<forall>n t. strs (copy_column x c r) n = Some t \<longrightarrow> (\<exists>g. t = c_string (fld_bytes x g))"
      using Cons.prems(2) by (auto simp: copy_column_def put_num_def put_str_def Let_def split: col_kind.splits if_splits)
    then show ?case
      using Cons by simp
  qed auto
  then show ?thesis
    using assms by (simp add: copy_columns_def zero_row_def)
qed

definition demo_user :: tl_obj where
  "demo_user = TL id_user [] [(''id'', FLong 7), (''first_name'', FBytes (lit ''Bob''))]"

definition demo_top :: tl_obj where
  "demo_top = TL id_message [] [(''id'', FInt 3), (''message'', FBytes (lit ''hi''))]"

definition demo_dialog :: "u64 \<Rightarrow> tl_obj" where
  "demo_dialog i = TL id_dialog [] [(''peer'', FObj (Some (TL id_peerUser [] [(''user_id'', FLong i)]))), (''top_message'', FInt 3)]"

definition demo_dialogs :: tl_obj where
  "demo_dialogs = TL id_messages_dialogs [] [(''dialogs'', FVec (map (\<lambda>x. FObj (Some x)) [demo_dialog 7, demo_dialog 9])),
     (''messages'', FVec [FObj (Some demo_top)]), (''chats'', FVec []), (''users'', FVec [FObj (Some demo_user)])]"

definition collect_names :: "(byte list option \<times> byte list option) list \<Rightarrow> row \<Rightarrow> bool \<times> (byte list option \<times> byte list option) list" where
  "collect_names = (\<lambda>u r. (False, u @ [(strs r ''name'', strs r ''top_message_text'')]))"

lemma demo_user_saved: "tg_users_save no_sql (fld_vec demo_dialogs ''users'') no_db = Some no_db"
proof -
  have r: "tg_user_from_tl demo_user = Some (copy_columns demo_user TG_USER_ARGS)"
    by (simp add: tg_user_from_tl_def from_photo_def from_status_def from_color_def fld_of_def fld_obj_def demo_user_def)
  have "length (c_string (fld_bytes demo_user g)) < 2 ^ 20" for g
    using le_less_trans [OF length_takeWhile_le] by (simp add: c_string_def fld_bytes_def demo_user_def lit_def)
  then have "short_texts TG_USER_ARGS (copy_columns demo_user TG_USER_ARGS)"
    using strs_copy_columns by (fastforce simp: short_texts_def)
  from row_sql_ok [OF tables_plain(1) this] have "\<exists>t. user_sql (copy_columns demo_user TG_USER_ARGS) 1 = Some t"
    by (simp add: user_sql_def)
  then have "tg_user_save no_sql (copy_columns demo_user TG_USER_ARGS) no_db = Some (1, no_db)"
    by (auto simp: tg_user_save_def row_to_database_def with_lock_def lock_def unlock_def tg_sqlite3_exec_def no_sql_def no_db_def)
  then show ?thesis
    using r by (simp add: demo_dialogs_def fld_vec_def demo_user_def)
qed

lemma demo_row_read: "\<exists>r. dialog_row (\<lambda>_. 0) (demo_dialog i) = Some r \<and> nums r ''peer_id'' = i \<and> nums r ''peer_type'' = 0 \<and>
    nums r ''top_message_id'' = 3 \<and> strs r = (\<lambda>_. None)"
  by (simp add: dialog_row_def demo_dialog_def id_dialog_def id_dialogFolder_def fld_obj_def)
    (simp add: dialog_fields_def put_peer_id_def fld_obj_def fld_num_def put_num_def zero_row_def peer_field_def fld_long_def)

lemma demo_joined:
  "\<exists>r. joined demo_lib (\<lambda>_. 0) demo_dialogs (demo_dialog 7) = Some r \<and> known r \<and>
    strs r = (\<lambda>_. None)(''name'' := Some (lit ''Bob''), ''top_message_text'' := Some (lit ''hi''))"
  "\<exists>r. joined demo_lib (\<lambda>_. 0) demo_dialogs (demo_dialog 9) = Some r \<and> \<not> known r \<and> strs r = (\<lambda>_. None)"
proof -
  have m: "tg_message_from_tl demo_lib demo_top = Some (copy_message demo_top)"
    by (simp add: tg_message_from_tl_def demo_top_def fld_obj_def)
  have s: "fld_vec demo_dialogs ''users'' = [FObj (Some demo_user)]" "fld_vec demo_dialogs ''chats'' = []"
    "fld_vec demo_dialogs ''messages'' = [FObj (Some demo_top)]"
    by (simp_all add: demo_dialogs_def fld_vec_def)
  have u: "tl_id demo_user = id_user" "fld_num demo_user ''id'' = 7" "fld_bytes demo_user ''username'' = []"
    "buf_text demo_user ''first_name'' = Some (lit ''Bob'')" "put_thumb id_userProfilePhoto demo_user r = Some r" for r
    by (simp_all add: demo_user_def fld_num_def fld_bytes_def buf_text_def put_thumb_def fld_of_def fld_obj_def c_string_def lit_def)
  have t: "tl_id demo_top = id_message" "fld_num demo_top ''id'' = 3" "message_text demo_top n r = Some (lit ''hi'')" "put_from demo_top q = q" for n r q
    by (simp_all add: demo_top_def fld_num_def fld_bytes_def buf_text_def message_text_def put_from_def fld_obj_def c_string_def lit_def)
  obtain a where a: "dialog_row (\<lambda>_. 0) (demo_dialog 7) = Some a" "nums a ''peer_id'' = 7" "nums a ''top_message_id'' = 3" "strs a = (\<lambda>_. None)"
    using demo_row_read [of 7] by blast
  have "id_peerUser \<noteq> 0"
    by (simp add: id_peerUser_def)
  then have "(ucast id_peerUser :: u64) \<noteq> 0"
    by (simp add: id_peerUser_def)
  then show "\<exists>r. joined demo_lib (\<lambda>_. 0) demo_dialogs (demo_dialog 7) = Some r \<and> known r \<and>
    strs r = (\<lambda>_. None)(''name'' := Some (lit ''Bob''), ''top_message_text'' := Some (lit ''hi''))"
    by (simp add: joined_def s a u t m join_user_def join_message_def put_num_def put_str_def known_def)
  obtain b where "dialog_row (\<lambda>_. 0) (demo_dialog 9) = Some b" "nums b ''peer_id'' = 9" "nums b ''peer_type'' = 0" "strs b = (\<lambda>_. None)"
    using demo_row_read [of 9] by blast
  then show "\<exists>r. joined demo_lib (\<lambda>_. 0) demo_dialogs (demo_dialog 9) = Some r \<and> \<not> known r \<and> strs r = (\<lambda>_. None)"
    by (simp add: joined_def s u join_user_def known_def)
qed


end
