(* ===== verification/Account.thy ===== *)
theory Account
  imports Messages
begin

text \<open>
  The client's object (tg/tg.c) and the authorization of an account (tg/auth.c): what a new object
  takes from the database, the configuration and the addresses of the data centers in it, asking for a
  code, which may move the client to another data center, and signing in with it.  The name and the
  version of the package come from the generated config.h; \<^theory_text>\<open>reset\<close> is what closing
  the connection, the new address and forgetting the key do to the state that the calls work on.
\<close>

record package =
  pkg_name :: "byte list"
  pkg_version :: "byte list"

text \<open>The hash of the application is an array of 33 characters.\<close>

record account =
  a_id :: u32
  a_apiId :: u32
  a_apiHash :: "byte list"
  a_ip :: "byte list"
  a_port :: int
  a_key :: buf_t
  a_key_id :: u64
  a_seqn :: nat
  a_config :: "tl_obj option"

definition SERVER_IP :: "byte list" where "SERVER_IP = lit ''149.154.167.50''"
definition SERVER_PORT :: int where "SERVER_PORT = 443"
definition API_LAYER :: u32 where "API_LAYER = 185"

definition id_config :: u32 where "id_config = 0xcc1a241e"
definition id_dcOption :: u32 where "id_dcOption = 0x18b7a10d"
definition boolTrue_id :: u32 where "boolTrue_id = 0x997275b5"
definition id_auth_sentCode :: u32 where "id_auth_sentCode = 0x5e002502"
definition id_auth_authorization :: u32 where "id_auth_authorization = 0x2ea2c0d4"

section \<open>The object\<close>

text \<open>strncpy into an array of zeros, one character shorter than the array: the text is cut.\<close>

definition copy_ip :: "byte list \<Rightarrow> byte list" where
  "copy_ip ip = take 15 ip"

definition tg_set_server_address :: "byte list \<Rightarrow> int \<Rightarrow> account \<Rightarrow> account" where
  "tg_set_server_address ip port a = a\<lparr>a_ip := copy_ip ip, a_port := port\<rparr>"

definition tg_new :: "crypto \<Rightarrow> 'd sqlite \<Rightarrow> 'd option \<Rightarrow> byte list option \<Rightarrow> u32 \<Rightarrow> u32 \<Rightarrow> byte list \<Rightarrow> 'd tg_db \<Rightarrow>
    (account \<times> 'd tg_db) option option" where
  "tg_new C q created path me apiId apiHash d = (case path of
     None \<Rightarrow> Some None
   | Some p \<Rightarrow> (case database_init q created (d\<lparr>db_id := me\<rparr>) of (err, d) \<Rightarrow>
       if err \<noteq> 0 then Some None
       else do {
         ip \<leftarrow> ip_address_from_database q d;
         key \<leftarrow> auth_key_from_database q d;
         key_id \<leftarrow> (if bsize key \<noteq> 0 then do { k \<leftarrow> auth_key_id_of C key; buf_get_ui64 k } else Some 0);
         Some (Some (\<lparr>a_id = me, a_apiId = apiId, a_apiHash = take 33 apiHash,
           a_ip = copy_ip (case ip of None \<Rightarrow> SERVER_IP | Some ip \<Rightarrow> ip), a_port = SERVER_PORT,
           a_key = key, a_key_id = key_id, a_seqn = 0, a_config = None\<rparr>, d))
       }))"

text \<open>The address of a data center in the configuration.  A refused vector is read; an object of
  another type is read as an option.\<close>

fun find_dc :: "fval list \<Rightarrow> u32 \<Rightarrow> byte list option option" where
  "find_dc [] dc = Some None"
| "find_dc (FObj None # xs) dc = find_dc xs dc"
| "find_dc (FObj (Some x) # xs) dc =
     (if tl_id x \<noteq> id_dcOption then None
      else if fld_int x ''id'' = dc then Some (Some (c_string (fld_bytes x ''ip_address'')))
      else find_dc xs dc)"
| "find_dc (_ # xs) dc = None"

definition tg_ip_address_for_dc :: "account \<Rightarrow> u32 \<Rightarrow> byte list option option" where
  "tg_ip_address_for_dc a dc = (case a_config a of
     None \<Rightarrow> Some None
   | Some c \<Rightarrow> if 0 <s fld_int c ''dc_options_len'' then None else find_dc (fld_vec c ''dc_options'') dc)"

definition tg_get_config :: "'s call \<Rightarrow> 's \<Rightarrow> (tl_obj option \<times> 's) option" where
  "tg_get_config call s = do {
     query \<leftarrow> tl_method False d_getConfig Map.empty;
     (t, s) \<leftarrow> call query s;
     Some (case t of None \<Rightarrow> None | Some x \<Rightarrow> if tl_id x \<noteq> id_config then None else Some x, s)
   }"

definition tg_account_register_ios :: "'s call \<Rightarrow> byte list \<Rightarrow> bool \<Rightarrow> 's \<Rightarrow> (nat \<times> 's) option" where
  "tg_account_register_ios call token development s = do {
     app_sandbox \<leftarrow> tl_method False (if development then d_boolTrue else d_boolFalse) Map.empty;
     query \<leftarrow> tl_method False d_registerDevice [''no_muted'' \<mapsto> ABool False, ''token_type'' \<mapsto> AInt 1, ''token'' \<mapsto> AMem token,
       ''app_sandbox'' \<mapsto> ABuf app_sandbox, ''secret'' \<mapsto> ABuf buf_new, ''other_uids'' \<mapsto> AVec []];
     (t, s) \<leftarrow> call query s;
     Some (case t of None \<Rightarrow> 1 | Some x \<Rightarrow> if tl_id x = boolTrue_id then 0 else 1, s)
   }"

section \<open>Connections\<close>

definition initConnection :: "package \<Rightarrow> account \<Rightarrow> buf_t \<Rightarrow> buf_t option" where
  "initConnection P a query = do {
     b \<leftarrow> tl_method False d_initConnection [''api_id'' \<mapsto> AInt (a_apiId a), ''device_model'' \<mapsto> AMem (pkg_name P @ [0]),
       ''system_version'' \<mapsto> AMem (pkg_version P @ [0]), ''app_version'' \<mapsto> AMem (pkg_version P @ [0]),
       ''system_lang_code'' \<mapsto> AMem (lit ''ru'' @ [0]), ''lang_pack'' \<mapsto> AMem (lit ''LibTg'' @ [0]),
       ''lang_code'' \<mapsto> AMem (lit ''ru'' @ [0]), ''query'' \<mapsto> ABuf query];
     tl_method False d_invokeWithLayer [''layer'' \<mapsto> AInt API_LAYER, ''query'' \<mapsto> ABuf b]
   }"

text \<open>The first call of a connection asks for the configuration, which the object keeps.\<close>

definition connect_config :: "package \<Rightarrow> 's call \<Rightarrow> account \<Rightarrow> 's \<Rightarrow> (bool \<times> account \<times> 's) option" where
  "connect_config P call a s = do {
     getConfig \<leftarrow> tl_method False d_getConfig Map.empty;
     init \<leftarrow> initConnection P a getConfig;
     (t, s) \<leftarrow> call init s;
     Some (case t of
         None \<Rightarrow> (False, a, s)
       | Some x \<Rightarrow> if tl_id x \<noteq> id_config then (False, a, s) else (True, a\<lparr>a_config := Some x\<rparr>, s))
   }"

definition tg_is_authorized :: "env \<Rightarrow> package \<Rightarrow> 's call \<Rightarrow> account \<Rightarrow> 's \<Rightarrow> (tl_obj option \<times> account \<times> 's) option" where
  "tg_is_authorized E P call a s =
     (if bsize (a_key a) = 0 then Some (None, a, s)
      else do {
        (got, a, s) \<leftarrow> connect_config P call a s;
        (if \<not> got then Some (None, a, s)
         else do {
           iuser \<leftarrow> tl_method False d_inputUserSelf Map.empty;
           getUsers \<leftarrow> tl_method False d_getUsers [''id'' \<mapsto> AVec [ABuf iuser]];
           (t, s) \<leftarrow> call getUsers s;
           (case t of
              None \<Rightarrow> Some (None, a, s)
            | Some x \<Rightarrow>
                if tl_id x \<noteq> id_vector then Some (None, a, s)
                else do {
                  d \<leftarrow> own_buf (fld_bytes x ''data'');
                  user \<leftarrow> deserialize E d;
                  Some (case user of None \<Rightarrow> None | Some y \<Rightarrow> if tl_id y = id_user then Some y else None, a, s)
                })
         })
      })"

section \<open>Asking for a code\<close>

text \<open>The pieces of strtok, of which none is empty.\<close>

function flash_tokens :: "byte list \<Rightarrow> byte list list" where
  "flash_tokens t = (let t = dropWhile (\<lambda>c. c = 59) t in
     if t = [] then [] else takeWhile (\<lambda>c. c \<noteq> 59) t # flash_tokens (dropWhile (\<lambda>c. c \<noteq> 59) t))"
  by pat_completeness auto
termination
proof (relation "measure length")
  fix t u :: "byte list"
  assume u: "u = dropWhile (\<lambda>c. c = 59) t" "u \<noteq> []"
  then have "hd u \<noteq> 59"
    using hd_dropWhile [of "\<lambda>c. c = 59" t] by simp
  then have "length (dropWhile (\<lambda>c. c \<noteq> 59) u) < length u"
    using u(2) length_dropWhile_le [of "\<lambda>c. c \<noteq> 59" "tl u"] by (cases u) auto
  then show "(dropWhile (\<lambda>c. c \<noteq> 59) u, t) \<in> measure length"
    using u(1) length_dropWhile_le [of "\<lambda>c. c = 59" t] by simp
qed simp

declare flash_tokens.simps [simp del]

definition code_settings :: "byte list option \<Rightarrow> buf_t option" where
  "code_settings auth_tokens = do {
     t \<leftarrow> (case auth_tokens of
       None \<Rightarrow> Some None
     | Some ts \<Rightarrow> if 20 < length (flash_tokens ts) then None else map_option Some (those (map own_buf (flash_tokens ts))));
     tl_method False d_codeSettings ([''allow_flashcall'' \<mapsto> ABool False, ''current_number'' \<mapsto> ABool False,
       ''allow_app_hash'' \<mapsto> ABool False, ''allow_missed_call'' \<mapsto> ABool False, ''allow_firebase'' \<mapsto> ABool False,
       ''unknown_number'' \<mapsto> ABool False] (''logout_tokens'' := map_option (\<lambda>bs. AVec (map ABuf bs)) t))
   }"

text \<open>What follows the first occurrence of a text (strstr), and the number at its start (atoi).\<close>

fun after :: "byte list \<Rightarrow> byte list \<Rightarrow> byte list option" where
  "after p [] = (if p = [] then Some [] else None)"
| "after p (c # t) = (if take (length p) (c # t) = p then Some (drop (length p) (c # t)) else after p t)"

definition is_digit :: "byte \<Rightarrow> bool" where
  "is_digit c \<longleftrightarrow> 48 \<le> c \<and> c \<le> 57"

definition digits_value :: "byte list \<Rightarrow> int" where
  "digits_value t = foldl (\<lambda>n d. 10 * n + (uint d - 48)) 0 (takeWhile is_digit t)"

definition atoi :: "byte list \<Rightarrow> int option" where
  "atoi t = (let t = dropWhile (\<lambda>c. c = 32 \<or> 9 \<le> c \<and> c \<le> 13) t;
       v = (if t = [] then 0 else if hd t = 45 then - digits_value (tl t) else if hd t = 43 then digits_value (tl t) else digits_value t) in
     if - (2 ^ 31) \<le> v \<and> v < 2 ^ 31 then Some v else None)"

text \<open>The data center that an error names, and its address.\<close>

definition migrate_to :: "account \<Rightarrow> tl_obj \<Rightarrow> byte list option option option" where
  "migrate_to a x = (case after (lit ''PHONE_MIGRATE_'') (c_string (fld_bytes x ''error_message'')) of
     None \<Rightarrow> Some None
   | Some rest \<Rightarrow> do {
       dc \<leftarrow> atoi rest;
       ip \<leftarrow> tg_ip_address_for_dc a (word_of_int dc);
       Some (Some ip)
     })"

definition sendCode_query :: "account \<Rightarrow> byte list \<Rightarrow> buf_t \<Rightarrow> buf_t option" where
  "sendCode_query a phone settings = tl_method False d_sendCode [''phone_number'' \<mapsto> AMem phone, ''api_id'' \<mapsto> AInt (a_apiId a),
     ''api_hash'' \<mapsto> AMem (if length (a_apiHash a) < 33 then a_apiHash a @ [0] else a_apiHash a), ''settings'' \<mapsto> ABuf settings]"

text \<open>The call repeats itself at the other data center as long as it is sent on.\<close>

partial_function (option) tg_auth_sendCode :: "package \<Rightarrow> 'd sqlite \<Rightarrow> 's call \<Rightarrow> (account \<Rightarrow> 's \<Rightarrow> 's) \<Rightarrow> byte list \<Rightarrow> 'd tg_db \<Rightarrow> account \<Rightarrow>
    's \<Rightarrow> (tl_obj option \<times> account \<times> 's) option" where
  "tg_auth_sendCode P q call reset phone d a s = do {
     (got, a, s) \<leftarrow> connect_config P call a s;
     (if \<not> got then Some (None, a, s)
      else do {
        auth_tokens \<leftarrow> auth_tokens_from_database q d;
        codeSettings \<leftarrow> code_settings auth_tokens;
        sendCode \<leftarrow> sendCode_query a phone codeSettings;
        (t, s) \<leftarrow> call sendCode s;
        (case t of
           None \<Rightarrow> Some (None, a, s)
         | Some x \<Rightarrow>
             if tl_id x = id_rpc_error then do {
               m \<leftarrow> migrate_to a x;
               (case m of
                  None \<Rightarrow> Some (None, a, s)
                | Some None \<Rightarrow> Some (None, a, s)
                | Some (Some ip) \<Rightarrow> (let a = (tg_set_server_address ip 443 a)\<lparr>a_key := (a_key a)\<lparr>bsize := 0\<rparr>\<rparr> in
                    tg_auth_sendCode P q call reset phone d a (reset a s)))
             }
             else Some (if tl_id x = id_auth_sentCode then Some x else None, a, s))
      })
   }"

section \<open>Signing in\<close>

text \<open>The token is copied into an array of BUFSIZ characters that nothing was written to, with its
  size as the limit: without a null character in it there is no end, and the text for the database
  runs on into what the array held.\<close>

definition token_text :: "byte list \<Rightarrow> byte list option" where
  "token_text t = (if 8192 < length t \<or> 0 \<notin> set t then None else Some (c_string t))"

definition tg_auth_signIn :: "'d sqlite \<Rightarrow> 's call \<Rightarrow> tl_obj \<Rightarrow> byte list \<Rightarrow> byte list \<Rightarrow> account \<Rightarrow> 's \<Rightarrow> 'd tg_db \<Rightarrow>
    (tl_obj option \<times> 's \<times> 'd tg_db) option" where
  "tg_auth_signIn q call sentCode phone_number phone_code a s d = do {
     signIn \<leftarrow> tl_method False d_signIn [''phone_number'' \<mapsto> AMem phone_number,
       ''phone_code_hash'' \<mapsto> AMem (fld_bytes sentCode ''phone_code_hash'' @ [0]), ''phone_code'' \<mapsto> AMem phone_code];
     (t, s) \<leftarrow> call signIn s;
     (case t of
        None \<Rightarrow> Some (None, s, d)
      | Some x \<Rightarrow>
          if tl_id x \<noteq> id_auth_authorization then Some (None, s, d)
          else if fld_bool x ''setup_password_required'' then Some (None, s, d)
          else do {
            d \<leftarrow> (if fld_bytes x ''future_auth_token'' = [] then Some d
              else do {
                token \<leftarrow> token_text (fld_bytes x ''future_auth_token'');
                (ret, d) \<leftarrow> auth_token_to_database q token d;
                Some d
              });
            (ret, d) \<leftarrow> auth_key_to_database q (a_key a) d;
            (ret, d) \<leftarrow> ip_address_to_database q (a_ip a) d;
            Some (fld_obj x ''user'', s, d)
          })
   }"

end
