(* ===== verification/AccountProps.thy ===== *)
theory AccountProps
  imports Account MessagesProps RowsProps
begin

text \<open>
  Asking for a code: the requests as the data centers see them, and where the call ends when one data
  center sends the client on to another.
\<close>

section \<open>The requests\<close>

lemma method_views:
  assumes "list_all2 (carries False env) (m_args m) vs" and "wf_args 0 (m_args m)"
    and "enc_val (VObj m vs) = xs" and "length xs \<le> 8192"
  shows "ok (tl_method False m env) (\<lambda>b. views b xs)"
  using assms(3,4) by (intro ok_mono [OF tl_method_written [OF assms(1,2)]]) (auto simp: small_def owns_def)

lemma string_at_end: "0 \<notin> set t \<Longrightarrow> string_at (t @ [0]) t"
  by (simp add: string_at_def)

lemma connect_args:
  "m_id d_getConfig = 0xc4f9186b" "m_args d_getConfig = []"
  "m_id d_invokeWithLayer = 0xda9b0d0d" "m_args d_invokeWithLayer = [mand_arg ''layer'' ''int'', mand_arg ''query'' ''!X'']"
  "m_id d_initConnection = 0xc1cd5ea9"
  "m_args d_initConnection = [flags_word, mand_arg ''api_id'' ''int'', mand_arg ''device_model'' ''string'',
    mand_arg ''system_version'' ''string'', mand_arg ''app_version'' ''string'', mand_arg ''system_lang_code'' ''string'',
    mand_arg ''lang_pack'' ''string'', mand_arg ''lang_code'' ''string'', flag_arg ''proxy'' ''InputClientProxy'' 0,
    flag_arg ''params'' ''JSONValue'' 1, mand_arg ''query'' ''!X'']"
  by code_simp+

lemma code_args:
  "m_id d_codeSettings = 0xad253d78"
  "m_args d_codeSettings = [flags_word, flag_arg ''allow_flashcall'' ''true'' 0, flag_arg ''current_number'' ''true'' 1,
    flag_arg ''allow_app_hash'' ''true'' 4, flag_arg ''allow_missed_call'' ''true'' 5, flag_arg ''allow_firebase'' ''true'' 7,
    flag_arg ''unknown_number'' ''true'' 9, flag_arg ''logout_tokens'' ''Vector<bytes>'' 6, flag_arg ''token'' ''string'' 8,
    flag_arg ''app_sandbox'' ''Bool'' 8]"
  "m_id d_sendCode = 0xa677244f"
  "m_args d_sendCode = [mand_arg ''phone_number'' ''string'', mand_arg ''api_id'' ''int'', mand_arg ''api_hash'' ''string'',
    mand_arg ''settings'' ''CodeSettings'']"
  by code_simp+

definition init_image :: "package \<Rightarrow> u32 \<Rightarrow> byte list" where
  "init_image P apiId = le_bytes 4 (0xc1cd5ea9 :: u32) @ le_bytes 4 (0 :: u32) @ le_bytes 4 apiId @ tl_string (pkg_name P) @
     tl_string (pkg_version P) @ tl_string (pkg_version P) @ tl_string (lit ''ru'') @ tl_string (lit ''LibTg'') @ tl_string (lit ''ru'') @
     le_bytes 4 (0xc4f9186b :: u32)"

definition connect_image :: "package \<Rightarrow> u32 \<Rightarrow> byte list" where
  "connect_image P apiId = le_bytes 4 (0xda9b0d0d :: u32) @ le_bytes 4 API_LAYER @ init_image P apiId"

definition sendCode_image :: "u32 \<Rightarrow> byte list \<Rightarrow> byte list \<Rightarrow> byte list" where
  "sendCode_image apiId apiHash phone = le_bytes 4 (0xa677244f :: u32) @ tl_string phone @ le_bytes 4 apiId @ tl_string apiHash @
     le_bytes 4 (0xad253d78 :: u32) @ le_bytes 4 (0 :: u32)"

definition short_text :: "byte list \<Rightarrow> bool" where
  "short_text t \<longleftrightarrow> 0 \<notin> set t \<and> length t \<le> 255"

lemma short_tl_string: "short_text t \<Longrightarrow> length (tl_string t) \<le> 262"
  using length_tl_string_le [of t] by (simp add: short_text_def)

lemma short_lit: "short_text (lit ''ru'')" "short_text (lit ''LibTg'')"
  by (simp_all add: short_text_def lit_def)

lemmas arg_simps = mand_arg_def flag_arg_def flags_word_def is_flags_def
lemmas pass_simps = carries_def ser_kind_def vector_of_def op_passes_def passes_defs as_defs

lemma getConfig_ok: "ok (tl_method False d_getConfig Map.empty) (\<lambda>b. views b (le_bytes 4 (0xc4f9186b :: u32)))"
  by (rule method_views [of _ _ "[]"]) (simp_all add: connect_args)

lemma initConnection_ok:
  assumes P: "short_text (pkg_name P)" "short_text (pkg_version P)" and g: "views g (le_bytes 4 (0xc4f9186b :: u32))"
  shows "ok (initConnection P a g) (\<lambda>b. views b (connect_image P (a_apiId a)))"
  unfolding initConnection_def
proof (rule ok_bind)
  let ?vs = "[VNone, VInt (a_apiId a), VStr (pkg_name P), VStr (pkg_version P), VStr (pkg_version P), VStr (lit ''ru''),
     VStr (lit ''LibTg''), VStr (lit ''ru''), VNone, VNone, VFix (le_bytes 4 (0xc4f9186b :: u32))]"
  have len: "length (init_image P (a_apiId a)) \<le> 1700"
    using P [THEN short_tl_string] short_lit [THEN short_tl_string] by (simp add: init_image_def)
  have at: "string_at (t @ [0]) t" if "short_text t" for t
    using that by (simp add: string_at_end short_text_def)
  show "ok (tl_method False d_initConnection [''api_id'' \<mapsto> AInt (a_apiId a), ''device_model'' \<mapsto> AMem (pkg_name P @ [0]),
       ''system_version'' \<mapsto> AMem (pkg_version P @ [0]), ''app_version'' \<mapsto> AMem (pkg_version P @ [0]),
       ''system_lang_code'' \<mapsto> AMem (lit ''ru'' @ [0]), ''lang_pack'' \<mapsto> AMem (lit ''LibTg'' @ [0]),
       ''lang_code'' \<mapsto> AMem (lit ''ru'' @ [0]), ''query'' \<mapsto> ABuf g]) (\<lambda>b. views b (init_image P (a_apiId a)))"
  proof (rule method_views [of _ _ ?vs])
    show "enc_val (VObj d_initConnection ?vs) = init_image P (a_apiId a)"
      by (simp add: connect_args init_image_def arg_simps)
  qed (use len g at P short_lit in \<open>simp_all add: connect_args arg_simps pass_simps\<close>)
  fix b
  assume b: "views b (init_image P (a_apiId a))"
  show "ok (tl_method False d_invokeWithLayer [''layer'' \<mapsto> AInt API_LAYER, ''query'' \<mapsto> ABuf b])
    (\<lambda>b. views b (connect_image P (a_apiId a)))"
  proof (rule method_views [of _ _ "[VInt API_LAYER, VFix (init_image P (a_apiId a))]"])
    show "enc_val (VObj d_invokeWithLayer [VInt API_LAYER, VFix (init_image P (a_apiId a))]) = connect_image P (a_apiId a)"
      by (simp add: connect_args connect_image_def arg_simps)
  qed (use len b in \<open>simp_all add: connect_args connect_image_def arg_simps pass_simps\<close>)
qed

lemma code_settings_ok:
  "ok (code_settings None) (\<lambda>b. views b (le_bytes 4 (0xad253d78 :: u32) @ le_bytes 4 (0 :: u32)))"
proof -
  let ?env = "[''allow_flashcall'' \<mapsto> ABool False, ''current_number'' \<mapsto> ABool False, ''allow_app_hash'' \<mapsto> ABool False,
     ''allow_missed_call'' \<mapsto> ABool False, ''allow_firebase'' \<mapsto> ABool False, ''unknown_number'' \<mapsto> ABool False]
     (''logout_tokens'' := None)"
  have "code_settings None = tl_method False d_codeSettings ?env"
    by (simp add: code_settings_def)
  moreover have "ok (tl_method False d_codeSettings ?env) (\<lambda>b. views b (le_bytes 4 (0xad253d78 :: u32) @ le_bytes 4 (0 :: u32)))"
  proof (rule method_views [of _ _ "replicate 10 VNone"])
    show "enc_val (VObj d_codeSettings (replicate 10 VNone)) = le_bytes 4 (0xad253d78 :: u32) @ le_bytes 4 (0 :: u32)"
      by (simp add: code_args arg_simps numeral_eq_Suc)
  qed (simp_all add: code_args arg_simps pass_simps numeral_eq_Suc)
  ultimately show ?thesis
    by simp
qed

lemma sendCode_ok:
  assumes "string_at p phone" "short_text phone" and h: "0 \<notin> set (a_apiHash a)" "length (a_apiHash a) < 33"
    and b: "views b (le_bytes 4 (0xad253d78 :: u32) @ le_bytes 4 (0 :: u32))"
  shows "ok (sendCode_query a p b) (\<lambda>b. views b (sendCode_image (a_apiId a) (a_apiHash a) phone))"
  unfolding sendCode_query_def
proof -
  let ?vs = "[VStr phone, VInt (a_apiId a), VStr (a_apiHash a), VFix (le_bytes 4 (0xad253d78 :: u32) @ le_bytes 4 (0 :: u32))]"
  have len: "length (tl_string phone) \<le> 262" "length (tl_string (a_apiHash a)) \<le> 262"
    using short_tl_string [of phone] short_tl_string [of "a_apiHash a"] assms(2) h by (simp_all add: short_text_def)
  show "ok (tl_method False d_sendCode [''phone_number'' \<mapsto> AMem p, ''api_id'' \<mapsto> AInt (a_apiId a),
     ''api_hash'' \<mapsto> AMem (if length (a_apiHash a) < 33 then a_apiHash a @ [0] else a_apiHash a), ''settings'' \<mapsto> ABuf b])
    (\<lambda>b. views b (sendCode_image (a_apiId a) (a_apiHash a) phone))"
  proof (rule method_views [of _ _ ?vs])
    show "enc_val (VObj d_sendCode ?vs) = sendCode_image (a_apiId a) (a_apiHash a) phone"
      by (simp add: code_args sendCode_image_def arg_simps)
  qed (use len assms in \<open>simp_all add: code_args sendCode_image_def arg_simps pass_simps string_at_end\<close>)
qed

section \<open>The data center of an error\<close>

lemma after_append: "after p (p @ t) = Some t"
  by (cases "p @ t") (auto simp: append_eq_Cons_conv)

lemma is_digit_dec: "\<forall>c \<in> set (dec_digits n). is_digit c"
proof (induction n rule: dec_digits.induct)
  case (1 n)
  have "is_digit (48 + of_nat k)" if "k < 10" for k
    using digit_word [OF that] that by (simp add: is_digit_def word_le_nat_alt)
  then show ?case
    using 1 by (auto simp: dec_digits.simps [of n])
qed

lemma digits_value_dec: "digits_value (dec_digits n) = int n"
proof -
  have u: "uint (48 + of_nat k :: byte) = 48 + int k" if "k < 10" for k
    using arg_cong [OF digit_word [OF that], of int] by simp
  have "foldl (\<lambda>n d. 10 * n + (uint d - 48)) 0 (dec_digits n) = int n"
    by (induction n rule: dec_digits.induct) (simp add: dec_digits.simps u zdiv_int zmod_int)
  then show ?thesis
    using is_digit_dec [of n] by (simp add: digits_value_def takeWhile_eq_all_conv [THEN iffD2])
qed

lemma atoi_dec:
  assumes "0 \<le> i" "i < 2 ^ 31"
  shows "atoi (dec i) = Some i"
proof -
  obtain d ds where d: "dec_digits (nat i) = d # ds"
    using dec_digits_head [of "nat i"] by auto
  then have "is_digit d"
    using is_digit_dec [of "nat i"] by simp
  then have "48 \<le> unat d" "unat d \<le> 57"
    by (simp_all add: is_digit_def word_le_nat_alt)
  then have "d \<noteq> 32" "\<not> d \<le> 13" "d \<noteq> 45" "d \<noteq> 43"
    by (auto simp: word_le_nat_alt)
  then show ?thesis
    using assms digits_value_dec [of "nat i"] by (simp add: atoi_def dec_def d)
qed

section \<open>Moves\<close>

text \<open>The data center with a number, as the configuration has it: the first of its options with the
  number; \<^theory_text>\<open>moves\<close> says that the data center at one address sends the client on to
  another, whose address is cut to the 15 characters that the client keeps.\<close>

definition dc_at :: "tl_obj \<Rightarrow> int \<Rightarrow> byte list \<Rightarrow> bool" where
  "dc_at cfg n ip \<longleftrightarrow> fld cfg ''dc_options_len'' = None \<and>
     (\<exists>pre x post. fld_vec cfg ''dc_options'' = map (FObj \<circ> Some) pre @ FObj (Some x) # post \<and>
       (\<forall>y \<in> set pre. tl_id y = id_dcOption \<and> fld_int y ''id'' \<noteq> word_of_int n) \<and>
       tl_id x = id_dcOption \<and> fld_int x ''id'' = word_of_int n \<and> c_string (fld_bytes x ''ip_address'') = ip)"

definition moves :: "tl_obj \<Rightarrow> (byte list \<Rightarrow> tl_obj) \<Rightarrow> byte list \<Rightarrow> byte list \<Rightarrow> bool" where
  "moves cfg dc ip ip' \<longleftrightarrow> tl_id (dc ip) = id_rpc_error \<and>
     (\<exists>n full. 0 \<le> n \<and> n < 2 ^ 31 \<and> c_string (fld_bytes (dc ip) ''error_message'') = lit ''PHONE_MIGRATE_'' @ dec n \<and>
       dc_at cfg n full \<and> ip' = take 15 full)"

lemma find_dc_first:
  "\<forall>y \<in> set pre. tl_id y = id_dcOption \<and> fld_int y ''id'' \<noteq> dc \<Longrightarrow> tl_id x = id_dcOption \<Longrightarrow> fld_int x ''id'' = dc \<Longrightarrow>
    find_dc (map (FObj \<circ> Some) pre @ FObj (Some x) # post) dc = Some (Some (c_string (fld_bytes x ''ip_address'')))"
  by (induction pre) auto

lemma migrate_moves:
  assumes "moves cfg dc ip ip'" and "a_config a = Some cfg"
  shows "\<exists>full. migrate_to a (dc ip) = Some (Some (Some full)) \<and> copy_ip full = ip'"
proof -
  obtain n full where n: "0 \<le> n" "n < 2 ^ 31" "c_string (fld_bytes (dc ip) ''error_message'') = lit ''PHONE_MIGRATE_'' @ dec n"
    "dc_at cfg n full" "ip' = take 15 full"
    using assms(1) by (auto simp: moves_def)
  have "tg_ip_address_for_dc a (word_of_int n) = Some (Some full)"
    using n(4) assms(2) by (auto simp: dc_at_def tg_ip_address_for_dc_def fld_int_def find_dc_first)
  then show ?thesis
    using n(1-3,5) by (simp add: migrate_to_def after_append atoi_dec copy_ip_def)
qed

section \<open>The call\<close>

text \<open>The network: the state that the calls work on has an address, which they keep and a reset takes
  from the client; every data center answers the first request with the configuration, and the
  request for a code each in its way.\<close>

definition dcs :: "package \<Rightarrow> 's call \<Rightarrow> (account \<Rightarrow> 's \<Rightarrow> 's) \<Rightarrow> ('s \<Rightarrow> byte list) \<Rightarrow> u32 \<Rightarrow> byte list \<Rightarrow> byte list \<Rightarrow> tl_obj \<Rightarrow> (byte list \<Rightarrow> tl_obj) \<Rightarrow> bool" where
  "dcs P call reset at apiId apiHash phone cfg dc \<longleftrightarrow> tl_id cfg = id_config \<and> (\<forall>a s. at (reset a s) = a_ip a) \<and>
     (\<forall>b s. views b (connect_image P apiId) \<longrightarrow> (\<exists>s'. call b s = Some (Some cfg, s') \<and> at s' = at s)) \<and>
     (\<forall>b s. views b (sendCode_image apiId apiHash phone) \<longrightarrow> (\<exists>s'. call b s = Some (Some (dc (at s)), s') \<and> at s' = at s))"

definition client :: "package \<Rightarrow> byte list \<Rightarrow> byte list \<Rightarrow> account \<Rightarrow> bool" where
  "client P p phone a \<longleftrightarrow> short_text (pkg_name P) \<and> short_text (pkg_version P) \<and> string_at p phone \<and> short_text phone \<and>
     0 \<notin> set (a_apiHash a) \<and> length (a_apiHash a) < 33"

definition moved :: "byte list \<Rightarrow> account \<Rightarrow> account" where
  "moved ip a = (tg_set_server_address ip 443 a)\<lparr>a_key := (a_key a)\<lparr>bsize := 0\<rparr>\<rparr>"

lemma connect_config_ok:
  assumes "dcs P call reset at (a_apiId a) h phone cfg dc" and "client P p phone a"
  shows "\<exists>s'. connect_config P call a s = Some (True, a\<lparr>a_config := Some cfg\<rparr>, s') \<and> at s' = at s"
proof -
  obtain g where g: "tl_method False d_getConfig Map.empty = Some g" "views g (le_bytes 4 (0xc4f9186b :: u32))"
    using getConfig_ok by (auto simp: ok_iff)
  obtain b where b: "initConnection P a g = Some b" "views b (connect_image P (a_apiId a))"
    using initConnection_ok [OF _ _ g(2)] assms(2) by (auto simp: ok_iff client_def)
  obtain s' where "call b s = Some (Some cfg, s')" "at s' = at s"
    using assms(1) b(2) unfolding dcs_def by blast
  then show ?thesis
    using g(1) b(1) assms(1) by (simp add: connect_config_def dcs_def)
qed

text \<open>One round of the call, whatever follows it.\<close>

lemma sendCode_round:
  assumes "dcs P call reset at (a_apiId a) (a_apiHash a) phone cfg dc" and "client P p phone a" and "at s = a_ip a"
  shows "\<exists>s1 cs b s2. connect_config P call a s = Some (True, a\<lparr>a_config := Some cfg\<rparr>, s1) \<and> code_settings None = Some cs \<and>
    sendCode_query (a\<lparr>a_config := Some cfg\<rparr>) p cs = Some b \<and> call b s1 = Some (Some (dc (a_ip a)), s2) \<and> at s2 = a_ip a"
proof -
  obtain s1 where s1: "connect_config P call a s = Some (True, a\<lparr>a_config := Some cfg\<rparr>, s1)" "at s1 = a_ip a"
    using connect_config_ok [OF assms(1,2)] assms(3) by metis
  obtain cs where cs: "code_settings None = Some cs" "views cs (le_bytes 4 (0xad253d78 :: u32) @ le_bytes 4 (0 :: u32))"
    using code_settings_ok by (auto simp: ok_iff)
  obtain b where b: "sendCode_query (a\<lparr>a_config := Some cfg\<rparr>) p cs = Some b" "views b (sendCode_image (a_apiId a) (a_apiHash a) phone)"
    using sendCode_ok [of p phone "a\<lparr>a_config := Some cfg\<rparr>" cs] assms(2) cs(2) by (auto simp: ok_iff client_def)
  obtain s2 where "call b s1 = Some (Some (dc (at s1)), s2)" "at s2 = at s1"
    using assms(1) b(2) unfolding dcs_def by blast
  then show ?thesis
    using s1 cs(1) b(1) by auto
qed

lemma sendCode_moves:
  assumes "dcs P call reset at (a_apiId a) (a_apiHash a) phone cfg dc" and "client P p phone a" and "at s = a_ip a"
    and "auth_tokens_from_database q d = Some None" and "moves cfg dc (a_ip a) ip"
  shows "\<exists>a' s'. a_apiId a' = a_apiId a \<and> a_apiHash a' = a_apiHash a \<and> a_ip a' = ip \<and> at s' = ip \<and>
    tg_auth_sendCode P q call reset p d a s = tg_auth_sendCode P q call reset p d a' s'"
proof -
  obtain s1 cs b s2 where r: "connect_config P call a s = Some (True, a\<lparr>a_config := Some cfg\<rparr>, s1)" "code_settings None = Some cs"
    "sendCode_query (a\<lparr>a_config := Some cfg\<rparr>) p cs = Some b" "call b s1 = Some (Some (dc (a_ip a)), s2)"
    using sendCode_round [OF assms(1-3)] by blast
  obtain full where m: "migrate_to (a\<lparr>a_config := Some cfg\<rparr>) (dc (a_ip a)) = Some (Some (Some full))" "copy_ip full = ip"
    using migrate_moves [OF assms(5), of "a\<lparr>a_config := Some cfg\<rparr>"] by auto
  let ?a = "moved full (a\<lparr>a_config := Some cfg\<rparr>)"
  have "tg_auth_sendCode P q call reset p d a s = tg_auth_sendCode P q call reset p d ?a (reset ?a s2)"
    using r m(1) assms(4,5) by (subst tg_auth_sendCode.simps) (simp add: moves_def moved_def Let_def)
  moreover have "a_apiId ?a = a_apiId a" "a_apiHash ?a = a_apiHash a" "a_ip ?a = ip" "at (reset ?a s2) = ip"
    using assms(1) m(2) by (simp_all add: moved_def tg_set_server_address_def dcs_def)
  ultimately show ?thesis
    by blast
qed

lemma sendCode_reaches:
  assumes "rtranclp (moves cfg dc) ip0 ip" and "auth_tokens_from_database q d = Some None"
  shows "dcs P call reset at (a_apiId a) (a_apiHash a) phone cfg dc \<Longrightarrow> client P p phone a \<Longrightarrow> a_ip a = ip0 \<Longrightarrow> at s = ip0 \<Longrightarrow>
    \<exists>a' s'. a_apiId a' = a_apiId a \<and> a_apiHash a' = a_apiHash a \<and> a_ip a' = ip \<and> at s' = ip \<and>
      tg_auth_sendCode P q call reset p d a s = tg_auth_sendCode P q call reset p d a' s'"
  using assms(1)
proof (induction arbitrary: a s rule: converse_rtranclp_induct)
  case base
  then show ?case by blast
next
  case (step ip1 ip2)
  obtain a1 s1 where a1: "a_apiId a1 = a_apiId a" "a_apiHash a1 = a_apiHash a" "a_ip a1 = ip2" "at s1 = ip2"
    "tg_auth_sendCode P q call reset p d a s = tg_auth_sendCode P q call reset p d a1 s1"
    using sendCode_moves [OF step.prems(1,2) _ assms(2), of s ip2] step by auto
  then show ?case
    using step.IH [of a1 s1] step.prems(1,2) by (simp add: client_def)
qed

lemma sendCode_ends:
  assumes "dcs P call reset at (a_apiId a) (a_apiHash a) phone cfg dc" and "client P p phone a" and "at s = a_ip a"
    and "auth_tokens_from_database q d = Some None" and "tl_id (dc (a_ip a)) = id_auth_sentCode"
  shows "\<exists>a' s'. tg_auth_sendCode P q call reset p d a s = Some (Some (dc (a_ip a)), a', s') \<and> a_ip a' = a_ip a \<and> at s' = a_ip a"
proof -
  obtain s1 cs b s2 where r: "connect_config P call a s = Some (True, a\<lparr>a_config := Some cfg\<rparr>, s1)" "code_settings None = Some cs"
    "sendCode_query (a\<lparr>a_config := Some cfg\<rparr>) p cs = Some b" "call b s1 = Some (Some (dc (a_ip a)), s2)" "at s2 = a_ip a"
    using sendCode_round [OF assms(1-3)] by blast
  then show ?thesis
    using assms(4,5) by (subst tg_auth_sendCode.simps) (simp add: id_rpc_error_def id_auth_sentCode_def)
qed

lemma sendCode_forever:
  assumes "tg_auth_sendCode P q call reset p d a s = Some y"
    and "dcs P call reset at (a_apiId a) (a_apiHash a) phone cfg dc" and "client P p phone a" and "at s = a_ip a"
    and "auth_tokens_from_database q d = Some None"
  shows "\<exists>ip. rtranclp (moves cfg dc) (a_ip a) ip \<and> (\<forall>ip'. \<not> moves cfg dc ip ip')"
proof -
  let ?Q = "\<lambda>(((((((P, q), call), reset), p), d), a), s) y. dcs P call reset at (a_apiId a) (a_apiHash a) phone cfg dc \<and> client P p phone a \<and> at s = a_ip a \<and>
    auth_tokens_from_database q d = Some None \<longrightarrow> (\<exists>ip. rtranclp (moves cfg dc) (a_ip a) ip \<and> (\<forall>ip'. \<not> moves cfg dc ip ip'))"
  have "?Q (((((((P, q), call), reset), p), d), a), s) y"
  proof (rule tg_auth_sendCode.raw_induct [of ?Q, OF _ assms(1)])
    fix f P q call reset p d a s y
    assume IH: "\<And>P q call reset p d a s y. f P q call reset p d a s = Some y \<Longrightarrow> ?Q (((((((P, q), call), reset), p), d), a), s) y"
      and run: "do {
        (got, a, s) \<leftarrow> connect_config P call a s;
        (if \<not> got then Some (None, a, s)
         else do {
           auth_tokens \<leftarrow> auth_tokens_from_database q d;
           codeSettings \<leftarrow> code_settings auth_tokens;
           sendCode \<leftarrow> sendCode_query a p codeSettings;
           (t, s) \<leftarrow> call sendCode s;
           (case t of
              None \<Rightarrow> Some (None, a, s)
            | Some x \<Rightarrow>
                if tl_id x = id_rpc_error then do {
                  m \<leftarrow> migrate_to a x;
                  (case m of
                     None \<Rightarrow> Some (None, a, s)
                   | Some None \<Rightarrow> Some (None, a, s)
                   | Some (Some ip) \<Rightarrow> (let a = (tg_set_server_address ip 443 a)\<lparr>a_key := (a_key a)\<lparr>bsize := 0\<rparr>\<rparr> in
                       f P q call reset p d a (reset a s)))
                }
                else Some (if tl_id x = id_auth_sentCode then Some x else None, a, s))
         })
      } = Some y"
    show "?Q (((((((P, q), call), reset), p), d), a), s) y"
      unfolding prod.case
    proof (intro impI, cases "\<exists>ip. moves cfg dc (a_ip a) ip")
      case True
      assume given: "dcs P call reset at (a_apiId a) (a_apiHash a) phone cfg dc \<and> client P p phone a \<and> at s = a_ip a \<and>
        auth_tokens_from_database q d = Some None"
      from True obtain ip where ip: "moves cfg dc (a_ip a) ip" ..
      obtain s1 cs b s2 where r: "connect_config P call a s = Some (True, a\<lparr>a_config := Some cfg\<rparr>, s1)" "code_settings None = Some cs"
        "sendCode_query (a\<lparr>a_config := Some cfg\<rparr>) p cs = Some b" "call b s1 = Some (Some (dc (a_ip a)), s2)"
        using sendCode_round [of P call reset at a phone cfg dc p s] given by blast
      obtain full where m: "migrate_to (a\<lparr>a_config := Some cfg\<rparr>) (dc (a_ip a)) = Some (Some (Some full))" "copy_ip full = ip"
        using migrate_moves [OF ip, of "a\<lparr>a_config := Some cfg\<rparr>"] by auto
      let ?a = "moved full (a\<lparr>a_config := Some cfg\<rparr>)"
      have a: "a_apiId ?a = a_apiId a" "a_apiHash ?a = a_apiHash a" "a_ip ?a = ip" "at (reset ?a s2) = ip"
        using given m(2) by (simp_all add: moved_def tg_set_server_address_def dcs_def)
      have "f P q call reset p d ?a (reset ?a s2) = Some y"
        using run given r m(1) ip by (simp add: moves_def moved_def Let_def)
      from IH [OF this] have "\<exists>ip1. rtranclp (moves cfg dc) ip ip1 \<and> (\<forall>ip'. \<not> moves cfg dc ip1 ip')"
        using given a by (simp add: client_def)
      then show "\<exists>ip. rtranclp (moves cfg dc) (a_ip a) ip \<and> (\<forall>ip'. \<not> moves cfg dc ip ip')"
        using ip by (meson converse_rtranclp_into_rtranclp)
    qed blast
  qed
  then show ?thesis
    using assms(2-5) by simp
qed

text \<open>C35. Asking for a code follows the data centers: when each data center on the way says that the
  number belongs to another, whose address the configuration has, the call goes from one to the next and
  returns the answer of the one that sends the code, with the client at its address.  If the data
  centers send the client on for ever, the call does not return.\<close>

theorem code_follows_moves:
  assumes "dcs P call reset at (a_apiId a) (a_apiHash a) phone cfg dc" and "client P p phone a" and "at s = a_ip a"
    and "auth_tokens_from_database q d = Some None"
  shows "(\<forall>ip. rtranclp (moves cfg dc) (a_ip a) ip \<and> tl_id (dc ip) = id_auth_sentCode \<longrightarrow>
      (\<exists>a' s'. tg_auth_sendCode P q call reset p d a s = Some (Some (dc ip), a', s') \<and> a_ip a' = ip \<and> at s' = ip)) \<and>
    ((\<forall>ip. rtranclp (moves cfg dc) (a_ip a) ip \<longrightarrow> (\<exists>ip'. moves cfg dc ip ip')) \<longrightarrow>
      tg_auth_sendCode P q call reset p d a s = None)"
proof (intro conjI allI impI, elim conjE)
  fix ip
  assume ip: "rtranclp (moves cfg dc) (a_ip a) ip" "tl_id (dc ip) = id_auth_sentCode"
  obtain a1 s1 where "a_apiId a1 = a_apiId a" "a_apiHash a1 = a_apiHash a" "a_ip a1 = ip" "at s1 = ip"
    "tg_auth_sendCode P q call reset p d a s = tg_auth_sendCode P q call reset p d a1 s1"
    using sendCode_reaches [OF ip(1) assms(4,1,2) refl assms(3)] by blast
  then show "\<exists>a' s'. tg_auth_sendCode P q call reset p d a s = Some (Some (dc ip), a', s') \<and> a_ip a' = ip \<and> at s' = ip"
    using sendCode_ends [of P call reset at a1 phone cfg dc p s1 q d] assms(1,2,4) ip(2) by (simp add: client_def)
next
  assume "\<forall>ip. rtranclp (moves cfg dc) (a_ip a) ip \<longrightarrow> (\<exists>ip'. moves cfg dc ip ip')"
  then show "tg_auth_sendCode P q call reset p d a s = None"
    using sendCode_forever [OF _ assms] by (metis not_Some_eq)
qed

definition demo_option :: "u32 \<Rightarrow> byte list \<Rightarrow> tl_obj" where
  "demo_option i ip = TL id_dcOption [] [(''id'', FInt i), (''ip_address'', FBytes ip)]"

definition demo_config :: tl_obj where
  "demo_config = TL id_config [] [(''dc_options'', FVec [FObj (Some (demo_option 1 (lit ''10.0.0.1''))), FObj (Some (demo_option 2 (lit ''10.0.0.2'')))])]"

definition demo_move :: tl_obj where
  "demo_move = TL id_rpc_error [] [(''error_message'', FBytes (lit ''PHONE_MIGRATE_2''))]"

definition demo_sent :: tl_obj where
  "demo_sent = TL id_auth_sentCode [] []"

definition demo_dcs :: "byte list \<Rightarrow> tl_obj" where
  "demo_dcs ip = (if ip = lit ''10.0.0.2'' then demo_sent else demo_move)"

definition demo_network :: "(byte list \<Rightarrow> tl_obj) \<Rightarrow> byte list call" where
  "demo_network dc b s = Some (Some (if buf_get_ui32 b = Some 0xda9b0d0d then demo_config else dc s), s)"

definition demo_package :: package where
  "demo_package = \<lparr>pkg_name = lit ''libtg'', pkg_version = lit ''1.0''\<rparr>"

definition demo_account :: account where
  "demo_account = \<lparr>a_id = 1, a_apiId = 7, a_apiHash = lit ''abc'', a_ip = lit ''10.0.0.1'', a_port = 443, a_key = buf_zero,
     a_key_id = 0, a_seqn = 0, a_config = None\<rparr>"

lemma demo_dcs_ok: "dcs demo_package (demo_network dc) (\<lambda>a s. a_ip a) (\<lambda>s. s) apiId h phone demo_config dc"
proof -
  have "buf_get_ui32 b = Some w" if "views b (le_bytes 4 (w :: u32) @ xs)" for b w xs
    using buf_get_ok(1) [OF that] by (simp add: le_val_le_bytes)
  then show ?thesis
    by (auto simp: dcs_def demo_network_def connect_image_def sendCode_image_def demo_config_def)
qed

lemma demo_moves: "dc ip = demo_move \<Longrightarrow> moves demo_config dc ip (lit ''10.0.0.2'')"
proof -
  assume dc: "dc ip = demo_move"
  have opts: "dc_at demo_config 2 (lit ''10.0.0.2'')"
    unfolding dc_at_def
    by (rule conjI, simp add: demo_config_def,
      rule exI [of _ "[demo_option 1 (lit ''10.0.0.1'')]"], rule exI [of _ "demo_option 2 (lit ''10.0.0.2'')"])
      (simp add: demo_config_def demo_option_def fld_vec_def fld_int_def fld_bytes_def c_string_def lit_def)
  have msg: "c_string (lit ''PHONE_MIGRATE_2'') = lit ''PHONE_MIGRATE_'' @ dec 2"
    by (simp add: lit_def c_string_def dec_def dec_digits.simps)
  have "take 15 (lit ''10.0.0.2'') = lit ''10.0.0.2''"
    by (simp add: lit_def)
  then show "moves demo_config dc ip (lit ''10.0.0.2'')"
    using dc opts msg unfolding moves_def
    by (intro conjI exI [of _ "2 :: int"] exI [of _ "lit ''10.0.0.2''"]) (simp_all add: demo_move_def fld_bytes_def)
qed

lemma demo_client: "client demo_package (lit ''123'' @ [0]) (lit ''123'') demo_account"
  by (simp add: client_def demo_package_def demo_account_def short_text_def string_at_def lit_def)

text \<open>The second data center sends the code; when it does not, there is no answer.\<close>

theorem code_follows_moves_witness:
  "(\<exists>a' s'. tg_auth_sendCode demo_package no_sql (demo_network demo_dcs) (\<lambda>a s. a_ip a) (lit ''123'' @ [0]) no_db demo_account
      (lit ''10.0.0.1'') = Some (Some demo_sent, a', s') \<and> a_ip a' = lit ''10.0.0.2'') \<and>
    tg_auth_sendCode demo_package no_sql (demo_network (\<lambda>_. demo_move)) (\<lambda>a s. a_ip a) (lit ''123'' @ [0]) no_db demo_account
      (lit ''10.0.0.1'') = None"
proof -
  have "auth_tokens_from_database no_sql no_db = Some None"
    by (simp add: auth_tokens_from_database_def tg_sqlite3_for_each_def no_sql_def no_db_def sprintf_buf_def auth_tokens_query_def
      dec_int_def dec_def dec_digits.simps lit_def)
  note follow = code_follows_moves [where at = "\<lambda>s. s" and p = "lit ''123'' @ [0]" and a = demo_account and phone = "lit ''123''",
    OF demo_dcs_ok demo_client _ this]
  have start: "lit ''10.0.0.1'' = a_ip demo_account"
    by (simp add: demo_account_def)
  have "rtranclp (moves demo_config demo_dcs) (a_ip demo_account) (lit ''10.0.0.2'')"
    by (rule r_into_rtranclp, rule demo_moves) (simp add: demo_dcs_def demo_account_def lit_def)
  moreover have sent: "demo_dcs (lit ''10.0.0.2'') = demo_sent" "tl_id demo_sent = id_auth_sentCode"
    by (simp_all add: demo_dcs_def demo_sent_def)
  ultimately have "\<exists>a' s'. tg_auth_sendCode demo_package no_sql (demo_network demo_dcs) (\<lambda>a s. a_ip a) (lit ''123'' @ [0]) no_db
      demo_account (lit ''10.0.0.1'') = Some (Some (demo_dcs (lit ''10.0.0.2'')), a', s') \<and> a_ip a' = lit ''10.0.0.2'' \<and> s' = lit ''10.0.0.2''"
    by (intro follow [of "lit ''10.0.0.1''" demo_dcs, OF start, THEN conjunct1, rule_format] conjI) simp_all
  moreover have "tg_auth_sendCode demo_package no_sql (demo_network (\<lambda>_. demo_move)) (\<lambda>a s. a_ip a) (lit ''123'' @ [0]) no_db
      demo_account (lit ''10.0.0.1'') = None"
    by (rule follow [of "lit ''10.0.0.1''" "\<lambda>_. demo_move", OF start, THEN conjunct2, THEN mp])
      (intro allI impI exI, rule demo_moves, rule refl)
  ultimately show ?thesis
    unfolding sent(1) by blast
qed

end
