(* ===== verification/Spec2Isabelle.thy ===== *)
theory Spec2Isabelle
  imports TLProps QueryProps HashProps HandshakeProps Base64Props TLParserProps FilesProps GenFreeProps UpdatesProps
    RowsProps DatabaseProps MessagesProps DialogsProps AccountProps
begin

text \<open>
  Verification of libtg, a C library for the Telegram API (MTProto 2.0).

  \<^bold>\<open>The program.\<close>  A schema of declarations (tl_generator/telegram_api.tl, mtproto_api.tl) is parsed and turned
  into C functions that write, read and free objects (tl_generator); tl/ has the buffers and the
  primitive types these functions use.  tg/ is the client: a message is numbered and given a
  header (header.c, ack.c), encrypted (encrypt.c), framed (transport.c) and sent; a thread per query
  sends it and receives packets for all of them (queue.c), and an older engine does the same for
  one query at a time (send_query.c, answer.c).  Over them stand the calls of the API (auth.c, peer.c,
  files.c, messages.c, dialogs.c, channel.c), the handling of updates (updates.c), and the
  database (database.c) whose rows hold users, chats, channels and dialogs (user.c, chat.c,
  channel.c, dialogs.c).  mtx/ makes the authorization key with a server over MTProto 1.0.

  \<^bold>\<open>Conventions.\<close>  Machine integers are words of their C width, memory is byte addressed, the host is
  little endian, allocation succeeds, and an undefined C operation (a read outside a block, of
  freed memory, of a value never written, through a null pointer, a division by zero) is the value
  \<^theory_text>\<open>None\<close>; \<^theory_text>\<open>ok m P\<close> says that the computation \<^theory_text>\<open>m\<close> is defined and
  its result satisfies \<^theory_text>\<open>P\<close>.  Logs are not modelled.  What is not in the repository is an
  argument: OpenSSL's AES, RSA, powers and MD5, zlib, the factorisation, the random numbers, the
  clock, the network and the progress of its peer (the record \<^theory_text>\<open>env\<close> of Client, the record
  \<^theory_text>\<open>menv\<close> of MtxTypes), SQLite (the record \<^theory_text>\<open>sqlite\<close> of Database), the printing and
  conversion of doubles and the generated names of types (the record \<^theory_text>\<open>c_lib\<close> of Messages), the
  generated config.h (the record \<^theory_text>\<open>package\<close> of Account); threads are interleaved steps.  A
  synchronous call of the API is an argument of type \<^theory_text>\<open>call\<close>, a state and an answer.

  \<^bold>\<open>Theories.\<close>
  \<^item> Prelude: words and their little-endian images, the rules of \<^theory_text>\<open>ok\<close>.
  \<^item> Buf (tl/buf.c): buf_t with its block, data pointer, size and allocated size; every operation,
    and its refinement to byte lists (\<^theory_text>\<open>views\<close>, \<^theory_text>\<open>owns\<close>).
  \<^item> Codec (tl/serialize.c, the readers of tl/deserialize.c): the primitive TL types and the
    contract \<^theory_text>\<open>wire_field\<close> of a reader.
  \<^item> Schema, TLParser, TLParserProps (tl_generator/tl_parser.c): the declarations of a schema and their
    parser; a file that lists declarations is parsed to them.
  \<^item> GenSer, GenDes, GenFree (tl_generator/generator.c, the dispatch of tl/deserialize.c): the C functions
    the generator emits for a declaration, as statements with their meaning.  TLSpec: the wire
    image of a value; Writer, Reader: the generated functions implement it; TLProps: the
    properties.  GenFreeProps: what is read from any bytes has the shape of its declaration, and
    what is freed of it.
  \<^item> Base64, Base64Props (tl/base64.h): both directions, against RFC 4648.
  \<^item> Session, SessionSpec, SessionProps (tg/header.c, ack.c): numbering, containers, acknowledgements, padding; Encrypt,
    EncryptSpec (tg/encrypt.c, crypto/): MTProto 2.0 encryption and its inverse at a server with the same key;
    transport.c and prepare_query.c with them.
  \<^item> Lists (tg/list.h): the linked lists on a heap of cells, and their refinement to lists.
  \<^item> Client, Queue, Engine (tg/queue.c): the client's state, the handling of an answer, the thread of a query
    and the interleaving of the threads as the steps of a relation; QueueSpec, QueueFacts,
    Delivery, QueueProps: invariants of the reachable states and the way of an answer from the wire to
    its callback.  Query, QuerySpec, QueryProps: the same for the blocking engine.
  \<^item> Hash, Sha1, Sha256, with their Spec theories and HashProps: crypto/sha1.c, sha256.c, hmac.c against FIPS 180-4 and 198-1.
  \<^item> MtxBuf, MtxTypes, MtxLayers, Handshake (mtx/src): the buffers, parameters, layers and calls of the key exchange;
    HandshakeSpec, HandshakeRun, HandshakeProps: a whole exchange against a server that answers, and what an attacker learns.
  \<^item> ApiSchema: the declarations used by the client's own calls, parsed from their lines of the schema.  Peer (tg/peer.c),
    Files, Upload (tg/files.c), FilesProps: peers, downloads, uploads.
  \<^item> Str (tl/str.h), Updates, UpdatesProps (tg/updates.c): what the client does with an update.
  \<^item> Database, DatabaseProps (tg/database.c): the mutex, the connection, and every function that stores
    and reads keys, addresses, tokens, hashes and photos.  Images (tg/images.c): stripped photos and outlines.
  \<^item> Rows, RowsProps (tg/user.c, chat.c, channel.c, the database part of dialogs.c): the X-macro tables of the
    headers as lists of columns, and the expansions of a table: the conversion of an object, the
    statements, the reading of a row.  RowsProps parses the statements as SQL does, so that what is
    written is what is read.
  \<^item> Messages, MessagesProps (tg/messages.c): the conversion of messages with their media and actions, the calls for
    histories, sending and reading, and the table of messages.  Dialogs, DialogsProps (tg/dialogs.c, the calls of
    channel.c): the join of an answer's dialogs with its users, chats and messages.  Account, AccountProps (tg/tg.c, tg/auth.c):
    the client's object, the first calls of a connection, sending a code and signing in.

  \<^bold>\<open>Loops.\<close>  A loop that may not end is a \<^theory_text>\<open>partial_function\<close>, whose value is
  \<^theory_text>\<open>None\<close> when it does not (the parts of a file, a refused part, a code that is asked for at one data center after the other), or takes fuel: the reader
  of nested objects, where the nesting is enough, and the receive loops, where the number of
  pieces the network delivers is; the properties state the bound.

  \<^bold>\<open>Not modelled.\<close>  The dialog with the user in connect.c, which reads the text of the last logged error; the tables of
  the generator's headers and structures (text without behaviour of its own); the factorisation in
  C++; stb_ds.h; the audio tools; the test programs; libtg's own key exchange, which is not built.  The
  callbacks for the progress of a transfer only observe, except in the upload of big files.
\<close>

end
